(* ===== verification/Prelude.thy ===== *)
theory Prelude
  imports Main "HOL-Library.Word" "HOL-Library.Monad_Syntax"
begin

text \<open>
  Shared vocabulary of the development: the machine types of the amd64 build, bytes and
  little-endian words, the C string functions the module uses on NUL-terminated names, the
  callback loop that every iterator of the module runs, and the rule collections the
  component proofs draw on.
\<close>

unbundle bit_operations_syntax

named_theorems strbuf_simps \<open>views of a string buffer after an operation\<close>
named_theorems word_nat \<open>machine arithmetic read as arithmetic on natural numbers\<close>
named_theorems cb_simps \<open>the callback loop on concrete lists\<close>

section \<open>Machine types\<close>

type_synonym byte = "8 word"
type_synonym uptr = "64 word"
type_synonym v8_global = nat

text \<open>
  Flags handed to the allocator: \<open>UM_NOSLEEP\<close> is the empty set of flags.
\<close>

datatype umflag = UM_SLEEP | UM_GC
type_synonym memflags = "umflag set"

definition PTRSZ :: nat where
  "PTRSZ = 8"

fun le_word :: "byte list \<Rightarrow> uptr" where
  "le_word [] = 0"
| "le_word (b # bs) = ucast b + 256 * le_word bs"

fun le_words :: "nat \<Rightarrow> byte list \<Rightarrow> uptr list" where
  "le_words 0 bs = []"
| "le_words (Suc n) bs = le_word (take 8 bs) # le_words n (drop 8 bs)"

lemma length_le_words [simp]: "length (le_words n bs) = n"
  by (induction n arbitrary: bs) auto

lemma nth_le_words:
  "i < n \<Longrightarrow> le_words n bs ! i = le_word (take 8 (drop (8 * i) bs))"
proof (induction n arbitrary: i bs)
  case 0
  then show ?case by simp
next
  case (Suc n)
  show ?case
  proof (cases i)
    case 0
    then show ?thesis by simp
  next
    case (Suc j)
    with Suc.prems Suc.IH [of j "drop 8 bs"] show ?thesis
      by (simp add: add.commute)
  qed
qed

section \<open>Arithmetic on machine words as natural numbers\<close>

lemma unat_sub_le [word_nat]: "b \<le> a \<Longrightarrow> unat (a - b :: uptr) = unat a - unat b"
  by (simp add: unat_sub)

lemma unat_add_lt:
  "unat a + unat b < 2 ^ 64 \<Longrightarrow> unat (a + b :: uptr) = unat a + unat b"
  by (simp add: unat_word_ariths)

lemma unat_of_nat_lt: "n < 2 ^ 64 \<Longrightarrow> unat (of_nat n :: uptr) = n"
  by (simp add: unat_of_nat take_bit_nat_eq_self_iff)

lemma unat32_of_nat: "n < 2 ^ 32 \<Longrightarrow> unat (of_nat n :: 32 word) = n"
  by (simp add: unat_of_nat take_bit_nat_eq_self_iff)

lemma uptr_less_unat: "(a :: uptr) < b \<longleftrightarrow> unat a < unat b"
  by (rule word_less_nat_alt)

lemma uptr_le_unat: "(a :: uptr) \<le> b \<longleftrightarrow> unat a \<le> unat b"
  by (rule word_le_nat_alt)

lemma unat_lt_64: "unat (a :: uptr) < 2 ^ 64"
  using unsigned_less [of a] by simp

lemmas uptr_order = uptr_less_unat uptr_le_unat

section \<open>C strings\<close>

text \<open>
  A NUL-terminated string is the list of its characters before the terminator.
  \<open>strcmp\<close> compares characters as unsigned bytes; the C standard fixes only the sign of
  its result, which is all the module looks at.
\<close>

fun strcmp :: "string \<Rightarrow> string \<Rightarrow> int" where
  "strcmp [] [] = 0"
| "strcmp [] (y # ys) = -1"
| "strcmp (x # xs) [] = 1"
| "strcmp (x # xs) (y # ys) =
     (if x = y then strcmp xs ys
      else if (of_char x :: nat) < of_char y then -1 else 1)"

lemma strcmp_refl [simp]: "strcmp s s = 0"
  by (induction s) auto

lemma strcmp_zero_iff: "strcmp s t = 0 \<longleftrightarrow> s = t"
  by (induction s t rule: strcmp.induct) auto

lemma strcmp_swap: "strcmp t s = - strcmp s t"
  by (induction s t rule: strcmp.induct) (auto dest: linorder_neqE_nat not_less_iff_gr_or_eq [THEN iffD1])

lemma strcmp_range: "strcmp s t \<in> {-1, 0, 1}"
  by (induction s t rule: strcmp.induct) auto

lemma strcmp_trans: "strcmp s t < 0 \<Longrightarrow> strcmp t u < 0 \<Longrightarrow> strcmp s u < 0"
proof (induction s t arbitrary: u rule: strcmp.induct)
  case (2 y ys)
  then show ?case by (cases u) auto
next
  case (4 x xs y ys)
  then show ?case
    by (cases u) (auto split: if_splits)
qed auto

text \<open>
  \<open>strncmp (s, prefix, sizeof (prefix) - 1) == 0\<close> with a literal prefix.
\<close>

fun has_prefix :: "string \<Rightarrow> string \<Rightarrow> bool" where
  "has_prefix [] s = True"
| "has_prefix (p # ps) [] = False"
| "has_prefix (p # ps) (c # s) = (p = c \<and> has_prefix ps s)"

lemma has_prefix_append [simp]: "has_prefix p (p @ s)"
  by (induction p) auto

lemma has_prefix_iff: "has_prefix p s \<longleftrightarrow> (\<exists>t. s = p @ t)"
  by (induction p s rule: has_prefix.induct) auto

text \<open>\<open>strstr\<close>: the offset of the first occurrence.\<close>

fun strstr :: "string \<Rightarrow> string \<Rightarrow> nat option" where
  "strstr [] pat = (if pat = [] then Some 0 else None)"
| "strstr (c # s) pat =
     (if has_prefix pat (c # s) then Some 0 else map_option Suc (strstr s pat))"

lemma strstr_Some: "strstr s pat = Some i \<Longrightarrow> has_prefix pat (drop i s) \<and> i \<le> length s"
  by (induction s pat arbitrary: i rule: strstr.induct) (auto split: if_splits)

text \<open>\<open>strlcpy\<close> into an array of \<open>n\<close> bytes keeps at most \<open>n - 1\<close> characters.\<close>

definition strlcpy :: "nat \<Rightarrow> string \<Rightarrow> string" where
  "strlcpy n s = take (n - 1) s"

text \<open>The results of a debugger command, as MDB numbers them.\<close>

definition DCMD_OK :: int where "DCMD_OK = 0"
definition DCMD_ERR :: int where "DCMD_ERR = 1"
definition DCMD_USAGE :: int where "DCMD_USAGE = 2"

text \<open>The newline of the module's messages.\<close>

definition NL :: string where
  "NL = [CHR 0x0A]"

section \<open>Decimal and hexadecimal conversion\<close>

text \<open>The digits of the \<open>printf\<close> conversions the module relies on.\<close>

definition digit_char :: "nat \<Rightarrow> char" where
  "digit_char d = char_of (if d < 10 then 48 + d else 87 + d)"

fun digits_of :: "nat \<Rightarrow> nat \<Rightarrow> string" where
  "digits_of b n =
     (if n < b \<or> b \<le> 1 then [digit_char n]
      else digits_of b (n div b) @ [digit_char (n mod b)])"

declare digits_of.simps [simp del]

definition show_int :: "int \<Rightarrow> string" where
  "show_int i = (if i < 0 then CHR ''-'' # digits_of 10 (nat (- i)) else digits_of 10 (nat i))"

text \<open>
  \<open>%d\<close> reads an \<open>int\<close>: of a 64-bit argument it sees the low half.
\<close>

definition fmt_d :: "uptr \<Rightarrow> string" where
  "fmt_d w = show_int (sint (ucast w :: 32 word))"

lemma digits_of_not_Nil [simp]: "digits_of b n \<noteq> []"
  by (subst digits_of.simps) simp

text \<open>\<^verbatim>\<open>%8s\<close> and \<^verbatim>\<open>%-8s\<close>.\<close>

definition lpad :: "nat \<Rightarrow> string \<Rightarrow> string" where
  "lpad n s = replicate (n - length s) CHR '' '' @ s"

definition rpad :: "nat \<Rightarrow> string \<Rightarrow> string" where
  "rpad n s = s @ replicate (n - length s) CHR '' ''"

section \<open>The callback loop\<close>

text \<open>
  The iterators of the module hand one element after the other to a callback, and stop at
  the first callback that returns something other than 0:
  \<^verbatim>\<open>
    rv = 0;
    for (i = ...; i < n; i++) { rv = func(..., x[i], arg); if (rv != 0) break; }
    return (rv);
  \<close>
  The callback's own state (\<open>arg\<close>) is passed along.
\<close>

fun cb_iter :: "('x \<Rightarrow> 's \<Rightarrow> int \<times> 's) \<Rightarrow> 'x list \<Rightarrow> 's \<Rightarrow> int \<times> 's" where
  "cb_iter func [] s = (0, s)"
| "cb_iter func (x # xs) s =
     (case func x s of (rv, s') \<Rightarrow> if rv \<noteq> 0 then (rv, s') else cb_iter func xs s')"

text \<open>
  A callback that records its arguments and never stops: it turns statements about an
  iterator into statements about the list of elements visited.
\<close>

definition record_cb :: "'x \<Rightarrow> 'x list \<Rightarrow> int \<times> 'x list" where
  "record_cb x s = (0, s @ [x])"

lemma cb_iter_record [cb_simps]: "cb_iter record_cb xs s = (0, s @ xs)"
  by (induction xs arbitrary: s) (auto simp: record_cb_def)

lemma cb_iter_append:
  "cb_iter func (xs @ ys) s =
     (case cb_iter func xs s of (rv, s') \<Rightarrow> if rv \<noteq> 0 then (rv, s') else cb_iter func ys s')"
  by (induction xs arbitrary: s) (auto split: prod.splits)

lemma cb_iter_all_zero:
  "(\<And>x s. fst (func x s) = 0) \<Longrightarrow>
     cb_iter func xs s = (0, fold (\<lambda>x s. snd (func x s)) xs s)"
proof (induction xs arbitrary: s)
  case (Cons x xs)
  obtain rv s1 where f: "func x s = (rv, s1)" by fastforce
  with Cons.prems [of x s] have "rv = 0" by simp
  with f Cons show ?case by simp
qed simp

text \<open>
  The contract of an iterator: the state after it is the callback folded over a prefix of
  the elements, it stops early only at a callback that asked for it, and the value it
  returns is that callback's.
\<close>

lemma cb_iter_stop:
  assumes "cb_iter func xs s = (rv, s')" and "rv \<noteq> 0"
  obtains ys x zs t where "xs = ys @ x # zs" and "cb_iter func ys s = (0, t)"
    and "func x t = (rv, s')"
  using assms
proof (induction xs arbitrary: s thesis)
  case Nil
  then show ?case by simp
next
  case (Cons x xs)
  obtain rv1 s1 where f: "func x s = (rv1, s1)" by fastforce
  show ?case
  proof (cases "rv1 = 0")
    case True
    with Cons.prems(2,3) f have "cb_iter func xs s1 = (rv, s')" by simp
    then obtain ys y zs t where "xs = ys @ y # zs" "cb_iter func ys s1 = (0, t)" "func y t = (rv, s')"
      using Cons.IH Cons.prems(3) by blast
    with True f show ?thesis by (intro Cons.prems(1) [of "x # ys" y zs t]) auto
  next
    case False
    with Cons.prems f show ?thesis by (intro Cons.prems(1) [of "[]" x xs s]) auto
  qed
qed

lemma cb_iter_cong [fundef_cong]:
  "xs = ys \<Longrightarrow> s = t \<Longrightarrow> (\<And>x s. x \<in> set ys \<Longrightarrow> f x s = g x s) \<Longrightarrow> cb_iter f xs s = cb_iter g ys t"
proof (induction xs arbitrary: s t ys)
  case (Cons x xs)
  then show ?case by (auto split: prod.splits)
qed simp

section \<open>Signed arithmetic\<close>

text \<open>The result of an operation on \<^verbatim>\<open>int\<close>: \<open>None\<close> where it overflows.\<close>

definition c_int :: "int \<Rightarrow> int option" where
  "c_int n = (if - (2 ^ 31) \<le> n \<and> n < 2 ^ 31 then Some n else None)"

lemma c_int_fits: "- (2 ^ 31) \<le> n \<Longrightarrow> n < 2 ^ 31 \<Longrightarrow> c_int n = Some n"
  by (simp add: c_int_def)

section \<open>Lists\<close>

lemma take_append_drop_take: "i + n \<le> length xs \<Longrightarrow> take i xs @ take n (drop i xs) = take (i + n) xs"
  by (simp add: take_add)

lemma take_min_length [simp]: "take (min (length xs) n) xs = take n xs"
  by (simp add: min_def)

lemma takeWhile_append_stop: "(\<forall>x\<in>set xs. P x) \<Longrightarrow> \<not> P y \<Longrightarrow> takeWhile P (xs @ y # ys) = xs"
  by (induction xs) auto

lemma list_update_take_drop:
  "i < length xs \<Longrightarrow> xs[i := x] = take i xs @ x # drop (Suc i) xs"
  by (simp add: upd_conv_take_nth_drop)

end
