(* ===== verification/V8Dbg.thy ===== *)
theory V8Dbg
  imports Prelude
begin

text \<open>
  The state every operation of the module reads: the module's global variables
  (\<^verbatim>\<open>src/src/mdb_v8.c\<close>), its tables of classes and types, the version of the target's
  V8, and the services of the surrounding debugger, which are not code of this repository
  and stay parameters: \<open>mem_vread\<close> is \<^verbatim>\<open>mdb_vread\<close> (a read of the target's memory,
  \<open>None\<close> for its error return \<open>-1\<close>), \<open>zalloc_ok\<close> says whether
  \<^verbatim>\<open>mdb_zalloc\<close> with a size and flags returns a buffer, \<open>fmt_p\<close>, \<open>fmt_e\<close>
  and \<open>fmt_Y\<close> render \<^verbatim>\<open>%p\<close>, the \<^verbatim>\<open>%e\<close> of a double and the
  \<^verbatim>\<open>%Y\<close> of a time, \<open>mem_readstr\<close> is \<^verbatim>\<open>mdb_readstr\<close> with the size of the
  caller's buffer. Then the macros of
  \<^verbatim>\<open>src/src/v8dbg.h\<close> that classify and decode V8 values.
\<close>

section \<open>Classes, fields and enumerations\<close>

text \<open>
  The linked lists of the code are lists here. A class is identified by the address
  \<open>v8c_addr\<close> it was allocated at; \<open>v8c_parent\<close> is such an address or \<open>NULL\<close>.
\<close>

record v8_field =
  v8f_name :: string
  v8f_offset :: uptr
  v8f_isbyte :: bool
  v8f_isstr :: bool

record v8_class =
  v8c_addr :: nat
  v8c_name :: string
  v8c_parent :: "nat option"
  v8c_fields :: "v8_field list"
  v8c_start :: uptr
  v8c_end :: uptr

record v8_enum =
  v8e_name :: string
  v8e_value :: "32 word"

record v8dbg =
  mem_vread :: "uptr \<Rightarrow> nat \<Rightarrow> byte list option"
  zalloc_ok :: "nat \<Rightarrow> memflags \<Rightarrow> bool"
  fmt_p :: "uptr \<Rightarrow> string"
  fmt_e :: "uptr \<Rightarrow> string"
  fmt_Y :: "int \<Rightarrow> string"
  mem_readstr :: "uptr \<Rightarrow> nat \<Rightarrow> string option"
  gv :: "v8_global \<Rightarrow> uptr"
  v8_classes :: "v8_class list"
  v8_types :: "v8_enum list"
  v8_frametypes :: "v8_enum list"
  v8_major :: uptr
  v8_minor :: uptr
  v8_build :: uptr
  v8_patch :: uptr

section \<open>The global variables\<close>

text \<open>
  \<^verbatim>\<open>v8_constants[]\<close> and \<^verbatim>\<open>v8_offsets[]\<close> hold pointers to the globals they
  configure. A global is named by an address of its own, the line of its declaration in
  \<^verbatim>\<open>src/src/mdb_v8.c\<close>; \<open>gv D\<close> maps it to its value, 64 bits wide as \<open>intptr_t\<close>
  and \<open>ssize_t\<close> are.
\<close>

abbreviation (input) V8_OFF_FP_CONTEXT :: v8_global where "V8_OFF_FP_CONTEXT \<equiv> 95"
abbreviation (input) V8_OFF_FP_MARKER :: v8_global where "V8_OFF_FP_MARKER \<equiv> 96"
abbreviation (input) V8_OFF_FP_FUNCTION :: v8_global where "V8_OFF_FP_FUNCTION \<equiv> 97"
abbreviation (input) V8_OFF_FP_ARGS :: v8_global where "V8_OFF_FP_ARGS \<equiv> 98"
abbreviation (input) V8_OFF_FP_CONTEXT_OR_FRAME_TYPE :: v8_global where "V8_OFF_FP_CONTEXT_OR_FRAME_TYPE \<equiv> 99"
abbreviation (input) V8_FirstNonstringType :: v8_global where "V8_FirstNonstringType \<equiv> 107"
abbreviation (input) V8_IsNotStringMask :: v8_global where "V8_IsNotStringMask \<equiv> 108"
abbreviation (input) V8_StringTag :: v8_global where "V8_StringTag \<equiv> 109"
abbreviation (input) V8_NotStringTag :: v8_global where "V8_NotStringTag \<equiv> 110"
abbreviation (input) V8_StringEncodingMask :: v8_global where "V8_StringEncodingMask \<equiv> 111"
abbreviation (input) V8_TwoByteStringTag :: v8_global where "V8_TwoByteStringTag \<equiv> 112"
abbreviation (input) V8_AsciiStringTag :: v8_global where "V8_AsciiStringTag \<equiv> 113"
abbreviation (input) V8_OneByteStringTag :: v8_global where "V8_OneByteStringTag \<equiv> 114"
abbreviation (input) V8_StringRepresentationMask :: v8_global where "V8_StringRepresentationMask \<equiv> 115"
abbreviation (input) V8_SeqStringTag :: v8_global where "V8_SeqStringTag \<equiv> 116"
abbreviation (input) V8_ConsStringTag :: v8_global where "V8_ConsStringTag \<equiv> 117"
abbreviation (input) V8_SlicedStringTag :: v8_global where "V8_SlicedStringTag \<equiv> 118"
abbreviation (input) V8_ExternalStringTag :: v8_global where "V8_ExternalStringTag \<equiv> 119"
abbreviation (input) V8_FailureTag :: v8_global where "V8_FailureTag \<equiv> 120"
abbreviation (input) V8_FailureTagMask :: v8_global where "V8_FailureTagMask \<equiv> 121"
abbreviation (input) V8_HeapObjectTag :: v8_global where "V8_HeapObjectTag \<equiv> 122"
abbreviation (input) V8_HeapObjectTagMask :: v8_global where "V8_HeapObjectTagMask \<equiv> 123"
abbreviation (input) V8_SmiTag :: v8_global where "V8_SmiTag \<equiv> 124"
abbreviation (input) V8_SmiTagMask :: v8_global where "V8_SmiTagMask \<equiv> 125"
abbreviation (input) V8_SmiValueShift :: v8_global where "V8_SmiValueShift \<equiv> 126"
abbreviation (input) V8_SmiShiftSize :: v8_global where "V8_SmiShiftSize \<equiv> 127"
abbreviation (input) V8_PointerSizeLog2 :: v8_global where "V8_PointerSizeLog2 \<equiv> 128"
abbreviation (input) V8_CompilerHints_BoundFunction :: v8_global where "V8_CompilerHints_BoundFunction \<equiv> 129"
abbreviation (input) V8_ISSHARED_SHIFT :: v8_global where "V8_ISSHARED_SHIFT \<equiv> 131"
abbreviation (input) V8_DICT_SHIFT :: v8_global where "V8_DICT_SHIFT \<equiv> 132"
abbreviation (input) V8_DICT_PREFIX_SIZE :: v8_global where "V8_DICT_PREFIX_SIZE \<equiv> 133"
abbreviation (input) V8_DICT_ENTRY_SIZE :: v8_global where "V8_DICT_ENTRY_SIZE \<equiv> 134"
abbreviation (input) V8_DICT_START_INDEX :: v8_global where "V8_DICT_START_INDEX \<equiv> 135"
abbreviation (input) V8_PROPINDEX_MASK :: v8_global where "V8_PROPINDEX_MASK \<equiv> 136"
abbreviation (input) V8_PROPINDEX_SHIFT :: v8_global where "V8_PROPINDEX_SHIFT \<equiv> 137"
abbreviation (input) V8_PROP_IDX_CONTENT :: v8_global where "V8_PROP_IDX_CONTENT \<equiv> 138"
abbreviation (input) V8_PROP_IDX_FIRST :: v8_global where "V8_PROP_IDX_FIRST \<equiv> 139"
abbreviation (input) V8_PROP_TYPE_FIELD :: v8_global where "V8_PROP_TYPE_FIELD \<equiv> 140"
abbreviation (input) V8_PROP_TYPE_MASK :: v8_global where "V8_PROP_TYPE_MASK \<equiv> 141"
abbreviation (input) V8_PROP_DESC_KEY :: v8_global where "V8_PROP_DESC_KEY \<equiv> 142"
abbreviation (input) V8_PROP_DESC_DETAILS :: v8_global where "V8_PROP_DESC_DETAILS \<equiv> 143"
abbreviation (input) V8_PROP_DESC_VALUE :: v8_global where "V8_PROP_DESC_VALUE \<equiv> 144"
abbreviation (input) V8_PROP_DESC_SIZE :: v8_global where "V8_PROP_DESC_SIZE \<equiv> 145"
abbreviation (input) V8_TRANSITIONS_IDX_DESC :: v8_global where "V8_TRANSITIONS_IDX_DESC \<equiv> 146"
abbreviation (input) V8_TYPE_ACCESSORINFO :: v8_global where "V8_TYPE_ACCESSORINFO \<equiv> 148"
abbreviation (input) V8_TYPE_ACCESSORPAIR :: v8_global where "V8_TYPE_ACCESSORPAIR \<equiv> 149"
abbreviation (input) V8_TYPE_EXECUTABLEACCESSORINFO :: v8_global where "V8_TYPE_EXECUTABLEACCESSORINFO \<equiv> 150"
abbreviation (input) V8_TYPE_JSOBJECT :: v8_global where "V8_TYPE_JSOBJECT \<equiv> 151"
abbreviation (input) V8_TYPE_JSARRAY :: v8_global where "V8_TYPE_JSARRAY \<equiv> 152"
abbreviation (input) V8_TYPE_JSFUNCTION :: v8_global where "V8_TYPE_JSFUNCTION \<equiv> 153"
abbreviation (input) V8_TYPE_JSBOUNDFUNCTION :: v8_global where "V8_TYPE_JSBOUNDFUNCTION \<equiv> 154"
abbreviation (input) V8_TYPE_JSDATE :: v8_global where "V8_TYPE_JSDATE \<equiv> 155"
abbreviation (input) V8_TYPE_JSREGEXP :: v8_global where "V8_TYPE_JSREGEXP \<equiv> 156"
abbreviation (input) V8_TYPE_HEAPNUMBER :: v8_global where "V8_TYPE_HEAPNUMBER \<equiv> 157"
abbreviation (input) V8_TYPE_MUTABLEHEAPNUMBER :: v8_global where "V8_TYPE_MUTABLEHEAPNUMBER \<equiv> 158"
abbreviation (input) V8_TYPE_ODDBALL :: v8_global where "V8_TYPE_ODDBALL \<equiv> 159"
abbreviation (input) V8_TYPE_FIXEDARRAY :: v8_global where "V8_TYPE_FIXEDARRAY \<equiv> 160"
abbreviation (input) V8_TYPE_MAP :: v8_global where "V8_TYPE_MAP \<equiv> 161"
abbreviation (input) V8_TYPE_JSTYPEDARRAY :: v8_global where "V8_TYPE_JSTYPEDARRAY \<equiv> 162"
abbreviation (input) V8_ELEMENTS_KIND_SHIFT :: v8_global where "V8_ELEMENTS_KIND_SHIFT \<equiv> 164"
abbreviation (input) V8_ELEMENTS_KIND_BITCOUNT :: v8_global where "V8_ELEMENTS_KIND_BITCOUNT \<equiv> 165"
abbreviation (input) V8_ELEMENTS_FAST_ELEMENTS :: v8_global where "V8_ELEMENTS_FAST_ELEMENTS \<equiv> 166"
abbreviation (input) V8_ELEMENTS_FAST_HOLEY_ELEMENTS :: v8_global where "V8_ELEMENTS_FAST_HOLEY_ELEMENTS \<equiv> 167"
abbreviation (input) V8_ELEMENTS_DICTIONARY_ELEMENTS :: v8_global where "V8_ELEMENTS_DICTIONARY_ELEMENTS \<equiv> 168"
abbreviation (input) V8_CONTEXT_NCOMMON :: v8_global where "V8_CONTEXT_NCOMMON \<equiv> 170"
abbreviation (input) V8_CONTEXT_IDX_CLOSURE :: v8_global where "V8_CONTEXT_IDX_CLOSURE \<equiv> 171"
abbreviation (input) V8_CONTEXT_IDX_PREV :: v8_global where "V8_CONTEXT_IDX_PREV \<equiv> 172"
abbreviation (input) V8_CONTEXT_IDX_EXT :: v8_global where "V8_CONTEXT_IDX_EXT \<equiv> 173"
abbreviation (input) V8_CONTEXT_IDX_GLOBAL :: v8_global where "V8_CONTEXT_IDX_GLOBAL \<equiv> 174"
abbreviation (input) V8_CONTEXT_IDX_NATIVE :: v8_global where "V8_CONTEXT_IDX_NATIVE \<equiv> 175"
abbreviation (input) V8_SCOPEINFO_IDX_NPARAMS :: v8_global where "V8_SCOPEINFO_IDX_NPARAMS \<equiv> 177"
abbreviation (input) V8_SCOPEINFO_IDX_NSTACKLOCALS :: v8_global where "V8_SCOPEINFO_IDX_NSTACKLOCALS \<equiv> 178"
abbreviation (input) V8_SCOPEINFO_OFFSET_STACK_LOCALS :: v8_global where "V8_SCOPEINFO_OFFSET_STACK_LOCALS \<equiv> 179"
abbreviation (input) V8_SCOPEINFO_IDX_NCONTEXTLOCALS :: v8_global where "V8_SCOPEINFO_IDX_NCONTEXTLOCALS \<equiv> 180"
abbreviation (input) V8_SCOPEINFO_IDX_FIRST_VARS :: v8_global where "V8_SCOPEINFO_IDX_FIRST_VARS \<equiv> 181"
abbreviation (input) V8_OFF_CODE_INSTRUCTION_SIZE :: v8_global where "V8_OFF_CODE_INSTRUCTION_SIZE \<equiv> 187"
abbreviation (input) V8_OFF_CODE_INSTRUCTION_START :: v8_global where "V8_OFF_CODE_INSTRUCTION_START \<equiv> 188"
abbreviation (input) V8_OFF_CONSSTRING_FIRST :: v8_global where "V8_OFF_CONSSTRING_FIRST \<equiv> 189"
abbreviation (input) V8_OFF_CONSSTRING_SECOND :: v8_global where "V8_OFF_CONSSTRING_SECOND \<equiv> 190"
abbreviation (input) V8_OFF_EXTERNALSTRING_RESOURCE :: v8_global where "V8_OFF_EXTERNALSTRING_RESOURCE \<equiv> 191"
abbreviation (input) V8_OFF_FIXEDARRAY_DATA :: v8_global where "V8_OFF_FIXEDARRAY_DATA \<equiv> 192"
abbreviation (input) V8_OFF_FIXEDARRAY_LENGTH :: v8_global where "V8_OFF_FIXEDARRAY_LENGTH \<equiv> 193"
abbreviation (input) V8_OFF_HEAPNUMBER_VALUE :: v8_global where "V8_OFF_HEAPNUMBER_VALUE \<equiv> 194"
abbreviation (input) V8_OFF_HEAPOBJECT_MAP :: v8_global where "V8_OFF_HEAPOBJECT_MAP \<equiv> 195"
abbreviation (input) V8_OFF_JSARRAY_LENGTH :: v8_global where "V8_OFF_JSARRAY_LENGTH \<equiv> 196"
abbreviation (input) V8_OFF_JSDATE_VALUE :: v8_global where "V8_OFF_JSDATE_VALUE \<equiv> 197"
abbreviation (input) V8_OFF_JSREGEXP_DATA :: v8_global where "V8_OFF_JSREGEXP_DATA \<equiv> 198"
abbreviation (input) V8_OFF_JSBOUNDFUNCTION_BOUND_ARGUMENTS :: v8_global where "V8_OFF_JSBOUNDFUNCTION_BOUND_ARGUMENTS \<equiv> 199"
abbreviation (input) V8_OFF_JSBOUNDFUNCTION_BOUND_TARGET_FUNCTION :: v8_global where "V8_OFF_JSBOUNDFUNCTION_BOUND_TARGET_FUNCTION \<equiv> 200"
abbreviation (input) V8_OFF_JSBOUNDFUNCTION_BOUND_THIS :: v8_global where "V8_OFF_JSBOUNDFUNCTION_BOUND_THIS \<equiv> 201"
abbreviation (input) V8_OFF_JSFUNCTION_CONTEXT :: v8_global where "V8_OFF_JSFUNCTION_CONTEXT \<equiv> 202"
abbreviation (input) V8_OFF_JSFUNCTION_LITERALS_OR_BINDINGS :: v8_global where "V8_OFF_JSFUNCTION_LITERALS_OR_BINDINGS \<equiv> 203"
abbreviation (input) V8_OFF_JSFUNCTION_SHARED :: v8_global where "V8_OFF_JSFUNCTION_SHARED \<equiv> 204"
abbreviation (input) V8_OFF_JSOBJECT_ELEMENTS :: v8_global where "V8_OFF_JSOBJECT_ELEMENTS \<equiv> 205"
abbreviation (input) V8_OFF_JSOBJECT_PROPERTIES :: v8_global where "V8_OFF_JSOBJECT_PROPERTIES \<equiv> 206"
abbreviation (input) V8_OFF_JSRECEIVER_PROPERTIES :: v8_global where "V8_OFF_JSRECEIVER_PROPERTIES \<equiv> 207"
abbreviation (input) V8_OFF_MAP_CONSTRUCTOR :: v8_global where "V8_OFF_MAP_CONSTRUCTOR \<equiv> 208"
abbreviation (input) V8_OFF_MAP_CONSTRUCTOR_OR_BACKPOINTER :: v8_global where "V8_OFF_MAP_CONSTRUCTOR_OR_BACKPOINTER \<equiv> 209"
abbreviation (input) V8_OFF_MAP_INOBJECT_PROPERTIES :: v8_global where "V8_OFF_MAP_INOBJECT_PROPERTIES \<equiv> 210"
abbreviation (input) V8_OFF_MAP_INOBJECT_PROPERTIES_OR_CTOR_FUN_INDEX :: v8_global where "V8_OFF_MAP_INOBJECT_PROPERTIES_OR_CTOR_FUN_INDEX \<equiv> 211"
abbreviation (input) V8_OFF_MAP_INSTANCE_ATTRIBUTES :: v8_global where "V8_OFF_MAP_INSTANCE_ATTRIBUTES \<equiv> 212"
abbreviation (input) V8_OFF_MAP_INSTANCE_DESCRIPTORS :: v8_global where "V8_OFF_MAP_INSTANCE_DESCRIPTORS \<equiv> 213"
abbreviation (input) V8_OFF_MAP_INSTANCE_SIZE :: v8_global where "V8_OFF_MAP_INSTANCE_SIZE \<equiv> 214"
abbreviation (input) V8_OFF_MAP_LAYOUT_DESCRIPTOR :: v8_global where "V8_OFF_MAP_LAYOUT_DESCRIPTOR \<equiv> 215"
abbreviation (input) V8_OFF_MAP_BIT_FIELD :: v8_global where "V8_OFF_MAP_BIT_FIELD \<equiv> 216"
abbreviation (input) V8_OFF_MAP_BIT_FIELD2 :: v8_global where "V8_OFF_MAP_BIT_FIELD2 \<equiv> 217"
abbreviation (input) V8_OFF_MAP_BIT_FIELD3 :: v8_global where "V8_OFF_MAP_BIT_FIELD3 \<equiv> 218"
abbreviation (input) V8_OFF_MAP_TRANSITIONS :: v8_global where "V8_OFF_MAP_TRANSITIONS \<equiv> 219"
abbreviation (input) V8_OFF_ODDBALL_TO_STRING :: v8_global where "V8_OFF_ODDBALL_TO_STRING \<equiv> 220"
abbreviation (input) V8_OFF_SCRIPT_LINE_ENDS :: v8_global where "V8_OFF_SCRIPT_LINE_ENDS \<equiv> 221"
abbreviation (input) V8_OFF_SCRIPT_NAME :: v8_global where "V8_OFF_SCRIPT_NAME \<equiv> 222"
abbreviation (input) V8_OFF_SCRIPT_SOURCE :: v8_global where "V8_OFF_SCRIPT_SOURCE \<equiv> 223"
abbreviation (input) V8_OFF_SEQASCIISTR_CHARS :: v8_global where "V8_OFF_SEQASCIISTR_CHARS \<equiv> 224"
abbreviation (input) V8_OFF_SEQONEBYTESTR_CHARS :: v8_global where "V8_OFF_SEQONEBYTESTR_CHARS \<equiv> 225"
abbreviation (input) V8_OFF_SEQTWOBYTESTR_CHARS :: v8_global where "V8_OFF_SEQTWOBYTESTR_CHARS \<equiv> 226"
abbreviation (input) V8_OFF_SHAREDFUNCTIONINFO_CODE :: v8_global where "V8_OFF_SHAREDFUNCTIONINFO_CODE \<equiv> 227"
abbreviation (input) V8_OFF_SHAREDFUNCTIONINFO_COMPILER_HINTS :: v8_global where "V8_OFF_SHAREDFUNCTIONINFO_COMPILER_HINTS \<equiv> 228"
abbreviation (input) V8_OFF_SHAREDFUNCTIONINFO_SCOPE_INFO :: v8_global where "V8_OFF_SHAREDFUNCTIONINFO_SCOPE_INFO \<equiv> 229"
abbreviation (input) V8_OFF_SHAREDFUNCTIONINFO_END_POSITION :: v8_global where "V8_OFF_SHAREDFUNCTIONINFO_END_POSITION \<equiv> 230"
abbreviation (input) V8_OFF_SHAREDFUNCTIONINFO_FUNCTION_TOKEN_POSITION :: v8_global where "V8_OFF_SHAREDFUNCTIONINFO_FUNCTION_TOKEN_POSITION \<equiv> 231"
abbreviation (input) V8_OFF_SHAREDFUNCTIONINFO_INFERRED_NAME :: v8_global where "V8_OFF_SHAREDFUNCTIONINFO_INFERRED_NAME \<equiv> 232"
abbreviation (input) V8_OFF_SHAREDFUNCTIONINFO_IDENTIFIER :: v8_global where "V8_OFF_SHAREDFUNCTIONINFO_IDENTIFIER \<equiv> 233"
abbreviation (input) V8_OFF_SHAREDFUNCTIONINFO_LENGTH :: v8_global where "V8_OFF_SHAREDFUNCTIONINFO_LENGTH \<equiv> 234"
abbreviation (input) V8_OFF_SHAREDFUNCTIONINFO_SCRIPT :: v8_global where "V8_OFF_SHAREDFUNCTIONINFO_SCRIPT \<equiv> 235"
abbreviation (input) V8_OFF_SHAREDFUNCTIONINFO_NAME :: v8_global where "V8_OFF_SHAREDFUNCTIONINFO_NAME \<equiv> 236"
abbreviation (input) V8_OFF_SLICEDSTRING_PARENT :: v8_global where "V8_OFF_SLICEDSTRING_PARENT \<equiv> 237"
abbreviation (input) V8_OFF_SLICEDSTRING_OFFSET :: v8_global where "V8_OFF_SLICEDSTRING_OFFSET \<equiv> 238"
abbreviation (input) V8_OFF_STRING_LENGTH :: v8_global where "V8_OFF_STRING_LENGTH \<equiv> 239"
abbreviation (input) V8_OFF_JSTYPEDARRAY_LENGTH :: v8_global where "V8_OFF_JSTYPEDARRAY_LENGTH \<equiv> 240"
abbreviation (input) V8_OFF_JSARRAYBUFFER_BACKINGSTORE :: v8_global where "V8_OFF_JSARRAYBUFFER_BACKINGSTORE \<equiv> 241"
abbreviation (input) V8_OFF_JSARRAYBUFFERVIEW_BUFFER :: v8_global where "V8_OFF_JSARRAYBUFFERVIEW_BUFFER \<equiv> 242"
abbreviation (input) V8_OFF_JSARRAYBUFFERVIEW_CONTENT_OFFSET :: v8_global where "V8_OFF_JSARRAYBUFFERVIEW_CONTENT_OFFSET \<equiv> 243"

section \<open>Tags\<close>

text \<open>The offset of a field from a tagged pointer: the tag bit is subtracted.\<close>

definition V8_OFF_HEAP :: "v8dbg \<Rightarrow> uptr \<Rightarrow> uptr" where
  "V8_OFF_HEAP D x = x - gv D V8_HeapObjectTag"

definition V8_IS_SMI :: "v8dbg \<Rightarrow> uptr \<Rightarrow> bool" where
  "V8_IS_SMI D ptr \<longleftrightarrow> ptr AND gv D V8_SmiTagMask = gv D V8_SmiTag"

definition V8_IS_FAILURE :: "v8dbg \<Rightarrow> uptr \<Rightarrow> bool" where
  "V8_IS_FAILURE D ptr \<longleftrightarrow>
     gv D V8_FailureTagMask \<noteq> -1 \<and> gv D V8_FailureTagMask \<noteq> -1 \<and>
     ptr AND gv D V8_FailureTagMask = gv D V8_FailureTag"

definition V8_IS_HEAPOBJECT :: "v8dbg \<Rightarrow> uptr \<Rightarrow> bool" where
  "V8_IS_HEAPOBJECT D ptr \<longleftrightarrow> ptr AND gv D V8_HeapObjectTagMask = gv D V8_HeapObjectTag"

text \<open>
  Of an operand of type \<open>uintptr_t\<close> the right shift is the logical one. One operand is an
  \<open>intptr_t\<close>, the value index of a property descriptor, and its shift keeps the sign.
\<close>

definition V8_SMI_VALUE :: "v8dbg \<Rightarrow> uptr \<Rightarrow> uptr" where
  "V8_SMI_VALUE D smi = drop_bit (unat (gv D V8_SmiValueShift + gv D V8_SmiShiftSize)) smi"

definition V8_SMI_VALUE_INTPTR :: "v8dbg \<Rightarrow> uptr \<Rightarrow> uptr" where
  "V8_SMI_VALUE_INTPTR D smi = signed_drop_bit (unat (gv D V8_SmiValueShift + gv D V8_SmiShiftSize)) smi"

definition V8_VALUE_SMI :: "v8dbg \<Rightarrow> uptr \<Rightarrow> uptr" where
  "V8_VALUE_SMI D value = push_bit (unat (gv D V8_SmiValueShift + gv D V8_SmiShiftSize)) value"

section \<open>Compiler hints\<close>

definition V8_HINT_ISSET :: "uptr \<Rightarrow> uptr \<Rightarrow> bool" where
  "V8_HINT_ISSET hints whichbit \<longleftrightarrow>
     hints AND scast (push_bit (unat whichbit) (1 :: 32 word)) \<noteq> 0"

definition V8_HINT_BOUND :: "v8dbg \<Rightarrow> uptr \<Rightarrow> bool" where
  "V8_HINT_BOUND D hints \<longleftrightarrow> V8_HINT_ISSET hints (gv D V8_CompilerHints_BoundFunction)"

section \<open>String types\<close>

text \<open>A type byte is promoted before it is compared with a pointer-sized constant.\<close>

definition V8_TYPE_STRING :: "v8dbg \<Rightarrow> byte \<Rightarrow> bool" where
  "V8_TYPE_STRING D type \<longleftrightarrow> ucast type AND gv D V8_IsNotStringMask = gv D V8_StringTag"

definition V8_STRENC_ASCII :: "v8dbg \<Rightarrow> byte \<Rightarrow> bool" where
  "V8_STRENC_ASCII D type \<longleftrightarrow>
     (gv D V8_AsciiStringTag \<noteq> -1 \<and>
       ucast type AND gv D V8_StringEncodingMask = gv D V8_AsciiStringTag) \<or>
     (gv D V8_OneByteStringTag \<noteq> -1 \<and>
       ucast type AND gv D V8_StringEncodingMask = gv D V8_OneByteStringTag)"

definition V8_STRREP_SEQ :: "v8dbg \<Rightarrow> byte \<Rightarrow> bool" where
  "V8_STRREP_SEQ D type \<longleftrightarrow>
     ucast type AND gv D V8_StringRepresentationMask = gv D V8_SeqStringTag"

definition V8_STRREP_CONS :: "v8dbg \<Rightarrow> byte \<Rightarrow> bool" where
  "V8_STRREP_CONS D type \<longleftrightarrow>
     ucast type AND gv D V8_StringRepresentationMask = gv D V8_ConsStringTag"

definition V8_STRREP_SLICED :: "v8dbg \<Rightarrow> byte \<Rightarrow> bool" where
  "V8_STRREP_SLICED D type \<longleftrightarrow>
     ucast type AND gv D V8_StringRepresentationMask = gv D V8_SlicedStringTag"

definition V8_STRREP_EXT :: "v8dbg \<Rightarrow> byte \<Rightarrow> bool" where
  "V8_STRREP_EXT D type \<longleftrightarrow>
     ucast type AND gv D V8_StringRepresentationMask = gv D V8_ExternalStringTag"

section \<open>Property descriptors\<close>

definition V8_DESC_ISFIELD :: "v8dbg \<Rightarrow> uptr \<Rightarrow> bool" where
  "V8_DESC_ISFIELD D x \<longleftrightarrow> V8_SMI_VALUE D x AND gv D V8_PROP_TYPE_MASK = gv D V8_PROP_TYPE_FIELD"

definition V8_PROP_FIELDINDEX :: "v8dbg \<Rightarrow> uptr \<Rightarrow> uptr" where
  "V8_PROP_FIELDINDEX D value =
     drop_bit (unat (gv D V8_PROPINDEX_SHIFT)) (V8_SMI_VALUE D value AND gv D V8_PROPINDEX_MASK)"

text \<open>Whether the target's V8 is older than a version.\<close>

definition v8_version_current_older :: "v8dbg \<Rightarrow> uptr \<Rightarrow> uptr \<Rightarrow> uptr \<Rightarrow> uptr \<Rightarrow> bool" where
  "v8_version_current_older D major minor build patch \<longleftrightarrow>
     v8_major D < major \<or> (v8_major D = major \<and>
     (v8_minor D < minor \<or> (v8_minor D = minor \<and>
     (v8_build D < build \<or> (v8_build D = build \<and> v8_patch D < patch)))))"

section \<open>The tag constants of every supported V8\<close>

text \<open>
  Every V8 the module supports uses these tags on amd64: the low bit 0 for a small
  integer, the two low bits 01 for a heap object, the integer in the high half.
\<close>

definition v8_tags_amd64 :: "v8dbg \<Rightarrow> bool" where
  "v8_tags_amd64 D \<longleftrightarrow>
     gv D V8_HeapObjectTag = 1 \<and> gv D V8_HeapObjectTagMask = 3 \<and>
     gv D V8_SmiTag = 0 \<and> gv D V8_SmiTagMask = 1 \<and>
     gv D V8_SmiValueShift = 1 \<and> gv D V8_SmiShiftSize = 31"

lemma smi_shift_amd64: "v8_tags_amd64 D \<Longrightarrow>
    unat (gv D V8_SmiValueShift + gv D V8_SmiShiftSize) = 32"
  by (simp add: v8_tags_amd64_def)

lemma smi_and_1_of_shift: "push_bit 32 (v :: uptr) AND 1 = 0"
  by (rule bit_word_eqI) (simp add: bit_simps)

text \<open>
  Decoding undoes encoding for every value of 32 bits, and encoding undoes decoding for
  every small integer whose low half is clear.
\<close>

lemma V8_SMI_roundtrip:
  assumes "v8_tags_amd64 D" and "v < 2 ^ 32"
  shows "V8_SMI_VALUE D (V8_VALUE_SMI D v) = v"
proof -
  have "unat v < 2 ^ 32"
    using assms(2) by (simp add: word_less_nat_alt)
  then have "unat (drop_bit 32 (push_bit 32 v)) = unat v"
    by (simp add: push_bit_eq_mult drop_bit_eq_div unat_div unat_word_ariths)
  then have "drop_bit 32 (push_bit 32 v) = v"
    by (simp only: word_unat_eq_iff)
  then show ?thesis
    using smi_shift_amd64 [OF assms(1)] by (simp add: V8_SMI_VALUE_def V8_VALUE_SMI_def)
qed

lemma V8_VALUE_SMI_is_smi: "v8_tags_amd64 D \<Longrightarrow> V8_IS_SMI D (V8_VALUE_SMI D v)"
  using smi_and_1_of_shift [of v] smi_shift_amd64 [of D]
  by (simp add: V8_IS_SMI_def V8_VALUE_SMI_def v8_tags_amd64_def)

lemma smi_not_heapobject:
  assumes "v8_tags_amd64 D" shows "\<not> (V8_IS_SMI D p \<and> V8_IS_HEAPOBJECT D p)"
proof
  assume "V8_IS_SMI D p \<and> V8_IS_HEAPOBJECT D p"
  then have "p AND 1 = 0" and "p AND 3 = 1"
    using assms by (auto simp: V8_IS_SMI_def V8_IS_HEAPOBJECT_def v8_tags_amd64_def)
  then have "\<not> bit p 0" and "bit (p AND 3) 0"
    by (auto simp: and_one_eq even_iff_mod_2_eq_zero bit_0 split: if_splits)
  then show False by (simp add: bit_and_iff)
qed

lemma byte_not_minus_one [simp]: "(ucast (b :: byte) :: uptr) \<noteq> - 1"
proof
  assume "(ucast b :: uptr) = - 1"
  then have "unat (ucast b :: uptr) = unat (- 1 :: uptr)" by simp
  moreover have "unat (ucast b :: uptr) = unat b" by (simp add: unsigned_ucast_eq take_bit_nat_eq_self_iff less_le_trans [OF unsigned_less])
  moreover have "unat (- 1 :: uptr) = 2 ^ 64 - 1"
    by (simp add: unsigned_minus_1_eq_mask mask_eq_exp_minus_1)
  ultimately show False using unsigned_less [where ?'a = nat and w = b] by simp
qed

section \<open>Properties\<close>

text \<open>
  Small integers round-trip: a value of at most 32 bits is encoded as a word that
  is recognised as a small integer and not as a heap object, and decoding gives it back.
\<close>

theorem smi_encoding:
  assumes "v8_tags_amd64 D" and "v < 2 ^ 32"
  shows "V8_SMI_VALUE D (V8_VALUE_SMI D v) = v \<and> V8_IS_SMI D (V8_VALUE_SMI D v) \<and>
    \<not> V8_IS_HEAPOBJECT D (V8_VALUE_SMI D v)"
  using V8_SMI_roundtrip [OF assms] V8_VALUE_SMI_is_smi [OF assms(1)] smi_not_heapobject [OF assms(1)]
  by blast

definition smi_sample :: v8dbg where
  "smi_sample = \<lparr>mem_vread = (\<lambda>_ _. None), zalloc_ok = (\<lambda>_ _. True), fmt_p = (\<lambda>_. []), fmt_e = (\<lambda>_. []),
     fmt_Y = (\<lambda>_. []), mem_readstr = (\<lambda>_ _. None),
     gv = (\<lambda>g. if g = V8_HeapObjectTag \<or> g = V8_SmiTagMask \<or> g = V8_SmiValueShift then 1
               else if g = V8_HeapObjectTagMask then 3 else if g = V8_SmiShiftSize then 31 else 0),
     v8_classes = [], v8_types = [], v8_frametypes = [], v8_major = 3, v8_minor = 14, v8_build = 5,
     v8_patch = 9\<rparr>"

lemma smi_encoding_witness:
  "v8_tags_amd64 smi_sample \<and> V8_SMI_VALUE smi_sample (V8_VALUE_SMI smi_sample 1025) = 1025"
proof -
  have t: "v8_tags_amd64 smi_sample" by (simp add: smi_sample_def v8_tags_amd64_def)
  have "(1025 :: uptr) < 2 ^ 32" by simp
  from smi_encoding [OF t this] t show ?thesis by simp
qed

end
