(* ===== verification/Sink.thy ===== *)
theory Sink
  imports Prelude
begin

text \<open>
  The contract of the module's two bounded writers. A sink holds the text written so far
  and a number of characters it still takes; putting a string appends as much of it as
  fits and never fails. \<open>mdbv8_strbuf_t\<close> (theory Strbuf) and the legacy
  \<open>bufp\<close>/\<open>lenp\<close> pairs written by \<open>bsnprintf\<close> (theory Bprintf) both satisfy it.
\<close>

fun puts :: "('s \<Rightarrow> string \<Rightarrow> 's option) \<Rightarrow> 's \<Rightarrow> string list \<Rightarrow> 's option" where
  "puts put s [] = Some s"
| "puts put s (x # xs) = do { s' \<leftarrow> put s x; puts put s' xs }"

locale sink =
  fixes put :: "'s \<Rightarrow> string \<Rightarrow> 's option"
    and content :: "'s \<Rightarrow> string"
    and room :: "'s \<Rightarrow> nat"
    and ok :: "'s \<Rightarrow> bool"
  assumes put_ex: "ok s \<Longrightarrow>
    \<exists>s'. put s x = Some s' \<and> ok s' \<and> content s' = content s @ take (room s) x \<and> room s' = room s - length x"
begin

lemma putE:
  assumes "ok s"
  obtains s' where "put s x = Some s'" and "ok s'" and "content s' = content s @ take (room s) x"
    and "room s' = room s - length x"
  using put_ex [OF assms, of x] by blast

lemma put_text: "ok s \<Longrightarrow> put s x = Some s' \<Longrightarrow> content s' = content s @ take (room s) x"
  using put_ex [of s x] by auto

lemma put_room: "ok s \<Longrightarrow> put s x = Some s' \<Longrightarrow> room s' = room s - length x"
  using put_ex [of s x] by auto

lemma put_ok: "ok s \<Longrightarrow> put s x = Some s' \<Longrightarrow> ok s'"
  using put_ex [of s x] by auto

lemma put_fits: "ok s \<Longrightarrow> length x \<le> room s \<Longrightarrow> put s x = Some s' \<Longrightarrow> content s' = content s @ x"
  by (simp add: put_text)

lemma put_grows: "ok s \<Longrightarrow> put s x = Some s' \<Longrightarrow> \<exists>y. content s' = content s @ y"
  by (auto simp: put_text)

text \<open>A sequence of puts writes the concatenation, cut where the sink is full.\<close>

lemma puts_ex:
  assumes "ok s"
  shows "\<exists>s'. puts put s xs = Some s' \<and> ok s' \<and> content s' = content s @ take (room s) (concat xs)
    \<and> room s' = room s - length (concat xs)"
  using assms
proof (induction xs arbitrary: s)
  case Nil
  then show ?case by simp
next
  case (Cons x xs)
  from Cons.prems obtain s1 where s1: "put s x = Some s1" "ok s1"
    "content s1 = content s @ take (room s) x" "room s1 = room s - length x"
    by (rule putE)
  from Cons.IH [OF s1(2)] s1 show ?case
    by (auto simp: take_append)
qed

lemma puts_put: "ok s \<Longrightarrow> puts put s xs = Some s1 \<Longrightarrow> put s (concat xs) = Some s2 \<Longrightarrow>
    content s1 = content s2 \<and> room s1 = room s2"
  using puts_ex [of s xs] put_ex [of s "concat xs"] by auto

end

end
