(* ===== verification/Strbuf.thy ===== *)
theory Strbuf
  imports V8Dbg Sink
begin

text \<open>
  String buffers (\<^verbatim>\<open>src/src/mdb_v8_strbuf.c\<close>). A \<open>char *\<close> into the buffer is an offset
  into its contents. An operation that would touch memory outside the buffer has the value
  \<open>None\<close>; the lemmas show that a well-formed buffer never gets there.
\<close>

section \<open>State\<close>

record mdbv8_strbuf =
  ms_buf :: string
  ms_bufsz :: uptr
  ms_curbuf :: nat
  ms_curbufsz :: uptr
  ms_reservesz :: uptr
  ms_flags :: "32 word"
  ms_memflags :: memflags

definition MSF_ASCIIONLY :: "32 word" where "MSF_ASCIIONLY = 1"
definition MSF_JSON :: "32 word" where "MSF_JSON = MSF_ASCIIONLY OR 2"
definition MSB_NOALLOC :: "32 word" where "MSB_NOALLOC = 1"

definition NUL :: char where "NUL = CHR 0x00"

section \<open>Operations\<close>

definition mdbv8_strbuf_rewind :: "mdbv8_strbuf \<Rightarrow> mdbv8_strbuf option" where
  "mdbv8_strbuf_rewind strb =
     (if ms_buf strb = [] then None
      else Some (strb\<lparr>ms_curbuf := 0, ms_curbufsz := ms_bufsz strb,
                      ms_buf := (ms_buf strb)[0 := NUL]\<rparr>))"

text \<open>
  \<open>mdbv8_strbuf_alloc\<close>: the outer option is a write outside the buffer (for a size of 0),
  the inner one the \<open>NULL\<close> of a failed allocation. A fresh buffer is zero-filled.
\<close>

definition mdbv8_strbuf_alloc :: "v8dbg \<Rightarrow> uptr \<Rightarrow> memflags \<Rightarrow> mdbv8_strbuf option option" where
  "mdbv8_strbuf_alloc D nbytes memflags =
     (if \<not> zalloc_ok D 48 memflags \<or> \<not> zalloc_ok D (unat nbytes) memflags then Some None
      else map_option Some (mdbv8_strbuf_rewind
        \<lparr>ms_buf = replicate (unat nbytes) NUL, ms_bufsz = nbytes, ms_curbuf = 0,
         ms_curbufsz = 0, ms_reservesz = 0, ms_flags = 0, ms_memflags = memflags\<rparr>))"

text \<open>Whether the two blocks of a buffer are handed back to the allocator.\<close>

definition mdbv8_strbuf_free :: "mdbv8_strbuf option \<Rightarrow> bool" where
  "mdbv8_strbuf_free strb =
     (case strb of None \<Rightarrow> False
      | Some b \<Rightarrow> ms_flags b AND MSB_NOALLOC = 0 \<and> UM_GC \<notin> ms_memflags b)"

definition mdbv8_strbuf_init :: "string \<Rightarrow> uptr \<Rightarrow> mdbv8_strbuf option" where
  "mdbv8_strbuf_init buf bufsz =
     mdbv8_strbuf_rewind
       \<lparr>ms_buf = buf, ms_bufsz = bufsz, ms_curbuf = 0, ms_curbufsz = 0, ms_reservesz = 0,
        ms_flags = MSB_NOALLOC, ms_memflags = {}\<rparr>"

definition mdbv8_strbuf_legacy_update :: "mdbv8_strbuf \<Rightarrow> nat \<times> uptr" where
  "mdbv8_strbuf_legacy_update strb = (ms_curbuf strb, ms_curbufsz strb)"

definition mdbv8_strbuf_bufsz :: "mdbv8_strbuf \<Rightarrow> uptr" where
  "mdbv8_strbuf_bufsz strb = ms_bufsz strb"

definition mdbv8_strbuf_bytesleft :: "mdbv8_strbuf \<Rightarrow> uptr" where
  "mdbv8_strbuf_bytesleft strb =
     (if ms_curbufsz strb - 1 < ms_reservesz strb then 0
      else ms_curbufsz strb - 1 - ms_reservesz strb)"

definition mdbv8_strbuf_reserve :: "mdbv8_strbuf \<Rightarrow> uptr \<Rightarrow> mdbv8_strbuf" where
  "mdbv8_strbuf_reserve strb nbytes = strb\<lparr>ms_reservesz := ms_reservesz strb + nbytes\<rparr>"

text \<open>
  \<open>vsnprintf\<close> into \<open>n\<close> bytes of \<open>buf\<close> at \<open>off\<close>: at most \<open>n - 1\<close> characters
  of the rendered text, then the terminator.
\<close>

definition vsnprintf_at :: "string \<Rightarrow> nat \<Rightarrow> nat \<Rightarrow> string \<Rightarrow> string option" where
  "vsnprintf_at buf off n s =
     (let w = take (n - 1) s @ [NUL] in
      if length buf < off + length w then None
      else Some (take off buf @ w @ drop (off + length w) buf))"

text \<open>
  \<open>mdbv8_strbuf_vsprintf\<close> with the text \<open>s\<close> that the format and its arguments render to;
  \<open>vsnprintf\<close> returns the length of that text whether or not it fitted.
\<close>

definition mdbv8_strbuf_vsprintf :: "mdbv8_strbuf \<Rightarrow> string \<Rightarrow> mdbv8_strbuf option" where
  "mdbv8_strbuf_vsprintf strb s =
     (if ms_curbufsz strb \<le> ms_reservesz strb then Some strb
      else do {
        let space = ms_curbufsz strb - ms_reservesz strb;
        buf \<leftarrow> vsnprintf_at (ms_buf strb) (ms_curbuf strb) (unat space) s;
        let rv = length s;
        let len = min rv (unat (space - 1));
        Some (strb\<lparr>ms_buf := buf, ms_curbufsz := ms_curbufsz strb - of_nat len,
                   ms_curbuf := ms_curbuf strb + len\<rparr>)
      })"

definition mdbv8_strbuf_sprintf :: "mdbv8_strbuf \<Rightarrow> string \<Rightarrow> mdbv8_strbuf option" where
  "mdbv8_strbuf_sprintf strb s = mdbv8_strbuf_vsprintf strb s"

definition isascii :: "16 word \<Rightarrow> bool" where
  "isascii c \<longleftrightarrow> c < 128"

definition iscntrl :: "16 word \<Rightarrow> bool" where
  "iscntrl c \<longleftrightarrow> c < 32 \<or> c = 127"

definition mdbv8_strbuf_appendc ::
    "mdbv8_strbuf \<Rightarrow> 16 word \<Rightarrow> 32 word \<Rightarrow> mdbv8_strbuf option" where
  "mdbv8_strbuf_appendc strb c0 flags =
     (let c = (if flags AND MSF_ASCIIONLY \<noteq> 0 \<and> \<not> isascii c0 then 63 else c0) in
      if flags AND MSF_JSON = MSF_JSON then
        if c = 8 then mdbv8_strbuf_sprintf strb [CHR 0x5C, CHR ''b'']
        else if c = 10 then mdbv8_strbuf_sprintf strb [CHR 0x5C, CHR ''n'']
        else if c = 13 then mdbv8_strbuf_sprintf strb [CHR 0x5C, CHR ''r'']
        else if c = 92 then mdbv8_strbuf_sprintf strb [CHR 0x5C, CHR 0x5C]
        else if c = 34 then mdbv8_strbuf_sprintf strb [CHR 0x22]
        else if iscntrl c then mdbv8_strbuf_sprintf strb ''?''
        else mdbv8_strbuf_sprintf strb [char_of (unat c)]
      else mdbv8_strbuf_sprintf strb [char_of (unat c)])"

definition mdbv8_strbuf_nbytesforchar :: "16 word \<Rightarrow> 32 word \<Rightarrow> nat" where
  "mdbv8_strbuf_nbytesforchar c flags =
     (if flags AND MSF_JSON = MSF_JSON then
        if c = 8 \<or> c = 10 \<or> c = 13 \<or> c = 92 \<or> c = 34 then 2 else 1
      else 1)"

text \<open>\<open>src[i]\<close> is a signed \<open>char\<close>: it is sign-extended to \<open>uint16_t\<close>.\<close>

definition char_u16 :: "char \<Rightarrow> 16 word" where
  "char_u16 c = scast (word_of_nat (of_char c) :: byte)"

fun mdbv8_strbuf_appends :: "mdbv8_strbuf \<Rightarrow> string \<Rightarrow> 32 word \<Rightarrow> mdbv8_strbuf option" where
  "mdbv8_strbuf_appends strb [] flags = Some strb"
| "mdbv8_strbuf_appends strb (c # src) flags = do {
     strb' \<leftarrow> mdbv8_strbuf_appendc strb (char_u16 c) flags;
     mdbv8_strbuf_appends strb' src flags
   }"

text \<open>What a reader of the returned C string sees.\<close>

definition mdbv8_strbuf_tocstr :: "mdbv8_strbuf \<Rightarrow> string" where
  "mdbv8_strbuf_tocstr strb = takeWhile (\<lambda>c. c \<noteq> NUL) (ms_buf strb)"

section \<open>Well-formed buffers\<close>

text \<open>
  The current position and the space left add up to the buffer, at least the terminator's
  byte is left, and the terminator is there.
\<close>

definition strbuf_wf :: "mdbv8_strbuf \<Rightarrow> bool" where
  "strbuf_wf b \<longleftrightarrow>
     length (ms_buf b) = unat (ms_bufsz b) \<and>
     ms_curbuf b + unat (ms_curbufsz b) = unat (ms_bufsz b) \<and>
     1 \<le> unat (ms_curbufsz b) \<and>
     ms_buf b ! ms_curbuf b = NUL"

definition strbuf_text :: "mdbv8_strbuf \<Rightarrow> string" where
  "strbuf_text b = take (ms_curbuf b) (ms_buf b)"

definition strbuf_left :: "mdbv8_strbuf \<Rightarrow> nat" where
  "strbuf_left b = unat (mdbv8_strbuf_bytesleft b)"

lemma strbuf_left_nat:
  assumes "1 \<le> unat (ms_curbufsz b)"
  shows "strbuf_left b = unat (ms_curbufsz b) - 1 - unat (ms_reservesz b)"
proof -
  have "1 \<le> ms_curbufsz b"
    using assms by (simp add: uptr_le_unat)
  then have *: "unat (ms_curbufsz b - 1) = unat (ms_curbufsz b) - 1"
    by (simp add: unat_sub_le)
  then show ?thesis
    by (auto simp: strbuf_left_def mdbv8_strbuf_bytesleft_def uptr_less_unat unat_sub
        uptr_le_unat not_less)
qed

lemma rewind_wf:
  assumes "length (ms_buf b) = unat (ms_bufsz b)" and "ms_bufsz b \<noteq> 0"
  shows "\<exists>b'. mdbv8_strbuf_rewind b = Some b' \<and> strbuf_wf b' \<and> strbuf_text b' = [] \<and>
    ms_bufsz b' = ms_bufsz b \<and> ms_reservesz b' = ms_reservesz b \<and>
    ms_curbufsz b' = ms_bufsz b"
proof -
  have "0 < unat (ms_bufsz b)"
    using assms(2) by (simp add: unat_gt_0)
  then show ?thesis
    using assms(1) by (auto simp: mdbv8_strbuf_rewind_def strbuf_wf_def strbuf_text_def)
qed

text \<open>A buffer of size 0 has no room even for the terminator that rewinding writes.\<close>

lemma rewind_empty: "mdbv8_strbuf_rewind b = None \<longleftrightarrow> ms_buf b = []"
  by (simp add: mdbv8_strbuf_rewind_def)


section \<open>Formatted output appends what fits\<close>

lemma vsnprintf_at_Some:
  assumes "off + n \<le> length buf" and "1 \<le> n"
  shows "vsnprintf_at buf off n s =
    Some (take off buf @ take (n - 1) s @ NUL # drop (off + min (length s) (n - 1) + 1) buf)"
  using assms by (auto simp: vsnprintf_at_def Let_def min_def)

lemma vsprintf_spec:
  assumes "strbuf_wf b"
  shows "\<exists>b'. mdbv8_strbuf_vsprintf b s = Some b' \<and> strbuf_wf b' \<and>
    strbuf_text b' = strbuf_text b @ take (strbuf_left b) s \<and>
    strbuf_left b' = strbuf_left b - length s \<and>
    ms_bufsz b' = ms_bufsz b \<and> ms_reservesz b' = ms_reservesz b"
proof (cases "ms_curbufsz b \<le> ms_reservesz b")
  case True
  then have "strbuf_left b = 0"
    using assms by (simp add: strbuf_left_nat strbuf_wf_def uptr_le_unat)
  with True assms show ?thesis
    by (simp add: mdbv8_strbuf_vsprintf_def)
next
  case False
  let ?c = "unat (ms_curbufsz b)" and ?r = "unat (ms_reservesz b)" and ?o = "ms_curbuf b"
  let ?space = "ms_curbufsz b - ms_reservesz b"
  from False have r: "?r < ?c" by (simp add: uptr_le_unat)
  have space: "unat ?space = ?c - ?r"
    using r by (simp add: unat_sub uptr_le_unat)
  then have "1 \<le> ?space" using r by (simp add: uptr_le_unat)
  then have space1: "unat (?space - 1) = ?c - ?r - 1"
    using space by (simp add: unat_sub)
  have left: "strbuf_left b = ?c - 1 - ?r"
    using assms by (simp add: strbuf_left_nat strbuf_wf_def)
  let ?l = "min (length s) (?c - ?r - 1)"
  have wf: "length (ms_buf b) = ?o + ?c" "?o + ?c = unat (ms_bufsz b)"
    using assms by (auto simp: strbuf_wf_def)
  have buf: "vsnprintf_at (ms_buf b) ?o (unat ?space) s =
      Some (take ?o (ms_buf b) @ take (?c - ?r - 1) s @ NUL # drop (?o + ?l + 1) (ms_buf b))"
    using wf r by (subst vsnprintf_at_Some) (auto simp: space)
  let ?b' = "b\<lparr>ms_buf := take ?o (ms_buf b) @ take (?c - ?r - 1) s @ NUL # drop (?o + ?l + 1) (ms_buf b),
    ms_curbufsz := ms_curbufsz b - of_nat ?l, ms_curbuf := ?o + ?l\<rparr>"
  have eq: "mdbv8_strbuf_vsprintf b s = Some ?b'"
    using False buf by (simp add: mdbv8_strbuf_vsprintf_def Let_def space1)
  have lb: "?l < ?c" using r by linarith
  then have "of_nat ?l \<le> ms_curbufsz b"
    using unat_lt_64 [of "ms_curbufsz b"]
    by (simp add: uptr_le_unat unat_of_nat_lt)
  then have cur: "unat (ms_curbufsz b - of_nat ?l) = ?c - ?l"
    using lb unat_lt_64 [of "ms_curbufsz b"]
    by (simp add: unat_sub unat_of_nat_lt)
  have len: "length (take ?o (ms_buf b)) = ?o" using wf by simp
  have lens: "length (take (?c - ?r - 1) s) = ?l" by simp
  have "1 \<le> ?c - ?l" using lb by linarith
  then have wf': "strbuf_wf ?b'"
    unfolding strbuf_wf_def using wf lb cur r by (auto simp: nth_append)
  have written: "strbuf_text ?b' = strbuf_text b @ take (strbuf_left b) s"
    using len lens left by (simp add: strbuf_text_def add.commute)
  have "strbuf_left ?b' = ?c - ?l - 1 - ?r"
    using wf' cur by (simp add: strbuf_left_nat strbuf_wf_def)
  then have "strbuf_left ?b' = strbuf_left b - length s"
    using left by linarith
  with eq wf' written show ?thesis by auto
qed

interpretation strbuf: sink mdbv8_strbuf_sprintf strbuf_text strbuf_left strbuf_wf
  using vsprintf_spec by unfold_locales (force simp: mdbv8_strbuf_sprintf_def)


lemma sprintf_bufsz:
  assumes "strbuf_wf b" and "mdbv8_strbuf_sprintf b s = Some b'"
  shows "ms_bufsz b' = ms_bufsz b" and "ms_reservesz b' = ms_reservesz b"
  using vsprintf_spec [OF assms(1), of s] assms(2) by (auto simp: mdbv8_strbuf_sprintf_def)

section \<open>Characters\<close>

text \<open>
  What one character is written as: the specification of \<open>mdbv8_strbuf_appendc\<close>.
\<close>

definition escaped :: "16 word \<Rightarrow> 32 word \<Rightarrow> string" where
  "escaped c0 flags =
     (let c = (if flags AND MSF_ASCIIONLY \<noteq> 0 \<and> 128 \<le> c0 then 63 else c0) in
      if flags AND MSF_JSON \<noteq> MSF_JSON then [char_of (unat c)]
      else if c = 8 then [CHR 0x5C, CHR ''b''] else if c = 10 then [CHR 0x5C, CHR ''n'']
      else if c = 13 then [CHR 0x5C, CHR ''r''] else if c = 92 then [CHR 0x5C, CHR 0x5C]
      else if c < 32 \<or> c = 127 then ''?'' else [char_of (unat c)])"

lemma char_of_34: "char_of (34 :: nat) = CHR 0x22"
  by (simp add: char_of_def bit_Suc_0_iff)

lemma appendc_escaped: "mdbv8_strbuf_appendc b c flags = mdbv8_strbuf_sprintf b (escaped c flags)"
  by (auto simp: mdbv8_strbuf_appendc_def escaped_def Let_def isascii_def iscntrl_def not_less
      char_of_34)

lemma length_escaped: "1 \<le> length (escaped c flags) \<and> length (escaped c flags) \<le> 2"
  by (simp add: escaped_def Let_def)

lemma nbytesforchar_range:
  "1 \<le> mdbv8_strbuf_nbytesforchar c flags \<and> mdbv8_strbuf_nbytesforchar c flags \<le> 2"
  by (simp add: mdbv8_strbuf_nbytesforchar_def)

lemma escaped_le_nbytes: "length (escaped c flags) \<le> mdbv8_strbuf_nbytesforchar c flags"
  by (simp add: escaped_def Let_def mdbv8_strbuf_nbytesforchar_def)

lemma escaped_eq_nbytes:
  "c \<noteq> 34 \<or> flags AND MSF_JSON \<noteq> MSF_JSON \<Longrightarrow>
     length (escaped c flags) = mdbv8_strbuf_nbytesforchar c flags"
  by (auto simp: escaped_def Let_def mdbv8_strbuf_nbytesforchar_def)

lemma escaped_quote_json: "escaped 34 MSF_JSON = [CHR 0x22] \<and>
    mdbv8_strbuf_nbytesforchar 34 MSF_JSON = 2"
  by (simp add: escaped_def MSF_JSON_def MSF_ASCIIONLY_def mdbv8_strbuf_nbytesforchar_def
      char_of_34)

lemma escaped_ascii_plain:
  "c < 128 \<Longrightarrow> escaped c MSF_ASCIIONLY = [char_of (unat c)]"
  by (simp add: escaped_def MSF_JSON_def MSF_ASCIIONLY_def Let_def)

text \<open>A buffer keeps its invariant and takes the escaped character as far as it fits.\<close>

lemma appendc_spec:
  "strbuf_wf b \<Longrightarrow> \<exists>b'. mdbv8_strbuf_appendc b c flags = Some b' \<and> strbuf_wf b' \<and>
    strbuf_text b' = strbuf_text b @ take (strbuf_left b) (escaped c flags) \<and>
    strbuf_left b' = strbuf_left b - length (escaped c flags)"
  unfolding appendc_escaped by (rule strbuf.put_ex)

lemma appends_puts:
  "mdbv8_strbuf_appends b src flags =
     puts mdbv8_strbuf_sprintf b (map (\<lambda>c. escaped (char_u16 c) flags) src)"
  by (induction b src flags rule: mdbv8_strbuf_appends.induct) (simp_all add: appendc_escaped cong: Option.bind_cong)

definition escaped_string :: "string \<Rightarrow> 32 word \<Rightarrow> string" where
  "escaped_string src flags = concat (map (\<lambda>c. escaped (char_u16 c) flags) src)"

lemma appends_spec:
  "strbuf_wf b \<Longrightarrow> \<exists>b'. mdbv8_strbuf_appends b src flags = Some b' \<and> strbuf_wf b' \<and>
    strbuf_text b' = strbuf_text b @ take (strbuf_left b) (escaped_string src flags) \<and>
    strbuf_left b' = strbuf_left b - length (escaped_string src flags)"
  unfolding appends_puts escaped_string_def by (rule strbuf.puts_ex)

lemma char_u16_ascii: "of_char c < (128 :: nat) \<Longrightarrow> unat (char_u16 c) = of_char c"
proof -
  assume c: "of_char c < (128 :: nat)"
  then have "sint (word_of_nat (of_char c) :: byte) = int (of_char c)"
    by (simp add: signed_of_nat signed_take_bit_int_eq_self_iff)
  then show ?thesis using c
    by (simp add: char_u16_def scast_eq unsigned_of_nat take_bit_eq_mod)
qed


section \<open>Sequences of operations\<close>

datatype strbuf_op =
    Op_rewind
  | Op_reserve uptr
  | Op_appendc "16 word" "32 word"
  | Op_appends string "32 word"
  | Op_sprintf string

fun strbuf_step :: "strbuf_op \<Rightarrow> mdbv8_strbuf \<Rightarrow> mdbv8_strbuf option" where
  "strbuf_step Op_rewind b = mdbv8_strbuf_rewind b"
| "strbuf_step (Op_reserve n) b = Some (mdbv8_strbuf_reserve b n)"
| "strbuf_step (Op_appendc c flags) b = mdbv8_strbuf_appendc b c flags"
| "strbuf_step (Op_appends s flags) b = mdbv8_strbuf_appends b s flags"
| "strbuf_step (Op_sprintf s) b = mdbv8_strbuf_sprintf b s"

fun strbuf_run :: "strbuf_op list \<Rightarrow> mdbv8_strbuf \<Rightarrow> mdbv8_strbuf option" where
  "strbuf_run [] b = Some b"
| "strbuf_run (op # ops) b = do { b' \<leftarrow> strbuf_step op b; strbuf_run ops b' }"

lemma reserve_wf: "strbuf_wf b \<Longrightarrow> strbuf_wf (mdbv8_strbuf_reserve b n)"
  by (simp add: strbuf_wf_def mdbv8_strbuf_reserve_def)

lemma puts_bufsz:
  "strbuf_wf b \<Longrightarrow> puts mdbv8_strbuf_sprintf b xs = Some b' \<Longrightarrow> ms_bufsz b' = ms_bufsz b"
proof (induction xs arbitrary: b)
  case (Cons x xs)
  from Cons.prems(2) obtain a where a: "mdbv8_strbuf_sprintf b x = Some a"
    "puts mdbv8_strbuf_sprintf a xs = Some b'"
    by (cases "mdbv8_strbuf_sprintf b x") auto
  have "strbuf_wf a" using Cons.prems(1) a(1) by (rule strbuf.put_ok)
  with Cons.IH a(2) have "ms_bufsz b' = ms_bufsz a" by blast
  then show ?case using sprintf_bufsz(1) [OF Cons.prems(1) a(1)] by simp
qed simp

lemma strbuf_step_wf:
  assumes "strbuf_wf b"
  shows "\<exists>b'. strbuf_step op b = Some b' \<and> strbuf_wf b' \<and> ms_bufsz b' = ms_bufsz b"
proof (cases op)
  case Op_rewind
  have "unat (ms_bufsz b) \<noteq> 0" using assms by (auto simp: strbuf_wf_def)
  then have "ms_bufsz b \<noteq> 0" by auto
  then show ?thesis
    using rewind_wf [of b] assms Op_rewind by (auto simp: strbuf_wf_def)
next
  case (Op_reserve n)
  then show ?thesis using reserve_wf [OF assms, of n] by (simp add: mdbv8_strbuf_reserve_def)
next
  case (Op_appendc c flags)
  then show ?thesis using strbuf.put_ex [OF assms, of "escaped c flags"]
    by (auto simp: appendc_escaped sprintf_bufsz [OF assms])
next
  case (Op_appends s flags)
  then show ?thesis using strbuf.puts_ex [OF assms, of "map (\<lambda>c. escaped (char_u16 c) flags) s"]
    by (auto simp: appends_puts puts_bufsz [OF assms])
next
  case (Op_sprintf s)
  then show ?thesis using strbuf.put_ex [OF assms, of s] by (auto simp: sprintf_bufsz [OF assms])
qed

lemma strbuf_run_wf:
  "strbuf_wf b \<Longrightarrow> \<exists>b'. strbuf_run ops b = Some b' \<and> strbuf_wf b' \<and> ms_bufsz b' = ms_bufsz b"
proof (induction ops arbitrary: b)
  case Nil
  then show ?case by simp
next
  case (Cons op ops)
  from strbuf_step_wf [OF Cons.prems, of op] obtain b1
    where b1: "strbuf_step op b = Some b1" "strbuf_wf b1" "ms_bufsz b1 = ms_bufsz b" by auto
  with Cons.IH [OF b1(2)] show ?case by auto
qed

text \<open>
  Space reserved for a closing quote is there when the reservation is dropped, whatever was
  written in between.
\<close>

lemma reserve_left:
  "strbuf_wf b \<Longrightarrow> unat (ms_reservesz b) + n < 2 ^ 64 \<Longrightarrow>
     strbuf_left (mdbv8_strbuf_reserve b (of_nat n)) = strbuf_left b - n"
  by (simp add: strbuf_left_nat strbuf_wf_def mdbv8_strbuf_reserve_def unat_add_lt unat_of_nat_lt)

lemma unreserve_left:
  assumes "strbuf_wf b" and "1 \<le> unat (ms_reservesz b)"
  shows "strbuf_left (mdbv8_strbuf_reserve b (- 1)) =
    unat (ms_curbufsz b) - unat (ms_reservesz b)"
proof -
  have "unat (ms_reservesz b - 1) = unat (ms_reservesz b) - 1"
    using assms(2) by (simp add: unat_sub uptr_le_unat)
  then show ?thesis using assms
    by (simp add: strbuf_left_nat strbuf_wf_def mdbv8_strbuf_reserve_def)
qed

lemma tocstr_text:
  assumes "strbuf_wf b" and "NUL \<notin> set (strbuf_text b)"
  shows "mdbv8_strbuf_tocstr b = strbuf_text b"
proof -
  have lt: "ms_curbuf b < length (ms_buf b)" using assms(1) by (auto simp: strbuf_wf_def)
  have "ms_buf b = take (ms_curbuf b) (ms_buf b) @ ms_buf b ! ms_curbuf b # drop (Suc (ms_curbuf b)) (ms_buf b)"
    using lt by (rule id_take_nth_drop)
  then have "ms_buf b = strbuf_text b @ NUL # drop (Suc (ms_curbuf b)) (ms_buf b)"
    using assms(1) by (simp add: strbuf_wf_def strbuf_text_def)
  then show ?thesis
    unfolding mdbv8_strbuf_tocstr_def using assms(2)
    by (metis (mono_tags, lifting) takeWhile_append_stop)
qed

lemma strbuf_text_length: "strbuf_wf b \<Longrightarrow> length (strbuf_text b) < unat (ms_bufsz b)"
  by (auto simp: strbuf_wf_def strbuf_text_def)

section \<open>Properties\<close>

text \<open>
  C20. Every sequence of operations on a buffer that was initialised with a nonzero size
  runs without touching memory outside it, keeps it terminated, and leaves a text shorter
  than the buffer.
\<close>

theorem strbuf_memory_safe:
  assumes "length buf = unat bufsz" and "bufsz \<noteq> 0"
  shows "\<exists>b b'. mdbv8_strbuf_init buf bufsz = Some b \<and> strbuf_run ops b = Some b' \<and>
    strbuf_wf b' \<and> length (strbuf_text b') < unat bufsz"
proof -
  let ?b = "\<lparr>ms_buf = buf, ms_bufsz = bufsz, ms_curbuf = 0, ms_curbufsz = 0, ms_reservesz = 0,
        ms_flags = MSB_NOALLOC, ms_memflags = {}\<rparr>"
  obtain b where b: "mdbv8_strbuf_init buf bufsz = Some b" "strbuf_wf b" "ms_bufsz b = bufsz"
    using rewind_wf [of ?b] assms by (auto simp: mdbv8_strbuf_init_def)
  from strbuf_run_wf [OF b(2), of ops] obtain b' where
    b': "strbuf_run ops b = Some b'" "strbuf_wf b'" "ms_bufsz b' = bufsz"
    using b(3) by auto
  with b strbuf_text_length [OF b'(2)] show ?thesis by auto
qed

lemma strbuf_memory_safe_witness:
  "\<exists>b b'. mdbv8_strbuf_init ''abc'' 3 = Some b \<and>
     strbuf_run [Op_reserve 1, Op_appends ''hello'' MSF_JSON, Op_reserve (- 1), Op_appendc 34 0] b = Some b' \<and>
     strbuf_wf b' \<and> length (strbuf_text b') < 3"
  using strbuf_memory_safe [of "''abc''" 3 "[Op_reserve 1, Op_appends ''hello'' MSF_JSON, Op_reserve (- 1), Op_appendc 34 0]"]
  by simp

text \<open>
  C38. Appending a string adds the escaped characters in order, cut where the space that is
  not reserved ends, and uses up exactly that space.
\<close>

theorem strbuf_appends_text:
  assumes "strbuf_wf b"
  shows "\<exists>b'. mdbv8_strbuf_appends b src flags = Some b' \<and> strbuf_wf b' \<and>
    strbuf_text b' = strbuf_text b @ take (strbuf_left b) (escaped_string src flags) \<and>
    strbuf_left b' = strbuf_left b - length (escaped_string src flags)"
  using appends_spec [OF assms] .

definition sample_buf :: mdbv8_strbuf where
  "sample_buf = \<lparr>ms_buf = replicate 4 NUL, ms_bufsz = 4, ms_curbuf = 0, ms_curbufsz = 4,
     ms_reservesz = 1, ms_flags = 0, ms_memflags = {}\<rparr>"

lemma sample_buf_wf: "strbuf_wf sample_buf"
  by (simp add: strbuf_wf_def sample_buf_def)

lemma strbuf_appends_text_witness:
  "\<exists>b'. mdbv8_strbuf_appends sample_buf ''abc'' 0 = Some b' \<and> strbuf_text b' = ''ab''"
proof -
  have "char_u16 CHR ''a'' = 97" "char_u16 CHR ''b'' = 98" "char_u16 CHR ''c'' = 99"
    by (simp_all add: char_u16_def)
  moreover have "escaped 97 0 = ''a''" "escaped 98 0 = ''b''" "escaped 99 0 = ''c''"
    by (simp_all add: escaped_def char_of_def bit_simps MSF_JSON_def MSF_ASCIIONLY_def)
  ultimately have "escaped_string ''abc'' 0 = ''abc''" by (simp add: escaped_string_def)
  moreover have "strbuf_left sample_buf = 2" "strbuf_text sample_buf = []"
    by (simp_all add: strbuf_left_def mdbv8_strbuf_bytesleft_def sample_buf_def strbuf_text_def)
  ultimately show ?thesis
    using strbuf_appends_text [OF sample_buf_wf, of "''abc''" 0] by auto
qed

text \<open>
  The size estimate of \<open>mdbv8_strbuf_nbytesforchar\<close> is never too small for what
  \<open>mdbv8_strbuf_appendc\<close> writes, and it is exact except for one character: the double
  quote in JSON mode is counted as two bytes and written as one.
\<close>

theorem nbytesforchar_exact:
  assumes "strbuf_wf b" and "2 \<le> strbuf_left b"
  shows "\<exists>b'. mdbv8_strbuf_appendc b c flags = Some b' \<and>
    strbuf_left b - strbuf_left b' \<le> mdbv8_strbuf_nbytesforchar c flags \<and>
    (strbuf_left b - strbuf_left b' = mdbv8_strbuf_nbytesforchar c flags \<longleftrightarrow>
     \<not> (c = 34 \<and> flags AND MSF_JSON = MSF_JSON))"
proof -
  obtain b' where b': "mdbv8_strbuf_appendc b c flags = Some b'"
    "strbuf_left b' = strbuf_left b - length (escaped c flags)"
    using appendc_spec [OF assms(1)] by blast
  have d: "strbuf_left b - strbuf_left b' = length (escaped c flags)"
    using b'(2) assms(2) length_escaped [of c flags] by linarith
  have "c = 34 \<and> flags AND MSF_JSON = MSF_JSON \<Longrightarrow>
      length (escaped c flags) = 1 \<and> mdbv8_strbuf_nbytesforchar c flags = 2"
    by (simp add: escaped_def mdbv8_strbuf_nbytesforchar_def Let_def)
  then show ?thesis
    using b'(1) d escaped_le_nbytes [of c flags] escaped_eq_nbytes [of c flags] by auto
qed

lemma nbytesforchar_exact_witness:
  "\<exists>b'. mdbv8_strbuf_appendc sample_buf 34 MSF_JSON = Some b' \<and>
     strbuf_left sample_buf - strbuf_left b' \<noteq> mdbv8_strbuf_nbytesforchar 34 MSF_JSON"
proof -
  have "2 \<le> strbuf_left sample_buf"
    by (simp add: strbuf_left_def mdbv8_strbuf_bytesleft_def sample_buf_def)
  from nbytesforchar_exact [OF sample_buf_wf this, of 34 MSF_JSON] show ?thesis by auto
qed

end
