(* ===== verification/Heap.thy ===== *)
theory Heap
  imports Strbuf
begin

text \<open>
  Reading the target's heap (\<^verbatim>\<open>src/src/mdb_v8.c\<close>): the \<open>read_heap_*\<close> functions, the
  lookups in the tables of types and classes, the chain of Maps that leads to a constructor,
  and the legacy \<open>bufp\<close>/\<open>lenp\<close> writer. An \<open>int\<close> result of 0 with an output parameter
  is \<open>Some\<close> of the value, a result of \<open>-1\<close> is \<open>None\<close>. Where the C code need not
  return a defined value (it may loop forever, or write outside a buffer) the result is
  wrapped in one more option, whose \<open>None\<close> stands for that.
\<close>

section \<open>The debugger's read of the target\<close>

text \<open>
  What the code relies on of \<open>mdb_vread\<close>: a successful read returns exactly the bytes asked
  for, and reading a block is reading its two halves.
\<close>

definition vread_laws :: "v8dbg \<Rightarrow> bool" where
  "vread_laws D \<longleftrightarrow>
     (\<forall>a n bs. mem_vread D a n = Some bs \<longrightarrow> length bs = n) \<and>
     (\<forall>a n m bs. mem_vread D a (n + m) = Some bs \<longleftrightarrow>
        length bs = n + m \<and> mem_vread D a n = Some (take n bs) \<and>
        mem_vread D (a + of_nat n) m = Some (drop n bs))"

lemma vread_length: "vread_laws D \<Longrightarrow> mem_vread D a n = Some bs \<Longrightarrow> length bs = n"
  by (auto simp: vread_laws_def)

lemma vread_split:
  "vread_laws D \<Longrightarrow> mem_vread D a (n + m) = Some bs \<longleftrightarrow>
     length bs = n + m \<and> mem_vread D a n = Some (take n bs) \<and>
     mem_vread D (a + of_nat n) m = Some (drop n bs)"
  by (simp add: vread_laws_def)

text \<open>A part of a block that was read.\<close>

lemma vread_part:
  assumes "vread_laws D" "mem_vread D a m = Some bs" "i + n \<le> m"
  shows "mem_vread D (a + of_nat i) n = Some (take n (drop i bs))"
proof -
  obtain k where m: "m = (i + n) + k" using assms(3) by (metis le_Suc_ex)
  have "mem_vread D a (i + n) = Some (take (i + n) bs)"
    using assms(2) vread_split [OF assms(1), of a "i + n" k bs] by (simp add: m)
  then have "mem_vread D (a + of_nat i) n = Some (drop i (take (i + n) bs))"
    using vread_split [OF assms(1), of a i n] by blast
  then show ?thesis by (simp add: drop_take)
qed

section \<open>Fields of heap objects\<close>

definition read_heap_ptr :: "v8dbg \<Rightarrow> uptr \<Rightarrow> uptr \<Rightarrow> uptr option" where
  "read_heap_ptr D addr off = map_option le_word (mem_vread D (addr + off) 8)"

definition read_heap_smi :: "v8dbg \<Rightarrow> uptr \<Rightarrow> uptr \<Rightarrow> uptr option" where
  "read_heap_smi D addr off = do {
     v \<leftarrow> read_heap_ptr D addr off;
     if \<not> V8_IS_SMI D v then None else Some (V8_SMI_VALUE D v)
   }"

text \<open>A \<open>double\<close> is its 64 bits; only the debugger's formatting looks inside.\<close>

definition read_heap_double :: "v8dbg \<Rightarrow> uptr \<Rightarrow> uptr \<Rightarrow> uptr option" where
  "read_heap_double D addr off = map_option le_word (mem_vread D (addr + off) 8)"

definition read_heap_byte :: "v8dbg \<Rightarrow> uptr \<Rightarrow> uptr \<Rightarrow> byte option" where
  "read_heap_byte D addr off = map_option (\<lambda>bs. ucast (le_word bs)) (mem_vread D (addr + off) 1)"

text \<open>
  \<open>read_heap_maybesmi\<close> on LP64: the low half of a word is shifted, the high half is not.
\<close>

definition read_heap_maybesmi :: "v8dbg \<Rightarrow> uptr \<Rightarrow> uptr \<Rightarrow> uptr option" where
  "read_heap_maybesmi D addr off =
     (case mem_vread D (addr + off) 4 of
        None \<Rightarrow> None
      | Some bs \<Rightarrow>
          let readval = (ucast (le_word bs) :: 32 word);
              readval = (if (addr + off) mod of_nat PTRSZ = 0 then drop_bit 1 readval else readval)
          in Some (ucast readval))"

definition read_typebyte :: "v8dbg \<Rightarrow> uptr \<Rightarrow> byte option" where
  "read_typebyte D addr = do {
     bs \<leftarrow> mem_vread D (addr + gv D V8_OFF_HEAPOBJECT_MAP) 8;
     let mapaddr = le_word bs;
     if \<not> V8_IS_HEAPOBJECT D mapaddr then None
     else read_heap_byte D mapaddr (gv D V8_OFF_MAP_INSTANCE_ATTRIBUTES)
   }"

definition read_size :: "v8dbg \<Rightarrow> uptr \<Rightarrow> uptr option" where
  "read_size D addr = do {
     mapaddr \<leftarrow> read_heap_ptr D addr (gv D V8_OFF_HEAPOBJECT_MAP);
     if \<not> V8_IS_HEAPOBJECT D mapaddr then None
     else do {
       size \<leftarrow> read_heap_byte D mapaddr (gv D V8_OFF_MAP_INSTANCE_SIZE);
       Some (scast (push_bit (unat (gv D V8_PointerSizeLog2)) (ucast size :: 32 word)))
     }
   }"

text \<open>Whether a type byte is the value of one of the \<open>V8_TYPE_*\<close> globals.\<close>

definition is_type :: "v8dbg \<Rightarrow> byte \<Rightarrow> v8_global \<Rightarrow> bool" where
  "is_type D type g \<longleftrightarrow> ucast type = gv D g"

text \<open>The elements of a FixedArray. The buffer's size is computed in \<open>size_t\<close>.\<close>

definition read_heap_array :: "v8dbg \<Rightarrow> uptr \<Rightarrow> memflags \<Rightarrow> uptr list option" where
  "read_heap_array D addr flags =
     (if \<not> V8_IS_HEAPOBJECT D addr then None
      else do {
        type \<leftarrow> read_typebyte D addr;
        if \<not> is_type D type V8_TYPE_FIXEDARRAY then None
        else do {
          len \<leftarrow> read_heap_smi D addr (gv D V8_OFF_FIXEDARRAY_LENGTH);
          if len = 0 then Some []
          else if \<not> zalloc_ok D (unat (len * of_nat PTRSZ)) flags then None
          else do {
            bs \<leftarrow> mem_vread D (addr + gv D V8_OFF_FIXEDARRAY_DATA) (unat (len * of_nat PTRSZ));
            Some (le_words (unat len) bs)
          }
        }
      })"

text \<open>Whether \<open>maybefree\<close> hands the block to \<open>mdb_free\<close>.\<close>

definition maybefree :: "memflags \<Rightarrow> bool" where
  "maybefree memflags \<longleftrightarrow> UM_GC \<notin> memflags"

section \<open>Tables of types and classes\<close>

text \<open>
  The arrays \<open>v8_types[128]\<close> and \<open>v8_frametypes[16]\<close> are the lists of the entries handed out
  so far; the entries behind are zero. A loop over such an array stops at an entry with an empty
  name, and runs past the end of an array that is full: \<open>n\<close> is the number of entries from the
  list's first one to the end of the array, and \<open>None\<close> is the read behind it.
\<close>

definition NTYPES :: nat where "NTYPES = 128"
definition NFRAMETYPES :: nat where "NFRAMETYPES = 16"

fun enum_lookup_str :: "nat \<Rightarrow> v8_enum list \<Rightarrow> 32 word \<Rightarrow> string option \<Rightarrow> string option option" where
  "enum_lookup_str n [] val dflt = (if n = 0 then None else Some dflt)"
| "enum_lookup_str n (ep # eps) val dflt =
     (if n = 0 then None
      else if v8e_name ep = [] then Some dflt
      else if v8e_value ep = val then Some (Some (v8e_name ep))
      else enum_lookup_str (n - 1) eps val dflt)"

text \<open>The entries that a loop to the end of the array goes over.\<close>

definition enum_entries :: "nat \<Rightarrow> v8_enum list \<Rightarrow> v8_enum list option" where
  "enum_entries n enums =
     (let entries = takeWhile (\<lambda>ep. v8e_name ep \<noteq> []) enums in if length entries < n then Some entries else None)"

definition types_end :: "v8dbg \<Rightarrow> bool" where
  "types_end D \<longleftrightarrow> enum_entries NTYPES (v8_types D) \<noteq> None"

fun class_lookup :: "v8_class list \<Rightarrow> string \<Rightarrow> v8_class option" where
  "class_lookup [] name = None"
| "class_lookup (clp # cls) name =
     (if strcmp name (v8c_name clp) = 0 then Some clp else class_lookup cls name)"

fun field_lookup :: "v8_field list \<Rightarrow> string \<Rightarrow> v8_field option" where
  "field_lookup [] name = None"
| "field_lookup (flp # fls) name =
     (if strcmp name (v8f_name flp) = 0 then Some flp else field_lookup fls name)"

definition conf_field_lookup :: "v8_class list \<Rightarrow> string \<Rightarrow> string \<Rightarrow> v8_field option" where
  "conf_field_lookup classes klass field =
     (case class_lookup classes klass of None \<Rightarrow> None
      | Some clp \<Rightarrow> field_lookup (v8c_fields clp) field)"

definition heap_offset :: "v8dbg \<Rightarrow> string \<Rightarrow> string \<Rightarrow> uptr option" where
  "heap_offset D klass field =
     (case conf_field_lookup (v8_classes D) klass field of None \<Rightarrow> None
      | Some flp \<Rightarrow> Some (V8_OFF_HEAP D (v8f_offset flp)))"

section \<open>From a Map to its constructor\<close>

text \<open>
  The loop follows the constructor-or-backpointer field until it leaves the Maps. Nothing
  bounds it: the outer option is its termination.
\<close>

partial_function (option) get_map_constructor_loop :: "v8dbg \<Rightarrow> uptr \<Rightarrow> uptr option option" where
  "get_map_constructor_loop D mapp =
     (case read_heap_ptr D mapp (gv D V8_OFF_MAP_CONSTRUCTOR) of
        None \<Rightarrow> Some None
      | Some constructor_candidate \<Rightarrow>
          (case read_typebyte D constructor_candidate of
             None \<Rightarrow> Some None
           | Some type \<Rightarrow>
               if \<not> is_type D type V8_TYPE_MAP then Some (Some constructor_candidate)
               else get_map_constructor_loop D constructor_candidate))"

definition get_map_constructor :: "v8dbg \<Rightarrow> uptr \<Rightarrow> uptr option option" where
  "get_map_constructor D mapp =
     (if gv D V8_OFF_MAP_CONSTRUCTOR = -1 then Some None else get_map_constructor_loop D mapp)"

section \<open>The legacy writer\<close>

text \<open>
  \<open>bufp\<close> and \<open>lenp\<close>: the text up to the terminator, and the bytes from \<open>*bufp\<close> to the
  end of the buffer. \<open>bvsnprintf\<close> subtracts at most \<open>*lenp\<close>, so the length never wraps.
\<close>

record lbuf =
  lb_text :: string
  lb_len :: nat

definition bvsnprintf :: "lbuf \<Rightarrow> string \<Rightarrow> lbuf" where
  "bvsnprintf b s =
     (if lb_len b = 0 then b
      else let rv = length s; len = min rv (lb_len b) in
        b\<lparr>lb_text := lb_text b @ take (lb_len b - 1) s, lb_len := lb_len b - len\<rparr>)"

definition bsnprintf :: "lbuf \<Rightarrow> string \<Rightarrow> lbuf" where
  "bsnprintf b s = bvsnprintf b s"

lemma bsnprintf_content: "lb_text (bsnprintf b s) = lb_text b @ take (lb_len b - 1) s"
  by (simp add: bsnprintf_def bvsnprintf_def Let_def)

lemma bsnprintf_room: "lb_len (bsnprintf b s) = lb_len b - length s"
  by (simp add: bsnprintf_def bvsnprintf_def Let_def min_def)

interpretation lbuf: sink "\<lambda>b s. Some (bsnprintf b s)" lb_text "\<lambda>b. lb_len b - 1" "\<lambda>_. True"
  by unfold_locales (simp add: bsnprintf_content bsnprintf_room)

section \<open>Lemmas\<close>

lemma read_heap_ptr_eq: "read_heap_ptr D addr off = Some v \<longleftrightarrow>
    (\<exists>bs. mem_vread D (addr + off) 8 = Some bs \<and> v = le_word bs)"
  by (auto simp: read_heap_ptr_def)

lemma read_heap_smi_Some: "read_heap_smi D addr off = Some v \<longleftrightarrow>
    (\<exists>p. read_heap_ptr D addr off = Some p \<and> V8_IS_SMI D p \<and> v = V8_SMI_VALUE D p)"
  by (auto simp: read_heap_smi_def split: Option.bind_splits if_splits)

text \<open>On amd64 a decoded small integer has 32 bits, so sizes computed from it do not wrap.\<close>

lemma smi_value_bound:
  assumes "v8_tags_amd64 D" shows "unat (V8_SMI_VALUE D p) < 2 ^ 32"
proof -
  have "unat p < 2 ^ 64" by (rule unat_lt_64)
  then have "unat p div 2 ^ 32 < 2 ^ 32" by (simp add: div_less_iff_less_mult)
  then show ?thesis
    using smi_shift_amd64 [OF assms]
    by (simp add: V8_SMI_VALUE_def drop_bit_eq_div unat_div)
qed

lemma read_heap_smi_bound:
  "v8_tags_amd64 D \<Longrightarrow> read_heap_smi D addr off = Some v \<Longrightarrow> unat v < 2 ^ 32"
  using smi_value_bound [of D] by (auto simp: read_heap_smi_Some)

lemma unat_times_8: "unat (v :: uptr) < 2 ^ 32 \<Longrightarrow> unat (v * of_nat PTRSZ) = 8 * unat v"
  by (simp add: PTRSZ_def unat_word_ariths)

text \<open>
  What a successful \<open>read_heap_array\<close> returns: as many words as the array's length field
  says, the bytes that start at its data offset.
\<close>

lemma read_heap_array_Some:
  assumes "v8_tags_amd64 D" and "read_heap_array D addr flags = Some elts"
  shows "\<exists>len. read_heap_smi D addr (gv D V8_OFF_FIXEDARRAY_LENGTH) = Some len \<and>
    length elts = unat len \<and>
    (len \<noteq> 0 \<longrightarrow> (\<exists>bs. mem_vread D (addr + gv D V8_OFF_FIXEDARRAY_DATA) (8 * length elts) = Some bs \<and>
      elts = le_words (length elts) bs))"
proof -
  from assms(2) obtain len where
    len: "read_heap_smi D addr (gv D V8_OFF_FIXEDARRAY_LENGTH) = Some len" and
    rest: "(if len = 0 then Some []
      else if \<not> zalloc_ok D (unat (len * of_nat PTRSZ)) flags then None
      else do { bs \<leftarrow> mem_vread D (addr + gv D V8_OFF_FIXEDARRAY_DATA) (unat (len * of_nat PTRSZ));
        Some (le_words (unat len) bs) }) = Some elts"
    by (auto simp: read_heap_array_def split: if_splits Option.bind_splits)
  have sz: "unat (len * of_nat PTRSZ) = 8 * unat len"
    using read_heap_smi_bound [OF assms(1) len] by (rule unat_times_8)
  show ?thesis
    using len rest sz by (auto split: if_splits Option.bind_splits)
qed

lemma types_end_empty: "v8_types D = [] \<Longrightarrow> types_end D"
  by (simp add: types_end_def enum_entries_def NTYPES_def)

text \<open>A lookup in a table that ends has a result, and none leaves a table that does not.\<close>

lemma enum_lookup_ends: "enum_entries n enums \<noteq> None \<Longrightarrow> \<exists>r. enum_lookup_str n enums val dflt = Some r"
  by (induction n enums val dflt rule: enum_lookup_str.induct)
    (auto simp: enum_entries_def Let_def split: if_splits)

lemma enum_lookup_past:
  assumes "enum_entries n enums = None" "\<forall>e\<in>set enums. v8e_value e \<noteq> val"
  shows "enum_lookup_str n enums val dflt = None"
  using assms
  by (induction n enums val dflt rule: enum_lookup_str.induct)
    (auto simp: enum_entries_def Let_def split: if_splits)

lemma type_lookup_ends: "types_end D \<Longrightarrow> \<exists>r. enum_lookup_str NTYPES (v8_types D) val dflt = Some r"
  by (simp add: types_end_def enum_lookup_ends)

lemma enum_lookup_Some_dflt:
  "enum_lookup_str n enums val (Some d) = Some r \<Longrightarrow> r \<noteq> None"
  by (induction n enums val "Some d" rule: enum_lookup_str.induct) (auto split: if_splits)

lemma class_lookup_Some: "class_lookup cls n = Some c \<Longrightarrow> c \<in> set cls \<and> v8c_name c = n"
  by (induction cls n rule: class_lookup.induct) (auto simp: strcmp_zero_iff split: if_splits)

lemma class_lookup_None: "class_lookup cls n = None \<longleftrightarrow> n \<notin> v8c_name ` set cls"
  by (induction cls n rule: class_lookup.induct) (auto simp: strcmp_zero_iff)

lemma field_lookup_Some: "field_lookup fls n = Some f \<Longrightarrow> f \<in> set fls \<and> v8f_name f = n"
  by (induction fls n rule: field_lookup.induct) (auto simp: strcmp_zero_iff split: if_splits)

text \<open>
  The constructor chain: from a Map whose chain of Maps reaches something that is no Map in
  \<open>n\<close> steps, the loop returns that object; a Map that is its own backpointer is followed
  forever.
\<close>

inductive map_chain :: "v8dbg \<Rightarrow> uptr \<Rightarrow> nat \<Rightarrow> uptr \<Rightarrow> bool" for D where
  chain_end: "read_heap_ptr D mapp (gv D V8_OFF_MAP_CONSTRUCTOR) = Some c \<Longrightarrow>
    read_typebyte D c = Some type \<Longrightarrow> \<not> is_type D type V8_TYPE_MAP \<Longrightarrow> map_chain D mapp 0 c"
| chain_step: "read_heap_ptr D mapp (gv D V8_OFF_MAP_CONSTRUCTOR) = Some m \<Longrightarrow>
    read_typebyte D m = Some type \<Longrightarrow> is_type D type V8_TYPE_MAP \<Longrightarrow> map_chain D m n c \<Longrightarrow>
    map_chain D mapp (Suc n) c"

inductive_cases map_chainE: "map_chain D mapp n c"

lemma map_chain_loop: "map_chain D mapp n c \<Longrightarrow> get_map_constructor_loop D mapp = Some (Some c)"
proof (induction rule: map_chain.induct)
  case (chain_end mapp c type)
  then show ?case by (subst get_map_constructor_loop.simps) simp
next
  case (chain_step mapp m type n c)
  then show ?case by (subst get_map_constructor_loop.simps) simp
qed

lemma loop_map_chain:
  assumes ret: "get_map_constructor_loop D mapp = Some r" and "r = Some c"
  shows "\<exists>n. map_chain D mapp n c"
proof -
  have "r = Some c \<longrightarrow> (\<exists>n. map_chain D mapp n c)"
  proof (rule get_map_constructor_loop.raw_induct [where P = "\<lambda>D mapp r. r = Some c \<longrightarrow> (\<exists>n. map_chain D mapp n c)", OF _ ret])
    fix f D mapp r
    assume IH: "\<And>D mapp r. f D mapp = Some r \<Longrightarrow> r = Some c \<longrightarrow> (\<exists>n. map_chain D mapp n c)"
      and eq: "(case read_heap_ptr D mapp (gv D V8_OFF_MAP_CONSTRUCTOR) of
        None \<Rightarrow> Some None
      | Some constructor_candidate \<Rightarrow>
          (case read_typebyte D constructor_candidate of
             None \<Rightarrow> Some None
           | Some type \<Rightarrow>
               if \<not> is_type D type V8_TYPE_MAP then Some (Some constructor_candidate)
               else f D constructor_candidate)) = Some r"
    show "r = Some c \<longrightarrow> (\<exists>n. map_chain D mapp n c)"
      using eq by (auto split: option.splits if_splits) (blast intro: map_chain.intros dest: IH)+
  qed
  with assms(2) show ?thesis by blast
qed

end
