(* ===== verification/V8String.thy ===== *)
theory V8String
  imports Heap
begin

text \<open>
  V8 strings (\<^verbatim>\<open>src/src/mdb_v8_string.c\<close>): loading a String of one of the four
  representations, and writing its characters into a string buffer, in chunks, with a marker
  where they do not fit. The value \<open>None\<close> stands for a failed assertion, a read past the
  bytes a chunk holds, a write outside the buffer, or a loop that does not end. What the
  verbose mode prints on the terminal is the third component of a writer's result.
\<close>

section \<open>Flags\<close>

definition JSSTR_NONE :: "32 word" where "JSSTR_NONE = 0"
definition JSSTR_NUDE :: "32 word" where "JSSTR_NUDE = JSSTR_NONE"
definition JSSTR_FLAGSHIFT :: nat where "JSSTR_FLAGSHIFT = 16"
definition JSSTR_VERBOSE :: "32 word" where "JSSTR_VERBOSE = push_bit JSSTR_FLAGSHIFT 1"
definition JSSTR_QUOTED :: "32 word" where "JSSTR_QUOTED = push_bit JSSTR_FLAGSHIFT 2"
definition JSSTR_ISASCII :: "32 word" where "JSSTR_ISASCII = push_bit JSSTR_FLAGSHIFT 4"
definition JSSTR_MAXDEPTH :: "32 word" where "JSSTR_MAXDEPTH = 512"

definition JSSTR_DEPTH :: "32 word \<Rightarrow> 32 word" where
  "JSSTR_DEPTH f = f AND (push_bit JSSTR_FLAGSHIFT 1 - 1)"

definition JSSTR_BUMPDEPTH :: "32 word \<Rightarrow> 32 word" where
  "JSSTR_BUMPDEPTH f = f + 1"

section \<open>Loading\<close>

definition NODE_OFF_EXTSTR_DATA :: uptr where
  "NODE_OFF_EXTSTR_DATA = of_nat PTRSZ"

datatype v8s_info =
    V8s_noinfo
  | V8s_consinfo (v8s_cons_p1: uptr) (v8s_cons_p2: uptr)
  | V8s_slicedinfo (v8s_sliced_parent: uptr) (v8s_sliced_offset: uptr)
  | V8s_external (v8s_external_data: uptr) (v8s_external_nodedata: uptr)

record v8string =
  v8s_addr :: uptr
  v8s_len :: uptr
  v8s_type :: byte
  v8s_memflags :: memflags
  v8s_infop :: v8s_info

definition v8string_load :: "v8dbg \<Rightarrow> uptr \<Rightarrow> memflags \<Rightarrow> v8string option" where
  "v8string_load D addr memflags = do {
     type \<leftarrow> read_typebyte D addr;
     if \<not> V8_TYPE_STRING D type then None
     else if \<not> V8_STRREP_SEQ D type \<and> \<not> V8_STRREP_CONS D type \<and>
       \<not> V8_STRREP_EXT D type \<and> \<not> V8_STRREP_SLICED D type then None
     else do {
       len \<leftarrow> read_heap_smi D addr (gv D V8_OFF_STRING_LENGTH);
       if \<not> zalloc_ok D 48 memflags then None
       else let strp = \<lparr>v8s_addr = addr, v8s_len = len, v8s_type = type, v8s_memflags = memflags,
                        v8s_infop = V8s_noinfo\<rparr> in
         if V8_STRREP_CONS D type then do {
           p1 \<leftarrow> read_heap_ptr D addr (gv D V8_OFF_CONSSTRING_FIRST);
           p2 \<leftarrow> read_heap_ptr D addr (gv D V8_OFF_CONSSTRING_SECOND);
           Some (strp\<lparr>v8s_infop := V8s_consinfo p1 p2\<rparr>)
         }
         else if V8_STRREP_SLICED D type then do {
           parent \<leftarrow> read_heap_ptr D addr (gv D V8_OFF_SLICEDSTRING_PARENT);
           offset \<leftarrow> read_heap_smi D addr (gv D V8_OFF_SLICEDSTRING_OFFSET);
           Some (strp\<lparr>v8s_infop := V8s_slicedinfo parent offset\<rparr>)
         }
         else if V8_STRREP_EXT D type then do {
           data \<leftarrow> read_heap_ptr D addr (gv D V8_OFF_EXTERNALSTRING_RESOURCE);
           nodedata \<leftarrow> read_heap_ptr D data NODE_OFF_EXTSTR_DATA;
           Some (strp\<lparr>v8s_infop := V8s_external data nodedata\<rparr>)
         }
         else Some strp
     }
   }"

definition v8string_free :: "v8string option \<Rightarrow> bool" where
  "v8string_free strp = (case strp of None \<Rightarrow> False | Some s \<Rightarrow> maybefree (v8s_memflags s))"

definition v8string_length :: "v8string \<Rightarrow> uptr" where
  "v8string_length strp = v8s_len strp"

section \<open>Sequential strings, chunk by chunk\<close>

definition v8s_truncate_marker :: string where
  "v8s_truncate_marker = ''[...]''"

definition v8s_truncate_marker_bytes :: nat where
  "v8s_truncate_marker_bytes = length v8s_truncate_marker"

text \<open>
  The state of a write. Counters that stay below the string's length are natural numbers;
  \<open>v8sw_chunk\<close> holds the bytes the last read put into the array, whose remaining bytes are
  stale: reading them is \<open>None\<close>.
\<close>

record v8string_write_t =
  v8sw_strp :: v8string
  v8sw_v8flags :: "32 word"
  v8sw_charsp :: uptr
  v8sw_readoff :: nat
  v8sw_inbytesperchar :: nat
  v8sw_nreadchars :: nat
  v8sw_sliceoffset :: nat
  v8sw_slicelen :: nat
  v8sw_strb :: mdbv8_strbuf
  v8sw_strflags :: "32 word"
  v8sw_chunk :: "byte list"
  v8sw_chunksz :: nat
  v8sw_chunki :: nat
  v8sw_chunklast :: bool
  v8sw_done :: bool
  v8sw_asciicheck :: bool

datatype v8string_sizecheck = V8SC_DONTKNOW | V8SC_WILLFIT | V8SC_WONTFIT | V8SC_NODANGER

text \<open>The character at position \<open>i\<close> of the chunk, converted to \<open>uint16_t\<close>.\<close>

definition chunk_char :: "v8string_write_t \<Rightarrow> nat \<Rightarrow> 16 word option" where
  "chunk_char w i =
     (if v8sw_v8flags w AND JSSTR_ISASCII \<noteq> 0 then
        (if i < length (v8sw_chunk w) then Some (scast (v8sw_chunk w ! i)) else None)
      else
        (if i + 1 < length (v8sw_chunk w)
         then Some (ucast (v8sw_chunk w ! i) + 256 * ucast (v8sw_chunk w ! (i + 1))) else None))"

function sizecheck_loop ::
    "v8string_write_t \<Rightarrow> nat \<Rightarrow> nat \<Rightarrow> nat \<Rightarrow> nat \<Rightarrow> (nat \<times> nat \<times> nat) option" where
  "sizecheck_loop w i nreadchars noutbytes firstcharbytes =
     (if i < v8sw_chunksz w \<and> v8sw_nreadchars w + nreadchars < v8sw_slicelen w then do {
        chrval \<leftarrow> chunk_char w i;
        let noutbytes' = noutbytes + mdbv8_strbuf_nbytesforchar chrval (v8sw_strflags w);
        sizecheck_loop w (i + v8sw_inbytesperchar w) (nreadchars + 1) noutbytes'
          (if i = v8sw_chunki w then noutbytes' else firstcharbytes)
      }
      else Some (i, noutbytes, firstcharbytes))"
  by pat_completeness auto
termination
  by (relation "measure (\<lambda>(w, i, n, _, _). v8sw_slicelen w - (v8sw_nreadchars w + n))") auto

definition v8string_write_sizecheck :: "v8string_write_t \<Rightarrow> v8string_sizecheck option" where
  "v8string_write_sizecheck w =
     (let outbytesleft = unat (mdbv8_strbuf_bytesleft (v8sw_strb w)); maxoutbytesperchar = 2 in
      if maxoutbytesperchar < outbytesleft \<and>
        v8s_truncate_marker_bytes \<le> outbytesleft - maxoutbytesperchar
      then Some V8SC_NODANGER
      else if \<not> (v8sw_chunki w < v8sw_chunksz w) \<or> \<not> (v8sw_nreadchars w < v8sw_slicelen w) then None
      else do {
        (i, noutbytes, firstcharbytes) \<leftarrow> sizecheck_loop w (v8sw_chunki w) 0 0 0;
        if v8s_truncate_marker_bytes < outbytesleft \<and>
          firstcharbytes \<le> outbytesleft - v8s_truncate_marker_bytes then Some V8SC_NODANGER
        else if outbytesleft < noutbytes then Some V8SC_WONTFIT
        else if i = v8sw_chunksz w \<and> \<not> v8sw_chunklast w then Some V8SC_DONTKNOW
        else Some V8SC_WILLFIT
      })"

text \<open>The inner loop of \<open>v8string_write_seq_chunk\<close> and the code that follows it.\<close>

function seq_chunk_loop :: "nat \<Rightarrow> v8string_write_t \<Rightarrow> v8string_write_t option" where
  "seq_chunk_loop nbytestoread w =
     (if v8sw_nreadchars w < v8sw_slicelen w \<and> v8sw_chunki w < nbytestoread then
        (case v8string_write_sizecheck w of
           None \<Rightarrow> None
         | Some V8SC_WONTFIT \<Rightarrow> do {
             strb \<leftarrow> mdbv8_strbuf_appends (v8sw_strb w) v8s_truncate_marker (v8sw_strflags w);
             Some (w\<lparr>v8sw_strb := strb, v8sw_done := True\<rparr>)
           }
         | Some V8SC_DONTKNOW \<Rightarrow> if v8sw_chunki w \<noteq> 0 then Some w else None
         | Some _ \<Rightarrow>
             if v8sw_v8flags w AND JSSTR_ISASCII = 0 \<and> v8sw_chunki w mod 2 \<noteq> 0 then None
             else do {
               c \<leftarrow> chunk_char w (v8sw_chunki w);
               strb \<leftarrow> mdbv8_strbuf_appendc (v8sw_strb w) c (v8sw_strflags w);
               seq_chunk_loop nbytestoread
                 (w\<lparr>v8sw_readoff := v8sw_readoff w + v8sw_inbytesperchar w, v8sw_strb := strb,
                    v8sw_nreadchars := v8sw_nreadchars w + 1,
                    v8sw_chunki := v8sw_chunki w + v8sw_inbytesperchar w\<rparr>)
             })
      else if v8sw_slicelen w < v8sw_nreadchars w then None
      else if v8sw_nreadchars w = v8sw_slicelen w then Some (w\<lparr>v8sw_done := True\<rparr>)
      else Some w)"
  by pat_completeness auto
termination
  by (relation "measure (\<lambda>(_, w). v8sw_slicelen w - v8sw_nreadchars w)") auto

declare sizecheck_loop.simps [simp del] seq_chunk_loop.simps [simp del]

definition v8string_write_seq_chunk :: "v8dbg \<Rightarrow> v8string_write_t \<Rightarrow> v8string_write_t option" where
  "v8string_write_seq_chunk D w =
     (let inbytesleft =
            (v8sw_inbytesperchar w * (v8sw_slicelen w - v8sw_nreadchars w)) mod 2 ^ 64;
          w = w\<lparr>v8sw_chunklast := \<not> v8sw_chunksz w < inbytesleft\<rparr>;
          nbytestoread = (if v8sw_chunksz w < inbytesleft then v8sw_chunksz w else inbytesleft)
      in case mem_vread D (v8sw_charsp w + of_nat (v8sw_readoff w)) nbytestoread of
           None \<Rightarrow> do {
             strb \<leftarrow> mdbv8_strbuf_sprintf (v8sw_strb w) ''<string (failed to read data)>'';
             Some (w\<lparr>v8sw_strb := strb, v8sw_done := True\<rparr>)
           }
         | Some bytes \<Rightarrow>
             let w = w\<lparr>v8sw_chunk := bytes\<rparr> in
             if v8sw_asciicheck w \<and> bytes = [] then None
             else if v8sw_asciicheck w \<and> bytes ! 0 \<noteq> 0 \<and> \<not> isascii (scast (bytes ! 0)) then do {
               strb \<leftarrow> mdbv8_strbuf_sprintf (v8sw_strb w) ''<string (contents looks invalid)>'';
               Some (w\<lparr>v8sw_strb := strb, v8sw_done := True\<rparr>)
             }
             else seq_chunk_loop nbytestoread (w\<lparr>v8sw_asciicheck := False, v8sw_chunki := 0\<rparr>))"

partial_function (option) seq_write_loop :: "v8dbg \<Rightarrow> v8string_write_t \<Rightarrow> v8string_write_t option" where
  "seq_write_loop D w =
     (if v8sw_done w then Some w
      else Option.bind (v8string_write_seq_chunk D w) (seq_write_loop D))"

type_synonym write_result = "(int \<times> mdbv8_strbuf \<times> string list) option"

definition seq_slice :: "uptr \<Rightarrow> uptr \<Rightarrow> uptr \<Rightarrow> uptr \<times> uptr" where
  "seq_slice nstrchrs usliceoffset uslicelen =
     (let sliceoffset = (if nstrchrs < usliceoffset then nstrchrs else usliceoffset);
          slicelen = (if uslicelen = - 1 then nstrchrs - sliceoffset
                      else if nstrchrs - sliceoffset < uslicelen then nstrchrs - sliceoffset
                      else uslicelen)
      in (sliceoffset, slicelen))"

text \<open>The write state that \<open>v8string_write_seq\<close> starts its loop from.\<close>

definition seq_write_init ::
    "v8dbg \<Rightarrow> v8string \<Rightarrow> mdbv8_strbuf \<Rightarrow> 32 word \<Rightarrow> 32 word \<Rightarrow> uptr \<Rightarrow> uptr \<Rightarrow> v8string_write_t" where
  "seq_write_init D strp strb strflags v8flags sliceoffset slicelen =
     (let ascii = (v8flags AND JSSTR_ISASCII \<noteq> 0);
          inbytesperchar = (if ascii then 1 else 2)
      in \<lparr>v8sw_strp = strp, v8sw_v8flags = v8flags,
          v8sw_charsp = v8s_addr strp + (if ascii then gv D V8_OFF_SEQASCIISTR_CHARS
                                         else gv D V8_OFF_SEQTWOBYTESTR_CHARS),
          v8sw_readoff = unat sliceoffset * inbytesperchar,
          v8sw_inbytesperchar = inbytesperchar, v8sw_nreadchars = 0,
          v8sw_sliceoffset = unat sliceoffset, v8sw_slicelen = unat slicelen,
          v8sw_strb = strb, v8sw_strflags = strflags, v8sw_chunk = [], v8sw_chunksz = 8192,
          v8sw_chunki = 0, v8sw_chunklast = False, v8sw_done = (slicelen = 0),
          v8sw_asciicheck = False\<rparr>)"

definition v8string_write_seq ::
    "v8dbg \<Rightarrow> v8string \<Rightarrow> mdbv8_strbuf \<Rightarrow> 32 word \<Rightarrow> 32 word \<Rightarrow> uptr \<Rightarrow> uptr \<Rightarrow> write_result" where
  "v8string_write_seq D strp strb strflags v8flags usliceoffset uslicelen =
     (let nstrchrs = v8string_length strp;
          (sliceoffset, slicelen) = seq_slice nstrchrs usliceoffset uslicelen;
          out = (if v8flags AND JSSTR_VERBOSE \<noteq> 0 then
                   [''str '' @ fmt_p D (v8s_addr strp) @ '': length '' @ fmt_d nstrchrs @
                    '' chars, slice '' @ fmt_d usliceoffset @ '' length '' @ fmt_d uslicelen @
                    '' (actually '' @ fmt_d sliceoffset @ '' length '' @ fmt_d slicelen @ '')'' @ NL]
                 else [])
      in if \<not> (sliceoffset \<le> nstrchrs \<and> slicelen \<le> nstrchrs \<and> sliceoffset + slicelen \<le> nstrchrs)
         then None
         else do {
           w \<leftarrow> seq_write_loop D (seq_write_init D strp strb strflags v8flags sliceoffset slicelen);
           Some (0, v8sw_strb w, out)
         })"

section \<open>Sliced and external strings\<close>

definition v8string_write_sliced ::
    "v8dbg \<Rightarrow> v8string \<Rightarrow> mdbv8_strbuf \<Rightarrow> 32 word \<Rightarrow> 32 word \<Rightarrow> write_result" where
  "v8string_write_sliced D strp strb strflags v8flags =
     (case v8s_infop strp of
        V8s_slicedinfo parent offset \<Rightarrow>
          let len = v8string_length strp;
              out = (if v8flags AND JSSTR_VERBOSE \<noteq> 0 then
                       [''str '' @ fmt_p D (v8s_addr strp) @ '': slice of '' @ fmt_p D parent @
                        '' from '' @ fmt_d offset @ '' of length '' @ fmt_d len @ NL] else [])
          in (case v8string_load D parent (v8s_memflags strp) of
                None \<Rightarrow> do {
                  strb \<leftarrow> mdbv8_strbuf_sprintf strb ''<sliced string (failed to load parent)>'';
                  Some (0, strb, out)
                }
              | Some pstrp \<Rightarrow>
                  if \<not> V8_STRREP_SEQ D (v8s_type pstrp) then do {
                    strb \<leftarrow> mdbv8_strbuf_sprintf strb
                      ''<sliced string (parent is not a sequential string)>'';
                    Some (0, strb, out)
                  }
                  else do {
                    (rv, strb, out') \<leftarrow> v8string_write_seq D pstrp strb strflags
                      (JSSTR_BUMPDEPTH v8flags) offset len;
                    Some (rv, strb, out @ out')
                  })
      | _ \<Rightarrow> None)"

definition ext_write_init ::
    "v8string \<Rightarrow> uptr \<Rightarrow> mdbv8_strbuf \<Rightarrow> 32 word \<Rightarrow> 32 word \<Rightarrow> v8string_write_t" where
  "ext_write_init strp charsp strb strflags v8flags =
     (let ntotal = v8string_length strp in
      \<lparr>v8sw_strp = strp, v8sw_v8flags = v8flags, v8sw_charsp = charsp,
       v8sw_readoff = 0, v8sw_inbytesperchar = 1, v8sw_nreadchars = 0,
       v8sw_sliceoffset = 0, v8sw_slicelen = unat ntotal, v8sw_strb = strb,
       v8sw_strflags = strflags, v8sw_chunk = [], v8sw_chunksz = 8192, v8sw_chunki = 0,
       v8sw_chunklast = False, v8sw_done = (ntotal = 0), v8sw_asciicheck = True\<rparr>)"

definition v8string_write_ext ::
    "v8dbg \<Rightarrow> v8string \<Rightarrow> mdbv8_strbuf \<Rightarrow> 32 word \<Rightarrow> 32 word \<Rightarrow> write_result" where
  "v8string_write_ext D strp strb strflags v8flags =
     (case v8s_infop strp of
        V8s_external _ charsp \<Rightarrow> do {
          let ntotal = v8string_length strp;
          strb \<leftarrow> (if v8flags AND JSSTR_VERBOSE \<noteq> 0 then
                     mdbv8_strbuf_sprintf strb
                       (''external string: '' @ fmt_p D (v8s_addr strp) @
                        '' (assuming node.js string (length '' @ fmt_d ntotal @ ''))'' @ NL)
                   else Some strb);
          if v8flags AND JSSTR_ISASCII = 0 then do {
            strb \<leftarrow> mdbv8_strbuf_sprintf strb ''<external two-byte string>'';
            Some (0, strb, [])
          }
          else do {
            w \<leftarrow> seq_write_loop D (ext_write_init strp charsp strb strflags v8flags);
            Some (0, v8sw_strb w, [])
          }
        }
      | _ \<Rightarrow> None)"

section \<open>Writing a string\<close>

definition write_type_flags :: "v8dbg \<Rightarrow> byte \<Rightarrow> 32 word \<Rightarrow> 32 word" where
  "write_type_flags D type v8flags =
     (if V8_STRENC_ASCII D type then v8flags OR JSSTR_ISASCII
      else v8flags AND NOT JSSTR_ISASCII)"

text \<open>
  \<open>v8string_write\<close> and \<open>v8string_write_cons\<close> call each other; the depth kept in the
  low half of the flags bounds the recursion.
\<close>

definition write_subflags :: "v8dbg \<Rightarrow> byte \<Rightarrow> 32 word \<Rightarrow> 32 word" where
  "write_subflags D type v8flags =
     JSSTR_BUMPDEPTH (write_type_flags D type v8flags AND NOT JSSTR_QUOTED) AND NOT JSSTR_QUOTED"

definition depth_of :: "32 word \<Rightarrow> nat" where
  "depth_of f = unat (JSSTR_DEPTH f)"

lemma depth_of_mod: "depth_of f = unat f mod 65536"
proof -
  have "(push_bit JSSTR_FLAGSHIFT 1 - 1 :: 32 word) = mask 16"
    by (simp add: JSSTR_FLAGSHIFT_def mask_eq_exp_minus_1 push_bit_eq_mult)
  then have "JSSTR_DEPTH f = take_bit 16 f"
    by (simp only: JSSTR_DEPTH_def take_bit_eq_mask)
  then have "depth_of f = take_bit 16 (unat f)"
    by (simp only: depth_of_def unsigned_take_bit_eq)
  then show ?thesis by (simp add: take_bit_eq_mod)
qed

lemma depth_of_bump: "depth_of f < 65535 \<Longrightarrow> depth_of (JSSTR_BUMPDEPTH f) = depth_of f + 1"
proof -
  assume d: "depth_of f < 65535"
  have "unat (f + 1) mod 65536 = Suc (unat f) mod 65536"
    by (simp add: unat_word_ariths mod_mod_cancel)
  with d show ?thesis by (simp add: depth_of_mod JSSTR_BUMPDEPTH_def mod_Suc)
qed

lemma jsstr_bits:
  "JSSTR_VERBOSE = push_bit 16 1" "JSSTR_QUOTED = push_bit 17 1" "JSSTR_ISASCII = push_bit 18 1"
  by (simp_all add: JSSTR_VERBOSE_def JSSTR_QUOTED_def JSSTR_ISASCII_def JSSTR_FLAGSHIFT_def
      push_bit_eq_mult)

lemma take_bit_clear_high:
  fixes f :: "32 word"
  assumes "k \<le> n" and "n < 32"
  shows "take_bit k (f AND NOT (push_bit n 1)) = take_bit k f"
    and "take_bit k (f OR push_bit n 1) = take_bit k f"
  using assms by (auto simp: bit_simps intro!: bit_word_eqI)

lemma depth_of_clear [simp]:
  "depth_of (f AND NOT JSSTR_QUOTED) = depth_of f"
  "depth_of (f AND NOT JSSTR_ISASCII) = depth_of f"
  "depth_of (f OR JSSTR_ISASCII) = depth_of f"
proof -
  have m: "(push_bit JSSTR_FLAGSHIFT 1 - 1 :: 32 word) = mask 16"
    by (simp add: JSSTR_FLAGSHIFT_def mask_eq_exp_minus_1 push_bit_eq_mult)
  have d: "JSSTR_DEPTH f = take_bit 16 f" for f
    by (simp only: JSSTR_DEPTH_def take_bit_eq_mask m)
  show "depth_of (f AND NOT JSSTR_QUOTED) = depth_of f"
    "depth_of (f AND NOT JSSTR_ISASCII) = depth_of f"
    "depth_of (f OR JSSTR_ISASCII) = depth_of f"
    unfolding depth_of_def d jsstr_bits by (simp_all only: take_bit_clear_high)
qed

lemma depth_of_subflags:
  "depth_of f \<le> 512 \<Longrightarrow> depth_of (write_subflags D type f) = depth_of f + 1"
  by (simp add: write_subflags_def write_type_flags_def depth_of_bump)

definition write_rank :: "32 word \<Rightarrow> nat" where
  "write_rank f = (if 512 < depth_of f then 0 else 2 * (600 - depth_of f))"

definition cons_rank :: "32 word \<Rightarrow> nat" where
  "cons_rank f = Suc (write_rank (JSSTR_BUMPDEPTH f))"

lemma depth_guard: "JSSTR_MAXDEPTH < JSSTR_DEPTH f \<longleftrightarrow> 512 < depth_of f"
  by (simp add: depth_of_def JSSTR_MAXDEPTH_def word_less_nat_alt)

lemma rank_subflags:
  "\<not> JSSTR_MAXDEPTH < JSSTR_DEPTH f \<Longrightarrow> cons_rank (write_subflags D type f) < write_rank f"
  unfolding depth_guard
  by (auto simp: cons_rank_def write_rank_def depth_of_subflags depth_of_bump)

function (sequential)
  v8string_write ::
    "v8dbg \<Rightarrow> v8string \<Rightarrow> mdbv8_strbuf \<Rightarrow> 32 word \<Rightarrow> 32 word \<Rightarrow> write_result" and
  v8string_write_cons ::
    "v8dbg \<Rightarrow> v8string \<Rightarrow> mdbv8_strbuf \<Rightarrow> 32 word \<Rightarrow> 32 word \<Rightarrow> write_result" where
  "v8string_write D strp strb strflags v8flags =
     (if JSSTR_MAXDEPTH < JSSTR_DEPTH v8flags then do {
        strb \<leftarrow> mdbv8_strbuf_sprintf strb ''<maximum depth exceeded>'';
        Some (- 1, strb, [])
      }
      else do {
        let type = v8s_type strp;
        let quoted = (v8flags AND JSSTR_QUOTED \<noteq> 0);
        strb \<leftarrow> (if quoted then
                   map_option (\<lambda>b. mdbv8_strbuf_reserve b 1) (mdbv8_strbuf_appendc strb 34 strflags)
                 else Some strb);
        let flags = write_subflags D type v8flags;
        (err, strb, out) \<leftarrow>
          (if V8_STRREP_SEQ D type then v8string_write_seq D strp strb strflags flags 0 (- 1)
           else if V8_STRREP_CONS D type then v8string_write_cons D strp strb strflags flags
           else if V8_STRREP_EXT D type then v8string_write_ext D strp strb strflags flags
           else if V8_STRREP_SLICED D type then v8string_write_sliced D strp strb strflags flags
           else None);
        strb \<leftarrow> (if quoted then
                   mdbv8_strbuf_appendc (mdbv8_strbuf_reserve strb (- 1)) 34 strflags
                 else Some strb);
        Some (err, strb, out)
      })"
| "v8string_write_cons D strp strb strflags v8flags =
     (case v8s_infop strp of
        V8s_consinfo p1 p2 \<Rightarrow>
          let out = (if v8flags AND JSSTR_VERBOSE \<noteq> 0 then
                       [''str '' @ fmt_p D (v8s_addr strp) @ '': cons of '' @ fmt_p D p1 @
                        '' and '' @ fmt_p D p2 @ NL] else [])
          in (case (v8string_load D p1 (v8s_memflags strp), v8string_load D p2 (v8s_memflags strp)) of
                (Some str1p, Some str2p) \<Rightarrow>
                  do {
                    let flags = JSSTR_BUMPDEPTH v8flags;
                    (rv, strb, out1) \<leftarrow> v8string_write D str1p strb strflags flags;
                    if rv = 0 then do {
                      (rv, strb, out2) \<leftarrow> v8string_write D str2p strb strflags flags;
                      Some (rv, strb, out @ out1 @ out2)
                    }
                    else Some (rv, strb, out @ out1)
                  }
              | _ \<Rightarrow> do {
                  strb \<leftarrow> mdbv8_strbuf_sprintf strb ''<string (failed to read cons ptrs)>'';
                  Some (0, strb, out)
                })
      | _ \<Rightarrow> None)"
  by pat_completeness auto

termination
  by (relation "measure (\<lambda>x. case x of Inl (_, _, _, _, f) \<Rightarrow> write_rank f
                                    | Inr (_, _, _, _, f) \<Rightarrow> cons_rank f)")
     (auto simp: rank_subflags, simp_all add: cons_rank_def)

declare v8string_write.simps [simp del] v8string_write_cons.simps [simp del]

end
