(* ===== verification/Sample.thy ===== *)
theory Sample
  imports Heap
begin

text \<open>
  A concrete target for the witnesses: a debugger over a memory given by its 64-bit words,
  with the constants of a V8 3.14 on amd64.
\<close>

definition sample_byte :: "(uptr \<Rightarrow> uptr) \<Rightarrow> uptr \<Rightarrow> byte" where
  "sample_byte m a = ucast (drop_bit (8 * unat (a AND 7)) (m (a AND NOT 7)))"

definition sample_vread :: "(uptr \<Rightarrow> uptr) \<Rightarrow> uptr \<Rightarrow> nat \<Rightarrow> byte list option" where
  "sample_vread m a n = Some (map (\<lambda>i. sample_byte m (a + of_nat i)) [0..<n])"

fun words_at :: "(uptr \<times> uptr) list \<Rightarrow> uptr \<Rightarrow> uptr" where
  "words_at [] a = 0"
| "words_at ((b, v) # ws) a = (if a = b then v else words_at ws a)"

fun values_at :: "(v8_global \<times> uptr) list \<Rightarrow> v8_global \<Rightarrow> uptr" where
  "values_at [] g = -1"
| "values_at ((h, v) # vs) g = (if g = h then v else values_at vs g)"

definition sample_values :: "(v8_global \<times> uptr) list" where
  "sample_values =
     [(V8_HeapObjectTag, 1), (V8_HeapObjectTagMask, 3), (V8_SmiTag, 0), (V8_SmiTagMask, 1),
      (V8_SmiValueShift, 1), (V8_SmiShiftSize, 31), (V8_PointerSizeLog2, 3),
      (V8_IsNotStringMask, 128), (V8_StringTag, 0), (V8_StringEncodingMask, 4),
      (V8_AsciiStringTag, 4), (V8_StringRepresentationMask, 3), (V8_SeqStringTag, 0),
      (V8_ConsStringTag, 1), (V8_ExternalStringTag, 2), (V8_SlicedStringTag, 3),
      (V8_TYPE_FIXEDARRAY, 164), (V8_TYPE_MAP, 129), (V8_TYPE_JSARRAY, 170),
      (V8_TYPE_JSFUNCTION, 175),
      (V8_OFF_HEAPOBJECT_MAP, -1), (V8_OFF_MAP_INSTANCE_ATTRIBUTES, 7),
      (V8_OFF_FIXEDARRAY_LENGTH, 7), (V8_OFF_FIXEDARRAY_DATA, 15), (V8_OFF_STRING_LENGTH, 7),
      (V8_OFF_SEQASCIISTR_CHARS, 15), (V8_OFF_CONSSTRING_FIRST, 15),
      (V8_OFF_CONSSTRING_SECOND, 23), (V8_OFF_MAP_CONSTRUCTOR, 23),
      (V8_OFF_JSARRAY_LENGTH, 23), (V8_OFF_JSOBJECT_ELEMENTS, 15),
      (V8_CONTEXT_NCOMMON, 4), (V8_CONTEXT_IDX_CLOSURE, 0), (V8_CONTEXT_IDX_PREV, 1),
      (V8_CONTEXT_IDX_EXT, 2), (V8_CONTEXT_IDX_GLOBAL, 3), (V8_SCOPEINFO_IDX_NPARAMS, 1),
      (V8_SCOPEINFO_IDX_NSTACKLOCALS, 2), (V8_SCOPEINFO_IDX_NCONTEXTLOCALS, 3),
      (V8_SCOPEINFO_IDX_FIRST_VARS, 4), (V8_TYPE_ODDBALL, 131), (V8_TYPE_JSOBJECT, 172),
      (V8_TYPE_JSBOUNDFUNCTION, 176), (V8_OFF_JSBOUNDFUNCTION_BOUND_TARGET_FUNCTION, 23),
      (V8_OFF_JSBOUNDFUNCTION_BOUND_THIS, 31), (V8_OFF_JSBOUNDFUNCTION_BOUND_ARGUMENTS, 39),
      (V8_OFF_JSOBJECT_PROPERTIES, 7), (V8_OFF_MAP_INSTANCE_DESCRIPTORS, 31),
      (V8_OFF_MAP_BIT_FIELD3, 39), (V8_OFF_MAP_INSTANCE_SIZE, 47), (V8_OFF_MAP_INOBJECT_PROPERTIES, 55),
      (V8_DICT_SHIFT, 24), (V8_DICT_START_INDEX, 3), (V8_DICT_PREFIX_SIZE, 2), (V8_DICT_ENTRY_SIZE, 3),
      (V8_PROP_IDX_FIRST, 2), (V8_PROP_TYPE_FIELD, 1), (V8_PROP_TYPE_MASK, 7), (V8_PROP_DESC_KEY, 0),
      (V8_PROP_DESC_DETAILS, 1), (V8_PROP_DESC_VALUE, 2), (V8_PROP_DESC_SIZE, 3)]"

definition sample_dbg :: "(uptr \<times> uptr) list \<Rightarrow> v8dbg" where
  "sample_dbg ws =
     \<lparr>mem_vread = sample_vread (words_at ws), zalloc_ok = (\<lambda>_ _. True),
      fmt_p = (\<lambda>w. digits_of 16 (unat w)), fmt_e = (\<lambda>_. ''0.000000e+00''),
      fmt_Y = (\<lambda>_. ''1970 Jan  1 00:00:00''), mem_readstr = (\<lambda>_ _. None),
      gv = values_at sample_values, v8_classes = [],
      v8_types = [\<lparr>v8e_name = ''JSObject'', v8e_value = 172\<rparr>, \<lparr>v8e_name = ''JSArray'', v8e_value = 170\<rparr>,
        \<lparr>v8e_name = ''Oddball'', v8e_value = 131\<rparr>],
      v8_frametypes = [],
      v8_major = 3, v8_minor = 14, v8_build = 5, v8_patch = 9\<rparr>"

lemma sample_types: "v8_types (sample_dbg ws) =
    [\<lparr>v8e_name = ''JSObject'', v8e_value = 172\<rparr>, \<lparr>v8e_name = ''JSArray'', v8e_value = 170\<rparr>,
     \<lparr>v8e_name = ''Oddball'', v8e_value = 131\<rparr>]"
  by (simp add: sample_dbg_def)

lemma sample_types_end [simp]: "types_end (sample_dbg ws)"
  by (simp add: types_end_def enum_entries_def sample_types NTYPES_def)

lemma length_sample_vread: "sample_vread m a n = Some bs \<Longrightarrow> length bs = n"
  by (auto simp: sample_vread_def)

lemma sample_vread_split:
  "sample_vread m a (n + k) = Some bs \<longleftrightarrow>
     length bs = n + k \<and> sample_vread m a n = Some (take n bs) \<and>
     sample_vread m (a + of_nat n) k = Some (drop n bs)"
proof -
  let ?f = "\<lambda>i. sample_byte m (a + of_nat i)"
  have shift: "map (\<lambda>i. sample_byte m (a + of_nat n + of_nat i)) [0..<k] = map ?f [n..<n + k]"
    by (rule nth_equalityI) (simp_all add: add.assoc)
  have "map ?f [0..<n + k] = map ?f [0..<n] @ map ?f [n..<n + k]"
    by (simp flip: map_append upt_add_eq_append)
  moreover have "xs @ ys = bs \<longleftrightarrow> length bs = length xs + length ys \<and> xs = take (length xs) bs \<and> ys = drop (length xs) bs"
    for xs ys :: "byte list" by (metis append_eq_conv_conj append_take_drop_id length_append)
  ultimately have "map ?f [0..<n + k] = bs \<longleftrightarrow>
      length bs = n + k \<and> map ?f [0..<n] = take n bs \<and> map ?f [n..<n + k] = drop n bs"
    by (simp del: upt_Suc)
  then show ?thesis
    unfolding sample_vread_def option.inject shift .
qed

lemma sample_laws [simp]: "vread_laws (sample_dbg ws)"
  unfolding vread_laws_def
  by (simp add: sample_dbg_def sample_vread_split length_sample_vread)

lemma sample_tags [simp]: "v8_tags_amd64 (sample_dbg ws)"
  by (simp add: v8_tags_amd64_def sample_dbg_def sample_values_def)

lemma sample_sel [simp]:
  "mem_vread (sample_dbg ws) = sample_vread (words_at ws)"
  "zalloc_ok (sample_dbg ws) n f"
  "gv (sample_dbg ws) = values_at sample_values"
  by (simp_all add: sample_dbg_def)

text \<open>An aligned word of the sample memory is read back as it was given.\<close>

lemma le_word_bytes:
  assumes "k \<le> 8"
  shows "le_word (map (\<lambda>i. ucast (drop_bit (8 * i) w)) [k..<8]) = drop_bit (8 * k) w"
  using assms
proof (induction "8 - k" arbitrary: k)
  case 0
  then have "k = 8" by simp
  moreover have "drop_bit 64 w = 0" by (rule bit_word_eqI) (simp add: bit_simps)
  ultimately show ?case by simp
next
  case (Suc n)
  then have k: "k < 8" and IH: "le_word (map (\<lambda>i. ucast (drop_bit (8 * i) w)) [Suc k..<8]) = drop_bit (8 * Suc k) w"
    by auto
  let ?x = "drop_bit (8 * k) w"
  have u: "ucast (ucast ?x :: byte) = take_bit 8 ?x"
    by (rule bit_word_eqI) (auto simp: bit_simps)
  have "[k..<8] = k # [Suc k..<8]" using k by (simp add: upt_rec)
  then have "le_word (map (\<lambda>i. ucast (drop_bit (8 * i) w)) [k..<8]) = take_bit 8 ?x + 256 * drop_bit 8 ?x"
    using IH u by (simp add: add.commute)
  also have "256 * drop_bit 8 ?x = push_bit 8 (drop_bit 8 ?x)" by (simp add: push_bit_eq_mult)
  finally show ?case using bits_ident [of 8 ?x] by (simp add: add.commute)
qed

lemma sample_byte_aligned:
  fixes a :: uptr
  assumes "a AND 7 = 0" and "i < 8"
  shows "sample_byte m (a + of_nat i) = ucast (drop_bit (8 * i) (m a))"
proof -
  let ?i = "of_nat i :: uptr"
  have "?i \<in> {0, 1, 2, 3, 4, 5, 6, 7}"
    using assms(2) by (auto simp: less_Suc_eq numeral_eq_Suc)
  then have i7: "?i AND 7 = ?i" "?i AND NOT 7 = 0" by auto
  then have "a AND ?i = (a AND 7) AND ?i" by (metis and.assoc and.commute)
  then have "a AND ?i = 0" by (simp add: assms(1))
  then have sum: "a + ?i = a OR ?i" by (rule disjunctive_add_eq_or)
  have "a AND NOT 7 = a"
  proof -
    have "a = (a AND 7) OR (a AND NOT 7)" by (rule bit_word_eqI) (auto simp: bit_simps)
    then show ?thesis by (simp add: assms(1))
  qed
  then have "(a + ?i) AND NOT 7 = a" "(a + ?i) AND 7 = ?i"
    unfolding sum using i7 assms(1) by (simp_all add: bit.conj_disj_distrib2)
  moreover have "unat ?i = i" using assms(2) by (simp add: unat_of_nat_lt)
  ultimately show ?thesis by (simp add: sample_byte_def)
qed

lemma sample_word:
  assumes "a AND 7 = 0"
  shows "sample_vread m a 8 = Some (map (\<lambda>i. ucast (drop_bit (8 * i) (m a))) [0..<8])"
  unfolding sample_vread_def option.inject by (rule map_cong) (simp_all add: sample_byte_aligned [OF assms])

lemma sample_ptr:
  assumes "(a + off) AND 7 = 0"
  shows "read_heap_ptr (sample_dbg ws) a off = Some (words_at ws (a + off))"
  using le_word_bytes [of 0 "words_at ws (a + off)"]
  by (simp add: read_heap_ptr_def sample_word [OF assms])

lemma sample_smi:
  assumes "(a + off) AND 7 = 0"
  shows "read_heap_smi (sample_dbg ws) a off =
    (if words_at ws (a + off) AND 1 = 0 then Some (drop_bit 32 (words_at ws (a + off))) else None)"
  using smi_shift_amd64 [OF sample_tags, of ws]
  by (simp add: read_heap_smi_def sample_ptr [OF assms] V8_IS_SMI_def V8_SMI_VALUE_def sample_values_def)

lemma ucast_byte [simp]: "(ucast (ucast (b :: byte) :: uptr) :: byte) = b"
  by (rule bit_word_eqI) (auto simp: bit_simps)

lemma sample_typebyte:
  assumes "(a - 1) AND 7 = 0" and "words_at ws (a - 1) AND 3 = 1" and "(words_at ws (a - 1) + 7) AND 7 = 0"
  shows "read_typebyte (sample_dbg ws) a = Some (ucast (words_at ws (words_at ws (a - 1) + 7)))"
proof -
  have b: "sample_byte m c = ucast (m c)" if "c AND 7 = 0" for m :: "uptr \<Rightarrow> uptr" and c
    using sample_byte_aligned [OF that, of 0 m] by simp
  have g: "values_at sample_values V8_OFF_HEAPOBJECT_MAP = - 1" "values_at sample_values V8_HeapObjectTag = 1"
    "values_at sample_values V8_HeapObjectTagMask = 3" "values_at sample_values V8_OFF_MAP_INSTANCE_ATTRIBUTES = 7"
    by (simp_all add: sample_values_def)
  show ?thesis
    using assms le_word_bytes [of 0 "words_at ws (a - 1)"] sample_word [of "a - 1" "words_at ws"]
    by (simp add: read_typebyte_def g V8_IS_HEAPOBJECT_def read_heap_byte_def b)
       (simp add: sample_vread_def b)
qed

text \<open>A block of aligned words.\<close>

lemma and_7_plus_8: "a AND 7 = 0 \<Longrightarrow> (a + 8) AND 7 = (0 :: uptr)"
proof -
  have m: "w AND 7 = 0 \<longleftrightarrow> unat w mod 8 = 0" for w :: uptr
  proof -
    have "w AND 7 = take_bit 3 w" by (simp add: take_bit_eq_mask mask_eq_exp_minus_1)
    then show ?thesis by (simp add: word_unat_eq_iff take_bit_eq_mod unat_mod)
  qed
  have "unat (a + 8) mod 8 = (unat a + 8) mod 2 ^ 64 mod 8" by (simp add: unat_word_ariths)
  also have "\<dots> = unat a mod 8" by (simp add: mod_mod_cancel)
  finally show "a AND 7 = 0 \<Longrightarrow> (a + 8) AND 7 = 0" unfolding m by simp
qed

lemma sample_words:
  assumes "a AND 7 = 0"
  shows "\<exists>bs. mem_vread (sample_dbg ws) a (8 * n) = Some bs \<and>
    le_words n bs = map (\<lambda>i. words_at ws (a + 8 * of_nat i)) [0..<n]"
  using assms
proof (induction n arbitrary: a)
  case 0
  then show ?case by (simp add: sample_vread_def)
next
  case (Suc n)
  let ?one = "map (\<lambda>i. ucast (drop_bit (8 * i) (words_at ws a))) [0..<8] :: byte list"
  obtain bs where bs: "mem_vread (sample_dbg ws) (a + 8) (8 * n) = Some bs"
    "le_words n bs = map (\<lambda>i. words_at ws (a + 8 + 8 * of_nat i)) [0..<n]"
    using Suc.IH [OF and_7_plus_8 [OF Suc.prems]] by blast
  have len: "length bs = 8 * n" using vread_length [OF sample_laws bs(1)] .
  have "mem_vread (sample_dbg ws) a (8 + 8 * n) = Some (?one @ bs)"
    by (rule vread_split [OF sample_laws, THEN iffD2])
      (use bs(1) len sample_word [OF Suc.prems] in simp_all)
  moreover have "le_words (Suc n) (?one @ bs) = words_at ws a # le_words n bs"
    using le_word_bytes [of 0 "words_at ws a"] by simp
  moreover have "words_at ws a # map (\<lambda>i. words_at ws (a + 8 + 8 * of_nat i)) [0..<n] =
      map (\<lambda>i. words_at ws (a + 8 * of_nat i)) [0..<Suc n]"
    by (rule nth_equalityI) (auto simp: nth_Cons add.assoc simp del: upt_Suc split: nat.split)
  ultimately show ?case using bs(2) by (metis mult_Suc_right)
qed

text \<open>An array object in such a memory.\<close>

lemma sample_heap_array:
  assumes "(a - 1) AND 7 = 0" "a AND 3 = 1" "words_at ws (a - 1) AND 3 = 1" "(words_at ws (a - 1) + 7) AND 7 = 0"
    and "words_at ws (words_at ws (a - 1) + 7) = 164" "(a + 7) AND 7 = 0" "(a + 15) AND 7 = 0"
    and "words_at ws (a + 7) = push_bit 32 (of_nat n)" "0 < n" "n < 2 ^ 16"
  shows "read_heap_array (sample_dbg ws) a flags = Some (map (\<lambda>i. words_at ws (a + 15 + 8 * of_nat i)) [0..<n])"
proof -
  have ty: "read_typebyte (sample_dbg ws) a = Some 164"
    using sample_typebyte [OF assms(1,3,4)] assms(5) by simp
  have nn: "(of_nat n :: uptr) \<noteq> 0" "unat (of_nat n :: uptr) = n" "unat (of_nat n * of_nat PTRSZ :: uptr) = 8 * n"
    using assms(9,10) unat_times_8 [of "of_nat n"] by (auto simp: unat_of_nat_lt word_unat_eq_iff)
  have "push_bit 32 (of_nat n) AND 1 = (0 :: uptr)" by (rule smi_and_1_of_shift)
  moreover have "drop_bit 32 (push_bit 32 (of_nat n)) = (of_nat n :: uptr)"
  proof (rule bit_word_eqI)
    fix k assume k: "k < LENGTH(64)"
    have "take_bit 32 (of_nat n :: uptr) = of_nat n"
      using assms(10) by (simp add: word_unat_eq_iff unsigned_take_bit_eq nn(2) take_bit_nat_eq_self_iff)
    then have "bit (of_nat n :: uptr) k \<Longrightarrow> k < 32" by (metis bit_take_bit_iff)
    then show "bit (drop_bit 32 (push_bit 32 (of_nat n :: uptr))) k = bit (of_nat n :: uptr) k"
      using k by (auto simp: bit_simps)
  qed
  ultimately have smi: "read_heap_smi (sample_dbg ws) a 7 = Some (of_nat n)"
    using sample_smi [OF assms(6)] assms(8) by simp
  obtain bs where "mem_vread (sample_dbg ws) (a + 15) (8 * n) = Some bs"
    "le_words n bs = map (\<lambda>i. words_at ws (a + 15 + 8 * of_nat i)) [0..<n]"
    using sample_words [OF assms(7)] by blast
  then show ?thesis
    using ty smi nn assms(2)
    by (simp add: read_heap_array_def V8_IS_HEAPOBJECT_def is_type_def sample_values_def)
qed

end
