(* ===== verification/StringWrite.thy ===== *)
theory StringWrite
  imports V8String Sample
begin

text \<open>
  What writing a string produces. The specification \<open>truncated\<close> says it on the list of the
  string's characters and the space left, with no chunks; the lemmas follow the chunked
  writer of theory V8String through its size check, its inner loop and its outer loop.
\<close>

section \<open>The specification\<close>

definition nbytes :: "32 word \<Rightarrow> 16 word list \<Rightarrow> nat" where
  "nbytes flags cs = sum_list (map (\<lambda>c. mdbv8_strbuf_nbytesforchar c flags) cs)"

definition escaped_all :: "32 word \<Rightarrow> 16 word list \<Rightarrow> string" where
  "escaped_all flags cs = concat (map (\<lambda>c. escaped c flags) cs)"

fun truncated :: "32 word \<Rightarrow> nat \<Rightarrow> 16 word list \<Rightarrow> string" where
  "truncated flags left [] = []"
| "truncated flags left (c # cs) =
     (if mdbv8_strbuf_nbytesforchar c flags + v8s_truncate_marker_bytes \<le> left \<or>
         nbytes flags (c # cs) \<le> left
      then escaped c flags @ truncated flags (left - length (escaped c flags)) cs
      else take left v8s_truncate_marker)"

lemma marker_bytes [simp]: "v8s_truncate_marker_bytes = 5"
  by (simp add: v8s_truncate_marker_bytes_def v8s_truncate_marker_def)

lemma nbytes_simps [simp]:
  "nbytes flags [] = 0"
  "nbytes flags (c # cs) = mdbv8_strbuf_nbytesforchar c flags + nbytes flags cs"
  "nbytes flags (cs @ ds) = nbytes flags cs + nbytes flags ds"
  by (simp_all add: nbytes_def)

lemma escaped_all_simps [simp]:
  "escaped_all flags [] = []"
  "escaped_all flags (c # cs) = escaped c flags @ escaped_all flags cs"
  "escaped_all flags (cs @ ds) = escaped_all flags cs @ escaped_all flags ds"
  by (simp_all add: escaped_all_def)

lemma length_le_nbytes: "length cs \<le> nbytes flags cs"
proof (induction cs)
  case (Cons c cs)
  then show ?case using nbytesforchar_range [of c flags] by simp
qed simp

lemma escaped_all_le: "length (escaped_all flags cs) \<le> nbytes flags cs"
proof (induction cs)
  case (Cons c cs)
  then show ?case using escaped_le_nbytes [of c flags] by simp
qed simp

text \<open>Everything is written when it is known to fit.\<close>

lemma truncated_fits: "nbytes flags cs \<le> left \<Longrightarrow> truncated flags left cs = escaped_all flags cs"
proof (induction cs arbitrary: left)
  case (Cons c cs)
  then have "nbytes flags cs \<le> left - length (escaped c flags)"
    using escaped_le_nbytes [of c flags] by simp
  with Cons show ?case by simp
qed simp

text \<open>Otherwise what is written is a prefix of the characters and then the marker.\<close>

lemma truncated_cases:
  "truncated flags left cs = escaped_all flags cs \<or>
   (\<exists>k < length cs. truncated flags left cs =
      escaped_all flags (take k cs) @
      take (left - length (escaped_all flags (take k cs))) v8s_truncate_marker)"
proof (induction cs arbitrary: left)
  case (Cons c cs)
  let ?e = "escaped c flags"
  show ?case
  proof (cases "mdbv8_strbuf_nbytesforchar c flags + 5 \<le> left \<or> nbytes flags (c # cs) \<le> left")
    case True
    from Cons.IH [of "left - length ?e"] show ?thesis
    proof (elim disjE exE conjE)
      assume "truncated flags (left - length ?e) cs = escaped_all flags cs"
      with True show ?thesis by simp
    next
      fix k assume "k < length cs" "truncated flags (left - length ?e) cs = escaped_all flags (take k cs) @
        take (left - length ?e - length (escaped_all flags (take k cs))) v8s_truncate_marker"
      with True show ?thesis by (intro disjI2 exI [of _ "Suc k"]) auto
    qed
  next
    case False
    then show ?thesis by (intro disjI2 exI [of _ 0]) auto
  qed
qed simp

lemma truncated_bound: "length (truncated flags left cs) \<le> left"
proof (induction cs arbitrary: left)
  case (Cons c cs)
  show ?case
    using Cons.IH [of "left - length (escaped c flags)"] escaped_le_nbytes [of c flags]
      escaped_all_le [of flags cs]
    by auto
qed simp

text \<open>The marker is complete unless the string started with less space than it needs.\<close>

lemma truncated_marker:
  "5 \<le> left \<Longrightarrow> truncated flags left cs = escaped_all flags cs \<or>
   (\<exists>k < length cs. truncated flags left cs = escaped_all flags (take k cs) @ v8s_truncate_marker)"
proof (induction cs arbitrary: left)
  case (Cons c cs)
  let ?e = "escaped c flags"
  consider (room) "mdbv8_strbuf_nbytesforchar c flags + 5 \<le> left" | (fits) "nbytes flags (c # cs) \<le> left"
    | (cut) "\<not> mdbv8_strbuf_nbytesforchar c flags + 5 \<le> left" "\<not> nbytes flags (c # cs) \<le> left" by blast
  then show ?case
  proof cases
    case room
    then have "5 \<le> left - length ?e" using escaped_le_nbytes [of c flags] by simp
    from Cons.IH [OF this] show ?thesis
    proof (elim disjE exE conjE)
      assume "truncated flags (left - length ?e) cs = escaped_all flags cs"
      with room show ?thesis by simp
    next
      fix k assume "k < length cs"
        "truncated flags (left - length ?e) cs = escaped_all flags (take k cs) @ v8s_truncate_marker"
      with room show ?thesis by (intro disjI2 exI [of _ "Suc k"]) auto
    qed
  next
    case fits
    then show ?thesis using truncated_fits by blast
  next
    case cut
    then show ?thesis using Cons.prems
      by (intro disjI2 exI [of _ 0]) (auto simp: v8s_truncate_marker_def)
  qed
qed simp

section \<open>The characters of a chunk\<close>

fun decode2 :: "byte list \<Rightarrow> 16 word list" where
  "decode2 (a # b # bs) = (ucast a + 256 * ucast b) # decode2 bs"
| "decode2 _ = []"

definition char_size :: "32 word \<Rightarrow> nat" where
  "char_size v8flags = (if v8flags AND JSSTR_ISASCII \<noteq> 0 then 1 else 2)"

definition decode_chars :: "32 word \<Rightarrow> byte list \<Rightarrow> 16 word list" where
  "decode_chars v8flags bs =
     (if v8flags AND JSSTR_ISASCII \<noteq> 0 then map scast bs else decode2 bs)"

lemma length_decode2: "length (decode2 bs) = length bs div 2"
  by (induction bs rule: decode2.induct) auto

lemma nth_decode2: "2 * j + 1 < length bs \<Longrightarrow>
  decode2 bs ! j = ucast (bs ! (2 * j)) + 256 * ucast (bs ! (2 * j + 1))"
proof (induction bs arbitrary: j rule: decode2.induct)
  case (1 a b bs)
  then show ?case by (cases j) auto
qed auto

lemma decode2_append: "even (length xs) \<Longrightarrow> decode2 (xs @ ys) = decode2 xs @ decode2 ys"
  by (induction xs rule: decode2.induct) auto

lemma length_decode_chars: "length bs = char_size f * k \<Longrightarrow> length (decode_chars f bs) = k"
  by (auto simp: decode_chars_def char_size_def length_decode2)

lemma decode_chars_append:
  "length xs = char_size f * k \<Longrightarrow> decode_chars f (xs @ ys) = decode_chars f xs @ decode_chars f ys"
  by (auto simp: decode_chars_def char_size_def decode2_append)

lemma char_size_pos [simp]: "0 < char_size f" "char_size f \<noteq> 0"
  by (auto simp: char_size_def)

lemma chunk_char_decode:
  assumes "length (v8sw_chunk w) = char_size (v8sw_v8flags w) * k" and "j < k"
  shows "chunk_char w (char_size (v8sw_v8flags w) * j) =
    Some (decode_chars (v8sw_v8flags w) (v8sw_chunk w) ! j)"
  using assms by (auto simp: chunk_char_def char_size_def decode_chars_def nth_decode2)

section \<open>One chunk\<close>

text \<open>
  A chunk that holds the characters \<open>ks\<close> from character number \<open>base\<close> of the slice, and
  position \<open>j\<close> in it.
\<close>

definition chunk_at :: "v8string_write_t \<Rightarrow> nat \<Rightarrow> 16 word list \<Rightarrow> bool" where
  "chunk_at w base ks \<longleftrightarrow>
     v8sw_inbytesperchar w = char_size (v8sw_v8flags w) \<and>
     decode_chars (v8sw_v8flags w) (v8sw_chunk w) = ks \<and>
     length (v8sw_chunk w) = char_size (v8sw_v8flags w) * length ks \<and>
     v8sw_chunksz w = 8192 \<and>
     (if v8sw_chunklast w
      then base + length ks = v8sw_slicelen w \<and> char_size (v8sw_v8flags w) * length ks \<le> 8192
      else char_size (v8sw_v8flags w) * length ks = 8192 \<and> base + length ks < v8sw_slicelen w)"

definition chunk_pos :: "v8string_write_t \<Rightarrow> nat \<Rightarrow> nat \<Rightarrow> bool" where
  "chunk_pos w base j \<longleftrightarrow>
     v8sw_chunki w = char_size (v8sw_v8flags w) * j \<and> v8sw_nreadchars w = base + j"

lemma sizecheck_loop_eq:
  assumes "chunk_at w base ks" and "chunk_pos w base j" and "0 < m" and "j + m \<le> length ks"
  shows "sizecheck_loop w (char_size (v8sw_v8flags w) * (j + m)) m nb fb =
    Some (char_size (v8sw_v8flags w) * length ks, nb + nbytes (v8sw_strflags w) (drop (j + m) ks), fb)"
  using assms(3,4)
proof (induction "length ks - (j + m)" arbitrary: m nb)
  case 0
  then have "j + m = length ks" by simp
  with assms(1,2) show ?case
    by (subst sizecheck_loop.simps) (auto simp: chunk_at_def chunk_pos_def split: if_splits)
next
  case (Suc n)
  let ?f = "v8sw_v8flags w"
  have lt: "j + m < length ks" using Suc.hyps(2) by simp
  then have cont: "char_size ?f * (j + m) < v8sw_chunksz w" "v8sw_nreadchars w + m < v8sw_slicelen w"
    using assms(1,2) less_le_trans [of "char_size ?f * (j + m)" "char_size ?f * length ks" 8192]
    by (auto simp: chunk_at_def chunk_pos_def split: if_splits)
  have char: "chunk_char w (char_size ?f * (j + m)) = Some (ks ! (j + m))"
    using chunk_char_decode [of w "length ks" "j + m"] assms(1) lt by (simp add: chunk_at_def)
  have IH: "sizecheck_loop w (char_size ?f * Suc (j + m)) (Suc m) nb fb =
      Some (char_size ?f * length ks, nb + nbytes (v8sw_strflags w) (drop (Suc (j + m)) ks), fb)" for nb
    using Suc.hyps(1) [of "Suc m"] Suc.hyps(2) lt by (simp only: add_Suc_right)
  have d: "drop (j + m) ks = ks ! (j + m) # drop (Suc (j + m)) ks"
    using lt by (simp add: Cons_nth_drop_Suc)
  have pc: "v8sw_inbytesperchar w = char_size ?f" "v8sw_chunki w = char_size ?f * j"
    using assms(1,2) by (simp_all add: chunk_at_def chunk_pos_def)
  have "char_size ?f * (j + m) + char_size ?f = char_size ?f * Suc (j + m)" by simp
  then show ?case
    using Suc.prems(1) by (subst sizecheck_loop.simps) (simp add: cont char pc d IH Let_def del: mult_Suc_right)
qed

text \<open>What the size check decides, in terms of the characters left in the chunk.\<close>

definition sizecheck_spec :: "nat \<Rightarrow> 32 word \<Rightarrow> 16 word list \<Rightarrow> bool \<Rightarrow> v8string_sizecheck" where
  "sizecheck_spec left flags ks chunklast =
     (if mdbv8_strbuf_nbytesforchar (hd ks) flags + 5 \<le> left then V8SC_NODANGER
      else if left < nbytes flags ks then V8SC_WONTFIT
      else if chunklast then V8SC_WILLFIT else V8SC_DONTKNOW)"

lemma sizecheck_eq:
  assumes "chunk_at w base ks" and "chunk_pos w base j" and "j < length ks"
  shows "v8string_write_sizecheck w =
    Some (sizecheck_spec (strbuf_left (v8sw_strb w)) (v8sw_strflags w) (drop j ks) (v8sw_chunklast w))"
proof -
  let ?f = "v8sw_v8flags w" and ?l = "strbuf_left (v8sw_strb w)"
  let ?n = "mdbv8_strbuf_nbytesforchar (ks ! j) (v8sw_strflags w)"
  have n: "1 \<le> ?n" "?n \<le> 2" using nbytesforchar_range by blast+
  have d: "drop j ks = ks ! j # drop (Suc j) ks" using assms(3) by (simp add: Cons_nth_drop_Suc)
  have cont: "v8sw_chunki w < v8sw_chunksz w" "v8sw_nreadchars w < v8sw_slicelen w"
    using assms less_le_trans [of "char_size ?f * j" "char_size ?f * length ks" 8192]
    by (auto simp: chunk_at_def chunk_pos_def split: if_splits)
  have char: "chunk_char w (v8sw_chunki w) = Some (ks ! j)"
    using chunk_char_decode [of w "length ks" j] assms by (simp add: chunk_at_def chunk_pos_def)
  have "sizecheck_loop w (char_size ?f * (j + 1)) 1 ?n ?n =
      Some (char_size ?f * length ks, ?n + nbytes (v8sw_strflags w) (drop (j + 1) ks), ?n)"
    using assms by (intro sizecheck_loop_eq) auto
  moreover have "v8sw_chunki w + v8sw_inbytesperchar w = char_size ?f * (j + 1)"
    using assms by (simp add: chunk_at_def chunk_pos_def)
  ultimately have loop: "sizecheck_loop w (v8sw_chunki w) 0 0 0 =
      Some (char_size ?f * length ks, nbytes (v8sw_strflags w) (drop j ks), ?n)"
    using cont char by (subst sizecheck_loop.simps) (simp add: d Let_def)
  have "\<not> v8sw_chunklast w \<longrightarrow> char_size ?f * length ks = v8sw_chunksz w"
    using assms(1) by (cases "v8sw_chunklast w") (simp_all add: chunk_at_def)
  then show ?thesis
    using n cont loop d unfolding v8string_write_sizecheck_def strbuf_left_def [symmetric]
    by (auto simp: sizecheck_spec_def Let_def)
qed

section \<open>The inner loop\<close>

lemma escaped_marker: "escaped_string v8s_truncate_marker flags = v8s_truncate_marker"
proof -
  have "char_u16 CHR ''['' = 91" "char_u16 CHR ''.'' = 46" "char_u16 CHR '']'' = 93"
    by (simp_all add: char_u16_def)
  moreover have "escaped 91 flags = ''[''" "escaped 46 flags = ''.''" "escaped 93 flags = '']''"
    by (simp_all add: escaped_def char_of_def bit_simps)
  ultimately show ?thesis
    by (simp add: escaped_string_def v8s_truncate_marker_def)
qed

lemma appends_bufsz:
  assumes "strbuf_wf b" and "mdbv8_strbuf_appends b s flags = Some b'"
  shows "ms_bufsz b' = ms_bufsz b" and "ms_reservesz b' = ms_reservesz b"
proof -
  have "strbuf_wf b \<Longrightarrow> mdbv8_strbuf_appends b s flags = Some b' \<Longrightarrow>
    ms_bufsz b' = ms_bufsz b \<and> ms_reservesz b' = ms_reservesz b"
  proof (induction b s flags rule: mdbv8_strbuf_appends.induct)
    case (2 b c s flags)
    then obtain b1 where b1: "mdbv8_strbuf_appendc b (char_u16 c) flags = Some b1"
      "mdbv8_strbuf_appends b1 s flags = Some b'"
      by (auto split: Option.bind_splits)
    have put: "mdbv8_strbuf_sprintf b (escaped (char_u16 c) flags) = Some b1"
      using b1(1) by (simp add: appendc_escaped)
    show ?case
      using "2.IH" [OF b1(1) strbuf.put_ok [OF "2.prems"(1) put] b1(2)]
        sprintf_bufsz [OF "2.prems"(1) put] by simp
  qed simp
  with assms show "ms_bufsz b' = ms_bufsz b" "ms_reservesz b' = ms_reservesz b" by blast+
qed

text \<open>
  What the inner loop does with the characters \<open>drop j ks\<close> of the chunk, when \<open>rest\<close> are the
  characters of the slice behind the chunk: it goes on to write \<open>truncated\<close> of them all.
  Either the write is done, or it made progress.
\<close>

definition seq_frame where
  "seq_frame w =
     (v8sw_strp w, v8sw_v8flags w, v8sw_charsp w, v8sw_inbytesperchar w, v8sw_sliceoffset w,
      v8sw_slicelen w, v8sw_strflags w, v8sw_chunksz w, ms_bufsz (v8sw_strb w),
      ms_reservesz (v8sw_strb w))"

definition will_write :: "v8string_write_t \<Rightarrow> 16 word list \<Rightarrow> string" where
  "will_write w cs = strbuf_text (v8sw_strb w) @
     (if v8sw_done w then [] else truncated (v8sw_strflags w) (strbuf_left (v8sw_strb w)) cs)"

definition seq_step_ok :: "v8string_write_t \<Rightarrow> 16 word list \<Rightarrow> nat \<Rightarrow> v8string_write_t \<Rightarrow> bool" where
  "seq_step_ok w cs m w' \<longleftrightarrow>
     m \<le> length cs \<and> strbuf_wf (v8sw_strb w') \<and> seq_frame w' = seq_frame w \<and>
     v8sw_asciicheck w' = v8sw_asciicheck w \<and>
     v8sw_nreadchars w' = v8sw_nreadchars w + m \<and>
     v8sw_readoff w' = v8sw_readoff w + v8sw_inbytesperchar w * m \<and>
     (\<not> v8sw_done w' \<longrightarrow> m < length cs) \<and>
     (\<exists>y. strbuf_text (v8sw_strb w') = strbuf_text (v8sw_strb w) @ y) \<and>
     will_write w' (drop m cs) = will_write w cs"

text \<open>Writing one character and going on.\<close>

definition seq_put :: "v8string_write_t \<Rightarrow> mdbv8_strbuf \<Rightarrow> v8string_write_t" where
  "seq_put w b = w\<lparr>v8sw_readoff := v8sw_readoff w + v8sw_inbytesperchar w, v8sw_strb := b,
     v8sw_nreadchars := v8sw_nreadchars w + 1,
     v8sw_chunki := v8sw_chunki w + v8sw_inbytesperchar w\<rparr>"

lemma seq_put_sel [simp]:
  "v8sw_strb (seq_put w b) = b" "v8sw_nreadchars (seq_put w b) = Suc (v8sw_nreadchars w)"
  "v8sw_readoff (seq_put w b) = v8sw_readoff w + v8sw_inbytesperchar w"
  "v8sw_chunki (seq_put w b) = v8sw_chunki w + v8sw_inbytesperchar w"
  "v8sw_done (seq_put w b) = v8sw_done w" "v8sw_strflags (seq_put w b) = v8sw_strflags w"
  "v8sw_v8flags (seq_put w b) = v8sw_v8flags w" "v8sw_chunk (seq_put w b) = v8sw_chunk w"
  "v8sw_inbytesperchar (seq_put w b) = v8sw_inbytesperchar w"
  "v8sw_chunklast (seq_put w b) = v8sw_chunklast w" "v8sw_slicelen (seq_put w b) = v8sw_slicelen w"
  "v8sw_chunksz (seq_put w b) = v8sw_chunksz w" "v8sw_asciicheck (seq_put w b) = v8sw_asciicheck w"
  by (simp_all add: seq_put_def)

definition writes_char :: "v8string_write_t \<Rightarrow> 16 word \<Rightarrow> 16 word list \<Rightarrow> bool" where
  "writes_char w c cs \<longleftrightarrow>
     mdbv8_strbuf_nbytesforchar c (v8sw_strflags w) + 5 \<le> strbuf_left (v8sw_strb w) \<or>
     nbytes (v8sw_strflags w) (c # cs) \<le> strbuf_left (v8sw_strb w)"

lemma seq_put_spec:
  assumes b: "strbuf_wf (v8sw_strb w)" "mdbv8_strbuf_appendc (v8sw_strb w) c (v8sw_strflags w) = Some b"
    and nd: "writes_char w c cs"
  shows "strbuf_wf b" and "seq_frame (seq_put w b) = seq_frame w"
    and "will_write (seq_put w b) cs = will_write w (c # cs) \<or> v8sw_done w"
    and "\<exists>y. strbuf_text b = strbuf_text (v8sw_strb w) @ y"
proof -
  let ?l = "strbuf_left (v8sw_strb w)" and ?e = "escaped c (v8sw_strflags w)"
  have e: "length ?e \<le> ?l"
    using nd escaped_le_nbytes [of c "v8sw_strflags w"] by (auto simp: writes_char_def)
  have put: "mdbv8_strbuf_sprintf (v8sw_strb w) ?e = Some b" using b(2) by (simp add: appendc_escaped)
  show "strbuf_wf b" by (rule strbuf.put_ok [OF b(1) put])
  show "\<exists>y. strbuf_text b = strbuf_text (v8sw_strb w) @ y" by (rule strbuf.put_grows [OF b(1) put])
  show "seq_frame (seq_put w b) = seq_frame w"
    using sprintf_bufsz [OF b(1) put] by (simp add: seq_frame_def seq_put_def)
  show "will_write (seq_put w b) cs = will_write w (c # cs) \<or> v8sw_done w"
    using strbuf.put_text [OF b(1) put] strbuf.put_room [OF b(1) put] e nd
    by (simp add: will_write_def writes_char_def)
qed

lemma seq_step_ok_Cons:
  assumes b: "strbuf_wf (v8sw_strb w)" "mdbv8_strbuf_appendc (v8sw_strb w) c (v8sw_strflags w) = Some b"
    and nd: "writes_char w c cs" and undone: "\<not> v8sw_done w"
    and ok: "seq_step_ok (seq_put w b) cs m w'"
  shows "seq_step_ok w (c # cs) (Suc m) w'"
  using ok seq_put_spec [OF b nd] undone
  by (auto simp: seq_step_ok_def algebra_simps)

lemma seq_chunk_loop_ok:
  assumes "chunk_at w base ks" and "chunk_pos w base j" and "j \<le> length ks"
    and "strbuf_wf (v8sw_strb w)" and "\<not> v8sw_done w"
    and "length rest = v8sw_slicelen w - (base + length ks)"
    and "j = 0 \<longrightarrow> ks \<noteq> []"
  shows "\<exists>w' m. seq_chunk_loop (char_size (v8sw_v8flags w) * length ks) w = Some w' \<and>
    seq_step_ok w (drop j ks @ rest) m w' \<and> (v8sw_done w' \<or> 0 < j + m)"
  using assms
proof (induction "length ks - j" arbitrary: w j)
  case 0
  then have j: "j = length ks" by simp
  have n: "v8sw_nreadchars w = base + length ks" "v8sw_chunki w = char_size (v8sw_v8flags w) * length ks"
    using 0 j by (simp_all add: chunk_pos_def)
  show ?case
  proof (cases "v8sw_chunklast w")
    case True
    with 0 n have "v8sw_slicelen w = v8sw_nreadchars w" by (simp add: chunk_at_def)
    with n 0 j show ?thesis
      by (subst seq_chunk_loop.simps) (simp add: seq_step_ok_def seq_frame_def will_write_def)
  next
    case False
    with 0 n have "v8sw_nreadchars w < v8sw_slicelen w" by (simp add: chunk_at_def)
    with n 0 j show ?thesis
      by (subst seq_chunk_loop.simps) (auto simp: seq_step_ok_def)
  qed
next
  case (Suc k)
  let ?f = "v8sw_v8flags w" and ?n = "char_size (v8sw_v8flags w) * length ks"
  let ?cs = "drop (Suc j) ks @ rest" and ?c = "ks ! j"
  have j: "j < length ks" using Suc.hyps(2) by simp
  then have d: "drop j ks = ?c # drop (Suc j) ks" by (simp add: Cons_nth_drop_Suc)
  note sc = sizecheck_eq [OF Suc.prems(1,2) j]
  have cont: "v8sw_nreadchars w < v8sw_slicelen w \<and> v8sw_chunki w < ?n"
    using j Suc.prems(1,2) by (auto simp: chunk_at_def chunk_pos_def split: if_splits)
  have char: "chunk_char w (v8sw_chunki w) = Some ?c"
    using chunk_char_decode [of w "length ks" j] Suc.prems(1,2) j by (simp add: chunk_at_def chunk_pos_def)
  obtain b where b: "mdbv8_strbuf_appendc (v8sw_strb w) ?c (v8sw_strflags w) = Some b" "strbuf_wf b"
    using appendc_spec [OF Suc.prems(4)] by blast
  have go: "?case" if nd: "writes_char w ?c ?cs"
    and sc': "v8string_write_sizecheck w \<in> {Some V8SC_WILLFIT, Some V8SC_NODANGER}"
  proof -
    have al: "\<not> (?f AND JSSTR_ISASCII = 0 \<and> v8sw_chunki w mod 2 \<noteq> 0)"
      using Suc.prems(2) by (auto simp: chunk_pos_def char_size_def)
    have "k = length ks - Suc j" using Suc.hyps(2) by simp
    moreover have "chunk_at (seq_put w b) base ks" "chunk_pos (seq_put w b) base (Suc j)"
      using Suc.prems(1,2) by (simp_all add: chunk_at_def chunk_pos_def)
    ultimately obtain w' m where w': "seq_chunk_loop ?n (seq_put w b) = Some w'"
      "seq_step_ok (seq_put w b) ?cs m w'"
      using Suc.hyps(1) [of "Suc j" "seq_put w b"] j b(2) Suc.prems by auto
    have "seq_chunk_loop ?n w = Some w'"
      using sc' w'(1) cont char b(1) al
      by (subst seq_chunk_loop.simps) (auto simp: seq_put_def split: v8string_sizecheck.splits)
    moreover have "seq_step_ok w (drop j ks @ rest) (Suc m) w'"
      using seq_step_ok_Cons [OF Suc.prems(4) b(1) nd Suc.prems(5) w'(2)] d by simp
    ultimately show ?thesis by auto
  qed
  show ?case
  proof (cases "sizecheck_spec (strbuf_left (v8sw_strb w)) (v8sw_strflags w) (drop j ks) (v8sw_chunklast w)")
    case V8SC_NODANGER
    then have "writes_char w ?c ?cs"
      by (auto simp: writes_char_def sizecheck_spec_def d split: if_splits)
    then show ?thesis using sc V8SC_NODANGER by (intro go) auto
  next
    case V8SC_WILLFIT
    then have "v8sw_chunklast w" "nbytes (v8sw_strflags w) (drop j ks) \<le> strbuf_left (v8sw_strb w)"
      by (auto simp: sizecheck_spec_def split: if_splits)
    moreover from this(1) have "rest = []" using Suc.prems(1,6) by (simp add: chunk_at_def)
    ultimately have "writes_char w ?c ?cs" by (simp add: writes_char_def d)
    then show ?thesis using sc V8SC_WILLFIT by (intro go) auto
  next
    case V8SC_WONTFIT
    then have wont: "strbuf_left (v8sw_strb w) < nbytes (v8sw_strflags w) (drop j ks)"
      "\<not> mdbv8_strbuf_nbytesforchar ?c (v8sw_strflags w) + 5 \<le> strbuf_left (v8sw_strb w)"
      by (auto simp: sizecheck_spec_def d split: if_splits)
    obtain b' where b': "mdbv8_strbuf_appends (v8sw_strb w) v8s_truncate_marker (v8sw_strflags w) = Some b'"
      "strbuf_wf b'" "strbuf_text b' = strbuf_text (v8sw_strb w) @ take (strbuf_left (v8sw_strb w)) v8s_truncate_marker"
      using appends_spec [OF Suc.prems(4), of v8s_truncate_marker "v8sw_strflags w"] by (auto simp: escaped_marker)
    have fr: "ms_bufsz b' = ms_bufsz (v8sw_strb w)" "ms_reservesz b' = ms_reservesz (v8sw_strb w)"
      using appends_bufsz [OF Suc.prems(4) b'(1)] by auto
    have "seq_chunk_loop ?n w = Some (w\<lparr>v8sw_strb := b', v8sw_done := True\<rparr>)"
      using cont sc V8SC_WONTFIT b'(1) by (subst seq_chunk_loop.simps) simp
    moreover have "seq_step_ok w (drop j ks @ rest) 0 (w\<lparr>v8sw_strb := b', v8sw_done := True\<rparr>)"
      using b'(2,3) fr wont Suc.prems(5)
      by (simp add: seq_step_ok_def seq_frame_def will_write_def d)
    ultimately show ?thesis by force
  next
    case V8SC_DONTKNOW
    then have dk: "nbytes (v8sw_strflags w) (drop j ks) \<le> strbuf_left (v8sw_strb w)"
      "\<not> mdbv8_strbuf_nbytesforchar ?c (v8sw_strflags w) + 5 \<le> strbuf_left (v8sw_strb w)"
      "\<not> v8sw_chunklast w"
      by (auto simp: sizecheck_spec_def d split: if_splits)
    then have big: "?n = 8192" "base + length ks < v8sw_slicelen w"
      using Suc.prems(1) by (simp_all add: chunk_at_def)
    then have "4096 \<le> length ks" by (simp add: char_size_def split: if_splits)
    moreover have "length (drop j ks) < 7"
      using dk(1,2) length_le_nbytes [of "drop j ks" "v8sw_strflags w"]
        nbytesforchar_range [of ?c "v8sw_strflags w"] by linarith
    ultimately have jp: "0 < j" by simp
    then have "v8sw_chunki w \<noteq> 0" using Suc.prems(2) by (simp add: chunk_pos_def)
    then have "seq_chunk_loop ?n w = Some w"
      using cont sc V8SC_DONTKNOW by (subst seq_chunk_loop.simps) simp
    moreover have "seq_step_ok w (drop j ks @ rest) 0 w"
      using Suc.prems(4) d by (simp add: seq_step_ok_def)
    ultimately show ?thesis using jp by force
  qed
qed

section \<open>The outer loop\<close>

text \<open>A write in progress: some characters of the slice are still to be read.\<close>

definition seq_inv :: "v8string_write_t \<Rightarrow> bool" where
  "seq_inv w \<longleftrightarrow> strbuf_wf (v8sw_strb w) \<and>
     v8sw_inbytesperchar w = char_size (v8sw_v8flags w) \<and> v8sw_chunksz w = 8192 \<and>
     (\<not> v8sw_done w \<longrightarrow> v8sw_nreadchars w < v8sw_slicelen w) \<and>
     2 * v8sw_slicelen w < 2 ^ 64"

definition chunk_chars :: "v8string_write_t \<Rightarrow> nat" where
  "chunk_chars w =
     min (8192 div char_size (v8sw_v8flags w)) (v8sw_slicelen w - v8sw_nreadchars w)"

lemma bind_Some_map: "Option.bind x (\<lambda>b. Some (f b)) = map_option f x"
  by (cases x) simp_all

lemma chunk_bytes:
  assumes "seq_inv w"
  defines "n \<equiv> (v8sw_inbytesperchar w * (v8sw_slicelen w - v8sw_nreadchars w)) mod 2 ^ 64"
  shows "(if v8sw_chunksz w < n then v8sw_chunksz w else n) = char_size (v8sw_v8flags w) * chunk_chars w"
    and "v8sw_chunksz w < n \<longleftrightarrow> chunk_chars w < v8sw_slicelen w - v8sw_nreadchars w"
    and "v8sw_chunksz w < n \<Longrightarrow> char_size (v8sw_v8flags w) * chunk_chars w = 8192"
proof -
  have inv: "v8sw_inbytesperchar w = char_size (v8sw_v8flags w)" "v8sw_chunksz w = 8192"
    "2 * v8sw_slicelen w < 2 ^ 64"
    using assms by (simp_all add: seq_inv_def)
  have "char_size (v8sw_v8flags w) * (v8sw_slicelen w - v8sw_nreadchars w) < 2 ^ 64"
    using inv(3) by (auto simp: char_size_def)
  then have n: "n = char_size (v8sw_v8flags w) * (v8sw_slicelen w - v8sw_nreadchars w)"
    by (simp add: n_def inv)
  show "(if v8sw_chunksz w < n then v8sw_chunksz w else n) = char_size (v8sw_v8flags w) * chunk_chars w"
    "v8sw_chunksz w < n \<longleftrightarrow> chunk_chars w < v8sw_slicelen w - v8sw_nreadchars w"
    "v8sw_chunksz w < n \<Longrightarrow> char_size (v8sw_v8flags w) * chunk_chars w = 8192"
    unfolding n inv chunk_chars_def by (auto simp: char_size_def min_def)
qed

lemma seq_chunk_unfold:
  assumes "seq_inv w"
  shows "v8string_write_seq_chunk D w =
    (let w1 = w\<lparr>v8sw_chunklast := \<not> chunk_chars w < v8sw_slicelen w - v8sw_nreadchars w\<rparr>;
         n = char_size (v8sw_v8flags w) * chunk_chars w
     in case mem_vread D (v8sw_charsp w + of_nat (v8sw_readoff w)) n of
          None \<Rightarrow> map_option (\<lambda>b. w1\<lparr>v8sw_strb := b, v8sw_done := True\<rparr>)
                    (mdbv8_strbuf_sprintf (v8sw_strb w) ''<string (failed to read data)>'')
        | Some bytes \<Rightarrow>
            let w2 = w1\<lparr>v8sw_chunk := bytes\<rparr> in
            if v8sw_asciicheck w \<and> bytes = [] then None
            else if v8sw_asciicheck w \<and> bytes ! 0 \<noteq> 0 \<and> \<not> isascii (scast (bytes ! 0))
            then map_option (\<lambda>b. w2\<lparr>v8sw_strb := b, v8sw_done := True\<rparr>)
                   (mdbv8_strbuf_sprintf (v8sw_strb w) ''<string (contents looks invalid)>'')
            else seq_chunk_loop n (w2\<lparr>v8sw_asciicheck := False, v8sw_chunki := 0\<rparr>))"
proof -
  let ?n = "(v8sw_inbytesperchar w * (v8sw_slicelen w - v8sw_nreadchars w)) mod 2 ^ 64"
  note c = chunk_bytes(1,2) [OF assms]
  have sel: "v8sw_chunksz (w\<lparr>v8sw_chunklast := x\<rparr>) = v8sw_chunksz w"
    "v8sw_charsp (w\<lparr>v8sw_chunklast := x\<rparr>) = v8sw_charsp w"
    "v8sw_readoff (w\<lparr>v8sw_chunklast := x\<rparr>) = v8sw_readoff w"
    "v8sw_asciicheck (w\<lparr>v8sw_chunklast := x, v8sw_chunk := ch\<rparr>) = v8sw_asciicheck w"
    "v8sw_strb (w\<lparr>v8sw_chunklast := x, v8sw_chunk := ch\<rparr>) = v8sw_strb w"
    "v8sw_strb (w\<lparr>v8sw_chunklast := x\<rparr>) = v8sw_strb w" for x ch
    by simp_all
  show ?thesis
    unfolding v8string_write_seq_chunk_def Let_def sel c(2)
    by (simp only: c(1) [unfolded c(2)] bind_Some_map)
qed

lemma chunk_chars_size: "char_size (v8sw_v8flags w) * chunk_chars w \<le> 8192"
  by (auto simp: chunk_chars_def char_size_def)

lemma seq_chunk_read:
  assumes inv: "seq_inv w" and undone: "\<not> v8sw_done w"
    and read: "mem_vread D (v8sw_charsp w + of_nat (v8sw_readoff w))
        (char_size (v8sw_v8flags w) * chunk_chars w) = Some bytes"
    and len: "length bytes = char_size (v8sw_v8flags w) * chunk_chars w"
    and ascii: "v8sw_asciicheck w \<longrightarrow> bytes ! 0 = 0 \<or> isascii (scast (bytes ! 0))"
    and rest: "length rest = v8sw_slicelen w - v8sw_nreadchars w - chunk_chars w"
  shows "\<exists>w' m. v8string_write_seq_chunk D w = Some w' \<and> (v8sw_done w' \<or> 0 < m) \<and>
    seq_step_ok (w\<lparr>v8sw_asciicheck := False\<rparr>) (decode_chars (v8sw_v8flags w) bytes @ rest) m w'"
proof -
  let ?f = "v8sw_v8flags w" and ?lt = "chunk_chars w < v8sw_slicelen w - v8sw_nreadchars w"
  let ?w = "w\<lparr>v8sw_chunklast := \<not> ?lt, v8sw_chunk := bytes, v8sw_asciicheck := False, v8sw_chunki := 0\<rparr>"
  let ?ks = "decode_chars ?f bytes"
  have lenk: "length ?ks = chunk_chars w" using len by (rule length_decode_chars)
  have pos: "0 < chunk_chars w"
    using inv undone by (auto simp: chunk_chars_def seq_inv_def char_size_def)
  have "bytes \<noteq> []" using len pos by auto
  have lt: "v8sw_nreadchars w < v8sw_slicelen w" using inv undone by (simp add: seq_inv_def)
  have at: "chunk_at ?w (v8sw_nreadchars w) ?ks"
  proof (cases ?lt)
    case True
    then have "char_size ?f * chunk_chars w = 8192"
      by (auto simp: chunk_chars_def char_size_def min_def split: if_splits)
    with True inv len lenk lt show ?thesis
      unfolding chunk_at_def seq_inv_def by simp
  next
    case False
    then have "chunk_chars w = v8sw_slicelen w - v8sw_nreadchars w"
      by (simp add: chunk_chars_def)
    moreover have "char_size ?f * chunk_chars w \<le> 8192" by (rule chunk_chars_size)
    ultimately show ?thesis
      using False inv len lenk lt unfolding chunk_at_def seq_inv_def by simp
  qed
  have "\<exists>w' m. seq_chunk_loop (char_size (v8sw_v8flags ?w) * length ?ks) ?w = Some w' \<and>
      seq_step_ok ?w (drop 0 ?ks @ rest) m w' \<and> (v8sw_done w' \<or> 0 < 0 + m)"
    by (rule seq_chunk_loop_ok [OF at])
       (use inv undone rest lenk pos in \<open>auto simp: chunk_pos_def seq_inv_def\<close>)
  then obtain w' m where w': "seq_chunk_loop (char_size ?f * chunk_chars w) ?w = Some w'"
    "seq_step_ok ?w (?ks @ rest) m w'" "v8sw_done w' \<or> 0 < m"
    by (auto simp: lenk)
  have "v8string_write_seq_chunk D w = Some w'"
    using w'(1) read ascii \<open>bytes \<noteq> []\<close>
    unfolding seq_chunk_unfold [OF inv] Let_def by auto
  moreover have "seq_step_ok (w\<lparr>v8sw_asciicheck := False\<rparr>) (?ks @ rest) m w'"
    using w'(2) by (simp add: seq_step_ok_def seq_frame_def will_write_def)
  ultimately show ?thesis using w'(3) by blast
qed

lemma seq_step_ok_inv:
  assumes "seq_step_ok w cs m w'" and "seq_inv w" and "length cs \<le> v8sw_slicelen w - v8sw_nreadchars w"
    and "\<not> v8sw_done w"
  shows "seq_inv w'"
  using assms by (auto simp: seq_step_ok_def seq_inv_def seq_frame_def)

text \<open>Whatever the target's memory holds, a chunk keeps the invariant and makes progress.\<close>

lemma seq_chunk_safe:
  assumes laws: "vread_laws D" and inv: "seq_inv w" and undone: "\<not> v8sw_done w"
  shows "\<exists>w'. v8string_write_seq_chunk D w = Some w' \<and> seq_inv w' \<and>
    ms_bufsz (v8sw_strb w') = ms_bufsz (v8sw_strb w) \<and>
    ms_reservesz (v8sw_strb w') = ms_reservesz (v8sw_strb w) \<and>
    v8sw_slicelen w' = v8sw_slicelen w \<and>
    (\<exists>y. strbuf_text (v8sw_strb w') = strbuf_text (v8sw_strb w) @ y) \<and>
    (v8sw_done w' \<or> v8sw_nreadchars w < v8sw_nreadchars w')"
proof -
  let ?f = "v8sw_v8flags w"
  let ?read = "mem_vread D (v8sw_charsp w + of_nat (v8sw_readoff w)) (char_size ?f * chunk_chars w)"
  have wf: "strbuf_wf (v8sw_strb w)" using inv by (simp add: seq_inv_def)
  have pos: "0 < chunk_chars w"
    using inv undone by (auto simp: chunk_chars_def seq_inv_def char_size_def)
  have msg: "?thesis" if "v8string_write_seq_chunk D w = map_option
      (\<lambda>b. w\<lparr>v8sw_chunklast := cl, v8sw_chunk := ch, v8sw_strb := b, v8sw_done := True\<rparr>)
      (mdbv8_strbuf_sprintf (v8sw_strb w) s)" for s cl ch
  proof -
    obtain b where b: "mdbv8_strbuf_sprintf (v8sw_strb w) s = Some b" "strbuf_wf b"
      using strbuf.put_ex [OF wf] by blast
    with that inv sprintf_bufsz [OF wf b(1)] strbuf.put_grows [OF wf b(1)] show ?thesis
      by (simp add: seq_inv_def)
  qed
  show ?thesis
  proof (cases ?read)
    case None
    show ?thesis
      by (rule msg [where ch = "v8sw_chunk w"]) (simp add: seq_chunk_unfold [OF inv] Let_def None)
  next
    case (Some bytes)
    have len: "length bytes = char_size ?f * chunk_chars w" using vread_length [OF laws Some] .
    then have ne: "bytes \<noteq> []" using pos by auto
    show ?thesis
    proof (cases "v8sw_asciicheck w \<longrightarrow> bytes ! 0 = 0 \<or> isascii (scast (bytes ! 0))")
      case True
      let ?rest = "replicate (v8sw_slicelen w - v8sw_nreadchars w - chunk_chars w) (0 :: 16 word)"
      from seq_chunk_read [OF inv undone Some len True, of ?rest] obtain w' m where
        w': "v8string_write_seq_chunk D w = Some w'" "v8sw_done w' \<or> 0 < m"
        "seq_step_ok (w\<lparr>v8sw_asciicheck := False\<rparr>) (decode_chars ?f bytes @ ?rest) m w'"
        by auto
      have "length (decode_chars ?f bytes @ ?rest) \<le> v8sw_slicelen w - v8sw_nreadchars w"
        using length_decode_chars [OF len] by (simp add: chunk_chars_def)
      with seq_step_ok_inv [OF w'(3)] inv undone have "seq_inv w'"
        by (simp add: seq_inv_def)
      then show ?thesis using w' by (auto simp: seq_step_ok_def seq_frame_def)
    next
      case False
      with ne show ?thesis
        by (intro msg [where ch = bytes]) (simp add: seq_chunk_unfold [OF inv] Let_def Some)
    qed
  qed
qed

text \<open>
  What every writer guarantees of its buffer: it stays well-formed, its size and what is
  reserved of it do not change, and text is only added at the end.
\<close>

definition strbuf_grown :: "mdbv8_strbuf \<Rightarrow> mdbv8_strbuf \<Rightarrow> bool" where
  "strbuf_grown b b' \<longleftrightarrow> strbuf_wf b' \<and> ms_bufsz b' = ms_bufsz b \<and> ms_reservesz b' = ms_reservesz b \<and>
     (\<exists>y. strbuf_text b' = strbuf_text b @ y)"

lemma strbuf_grown_refl: "strbuf_wf b \<Longrightarrow> strbuf_grown b b"
  by (simp add: strbuf_grown_def)

lemma strbuf_grown_trans [trans]: "strbuf_grown a b \<Longrightarrow> strbuf_grown b c \<Longrightarrow> strbuf_grown a c"
  by (auto simp: strbuf_grown_def)

lemma strbuf_grown_wf: "strbuf_grown a b \<Longrightarrow> strbuf_wf b"
  by (simp add: strbuf_grown_def)

lemma sprintf_grown: "strbuf_wf b \<Longrightarrow> \<exists>b'. mdbv8_strbuf_sprintf b s = Some b' \<and> strbuf_grown b b'"
  using vsprintf_spec [of b s] by (auto simp: mdbv8_strbuf_sprintf_def strbuf_grown_def)

lemma appendc_grown: "strbuf_wf b \<Longrightarrow> \<exists>b'. mdbv8_strbuf_appendc b c flags = Some b' \<and> strbuf_grown b b'"
  unfolding appendc_escaped by (rule sprintf_grown)

lemma seq_write_loop_safe:
  assumes "vread_laws D" and "seq_inv w"
  shows "\<exists>w'. seq_write_loop D w = Some w' \<and> strbuf_grown (v8sw_strb w) (v8sw_strb w')"
  using assms(2)
proof (induction "v8sw_slicelen w - v8sw_nreadchars w" arbitrary: w rule: less_induct)
  case less
  show ?case
  proof (cases "v8sw_done w")
    case True
    with less.prems show ?thesis
      by (subst seq_write_loop.simps) (simp add: seq_inv_def strbuf_grown_refl)
  next
    case False
    from seq_chunk_safe [OF assms(1) less.prems False] obtain w1 where
      w1: "v8string_write_seq_chunk D w = Some w1" "seq_inv w1"
      "strbuf_grown (v8sw_strb w) (v8sw_strb w1)"
      "v8sw_slicelen w1 = v8sw_slicelen w" "v8sw_done w1 \<or> v8sw_nreadchars w < v8sw_nreadchars w1"
      unfolding strbuf_grown_def seq_inv_def by blast
    have eq: "seq_write_loop D w = seq_write_loop D w1"
      using False w1(1) by (subst seq_write_loop.simps) simp
    show ?thesis
    proof (cases "v8sw_done w1")
      case True
      then have "seq_write_loop D w1 = Some w1" by (subst seq_write_loop.simps) simp
      with eq w1 show ?thesis by simp
    next
      case nd: False
      then have "v8sw_slicelen w1 - v8sw_nreadchars w1 < v8sw_slicelen w - v8sw_nreadchars w"
        using w1(2,4,5) by (simp add: seq_inv_def) linarith
      from less.hyps [OF this w1(2)] eq w1(3) show ?thesis by (auto intro: strbuf_grown_trans)
    qed
  qed
qed

text \<open>
  With the whole slice readable, the loop writes \<open>truncated\<close> of its characters: where the
  chunks begin and end does not matter.
\<close>

lemma decode_chars_split:
  assumes "length bs = char_size f * n" and "m \<le> n"
  shows "decode_chars f bs = decode_chars f (take (char_size f * m) bs) @ decode_chars f (drop (char_size f * m) bs)"
    and "decode_chars f (drop (char_size f * m) bs) = drop m (decode_chars f bs)"
proof -
  have l: "length (take (char_size f * m) bs) = char_size f * m" using assms by simp
  show split: "decode_chars f bs = decode_chars f (take (char_size f * m) bs) @ decode_chars f (drop (char_size f * m) bs)"
    using decode_chars_append [OF l, of "drop (char_size f * m) bs"] by simp
  show "decode_chars f (drop (char_size f * m) bs) = drop m (decode_chars f bs)"
    by (subst split) (simp add: length_decode_chars [OF l])
qed

lemma seq_write_loop_text:
  assumes laws: "vread_laws D" and "seq_inv w"
    and "mem_vread D (v8sw_charsp w + of_nat (v8sw_readoff w))
      (char_size (v8sw_v8flags w) * (v8sw_slicelen w - v8sw_nreadchars w)) = Some bs"
    and "v8sw_asciicheck w \<and> \<not> v8sw_done w \<longrightarrow> bs ! 0 = 0 \<or> isascii (scast (bs ! 0))"
  shows "\<exists>w'. seq_write_loop D w = Some w' \<and>
    strbuf_text (v8sw_strb w') = will_write w (decode_chars (v8sw_v8flags w) bs)"
  using assms(2-)
proof (induction "v8sw_slicelen w - v8sw_nreadchars w" arbitrary: w bs rule: less_induct)
  case less
  let ?f = "v8sw_v8flags w" and ?R = "v8sw_slicelen w - v8sw_nreadchars w"
  show ?case
  proof (cases "v8sw_done w")
    case True
    then show ?thesis by (subst seq_write_loop.simps) (simp add: will_write_def)
  next
    case False
    let ?k = "chunk_chars w" and ?cs = "decode_chars ?f bs"
    have k: "?k \<le> ?R" "0 < ?k"
      using less.prems(1) False by (auto simp: chunk_chars_def seq_inv_def char_size_def)
    have lenbs: "length bs = char_size ?f * ?R" using vread_length [OF laws less.prems(2)] .
    have at: "mem_vread D (v8sw_charsp w + of_nat (v8sw_readoff w)) (char_size ?f * m) =
        Some (take (char_size ?f * m) bs) \<and>
      mem_vread D (v8sw_charsp w + of_nat (v8sw_readoff w) + of_nat (char_size ?f * m))
        (char_size ?f * (?R - m)) = Some (drop (char_size ?f * m) bs)" if "m \<le> ?R" for m
    proof -
      have "char_size ?f * ?R = char_size ?f * m + char_size ?f * (?R - m)"
        using that by (metis le_add_diff_inverse distrib_left)
      with less.prems(2) have "mem_vread D (v8sw_charsp w + of_nat (v8sw_readoff w))
        (char_size ?f * m + char_size ?f * (?R - m)) = Some bs" by metis
      then show ?thesis using vread_split [OF laws] by blast
    qed
    note split = decode_chars_split [OF lenbs]
    have "0 < char_size ?f * ?k" using k by simp
    then have first: "take (char_size ?f * ?k) bs ! 0 = bs ! 0" by simp
    have "length (decode_chars ?f (drop (char_size ?f * ?k) bs)) = ?R - ?k"
      by (rule length_decode_chars) (simp only: length_drop lenbs diff_mult_distrib2 diff_diff_left add_mult_distrib2)
    then have rest: "length (decode_chars ?f (drop (char_size ?f * ?k) bs)) =
        v8sw_slicelen w - v8sw_nreadchars w - ?k" .
    have "char_size ?f * ?k \<le> char_size ?f * ?R" using k by simp
    then have lenc: "length (take (char_size ?f * ?k) bs) = char_size ?f * ?k" by (simp add: lenbs)
    have asc: "v8sw_asciicheck w \<longrightarrow> take (char_size ?f * ?k) bs ! 0 = 0 \<or>
        isascii (scast (take (char_size ?f * ?k) bs ! 0))"
      using less.prems(3) False unfolding first by blast
    from seq_chunk_read [OF less.prems(1) False conjunct1 [OF at [OF k(1)]] lenc asc rest]
    obtain w1 m where w1: "v8string_write_seq_chunk D w = Some w1" "v8sw_done w1 \<or> 0 < m"
      "seq_step_ok (w\<lparr>v8sw_asciicheck := False\<rparr>) ?cs m w1"
      unfolding split(1) [OF k(1), symmetric] by blast
    have lencs: "length ?cs = ?R" by (rule length_decode_chars [OF lenbs])
    have inv1: "seq_inv w1"
      by (rule seq_step_ok_inv [OF w1(3)]) (use less.prems(1) False lencs in \<open>auto simp: seq_inv_def\<close>)
    have eq: "seq_write_loop D w = seq_write_loop D w1"
      using False w1(1) by (subst seq_write_loop.simps) simp
    have ww: "will_write w1 (drop m ?cs) = will_write w ?cs"
      using w1(3) by (simp add: seq_step_ok_def will_write_def)
    show ?thesis
    proof (cases "v8sw_done w1")
      case True
      then have "seq_write_loop D w1 = Some w1" by (subst seq_write_loop.simps) simp
      with eq ww True show ?thesis by (simp add: will_write_def)
    next
      case nd: False
      with w1 have m: "0 < m" "m < ?R" and fr: "seq_frame w1 = seq_frame w"
        "v8sw_asciicheck w1 = False" "v8sw_nreadchars w1 = v8sw_nreadchars w + m"
        "v8sw_readoff w1 = v8sw_readoff w + v8sw_inbytesperchar w * m"
        using lencs by (auto simp: seq_step_ok_def seq_frame_def)
      have fr': "v8sw_v8flags w1 = ?f" "v8sw_slicelen w1 = v8sw_slicelen w"
        "v8sw_charsp w1 = v8sw_charsp w" "v8sw_inbytesperchar w = char_size ?f"
        using fr(1) less.prems(1) by (simp_all add: seq_frame_def seq_inv_def)
      have R: "v8sw_slicelen w1 - v8sw_nreadchars w1 = ?R - m" using fr fr' by simp
      have adr: "v8sw_charsp w1 + of_nat (v8sw_readoff w1) =
          v8sw_charsp w + of_nat (v8sw_readoff w) + of_nat (char_size ?f * m)"
        using fr fr' by (simp add: algebra_simps)
      have "mem_vread D (v8sw_charsp w1 + of_nat (v8sw_readoff w1))
          (char_size (v8sw_v8flags w1) * (v8sw_slicelen w1 - v8sw_nreadchars w1)) = Some (drop (char_size ?f * m) bs)"
        unfolding adr R fr'(1) using at [of m] m by simp
      moreover have "v8sw_slicelen w1 - v8sw_nreadchars w1 < ?R" using R m by linarith
      ultimately obtain w' where
        "seq_write_loop D w1 = Some w'"
        "strbuf_text (v8sw_strb w') = will_write w1 (decode_chars ?f (drop (char_size ?f * m) bs))"
        using less.hyps [of w1] inv1 fr(2) fr'(1) by auto
      with eq ww split(2) [of m] m show ?thesis by simp
    qed
  qed
qed

section \<open>Whole strings\<close>

text \<open>What loading a string establishes: the union's member is the type's, the length is bounded.\<close>

definition strrep_tags_distinct :: "v8dbg \<Rightarrow> bool" where
  "strrep_tags_distinct D \<longleftrightarrow> gv D V8_SlicedStringTag \<noteq> gv D V8_ExternalStringTag"

definition v8string_ok :: "v8dbg \<Rightarrow> v8string \<Rightarrow> bool" where
  "v8string_ok D strp \<longleftrightarrow>
     unat (v8s_len strp) < 2 ^ 32 \<and>
     (V8_STRREP_SEQ D (v8s_type strp) \<or> V8_STRREP_CONS D (v8s_type strp) \<or>
      V8_STRREP_EXT D (v8s_type strp) \<or> V8_STRREP_SLICED D (v8s_type strp)) \<and>
     (if V8_STRREP_CONS D (v8s_type strp) then \<exists>p1 p2. v8s_infop strp = V8s_consinfo p1 p2
      else if V8_STRREP_SLICED D (v8s_type strp) then \<exists>p i. v8s_infop strp = V8s_slicedinfo p i
      else if V8_STRREP_EXT D (v8s_type strp) then \<exists>d n. v8s_infop strp = V8s_external d n
      else True)"

lemma v8string_load_ok:
  assumes "v8_tags_amd64 D" and "v8string_load D addr flags = Some strp"
  shows "v8string_ok D strp"
proof -
  obtain type where type: "read_typebyte D addr = Some type"
    using assms(2) by (cases "read_typebyte D addr") (simp_all add: v8string_load_def)
  let ?cons = "V8_STRREP_CONS D type" and ?sl = "V8_STRREP_SLICED D type" and ?ext = "V8_STRREP_EXT D type"
  have rep: "V8_STRREP_SEQ D type \<or> ?cons \<or> ?ext \<or> ?sl"
    using assms(2) type unfolding v8string_load_def by (force split: if_split_asm)
  obtain len where len: "read_heap_smi D addr (gv D V8_OFF_STRING_LENGTH) = Some len"
    using assms(2) type unfolding v8string_load_def
    by (cases "read_heap_smi D addr (gv D V8_OFF_STRING_LENGTH)") (auto split: if_split_asm)
  have b: "unat len < 2 ^ 32" by (rule read_heap_smi_bound [OF assms(1) len])
  let ?s = "\<lparr>v8s_addr = addr, v8s_len = len, v8s_type = type, v8s_memflags = flags, v8s_infop = V8s_noinfo\<rparr>"
  have "\<exists>i. strp = ?s\<lparr>v8s_infop := i\<rparr> \<and>
      (if ?cons then \<exists>p1 p2. i = V8s_consinfo p1 p2 else if ?sl then \<exists>p q. i = V8s_slicedinfo p q
       else if ?ext then \<exists>d n. i = V8s_external d n else True)"
    using assms(2) type len unfolding v8string_load_def Let_def
    by (cases ?cons; cases ?sl; cases ?ext) (auto split: Option.bind_splits if_split_asm)
  then show ?thesis using rep b by (auto simp: v8string_ok_def)
qed

lemma seq_slice_nat:
  assumes "seq_slice n off l = (o', l')"
  shows "unat o' = min (unat off) (unat n)"
    and "unat l' = (if l = - 1 then unat n - unat o' else min (unat l) (unat n - unat o'))"
proof -
  have o': "o' = (if n < off then n else off)"
    and l': "l' = (if l = - 1 then n - o' else if n - o' < l then n - o' else l)"
    using assms by (auto simp: seq_slice_def Let_def)
  show o: "unat o' = min (unat off) (unat n)"
    by (simp add: o' uptr_less_unat)
  have "unat (n - o') = unat n - unat o'"
    by (rule unat_sub_le) (simp add: o' not_less)
  then show "unat l' = (if l = - 1 then unat n - unat o' else min (unat l) (unat n - unat o'))"
    unfolding l' uptr_less_unat by (simp add: min_def)
qed

text \<open>The assertions on the slice hold for every offset and length the caller passes.\<close>

lemma seq_slice_ok:
  assumes "seq_slice n off l = (o', l')"
  shows "o' \<le> n \<and> l' \<le> n \<and> o' + l' \<le> n"
proof -
  note s = seq_slice_nat [OF assms]
  have "unat o' + unat l' \<le> unat n" using s by auto
  moreover from this have "unat (o' + l') = unat o' + unat l'"
    by (intro unat_add_lt) (use unat_lt_64 [of n] in linarith)
  ultimately show ?thesis by (simp add: uptr_le_unat)
qed

lemma seq_write_init_sel [simp]:
  "v8sw_strb (seq_write_init D strp b strflags v8flags o' l') = b"
  "v8sw_v8flags (seq_write_init D strp b strflags v8flags o' l') = v8flags"
  "v8sw_strflags (seq_write_init D strp b strflags v8flags o' l') = strflags"
  "v8sw_nreadchars (seq_write_init D strp b strflags v8flags o' l') = 0"
  "v8sw_slicelen (seq_write_init D strp b strflags v8flags o' l') = unat l'"
  "v8sw_readoff (seq_write_init D strp b strflags v8flags o' l') = unat o' * char_size v8flags"
  "v8sw_done (seq_write_init D strp b strflags v8flags o' l') = (l' = 0)"
  "v8sw_asciicheck (seq_write_init D strp b strflags v8flags o' l') = False"
  "v8sw_charsp (seq_write_init D strp b strflags v8flags o' l') = v8s_addr strp +
     (if v8flags AND JSSTR_ISASCII \<noteq> 0 then gv D V8_OFF_SEQASCIISTR_CHARS
      else gv D V8_OFF_SEQTWOBYTESTR_CHARS)"
  by (simp_all add: seq_write_init_def Let_def char_size_def)

lemma seq_write_init_inv:
  assumes "strbuf_wf b" and "2 * unat l' < 2 ^ 64"
  shows "seq_inv (seq_write_init D strp b strflags v8flags o' l')"
proof -
  have "l' \<noteq> 0 \<Longrightarrow> 0 < unat l'" by (simp add: unat_gt_0)
  then show ?thesis
    using assms unfolding seq_inv_def by (simp add: seq_write_init_def Let_def char_size_def)
qed

lemma write_seq_eq:
  assumes "seq_slice (v8string_length strp) off l = (o', l')"
  shows "\<exists>out. v8string_write_seq D strp b strflags v8flags off l =
    map_option (\<lambda>w. (0, v8sw_strb w, out)) (seq_write_loop D (seq_write_init D strp b strflags v8flags o' l'))"
  using seq_slice_ok [OF assms]
  unfolding v8string_write_seq_def Let_def assms prod.case bind_Some_map by auto

lemma write_seq_safe:
  assumes "vread_laws D" and "strbuf_wf b" and "unat (v8s_len strp) < 2 ^ 32"
  shows "\<exists>b' out. v8string_write_seq D strp b strflags v8flags off l = Some (0, b', out) \<and> strbuf_grown b b'"
proof -
  obtain o' l' where sl: "seq_slice (v8string_length strp) off l = (o', l')" by fastforce
  have "unat l' \<le> unat (v8s_len strp)"
    using seq_slice_nat(2) [OF sl] by (auto simp add: v8string_length_def)
  with assms(3) have l: "2 * unat l' < 2 ^ 64" by simp
  from seq_write_loop_safe [OF assms(1) seq_write_init_inv [OF assms(2) l, where D = D and strp = strp and strflags = strflags and v8flags = v8flags and o' = o']] obtain w where
    w: "seq_write_loop D (seq_write_init D strp b strflags v8flags o' l') = Some w" "strbuf_grown b (v8sw_strb w)"
    by auto
  with write_seq_eq [OF sl, of D b strflags v8flags] show ?thesis by auto
qed

lemma ext_write_init_sel [simp]:
  "v8sw_strb (ext_write_init strp n b strflags v8flags) = b"
  "v8sw_v8flags (ext_write_init strp n b strflags v8flags) = v8flags"
  "v8sw_strflags (ext_write_init strp n b strflags v8flags) = strflags"
  "v8sw_nreadchars (ext_write_init strp n b strflags v8flags) = 0"
  "v8sw_slicelen (ext_write_init strp n b strflags v8flags) = unat (v8s_len strp)"
  "v8sw_readoff (ext_write_init strp n b strflags v8flags) = 0"
  "v8sw_done (ext_write_init strp n b strflags v8flags) = (v8s_len strp = 0)"
  "v8sw_asciicheck (ext_write_init strp n b strflags v8flags) = True"
  "v8sw_charsp (ext_write_init strp n b strflags v8flags) = n"
  by (simp_all add: ext_write_init_def Let_def v8string_length_def)

lemma ext_write_init_inv:
  assumes "strbuf_wf b" and "v8flags AND JSSTR_ISASCII \<noteq> 0" and "unat (v8s_len strp) < 2 ^ 32"
  shows "seq_inv (ext_write_init strp n b strflags v8flags)"
proof -
  have "v8s_len strp \<noteq> 0 \<Longrightarrow> 0 < unat (v8s_len strp)" by (simp add: unat_gt_0)
  then show ?thesis
    using assms unfolding seq_inv_def ext_write_init_sel
    by (simp add: ext_write_init_def char_size_def Let_def)
qed

lemma write_ext_safe:
  assumes "vread_laws D" and "strbuf_wf b" and "unat (v8s_len strp) < 2 ^ 32"
    and "v8s_infop strp = V8s_external d n"
  shows "\<exists>b' out. v8string_write_ext D strp b strflags v8flags = Some (0, b', out) \<and> strbuf_grown b b'"
proof -
  have step1: "\<exists>b1. (if v8flags AND JSSTR_VERBOSE \<noteq> 0 then mdbv8_strbuf_sprintf b s else Some b) = Some b1 \<and>
      strbuf_grown b b1" for s
    using sprintf_grown [OF assms(2)] strbuf_grown_refl [OF assms(2)] by auto
  have step2: "\<exists>w. seq_write_loop D (ext_write_init strp n b1 strflags v8flags) = Some w \<and> strbuf_grown b1 (v8sw_strb w)"
    if "strbuf_wf b1" "v8flags AND JSSTR_ISASCII \<noteq> 0" for b1
    using seq_write_loop_safe [OF assms(1) ext_write_init_inv [OF that assms(3)], of n strflags] by simp
  obtain b1 where b1: "(if v8flags AND JSSTR_VERBOSE \<noteq> 0 then mdbv8_strbuf_sprintf b
       (''external string: '' @ fmt_p D (v8s_addr strp) @
                        '' (assuming node.js string (length '' @ fmt_d (v8s_len strp) @ ''))'' @ NL)
      else Some b) = Some b1" "strbuf_grown b b1"
    using step1 by blast
  note wf1 = strbuf_grown_wf [OF b1(2)]
  show ?thesis
  proof (cases "v8flags AND JSSTR_ISASCII = 0")
    case True
    from sprintf_grown [OF wf1] obtain b2 where
      "mdbv8_strbuf_sprintf b1 ''<external two-byte string>'' = Some b2" "strbuf_grown b1 b2" by blast
    then show ?thesis
      using True b1 by (simp add: v8string_write_ext_def assms(4) Let_def v8string_length_def)
        (auto intro: strbuf_grown_trans)
  next
    case False
    from step2 [OF wf1 False] b1 False show ?thesis
      by (auto simp: v8string_write_ext_def assms(4) Let_def v8string_length_def intro: strbuf_grown_trans)
  qed
qed

lemma write_sliced_safe:
  assumes "vread_laws D" and "v8_tags_amd64 D" and "strbuf_wf b" and "v8s_infop strp = V8s_slicedinfo p i"
  shows "\<exists>b' out. v8string_write_sliced D strp b strflags v8flags = Some (0, b', out) \<and> strbuf_grown b b'"
proof (cases "v8string_load D p (v8s_memflags strp)")
  case None
  with sprintf_grown [OF assms(3), of "''<sliced string (failed to load parent)>''"] assms(4)
  show ?thesis by (auto simp: v8string_write_sliced_def Let_def)
next
  case (Some pstrp)
  have len: "unat (v8s_len pstrp) < 2 ^ 32"
    using v8string_load_ok [OF assms(2) Some] by (simp add: v8string_ok_def)
  show ?thesis
    using write_seq_safe [OF assms(1,3) len, where strflags = strflags and v8flags = "JSSTR_BUMPDEPTH v8flags"
        and off = i and l = "v8string_length strp"]
      sprintf_grown [OF assms(3), of "''<sliced string (parent is not a sequential string)>''"] Some assms(4)
    by (auto simp: v8string_write_sliced_def Let_def)
qed

text \<open>
  Writing a string always returns, without a failed assertion and without touching memory
  outside the buffer, whatever the heap holds: a cons string may contain itself.
\<close>

definition write_total :: "write_result \<Rightarrow> mdbv8_strbuf \<Rightarrow> bool" where
  "write_total r b \<longleftrightarrow> (\<exists>rv b' out. r = Some (rv, b', out) \<and> rv \<in> {0, - 1} \<and> strbuf_grown b b')"

lemma write_totalI: "r = Some (rv, b', out) \<Longrightarrow> rv \<in> {0, - 1} \<Longrightarrow> strbuf_grown b b' \<Longrightarrow> write_total r b"
  by (auto simp: write_total_def)

lemma reserve_grown:
  assumes "strbuf_grown (mdbv8_strbuf_reserve b 1) b'"
  shows "strbuf_grown b (mdbv8_strbuf_reserve b' (- 1))"
  using assms reserve_wf [of b' "- 1"]
  by (auto simp: strbuf_grown_def mdbv8_strbuf_reserve_def strbuf_text_def)

lemma write_body_total:
  assumes wf: "strbuf_wf b"
    and body: "\<And>b. strbuf_wf b \<Longrightarrow> write_total (body b) b"
  shows "write_total (do {
        strb \<leftarrow> (if quoted then
                   map_option (\<lambda>b. mdbv8_strbuf_reserve b 1) (mdbv8_strbuf_appendc b 34 strflags)
                 else Some b);
        (err, strb, out) \<leftarrow> body strb;
        strb \<leftarrow> (if quoted then
                   mdbv8_strbuf_appendc (mdbv8_strbuf_reserve strb (- 1)) 34 strflags
                 else Some strb);
        Some (err, strb, out)
      }) b"
proof (cases quoted)
  case False
  then show ?thesis using body [OF wf] by (auto simp: write_total_def)
next
  case True
  obtain b1 where b1: "mdbv8_strbuf_appendc b 34 strflags = Some b1" "strbuf_grown b b1"
    using appendc_grown [OF wf] by blast
  have "strbuf_wf (mdbv8_strbuf_reserve b1 1)" by (rule reserve_wf [OF strbuf_grown_wf [OF b1(2)]])
  from body [OF this] obtain rv b2 out where b2: "body (mdbv8_strbuf_reserve b1 1) = Some (rv, b2, out)"
    "rv \<in> {0, - 1}" "strbuf_grown (mdbv8_strbuf_reserve b1 1) b2" by (auto simp: write_total_def)
  note g = reserve_grown [OF b2(3)]
  obtain b3 where b3: "mdbv8_strbuf_appendc (mdbv8_strbuf_reserve b2 (- 1)) 34 strflags = Some b3"
    "strbuf_grown (mdbv8_strbuf_reserve b2 (- 1)) b3"
    using appendc_grown [OF strbuf_grown_wf [OF g]] by blast
  have "strbuf_grown b b3" by (rule strbuf_grown_trans [OF b1(2) strbuf_grown_trans [OF g b3(2)]])
  then show ?thesis using True b1(1) b2(1,2) b3(1) by (auto simp: write_total_def)
qed

lemma write_cons_total:
  assumes wf: "strbuf_wf b" and tags: "v8_tags_amd64 D" and info: "v8s_infop strp = V8s_consinfo p1 p2"
    and sub: "\<And>s b. v8string_ok D s \<Longrightarrow> strbuf_wf b \<Longrightarrow>
      write_total (v8string_write D s b strflags (JSSTR_BUMPDEPTH v8flags)) b"
  shows "write_total (v8string_write_cons D strp b strflags v8flags) b"
proof (cases "v8string_load D p1 (v8s_memflags strp) = None \<or> v8string_load D p2 (v8s_memflags strp) = None")
  case True
  with sprintf_grown [OF wf, of "''<string (failed to read cons ptrs)>''"] info show ?thesis
    by (subst v8string_write_cons.simps) (auto simp: write_total_def Let_def split: option.split)
next
  case False
  then obtain s1 s2 where s: "v8string_load D p1 (v8s_memflags strp) = Some s1"
    "v8string_load D p2 (v8s_memflags strp) = Some s2" by auto
  note ok = s [THEN v8string_load_ok [OF tags]]
  let ?f = "JSSTR_BUMPDEPTH v8flags"
  from sub [OF ok(1) wf] obtain rv1 b1 out1 where w1: "v8string_write D s1 b strflags ?f = Some (rv1, b1, out1)"
    "rv1 \<in> {0, - 1}" "strbuf_grown b b1" by (auto simp: write_total_def)
  from sub [OF ok(2) strbuf_grown_wf [OF w1(3)]] obtain rv2 b2 out2 where
    w2: "v8string_write D s2 b1 strflags ?f = Some (rv2, b2, out2)" "rv2 \<in> {0, - 1}" "strbuf_grown b1 b2"
    by (auto simp: write_total_def)
  show ?thesis
    using info s w1 w2 strbuf_grown_trans [OF w1(3) w2(3)]
    by (subst v8string_write_cons.simps) (auto simp: write_total_def Let_def)
qed

lemma write_by_type_total:
  assumes laws: "vread_laws D" and tags: "v8_tags_amd64 D" and reps: "strrep_tags_distinct D"
    and ok: "v8string_ok D strp" and wf: "strbuf_wf b"
    and cons: "V8_STRREP_CONS D (v8s_type strp) \<Longrightarrow> write_total (v8string_write_cons D strp b strflags flags) b"
  shows "write_total (if V8_STRREP_SEQ D (v8s_type strp) then v8string_write_seq D strp b strflags flags 0 (- 1)
           else if V8_STRREP_CONS D (v8s_type strp) then v8string_write_cons D strp b strflags flags
           else if V8_STRREP_EXT D (v8s_type strp) then v8string_write_ext D strp b strflags flags
           else if V8_STRREP_SLICED D (v8s_type strp) then v8string_write_sliced D strp b strflags flags
           else None) b"
proof -
  have len: "unat (v8s_len strp) < 2 ^ 32" using ok by (simp add: v8string_ok_def)
  have seq: "write_total (v8string_write_seq D strp b strflags flags 0 (- 1)) b"
    using write_seq_safe [OF laws wf len, where strflags = strflags and v8flags = flags and off = 0 and l = "- 1"]
    by (auto simp: write_total_def)
  have ext: "write_total (v8string_write_ext D strp b strflags flags) b" if "v8s_infop strp = V8s_external d n" for d n
    using write_ext_safe [OF laws wf len that, where strflags = strflags and v8flags = flags]
    by (auto simp: write_total_def)
  have sliced: "write_total (v8string_write_sliced D strp b strflags flags) b" if "v8s_infop strp = V8s_slicedinfo p i" for p i
    using write_sliced_safe [OF laws tags wf that, where strflags = strflags and v8flags = flags]
    by (auto simp: write_total_def)
  have "\<not> (V8_STRREP_EXT D (v8s_type strp) \<and> V8_STRREP_SLICED D (v8s_type strp))"
    using reps by (auto simp: strrep_tags_distinct_def V8_STRREP_EXT_def V8_STRREP_SLICED_def)
  then show ?thesis
    using seq ext sliced cons ok unfolding v8string_ok_def by (auto split: if_splits)
qed

lemma write_total_rank:
  assumes laws: "vread_laws D" and tags: "v8_tags_amd64 D" and reps: "strrep_tags_distinct D"
  shows "(\<forall>strp b f. write_rank f = n \<longrightarrow> v8string_ok D strp \<longrightarrow> strbuf_wf b \<longrightarrow>
      write_total (v8string_write D strp b strflags f) b) \<and>
    (\<forall>strp b f. cons_rank f = n \<longrightarrow> (\<exists>p1 p2. v8s_infop strp = V8s_consinfo p1 p2) \<longrightarrow> strbuf_wf b \<longrightarrow>
      write_total (v8string_write_cons D strp b strflags f) b)"
proof (induction n rule: less_induct)
  case (less n)
  show ?case
  proof (intro conjI allI impI)
    fix strp b f
    assume rank: "write_rank f = n" and ok: "v8string_ok D strp" and wf: "strbuf_wf b"
    show "write_total (v8string_write D strp b strflags f) b"
    proof (cases "JSSTR_MAXDEPTH < JSSTR_DEPTH f")
      case True
      with sprintf_grown [OF wf, of "''<maximum depth exceeded>''"] show ?thesis
        by (subst v8string_write.simps) (auto simp: write_total_def)
    next
      case False
      let ?flags = "write_subflags D (v8s_type strp) f"
      have rk: "cons_rank ?flags < n" using rank_subflags [OF False] rank by simp
      have cons: "write_total (v8string_write_cons D strp b strflags ?flags) b"
        if "strbuf_wf b" "V8_STRREP_CONS D (v8s_type strp)" for b
        using less.IH [OF rk] ok that by (simp add: v8string_ok_def)
      show ?thesis
        using write_body_total [OF wf write_by_type_total [OF laws tags reps ok _ cons],
            where quoted = "f AND JSSTR_QUOTED \<noteq> 0" and strflags = strflags] False
        by (subst v8string_write.simps) (simp add: Let_def)
    qed
  next
    fix strp :: v8string and b f
    assume rank: "cons_rank f = n" and "\<exists>p1 p2. v8s_infop strp = V8s_consinfo p1 p2" and wf: "strbuf_wf b"
    then obtain p1 p2 where info: "v8s_infop strp = V8s_consinfo p1 p2" by blast
    have "write_rank (JSSTR_BUMPDEPTH f) < n" using rank by (simp add: cons_rank_def)
    from less.IH [OF this] have sub: "write_total (v8string_write D s b strflags (JSSTR_BUMPDEPTH f)) b"
      if "v8string_ok D s" "strbuf_wf b" for s b using that by blast
    show "write_total (v8string_write_cons D strp b strflags f) b"
      by (rule write_cons_total [OF wf tags info sub])
  qed
qed

lemma write_always_total:
  "vread_laws D \<Longrightarrow> v8_tags_amd64 D \<Longrightarrow> strrep_tags_distinct D \<Longrightarrow> v8string_ok D strp \<Longrightarrow> strbuf_wf b \<Longrightarrow>
     write_total (v8string_write D strp b strflags v8flags) b"
  using write_total_rank by blast

lemma write_seq_text:
  assumes laws: "vread_laws D" and wf: "strbuf_wf b" and len: "unat (v8s_len strp) < 2 ^ 32"
    and sl: "seq_slice (v8string_length strp) off l = (o', l')"
    and read: "mem_vread D (v8s_addr strp + (if v8flags AND JSSTR_ISASCII \<noteq> 0 then gv D V8_OFF_SEQASCIISTR_CHARS
          else gv D V8_OFF_SEQTWOBYTESTR_CHARS) + of_nat (unat o' * char_size v8flags))
        (char_size v8flags * unat l') = Some bs"
  shows "\<exists>b' out. v8string_write_seq D strp b strflags v8flags off l = Some (0, b', out) \<and>
    strbuf_wf b' \<and>
    strbuf_text b' = strbuf_text b @ truncated strflags (strbuf_left b) (decode_chars v8flags bs)"
proof -
  let ?w = "seq_write_init D strp b strflags v8flags o' l'"
  have "unat l' \<le> unat (v8s_len strp)"
    using seq_slice_nat(2) [OF sl] by (auto simp add: v8string_length_def)
  with len have l: "2 * unat l' < 2 ^ 64" by simp
  have inv: "seq_inv ?w" by (rule seq_write_init_inv [OF wf l])
  from seq_write_loop_text [OF laws inv] read obtain w' where
    w': "seq_write_loop D ?w = Some w'" "strbuf_text (v8sw_strb w') = will_write ?w (decode_chars v8flags bs)"
    by auto
  have "strbuf_wf (v8sw_strb w')"
    using seq_write_loop_safe [OF laws inv] w'(1) by (auto dest: strbuf_grown_wf)
  moreover have "length bs = char_size v8flags * unat l'" by (rule vread_length [OF laws read])
  then have "l' = 0 \<Longrightarrow> decode_chars v8flags bs = []"
    by (auto simp: decode_chars_def)
  then have "will_write ?w (decode_chars v8flags bs) =
      strbuf_text b @ truncated strflags (strbuf_left b) (decode_chars v8flags bs)"
    by (auto simp: will_write_def)
  ultimately show ?thesis
    using write_seq_eq [OF sl, of D b strflags v8flags] w' by auto
qed

section \<open>Properties\<close>

text \<open>
  C28. Writing a sequential string (or a slice of one) whose characters are readable adds to
  the buffer exactly what the specification says of the characters and the space left; the
  boundaries of the 8 KiB chunks it is read in leave no trace. No assertion fails.
\<close>

theorem string_write_seq_text:
  assumes "vread_laws D" and "strbuf_wf b" and "unat (v8s_len strp) < 2 ^ 32"
    and "seq_slice (v8string_length strp) off l = (o', l')"
    and "mem_vread D (v8s_addr strp + (if v8flags AND JSSTR_ISASCII \<noteq> 0 then gv D V8_OFF_SEQASCIISTR_CHARS
          else gv D V8_OFF_SEQTWOBYTESTR_CHARS) + of_nat (unat o' * char_size v8flags))
        (char_size v8flags * unat l') = Some bs"
  shows "\<exists>b' out. v8string_write_seq D strp b strflags v8flags off l = Some (0, b', out) \<and>
    strbuf_wf b' \<and>
    strbuf_text b' = strbuf_text b @ truncated strflags (strbuf_left b) (decode_chars v8flags bs)"
  using write_seq_text [OF assms] .

definition sample_string :: v8string where
  "sample_string = \<lparr>v8s_addr = 4097, v8s_len = 9, v8s_type = 4, v8s_memflags = {}, v8s_infop = V8s_noinfo\<rparr>"

lemma sample_seq_read:
  obtains bs where "mem_vread (sample_dbg []) (v8s_addr sample_string + (if JSSTR_ISASCII AND JSSTR_ISASCII \<noteq> 0
        then gv (sample_dbg []) V8_OFF_SEQASCIISTR_CHARS else gv (sample_dbg []) V8_OFF_SEQTWOBYTESTR_CHARS) +
        of_nat (unat (2 :: uptr) * char_size JSSTR_ISASCII)) (char_size JSSTR_ISASCII * unat (7 :: uptr)) = Some bs"
    and "length bs = 7"
proof -
  have "char_size JSSTR_ISASCII = 1"
    by (simp add: char_size_def JSSTR_ISASCII_def JSSTR_FLAGSHIFT_def push_bit_eq_mult)
  let ?a = "v8s_addr sample_string + (if JSSTR_ISASCII AND JSSTR_ISASCII \<noteq> 0
        then gv (sample_dbg []) V8_OFF_SEQASCIISTR_CHARS else gv (sample_dbg []) V8_OFF_SEQTWOBYTESTR_CHARS) +
        of_nat (unat (2 :: uptr) * char_size JSSTR_ISASCII)"
  obtain bs where bs: "mem_vread (sample_dbg []) ?a (char_size JSSTR_ISASCII * unat (7 :: uptr)) = Some bs"
    unfolding sample_sel(1) sample_vread_def by blast
  from vread_length [OF sample_laws bs] \<open>char_size JSSTR_ISASCII = 1\<close> have "length bs = 7" by simp
  with bs show ?thesis by (rule that)
qed

lemma sample_slice: "seq_slice (v8string_length sample_string) 2 (- 1) = (2, 7)"
  by (simp add: seq_slice_def v8string_length_def sample_string_def)

lemma sample_string_len: "unat (v8s_len sample_string) < 2 ^ 32"
  by (simp add: sample_string_def)

lemma string_write_seq_text_witness:
  "\<exists>b' out bs. v8string_write_seq (sample_dbg []) sample_string sample_buf 0 JSSTR_ISASCII 2 (- 1) = Some (0, b', out) \<and>
     length bs = 7 \<and> strbuf_text b' = truncated 0 2 (decode_chars JSSTR_ISASCII bs)"
proof -
  obtain bs where bs: "mem_vread (sample_dbg []) (v8s_addr sample_string + (if JSSTR_ISASCII AND JSSTR_ISASCII \<noteq> 0
        then gv (sample_dbg []) V8_OFF_SEQASCIISTR_CHARS else gv (sample_dbg []) V8_OFF_SEQTWOBYTESTR_CHARS) +
        of_nat (unat (2 :: uptr) * char_size JSSTR_ISASCII)) (char_size JSSTR_ISASCII * unat (7 :: uptr)) = Some bs"
    and "length bs = 7"
    by (rule sample_seq_read)
  moreover have "strbuf_left sample_buf = 2" "strbuf_text sample_buf = []"
    by (simp_all add: strbuf_left_def mdbv8_strbuf_bytesleft_def sample_buf_def strbuf_text_def)
  ultimately show ?thesis
    using string_write_seq_text [OF sample_laws sample_buf_wf sample_string_len sample_slice bs, of 0] by auto
qed

text \<open>
  C27. What that means for the reader of the buffer: the text added fits the space that is not
  reserved; all characters are there when their estimated size fits; and when there was room
  for the marker, what is there is all characters, or a prefix of them and the whole marker.
\<close>

theorem string_write_seq_truncation:
  assumes "vread_laws D" and "strbuf_wf b" and "unat (v8s_len strp) < 2 ^ 32"
    and "seq_slice (v8string_length strp) off l = (o', l')"
    and "mem_vread D (v8s_addr strp + (if v8flags AND JSSTR_ISASCII \<noteq> 0 then gv D V8_OFF_SEQASCIISTR_CHARS
          else gv D V8_OFF_SEQTWOBYTESTR_CHARS) + of_nat (unat o' * char_size v8flags))
        (char_size v8flags * unat l') = Some bs"
    and "v8string_write_seq D strp b strflags v8flags off l = Some (rv, b', out)"
  defines "cs \<equiv> decode_chars v8flags bs"
  shows "\<exists>y. strbuf_text b' = strbuf_text b @ y \<and> length y \<le> strbuf_left b \<and>
   (nbytes strflags cs \<le> strbuf_left b \<longrightarrow> y = escaped_all strflags cs) \<and>
   (length v8s_truncate_marker \<le> strbuf_left b \<longrightarrow> y = escaped_all strflags cs \<or>
     (\<exists>k < length cs. y = escaped_all strflags (take k cs) @ v8s_truncate_marker))"
proof -
  have "strbuf_text b' = strbuf_text b @ truncated strflags (strbuf_left b) cs"
    using write_seq_text [OF assms(1-5), of strflags] assms(6) by (auto simp: cs_def)
  then show ?thesis
    using truncated_bound truncated_fits [of strflags cs] truncated_marker [of "strbuf_left b" strflags cs]
    by (simp add: v8s_truncate_marker_def)
qed

lemma string_write_seq_truncation_witness:
  "\<exists>b' out y. v8string_write_seq (sample_dbg []) sample_string sample_buf 0 JSSTR_ISASCII 2 (- 1) = Some (0, b', out) \<and>
     strbuf_text b' = y \<and> length y \<le> 2"
proof -
  obtain bs where bs: "mem_vread (sample_dbg []) (v8s_addr sample_string + (if JSSTR_ISASCII AND JSSTR_ISASCII \<noteq> 0
        then gv (sample_dbg []) V8_OFF_SEQASCIISTR_CHARS else gv (sample_dbg []) V8_OFF_SEQTWOBYTESTR_CHARS) +
        of_nat (unat (2 :: uptr) * char_size JSSTR_ISASCII)) (char_size JSSTR_ISASCII * unat (7 :: uptr)) = Some bs"
    by (rule sample_seq_read)
  obtain b' out where w: "v8string_write_seq (sample_dbg []) sample_string sample_buf 0 JSSTR_ISASCII 2 (- 1) = Some (0, b', out)"
    using write_seq_text [OF sample_laws sample_buf_wf sample_string_len sample_slice bs] by blast
  have "strbuf_left sample_buf = 2" "strbuf_text sample_buf = []"
    by (simp_all add: strbuf_left_def mdbv8_strbuf_bytesleft_def sample_buf_def strbuf_text_def)
  with string_write_seq_truncation [OF sample_laws sample_buf_wf sample_string_len sample_slice bs w] w
  show ?thesis by auto
qed

text \<open>
  C13. Writing a loaded string into a buffer always returns, whatever the target's memory
  holds: a cons string that contains itself is cut by the depth limit, no assertion fails,
  nothing is written outside the buffer, what is reserved of it is the same afterwards and
  its text only grew at the end.
\<close>

theorem string_write_total:
  assumes "vread_laws D" and "v8_tags_amd64 D" and "strrep_tags_distinct D"
    and "v8string_load D addr memflags = Some strp" and "strbuf_wf b"
  shows "\<exists>rv b' out y. v8string_write D strp b strflags v8flags = Some (rv, b', out) \<and>
    rv \<in> {0, - 1} \<and> strbuf_wf b' \<and> ms_bufsz b' = ms_bufsz b \<and> ms_reservesz b' = ms_reservesz b \<and>
    strbuf_text b' = strbuf_text b @ y"
  using write_always_total [OF assms(1-3) v8string_load_ok [OF assms(2,4)] assms(5)]
  unfolding write_total_def strbuf_grown_def by blast

text \<open>A cons string at 4096 whose two halves are itself.\<close>

definition cyclic_cons :: "(uptr \<times> uptr) list" where
  "cyclic_cons = [(4096, 8193), (4104, push_bit 32 2), (4112, 4097), (4120, 4097), (8200, 1)]"

lemma string_write_total_witness:
  "\<exists>strp rv b' out. v8string_load (sample_dbg cyclic_cons) 4097 {} = Some strp \<and>
     v8s_infop strp = V8s_consinfo 4097 4097 \<and>
     v8string_write (sample_dbg cyclic_cons) strp sample_buf 0 JSSTR_QUOTED = Some (rv, b', out)"
proof -
  let ?D = "sample_dbg cyclic_cons"
  let ?s = "\<lparr>v8s_addr = 4097, v8s_len = 2, v8s_type = 1, v8s_memflags = {}, v8s_infop = V8s_consinfo 4097 4097\<rparr>"
  have load: "v8string_load ?D 4097 {} = Some ?s"
    by (simp add: v8string_load_def sample_typebyte sample_smi sample_ptr cyclic_cons_def sample_values_def
        V8_TYPE_STRING_def V8_STRREP_SEQ_def V8_STRREP_CONS_def push_bit_eq_mult drop_bit_eq_div Let_def)
  have reps: "strrep_tags_distinct ?D"
    by (simp add: strrep_tags_distinct_def sample_values_def)
  from string_write_total [OF sample_laws sample_tags reps load sample_buf_wf, of 0 JSSTR_QUOTED] load
  show ?thesis by auto
qed

end
