(* ===== verification/FixedArray.thy ===== *)
theory FixedArray
  imports Sample
begin

text \<open>
  V8 FixedArrays (\<^verbatim>\<open>src/src/mdb_v8_subr.c\<close>): loading, the chunked iteration that hands
  the elements to a callback, and the copy into a native array.
\<close>

record v8fixedarray =
  v8fa_addr :: uptr
  v8fa_memflags :: memflags
  v8fa_nelts :: uptr
  v8fa_elements :: uptr

definition v8fixedarray_load :: "v8dbg \<Rightarrow> uptr \<Rightarrow> memflags \<Rightarrow> v8fixedarray option" where
  "v8fixedarray_load D addr memflags =
     (if \<not> V8_IS_HEAPOBJECT D addr then None
      else do {
        type \<leftarrow> read_typebyte D addr;
        if \<not> is_type D type V8_TYPE_FIXEDARRAY then None
        else do {
          nelts \<leftarrow> read_heap_smi D addr (gv D V8_OFF_FIXEDARRAY_LENGTH);
          if \<not> zalloc_ok D 32 memflags then None
          else Some \<lparr>v8fa_addr = addr, v8fa_memflags = memflags, v8fa_nelts = nelts,
                     v8fa_elements = 0\<rparr>
        }
      })"

definition v8fixedarray_free :: "v8fixedarray option \<Rightarrow> bool" where
  "v8fixedarray_free arrayp =
     (case arrayp of None \<Rightarrow> False | Some a \<Rightarrow> maybefree (v8fa_memflags a))"

definition v8fixedarray_length :: "v8fixedarray \<Rightarrow> uptr" where
  "v8fixedarray_length arrayp = v8fa_nelts arrayp"

section \<open>Iteration\<close>

definition MAXNPGELTS :: nat where
  "MAXNPGELTS = 1024"

text \<open>
  The body of the \<open>do\<close> loop and its repetition. \<open>index\<close> and \<open>length\<close> are
  \<open>unsigned int\<close>; the loop is not bounded by an argument of its own, so its result is an
  option whose \<open>None\<close> stands for a loop that does not end.
\<close>

partial_function (option) v8fixedarray_iter_loop ::
    "v8dbg \<Rightarrow> v8fixedarray \<Rightarrow> (v8fixedarray \<Rightarrow> 32 word \<Rightarrow> uptr \<Rightarrow> 's \<Rightarrow> int \<times> 's) \<Rightarrow>
     32 word \<Rightarrow> 32 word \<Rightarrow> uptr \<Rightarrow> 's \<Rightarrow> (int \<times> 's) option" where
  "v8fixedarray_iter_loop D arrayp func len index addr s =
     (let curnpgelts = min (unat (len - index)) MAXNPGELTS;
          curpgsz = curnpgelts * PTRSZ
      in case mem_vread D addr curpgsz of
           None \<Rightarrow> Some (- 1, s)
         | Some bytes \<Rightarrow>
             (case cb_iter (\<lambda>(i, v). func arrayp (index + of_nat i) v)
                     (enumerate 0 (le_words curnpgelts bytes)) s of
                (rv, s') \<Rightarrow>
                  if rv \<noteq> 0 then Some (rv, s')
                  else if index + of_nat curnpgelts < len - 1
                  then v8fixedarray_iter_loop D arrayp func len
                         (index + of_nat curnpgelts) (addr + of_nat curpgsz) s'
                  else Some (0, s')))"

definition v8fixedarray_iter_elements ::
    "v8dbg \<Rightarrow> v8fixedarray \<Rightarrow> (v8fixedarray \<Rightarrow> 32 word \<Rightarrow> uptr \<Rightarrow> 's \<Rightarrow> int \<times> 's) \<Rightarrow>
     's \<Rightarrow> (int \<times> 's) option" where
  "v8fixedarray_iter_elements D arrayp func uarg =
     (let len = (ucast (v8fixedarray_length arrayp) :: 32 word) in
      if len = 0 then Some (0, uarg)
      else v8fixedarray_iter_loop D arrayp func len 0
             (v8fa_addr arrayp + gv D V8_OFF_FIXEDARRAY_DATA) uarg)"

section \<open>Copying the array\<close>

definition v8fixedarray_as_array :: "v8dbg \<Rightarrow> v8fixedarray \<Rightarrow> memflags \<Rightarrow> uptr list option" where
  "v8fixedarray_as_array D arrayp memflags =
     (if v8fa_nelts arrayp = 0 then None
      else let arraysz = unat (v8fa_nelts arrayp * of_nat PTRSZ) in
        if \<not> zalloc_ok D arraysz memflags then None
        else do {
          bs \<leftarrow> mem_vread D (v8fa_addr arrayp + gv D V8_OFF_FIXEDARRAY_DATA) arraysz;
          Some (le_words (unat (v8fa_nelts arrayp)) bs)
        })"

section \<open>What the iteration visits\<close>

text \<open>
  The loop goes on while \<open>index < length - 1\<close>. After a chunk that leaves exactly one element
  the test fails, so a length of 1 modulo the chunk size (and more than one chunk) loses the
  last element.
\<close>

definition iter_visits :: "nat \<Rightarrow> nat" where
  "iter_visits n = (if n mod MAXNPGELTS = 1 \<and> 1 < n then n - 1 else n)"

definition elements_at :: "v8dbg \<Rightarrow> uptr \<Rightarrow> nat \<Rightarrow> uptr list option" where
  "elements_at D addr n = map_option (le_words n) (mem_vread D addr (8 * n))"

lemma iter_visits_le: "iter_visits n \<le> n"
  by (simp add: iter_visits_def)

lemma le_words_take: "8 * n \<le> length bs \<Longrightarrow> m \<le> n \<Longrightarrow> le_words m (take (8 * m) bs) = take m (le_words n bs)"
proof (induction n arbitrary: m bs)
  case (Suc n)
  show ?case
  proof (cases m)
    case (Suc k)
    have "le_words k (take (8 * k) (drop 8 bs)) = take k (le_words n (drop 8 bs))"
      using Suc.prems Suc by (intro Suc.IH) auto
    then show ?thesis using Suc
      by (simp add: drop_take min_def)
  qed simp
qed simp

lemma le_words_drop: "le_words n (drop (8 * m) bs) = drop m (le_words (n + m) bs)"
proof (induction m arbitrary: bs)
  case (Suc m)
  from Suc.IH [of "drop 8 bs"] show ?case by (simp add: add.commute)
qed simp

lemma elements_at_split:
  assumes "vread_laws D" and "elements_at D a (m + n) = Some xs"
  shows "elements_at D a m = Some (take m xs)" and "elements_at D (a + of_nat (8 * m)) n = Some (drop m xs)"
proof -
  from assms(2) obtain bs where bs: "mem_vread D a (8 * m + 8 * n) = Some bs" "xs = le_words (m + n) bs"
    by (auto simp: elements_at_def algebra_simps)
  then have l: "length bs = 8 * m + 8 * n" and
    m: "mem_vread D a (8 * m) = Some (take (8 * m) bs)" and
    n: "mem_vread D (a + of_nat (8 * m)) (8 * n) = Some (drop (8 * m) bs)"
    using vread_split [OF assms(1), of a "8 * m" "8 * n" bs] by auto
  show "elements_at D a m = Some (take m xs)"
    using m l le_words_take [of "m + n" bs m] by (simp add: elements_at_def bs(2))
  show "elements_at D (a + of_nat (8 * m)) n = Some (drop m xs)"
    using n le_words_drop [of n m bs] by (simp add: elements_at_def bs(2) add.commute)
qed

lemma elements_at_length: "elements_at D a n = Some xs \<Longrightarrow> length xs = n"
  by (auto simp: elements_at_def)

lemma loop_step:
  assumes xs: "elements_at D addr n = Some xs" and n: "n = min (unat (len - index)) MAXNPGELTS"
  shows "v8fixedarray_iter_loop D arrayp func len index addr s =
    (case cb_iter (\<lambda>(i, v). func arrayp (index + of_nat i) v) (enumerate 0 xs) s of
       (rv, s') \<Rightarrow> if rv \<noteq> 0 then Some (rv, s')
         else if index + of_nat n < len - 1
         then v8fixedarray_iter_loop D arrayp func len (index + of_nat n) (addr + of_nat (n * PTRSZ)) s'
         else Some (0, s'))"
proof -
  from xs obtain bs where bs: "mem_vread D addr (n * PTRSZ) = Some bs" "le_words n bs = xs"
    by (auto simp: elements_at_def PTRSZ_def mult.commute)
  show ?thesis
    by (subst v8fixedarray_iter_loop.simps) (simp add: Let_def bs flip: n)
qed

lemma cb_iter_enumerate_shift:
  "cb_iter (\<lambda>(j, v). f (of_nat i + of_nat j) v) (enumerate k xs) s =
   cb_iter (\<lambda>(j, v). f (of_nat j) v) (enumerate (i + k) xs) s"
proof (induction xs arbitrary: k s)
  case (Cons x xs)
  from Cons.IH [of "Suc k"] show ?case by (simp split: prod.split)
qed simp

definition on_element :: "('a \<Rightarrow> 32 word \<Rightarrow> uptr \<Rightarrow> 's \<Rightarrow> int \<times> 's) \<Rightarrow> 'a \<Rightarrow> nat \<times> uptr \<Rightarrow> 's \<Rightarrow> int \<times> 's" where
  "on_element func ap = (\<lambda>(i, v). func ap (of_nat i) v)"

text \<open>
  The loop from a chunk boundary: the callback loop over the elements still to be visited.
\<close>

lemma chunk_cut:
  fixes i n N :: nat
  assumes "i < N" "i mod MAXNPGELTS = 0" "i = 0 \<or> i < N - 1" "n = min (N - i) MAXNPGELTS"
    "\<not> i + n < N - 1"
  shows "iter_visits N = i + n"
proof (cases "N - i \<le> MAXNPGELTS")
  case True
  then have n: "i + n = N" using assms by simp
  have "N mod MAXNPGELTS = 1 \<longrightarrow> N \<le> 1"
  proof
    assume m: "N mod MAXNPGELTS = 1"
    have "N mod MAXNPGELTS = (N - i) mod MAXNPGELTS"
      using mod_add_left_eq [of i MAXNPGELTS "N - i"] assms(1,2) by simp
    with m True have "N - i = 1" by (cases "N - i = MAXNPGELTS") (auto simp: MAXNPGELTS_def)
    with assms(3) show "N \<le> 1" by linarith
  qed
  with n show ?thesis by (auto simp: iter_visits_def)
next
  case False
  with assms have N: "N = Suc (i + MAXNPGELTS)" "n = MAXNPGELTS" by auto
  have "N mod MAXNPGELTS = Suc (i mod MAXNPGELTS) mod MAXNPGELTS"
    by (simp only: N(1) mod_Suc_eq mod_add_self2 flip: add_Suc)
  then have "N mod MAXNPGELTS = 1"
    using assms(2) by (simp add: MAXNPGELTS_def)
  with N show ?thesis by (simp add: iter_visits_def MAXNPGELTS_def)
qed

text \<open>
  The loop from a chunk boundary: the callback loop over the elements still to be visited.
\<close>

lemma loop_visits:
  assumes laws: "vread_laws D" and xs: "elements_at D base (unat len) = Some xs"
    and i: "i < unat len" "i mod MAXNPGELTS = 0" "i = 0 \<or> i < unat len - 1"
  shows "v8fixedarray_iter_loop D arrayp func len (of_nat i) (base + of_nat (8 * i)) s =
    Some (cb_iter (on_element func arrayp)
            (enumerate i (take (iter_visits (unat len) - i) (drop i xs))) s)"
  using i
proof (induction "unat len - i" arbitrary: i s rule: less_induct)
  case less
  let ?N = "unat len" and ?n = "min (unat len - i) MAXNPGELTS"
  have N: "?N < 2 ^ 32" using unsigned_less [of len] by simp
  have len_xs: "length xs = ?N" using xs by (rule elements_at_length)
  have ilt: "unat (of_nat i :: 32 word) = i"
    using less.prems(1) N by (simp add: unsigned_of_nat take_bit_nat_eq_self_iff)
  have diff: "unat (len - of_nat i) = ?N - i"
    using less.prems(1) ilt by (simp add: unat_sub word_le_nat_alt)
  have npos: "0 < ?n" using less.prems(1) by (simp add: MAXNPGELTS_def)
  have "i + (?N - i) = ?N" using less.prems(1) by simp
  then have "elements_at D base (i + (?N - i)) = Some xs" using xs by simp
  from elements_at_split(2) [OF laws this]
  have rest: "elements_at D (base + of_nat (8 * i)) (?N - i) = Some (drop i xs)" .
  let ?c = "take ?n (drop i xs)"
  have split: "?n + (?N - i - ?n) = ?N - i" by simp
  have chunk: "elements_at D (base + of_nat (8 * i)) ?n = Some ?c"
    using elements_at_split(1) [OF laws, of _ ?n "?N - i - ?n"] rest unfolding split by blast
  have lenc: "length ?c = ?n" using len_xs by simp
  have shift: "cb_iter (\<lambda>(j, v). func arrayp (of_nat i + of_nat j) v) (enumerate 0 ?c) s
      = cb_iter (on_element func arrayp) (enumerate i ?c) s" for s
    using cb_iter_enumerate_shift [of "func arrayp" i 0 ?c s] by (simp add: on_element_def)
  have n': "?n = min (unat (len - of_nat i)) MAXNPGELTS" by (simp only: diff)
  have addrs: "base + of_nat (8 * i) + of_nat (?n * PTRSZ) = base + of_nat (8 * (i + ?n))"
    "(of_nat i :: 32 word) + of_nat ?n = of_nat (i + ?n)"
    by (simp_all only: PTRSZ_def of_nat_add of_nat_mult) (simp_all add: algebra_simps)
  have step: "v8fixedarray_iter_loop D arrayp func len (of_nat i) (base + of_nat (8 * i)) s =
    (case cb_iter (on_element func arrayp) (enumerate i ?c) s of
       (rv, s') \<Rightarrow> if rv \<noteq> 0 then Some (rv, s')
         else if of_nat (i + ?n) < len - 1
         then v8fixedarray_iter_loop D arrayp func len (of_nat (i + ?n)) (base + of_nat (8 * (i + ?n))) s'
         else Some (0, s'))"
    unfolding loop_step [OF chunk n'] shift addrs by (rule refl)
  have more: "of_nat (i + ?n) < len - 1 \<longleftrightarrow> i + ?n < ?N - 1"
  proof -
    have "i + ?n < 2 ^ 32" using N less.prems(1) by linarith
    moreover have "unat (len - 1) = ?N - 1"
      using less.prems(1) by (simp add: unat_sub word_le_nat_alt)
    ultimately show ?thesis
      unfolding word_less_nat_alt by (simp only: unat32_of_nat)
  qed
  show ?case
  proof (cases "i + ?n < ?N - 1")
    case True
    then have n: "?n = MAXNPGELTS" by linarith
    have iv: "iter_visits ?N - i = ?n + (iter_visits ?N - (i + ?n))"
      using True by (simp add: iter_visits_def)
    have IH: "v8fixedarray_iter_loop D arrayp func len (of_nat (i + ?n)) (base + of_nat (8 * (i + ?n))) s' =
      Some (cb_iter (on_element func arrayp)
        (enumerate (i + ?n) (take (iter_visits ?N - (i + ?n)) (drop (i + ?n) xs))) s')" for s'
      by (rule less.hyps) (use True npos less.prems in \<open>auto simp: n\<close>)
    have "enumerate i (take (iter_visits ?N - i) (drop i xs)) =
        enumerate i ?c @ enumerate (i + ?n) (take (iter_visits ?N - (i + ?n)) (drop (i + ?n) xs))"
      unfolding iv take_add enumerate_append_eq lenc by (simp add: add.commute)
    then show ?thesis
      using True unfolding step more IH by (auto simp: cb_iter_append split: prod.split)
  next
    case False
    from chunk_cut [OF less.prems refl this] have "iter_visits ?N - i = ?n" by simp
    with False show ?thesis
      unfolding step more by (auto split: prod.split)
  qed
qed

theorem iter_elements_visits:
  assumes "vread_laws D"
    and "elements_at D (v8fa_addr arrayp + gv D V8_OFF_FIXEDARRAY_DATA) (unat (v8fa_nelts arrayp)) = Some xs"
    and "unat (v8fa_nelts arrayp) < 2 ^ 32"
  shows "v8fixedarray_iter_elements D arrayp func s =
    Some (cb_iter (on_element func arrayp) (enumerate 0 (take (iter_visits (length xs)) xs)) s)"
proof -
  let ?len = "ucast (v8fa_nelts arrayp) :: 32 word"
  have len: "unat ?len = unat (v8fa_nelts arrayp)"
    using assms(3) by (simp add: unsigned_ucast_eq take_bit_nat_eq_self_iff)
  have xs: "length xs = unat (v8fa_nelts arrayp)"
    using assms(2) by (rule elements_at_length)
  show ?thesis
  proof (cases "?len = 0")
    case True
    with len xs have "xs = []" by simp
    with True show ?thesis
      by (simp add: v8fixedarray_iter_elements_def v8fixedarray_length_def)
  next
    case False
    then have "0 < unat ?len" by (simp add: unat_gt_0)
    with loop_visits [OF assms(1), of "v8fa_addr arrayp + gv D V8_OFF_FIXEDARRAY_DATA" ?len xs 0 arrayp func s]
      assms(2) xs False len show ?thesis
      by (simp add: v8fixedarray_iter_elements_def v8fixedarray_length_def)
  qed
qed

lemma as_array_elements:
  assumes "unat (v8fa_nelts arrayp) < 2 ^ 32" and "v8fa_nelts arrayp \<noteq> 0"
    and "zalloc_ok D (8 * unat (v8fa_nelts arrayp)) memflags"
  shows "v8fixedarray_as_array D arrayp memflags =
    elements_at D (v8fa_addr arrayp + gv D V8_OFF_FIXEDARRAY_DATA) (unat (v8fa_nelts arrayp))"
  using assms unat_times_8 [OF assms(1)]
  by (simp add: v8fixedarray_as_array_def elements_at_def Let_def map_option_case split: Option.bind_split option.split)

lemma iter_visits_butlast:
  "take (iter_visits (length xs)) xs = (if length xs mod 1024 = 1 \<and> 1 < length xs then butlast xs else xs)"
  by (simp add: iter_visits_def MAXNPGELTS_def butlast_conv_take)

section \<open>Properties\<close>

text \<open>
  C22. Iterating a FixedArray whose elements are readable calls the callback on its
  elements in order, each with its index, until the callback asks to stop, and returns
  that callback's value: on all elements, except that an array of more than one element
  whose length is 1 modulo the chunk size of 1024 is iterated without its last element.
\<close>

theorem fixedarray_iteration:
  assumes "vread_laws D" and "unat (v8fa_nelts arrayp) < 2 ^ 32"
    and "elements_at D (v8fa_addr arrayp + gv D V8_OFF_FIXEDARRAY_DATA) (unat (v8fa_nelts arrayp)) = Some xs"
  shows "v8fixedarray_iter_elements D arrayp func s =
    Some (cb_iter (on_element func arrayp)
      (enumerate 0 (if length xs mod 1024 = 1 \<and> 1 < length xs then butlast xs else xs)) s)"
  using iter_elements_visits [OF assms(1,3,2), of func s] by (simp only: iter_visits_butlast)

definition count_cb :: "v8fixedarray \<Rightarrow> 32 word \<Rightarrow> uptr \<Rightarrow> nat \<Rightarrow> int \<times> nat" where
  "count_cb arrayp index val n = (0, Suc n)"

lemma cb_iter_count: "cb_iter (on_element count_cb ap) xs n = (0, n + length xs)"
  by (induction xs arbitrary: n) (auto simp: on_element_def count_cb_def)

definition sample_array :: v8fixedarray where
  "sample_array = \<lparr>v8fa_addr = 4097, v8fa_memflags = {}, v8fa_nelts = 1025, v8fa_elements = 0\<rparr>"

lemma fixedarray_iteration_witness:
  "v8fixedarray_iter_elements (sample_dbg []) sample_array count_cb 0 = Some (0, 1024)"
proof -
  let ?D = "sample_dbg []"
  obtain xs where xs: "elements_at ?D (v8fa_addr sample_array + gv ?D V8_OFF_FIXEDARRAY_DATA)
      (unat (v8fa_nelts sample_array)) = Some xs"
    by (auto simp: elements_at_def sample_vread_def)
  have "length xs = 1025" using elements_at_length [OF xs] by (simp add: sample_array_def)
  moreover have "unat (v8fa_nelts sample_array) < 2 ^ 32" by (simp add: sample_array_def)
  ultimately show ?thesis
    using fixedarray_iteration [OF sample_laws _ xs, of count_cb 0] by (simp add: cb_iter_count)
qed

text \<open>
  Copying an array gives the very elements the iteration runs over: both read the same
  words of the target.
\<close>

theorem fixedarray_copy:
  assumes "unat (v8fa_nelts arrayp) < 2 ^ 32"
  shows "v8fixedarray_as_array D arrayp memflags =
    (if v8fa_nelts arrayp = 0 \<or> \<not> zalloc_ok D (8 * unat (v8fa_nelts arrayp)) memflags then None
     else elements_at D (v8fa_addr arrayp + gv D V8_OFF_FIXEDARRAY_DATA) (unat (v8fa_nelts arrayp)))"
proof (cases "v8fa_nelts arrayp = 0 \<or> \<not> zalloc_ok D (8 * unat (v8fa_nelts arrayp)) memflags")
  case True
  then show ?thesis
    using unat_times_8 [OF assms] by (auto simp: v8fixedarray_as_array_def Let_def)
next
  case False
  then show ?thesis using as_array_elements [OF assms] by simp
qed

lemma fixedarray_copy_witness:
  "\<exists>xs. v8fixedarray_as_array (sample_dbg []) sample_array {} = Some xs \<and> length xs = 1025"
proof -
  let ?D = "sample_dbg []"
  obtain xs where xs: "elements_at ?D (v8fa_addr sample_array + gv ?D V8_OFF_FIXEDARRAY_DATA)
      (unat (v8fa_nelts sample_array)) = Some xs"
    by (auto simp: elements_at_def sample_vread_def)
  have "unat (v8fa_nelts sample_array) < 2 ^ 32" by (simp add: sample_array_def)
  from fixedarray_copy [OF this, of ?D "{}"] xs elements_at_length [OF xs] show ?thesis
    by (simp add: sample_array_def)
qed

end
