(* ===== verification/JsArray.thy ===== *)
theory JsArray
  imports FixedArray
begin

text \<open>
  JavaScript arrays (\<^verbatim>\<open>src/src/mdb_v8_array.c\<close>): a JSArray is a length and the FixedArray
  of its elements, which may be longer than the array. The iterator runs the FixedArray
  iterator with a callback that stops at the array's length, and keeps the caller's result
  aside in \<open>v8ai_rv\<close>.
\<close>

record v8array =
  v8array_addr :: uptr
  v8array_memflags :: memflags
  v8array_elements :: "v8fixedarray option"
  v8array_len :: uptr

text \<open>The iteration state: \<open>v8ai_rv\<close> and what the caller's callback keeps in \<open>v8ai_uarg\<close>.\<close>

record 's v8array_iteration =
  v8ai_rv :: int
  v8ai_uarg :: 's

definition v8array_load :: "v8dbg \<Rightarrow> uptr \<Rightarrow> memflags \<Rightarrow> v8array option" where
  "v8array_load D addr memflags =
     (if \<not> V8_IS_HEAPOBJECT D addr then None
      else do {
        type \<leftarrow> read_typebyte D addr;
        if \<not> is_type D type V8_TYPE_JSARRAY then None
        else do {
          len \<leftarrow> read_heap_smi D addr (gv D V8_OFF_JSARRAY_LENGTH);
          elements \<leftarrow> read_heap_ptr D addr (gv D V8_OFF_JSOBJECT_ELEMENTS);
          if \<not> zalloc_ok D 32 memflags then None
          else let ap = \<lparr>v8array_addr = addr, v8array_memflags = memflags,
                         v8array_elements = None, v8array_len = len\<rparr> in
            if 0 < len then do {
              fa \<leftarrow> v8fixedarray_load D elements memflags;
              Some (ap\<lparr>v8array_elements := Some fa\<rparr>)
            }
            else Some ap
        }
      })"

text \<open>Which of the two blocks (the elements, the array) are handed back.\<close>

definition v8array_free :: "v8array option \<Rightarrow> bool \<times> bool" where
  "v8array_free ap =
     (case ap of None \<Rightarrow> (False, False)
      | Some a \<Rightarrow> (v8fixedarray_free (v8array_elements a), maybefree (v8array_memflags a)))"

definition v8array_length :: "v8array \<Rightarrow> uptr" where
  "v8array_length ap = v8array_len ap"

definition v8array_iter_one ::
    "(v8array \<Rightarrow> 32 word \<Rightarrow> uptr \<Rightarrow> 's \<Rightarrow> int \<times> 's) \<Rightarrow> v8array \<Rightarrow>
     v8fixedarray \<Rightarrow> 32 word \<Rightarrow> uptr \<Rightarrow> 's v8array_iteration \<Rightarrow> int \<times> 's v8array_iteration" where
  "v8array_iter_one func ap arrayp index val st =
     (if v8array_len ap \<le> ucast index then (- 1, st)
      else case func ap index val (v8ai_uarg st) of
        (rv, s) \<Rightarrow> (if rv = 0 then 0 else - 1, \<lparr>v8ai_rv = rv, v8ai_uarg = s\<rparr>))"

text \<open>\<open>None\<close>: a nonempty array whose elements were never loaded is dereferenced.\<close>

definition v8array_iter_elements ::
    "v8dbg \<Rightarrow> v8array \<Rightarrow> (v8array \<Rightarrow> 32 word \<Rightarrow> uptr \<Rightarrow> 's \<Rightarrow> int \<times> 's) \<Rightarrow> 's \<Rightarrow> (int \<times> 's) option" where
  "v8array_iter_elements D ap func uarg =
     (if v8array_length ap = 0 then Some (0, uarg)
      else do {
        elements \<leftarrow> v8array_elements ap;
        (_, st) \<leftarrow> v8fixedarray_iter_elements D elements (v8array_iter_one func ap)
                    \<lparr>v8ai_rv = 0, v8ai_uarg = uarg\<rparr>;
        Some (v8ai_rv st, v8ai_uarg st)
      })"

section \<open>Lemmas\<close>

lemma iter_one_cb:
  assumes "\<forall>x\<in>set xs. fst x < 2 ^ 32"
  shows "(case cb_iter (on_element (v8array_iter_one func ap) fa) xs \<lparr>v8ai_rv = 0, v8ai_uarg = s\<rparr> of
      (_, st) \<Rightarrow> (v8ai_rv st, v8ai_uarg st)) =
    cb_iter (on_element func ap) (takeWhile (\<lambda>x. fst x < unat (v8array_len ap)) xs) s"
  using assms
proof (induction xs arbitrary: s)
  case (Cons x xs)
  obtain i v where x: "x = (i, v)" by fastforce
  have "unat (ucast (of_nat i :: 32 word) :: uptr) = i"
    using Cons.prems x by (simp add: unsigned_ucast_eq unat32_of_nat take_bit_nat_eq_self_iff)
  then have "v8array_len ap \<le> ucast (of_nat i :: 32 word) \<longleftrightarrow> \<not> i < unat (v8array_len ap)"
    by (simp add: uptr_le_unat not_less)
  with x Cons.IH Cons.prems show ?case
    by (auto simp: on_element_def v8array_iter_one_def split: prod.splits)
qed simp

lemma takeWhile_enumerate: "takeWhile (\<lambda>x. fst x < n) (enumerate k xs) = enumerate k (take (n - k) xs)"
proof (induction xs arbitrary: k)
  case (Cons x xs)
  from Cons.IH [of "Suc k"] show ?case
    by (cases "n - k") (auto simp: diff_Suc)
qed simp

theorem array_iter_visits:
  assumes "vread_laws D" and "v8array_elements ap = Some fa"
    and "elements_at D (v8fa_addr fa + gv D V8_OFF_FIXEDARRAY_DATA) (unat (v8fa_nelts fa)) = Some xs"
    and "unat (v8fa_nelts fa) < 2 ^ 32"
  shows "v8array_iter_elements D ap func s =
    Some (cb_iter (on_element func ap)
            (enumerate 0 (take (unat (v8array_length ap)) (take (iter_visits (length xs)) xs))) s)"
proof -
  let ?xs = "enumerate 0 (take (iter_visits (length xs)) xs)"
  let ?st = "\<lparr>v8ai_rv = 0, v8ai_uarg = s\<rparr>"
  have "length xs < 2 ^ 32" using elements_at_length [OF assms(3)] assms(4) by simp
  then have "\<forall>x\<in>set ?xs. fst x < 2 ^ 32" by (auto simp: in_set_enumerate_eq)
  from iter_one_cb [OF this, of func ap fa s] show ?thesis
    using iter_elements_visits [OF assms(1,3,4), of "v8array_iter_one func ap" ?st] assms(2)
    by (auto simp: v8array_iter_elements_def v8array_length_def takeWhile_enumerate split: prod.splits)
qed

text \<open>
  A successful load gives the elements whenever the array is not empty, so the iteration
  does not dereference a missing elements array.
\<close>

lemma v8array_load_elements:
  "v8array_load D addr flags = Some ap \<Longrightarrow> v8array_length ap \<noteq> 0 \<Longrightarrow> \<exists>fa. v8array_elements ap = Some fa"
  by (auto simp: v8array_load_def v8array_length_def Let_def word_neq_0_conv
        split: Option.bind_splits if_splits)

section \<open>Properties\<close>

text \<open>
  C33. Iterating a JavaScript array calls the callback on the first elements of its backing
  store, as many as the array is long, until it asks to stop, and returns the callback's own
  value although the inner callback returns another one. The one exception is a backing store
  of more than one element whose length is 1 modulo 1024: an array that fills it is iterated
  without its last element.
\<close>

theorem jsarray_iteration:
  assumes "vread_laws D" and "v8array_elements ap = Some fa" and "unat (v8fa_nelts fa) < 2 ^ 32"
    and "elements_at D (v8fa_addr fa + gv D V8_OFF_FIXEDARRAY_DATA) (unat (v8fa_nelts fa)) = Some xs"
  shows "v8array_iter_elements D ap func s =
    Some (cb_iter (on_element func ap)
      (enumerate 0 (take (unat (v8array_length ap))
        (if length xs mod 1024 = 1 \<and> 1 < length xs then butlast xs else xs))) s)"
  using array_iter_visits [OF assms(1,2,4,3)] by (simp only: iter_visits_butlast)

definition stop_cb :: "v8array \<Rightarrow> 32 word \<Rightarrow> uptr \<Rightarrow> 32 word list \<Rightarrow> int \<times> 32 word list" where
  "stop_cb ap index val st = (if index = 1 then 7 else 0, st @ [index])"

definition sample_jsarray :: v8array where
  "sample_jsarray = \<lparr>v8array_addr = 8193, v8array_memflags = {},
     v8array_elements = Some (sample_array\<lparr>v8fa_nelts := 3\<rparr>), v8array_len = 2\<rparr>"

text \<open>It stops at the callback that asks for it.\<close>

lemma jsarray_iteration_witness:
  "v8array_iter_elements (sample_dbg []) sample_jsarray stop_cb [] = Some (7, [0, 1])"
proof -
  let ?D = "sample_dbg []" and ?fa = "sample_array\<lparr>v8fa_nelts := 3\<rparr>"
  have fa: "v8array_elements sample_jsarray = Some ?fa" by (simp add: sample_jsarray_def)
  obtain xs where xs: "elements_at ?D (v8fa_addr ?fa + gv ?D V8_OFF_FIXEDARRAY_DATA)
      (unat (v8fa_nelts ?fa)) = Some xs"
    by (auto simp: elements_at_def sample_vread_def)
  have "length xs = 3" using elements_at_length [OF xs] by simp
  then obtain a b c where "xs = [a, b, c]"
    by (auto simp: numeral_3_eq_3 length_Suc_conv)
  moreover have "unat (v8fa_nelts ?fa) < 2 ^ 32" by simp
  ultimately show ?thesis
    using jsarray_iteration [OF sample_laws fa _ xs, of stop_cb "[]"]
    by (simp add: v8array_length_def sample_jsarray_def on_element_def stop_cb_def)
qed

end
