(* ===== verification/CfgTables.thy ===== *)
theory CfgTables
  imports Prelude
begin

text \<open>
  The canned configurations of \<^verbatim>\<open>src/src/mdb_v8_cfg.c\<close>: the names and values of the
  V8 debug metadata of Node.js 0.4.8 and 0.6.5. The NULL entry that ends a table in C is the
  end of the list.
\<close>

type_synonym v8_cfg_symbol = "string \<times> uptr"

definition v8_symbols_node_04_1 :: "v8_cfg_symbol list" where
  "v8_symbols_node_04_1 =
     [(''v8dbg_type_AccessCheckInfo__ACCESS_CHECK_INFO_TYPE'', 145),
      (''v8dbg_type_AccessorInfo__ACCESSOR_INFO_TYPE'', 144),
      (''v8dbg_type_BreakPointInfo__BREAK_POINT_INFO_TYPE'', 155),
      (''v8dbg_type_ByteArray__BYTE_ARRAY_TYPE'', 134),
      (''v8dbg_type_CallHandlerInfo__CALL_HANDLER_INFO_TYPE'', 147),
      (''v8dbg_type_Code__CODE_TYPE'', 129),
      (''v8dbg_type_CodeCache__CODE_CACHE_TYPE'', 153),
      (''v8dbg_type_ConsString__CONS_ASCII_STRING_TYPE'', 5),
      (''v8dbg_type_ConsString__CONS_ASCII_SYMBOL_TYPE'', 69),
      (''v8dbg_type_ConsString__CONS_STRING_TYPE'', 1),
      (''v8dbg_type_ConsString__CONS_SYMBOL_TYPE'', 65),
      (''v8dbg_type_DebugInfo__DEBUG_INFO_TYPE'', 154),
      (''v8dbg_type_ExternalAsciiString__EXTERNAL_ASCII_STRING_TYPE'', 6),
      (''v8dbg_type_ExternalAsciiString__EXTERNAL_ASCII_SYMBOL_TYPE'', 70),
      (''v8dbg_type_ExternalByteArray__EXTERNAL_BYTE_ARRAY_TYPE'', 136),
      (''v8dbg_type_ExternalFloatArray__EXTERNAL_FLOAT_ARRAY_TYPE'', 142),
      (''v8dbg_type_ExternalIntArray__EXTERNAL_INT_ARRAY_TYPE'', 140),
      (''v8dbg_type_ExternalShortArray__EXTERNAL_SHORT_ARRAY_TYPE'', 138),
      (''v8dbg_type_ExternalString__EXTERNAL_STRING_TYPE'', 2),
      (''v8dbg_type_ExternalString__EXTERNAL_SYMBOL_TYPE'', 66),
      (''v8dbg_type_ExternalUnsignedByteArray__EXTERNAL_UNSIGNED_BYTE_ARRAY_TYPE'', 137),
      (''v8dbg_type_ExternalUnsignedIntArray__EXTERNAL_UNSIGNED_INT_ARRAY_TYPE'', 141),
      (''v8dbg_type_ExternalUnsignedShortArray__EXTERNAL_UNSIGNED_SHORT_ARRAY_TYPE'', 139),
      (''v8dbg_type_FixedArray__FIXED_ARRAY_TYPE'', 156),
      (''v8dbg_type_FunctionTemplateInfo__FUNCTION_TEMPLATE_INFO_TYPE'', 148),
      (''v8dbg_type_HeapNumber__HEAP_NUMBER_TYPE'', 132),
      (''v8dbg_type_InterceptorInfo__INTERCEPTOR_INFO_TYPE'', 146),
      (''v8dbg_type_JSArray__JS_ARRAY_TYPE'', 165),
      (''v8dbg_type_JSBuiltinsObject__JS_BUILTINS_OBJECT_TYPE'', 163),
      (''v8dbg_type_JSFunction__JS_FUNCTION_TYPE'', 167),
      (''v8dbg_type_JSGlobalObject__JS_GLOBAL_OBJECT_TYPE'', 162),
      (''v8dbg_type_JSGlobalPropertyCell__JS_GLOBAL_PROPERTY_CELL_TYPE'', 131),
      (''v8dbg_type_JSGlobalProxy__JS_GLOBAL_PROXY_TYPE'', 164),
      (''v8dbg_type_JSMessageObject__JS_MESSAGE_OBJECT_TYPE'', 158),
      (''v8dbg_type_JSObject__JS_OBJECT_TYPE'', 160),
      (''v8dbg_type_JSRegExp__JS_REGEXP_TYPE'', 166),
      (''v8dbg_type_JSValue__JS_VALUE_TYPE'', 159),
      (''v8dbg_type_Map__MAP_TYPE'', 128),
      (''v8dbg_type_ObjectTemplateInfo__OBJECT_TEMPLATE_INFO_TYPE'', 149),
      (''v8dbg_type_Oddball__ODDBALL_TYPE'', 130),
      (''v8dbg_type_Script__SCRIPT_TYPE'', 152),
      (''v8dbg_type_SeqAsciiString__ASCII_STRING_TYPE'', 4),
      (''v8dbg_type_SeqAsciiString__ASCII_SYMBOL_TYPE'', 68),
      (''v8dbg_type_SharedFunctionInfo__SHARED_FUNCTION_INFO_TYPE'', 157),
      (''v8dbg_type_SignatureInfo__SIGNATURE_INFO_TYPE'', 150),
      (''v8dbg_type_String__STRING_TYPE'', 0),
      (''v8dbg_type_String__SYMBOL_TYPE'', 64),
      (''v8dbg_type_TypeSwitchInfo__TYPE_SWITCH_INFO_TYPE'', 151),
      (''v8dbg_class_AccessCheckInfo__data__Object'', 12),
      (''v8dbg_class_AccessCheckInfo__indexed_callback__Object'', 8),
      (''v8dbg_class_AccessCheckInfo__named_callback__Object'', 4),
      (''v8dbg_class_AccessorInfo__data__Object'', 12),
      (''v8dbg_class_AccessorInfo__flag__Smi'', 20),
      (''v8dbg_class_AccessorInfo__getter__Object'', 4),
      (''v8dbg_class_AccessorInfo__name__Object'', 16),
      (''v8dbg_class_AccessorInfo__setter__Object'', 8),
      (''v8dbg_class_BreakPointInfo__break_point_objects__Object'', 16),
      (''v8dbg_class_BreakPointInfo__code_position__Smi'', 4),
      (''v8dbg_class_BreakPointInfo__source_position__Smi'', 8),
      (''v8dbg_class_BreakPointInfo__statement_position__Smi'', 12),
      (''v8dbg_class_ByteArray__length__SMI'', 4),
      (''v8dbg_class_CallHandlerInfo__callback__Object'', 4),
      (''v8dbg_class_CallHandlerInfo__data__Object'', 8),
      (''v8dbg_class_Code__deoptimization_data__FixedArray'', 12),
      (''v8dbg_class_Code__instruction_size__int'', 4),
      (''v8dbg_class_Code__instruction_start__int'', 32),
      (''v8dbg_class_Code__relocation_info__ByteArray'', 8),
      (''v8dbg_class_CodeCache__default_cache__FixedArray'', 4),
      (''v8dbg_class_CodeCache__normal_type_cache__Object'', 8),
      (''v8dbg_class_ConsString__first__String'', 12),
      (''v8dbg_class_ConsString__second__String'', 16),
      (''v8dbg_class_DebugInfo__break_points__FixedArray'', 20),
      (''v8dbg_class_DebugInfo__code__Code'', 12),
      (''v8dbg_class_DebugInfo__original_code__Code'', 8),
      (''v8dbg_class_DebugInfo__shared__SharedFunctionInfo'', 4),
      (''v8dbg_class_ExternalString__resource__Object'', 12),
      (''v8dbg_class_FixedArray__data__uintptr_t'', 8),
      (''v8dbg_class_FixedArray__length__SMI'', 4),
      (''v8dbg_class_FunctionTemplateInfo__access_check_info__Object'', 56),
      (''v8dbg_class_FunctionTemplateInfo__call_code__Object'', 16),
      (''v8dbg_class_FunctionTemplateInfo__class_name__Object'', 44),
      (''v8dbg_class_FunctionTemplateInfo__flag__Smi'', 60),
      (''v8dbg_class_FunctionTemplateInfo__indexed_property_handler__Object'', 36),
      (''v8dbg_class_FunctionTemplateInfo__instance_call_handler__Object'', 52),
      (''v8dbg_class_FunctionTemplateInfo__instance_template__Object'', 40),
      (''v8dbg_class_FunctionTemplateInfo__named_property_handler__Object'', 32),
      (''v8dbg_class_FunctionTemplateInfo__parent_template__Object'', 28),
      (''v8dbg_class_FunctionTemplateInfo__property_accessors__Object'', 20),
      (''v8dbg_class_FunctionTemplateInfo__prototype_template__Object'', 24)]"

definition v8_symbols_node_04_2 :: "v8_cfg_symbol list" where
  "v8_symbols_node_04_2 =
     [(''v8dbg_class_FunctionTemplateInfo__serial_number__Object'', 12),
      (''v8dbg_class_FunctionTemplateInfo__signature__Object'', 48),
      (''v8dbg_class_GlobalObject__builtins__JSBuiltinsObject'', 12),
      (''v8dbg_class_GlobalObject__global_context__Context'', 16),
      (''v8dbg_class_GlobalObject__global_receiver__JSObject'', 20),
      (''v8dbg_class_HeapNumber__value__SMI'', 4),
      (''v8dbg_class_HeapObject__map__Map'', 0),
      (''v8dbg_class_InterceptorInfo__data__Object'', 24),
      (''v8dbg_class_InterceptorInfo__deleter__Object'', 16),
      (''v8dbg_class_InterceptorInfo__enumerator__Object'', 20),
      (''v8dbg_class_InterceptorInfo__getter__Object'', 4),
      (''v8dbg_class_InterceptorInfo__query__Object'', 12),
      (''v8dbg_class_InterceptorInfo__setter__Object'', 8),
      (''v8dbg_class_JSArray__length__Object'', 12),
      (''v8dbg_class_JSFunction__literals__FixedArray'', 28),
      (''v8dbg_class_JSFunction__next_function_link__Object'', 32),
      (''v8dbg_class_JSFunction__prototype_or_initial_map__Object'', 16),
      (''v8dbg_class_JSFunction__shared__SharedFunctionInfo'', 20),
      (''v8dbg_class_JSGlobalProxy__context__Object'', 12),
      (''v8dbg_class_JSMessageObject__arguments__JSArray'', 16),
      (''v8dbg_class_JSMessageObject__end_position__SMI'', 36),
      (''v8dbg_class_JSMessageObject__script__Object'', 20),
      (''v8dbg_class_JSMessageObject__stack_frames__Object'', 28),
      (''v8dbg_class_JSMessageObject__stack_trace__Object'', 24),
      (''v8dbg_class_JSMessageObject__start_position__SMI'', 32),
      (''v8dbg_class_JSMessageObject__type__String'', 12),
      (''v8dbg_class_JSObject__elements__Object'', 8),
      (''v8dbg_class_JSObject__properties__FixedArray'', 4),
      (''v8dbg_class_JSRegExp__data__Object'', 12),
      (''v8dbg_class_JSValue__value__Object'', 12),
      (''v8dbg_class_Map__code_cache__Object'', 24),
      (''v8dbg_class_Map__constructor__Object'', 16),
      (''v8dbg_class_Map__inobject_properties__int'', 5),
      (''v8dbg_class_Map__instance_size__int'', 4),
      (''v8dbg_class_Map__instance_attributes__int'', 8),
      (''v8dbg_class_Map__instance_descriptors__DescriptorArray'', 20),
      (''v8dbg_class_ObjectTemplateInfo__constructor__Object'', 12),
      (''v8dbg_class_ObjectTemplateInfo__internal_field_count__Object'', 16),
      (''v8dbg_class_Oddball__to_number__Object'', 8),
      (''v8dbg_class_Oddball__to_string__String'', 4),
      (''v8dbg_class_Script__column_offset__Smi'', 16),
      (''v8dbg_class_Script__compilation_type__Smi'', 36),
      (''v8dbg_class_Script__context_data__Object'', 24),
      (''v8dbg_class_Script__data__Object'', 20),
      (''v8dbg_class_Script__eval_from_instructions_offset__Smi'', 52),
      (''v8dbg_class_Script__eval_from_shared__Object'', 48),
      (''v8dbg_class_Script__id__Object'', 44),
      (''v8dbg_class_Script__line_ends__Object'', 40),
      (''v8dbg_class_Script__line_offset__Smi'', 12),
      (''v8dbg_class_Script__name__Object'', 8),
      (''v8dbg_class_Script__source__Object'', 4),
      (''v8dbg_class_Script__type__Smi'', 32),
      (''v8dbg_class_Script__wrapper__Proxy'', 28),
      (''v8dbg_class_SeqAsciiString__chars__char'', 12),
      (''v8dbg_class_SharedFunctionInfo__code__Code'', 8),
      (''v8dbg_class_SharedFunctionInfo__compiler_hints__SMI'', 80),
      (''v8dbg_class_SharedFunctionInfo__construct_stub__Code'', 16),
      (''v8dbg_class_SharedFunctionInfo__debug_info__Object'', 32),
      (''v8dbg_class_SharedFunctionInfo__end_position__SMI'', 72),
      (''v8dbg_class_SharedFunctionInfo__expected_nof_properties__SMI'', 60),
      (''v8dbg_class_SharedFunctionInfo__formal_parameter_count__SMI'', 56),
      (''v8dbg_class_SharedFunctionInfo__function_data__Object'', 24),
      (''v8dbg_class_SharedFunctionInfo__function_token_position__SMI'', 76),
      (''v8dbg_class_SharedFunctionInfo__inferred_name__String'', 36),
      (''v8dbg_class_SharedFunctionInfo__initial_map__Object'', 40),
      (''v8dbg_class_SharedFunctionInfo__instance_class_name__Object'', 20),
      (''v8dbg_class_SharedFunctionInfo__length__SMI'', 52),
      (''v8dbg_class_SharedFunctionInfo__name__Object'', 4),
      (''v8dbg_class_SharedFunctionInfo__num_literals__SMI'', 64),
      (''v8dbg_class_SharedFunctionInfo__opt_count__SMI'', 88),
      (''v8dbg_class_SharedFunctionInfo__script__Object'', 28),
      (''v8dbg_class_SharedFunctionInfo__start_position_and_type__SMI'', 68),
      (''v8dbg_class_SharedFunctionInfo__this_property_assignments__Object'', 44),
      (''v8dbg_class_SharedFunctionInfo__this_property_assignments_count__SMI'', 84),
      (''v8dbg_class_SignatureInfo__args__Object'', 8),
      (''v8dbg_class_SignatureInfo__receiver__Object'', 4),
      (''v8dbg_class_String__length__SMI'', 4),
      (''v8dbg_class_TemplateInfo__property_list__Object'', 8),
      (''v8dbg_class_TemplateInfo__tag__Object'', 4),
      (''v8dbg_class_TypeSwitchInfo__types__Object'', 4),
      (''v8dbg_parent_AccessCheckInfo__Struct'', 0),
      (''v8dbg_parent_AccessorInfo__Struct'', 0),
      (''v8dbg_parent_BreakPointInfo__Struct'', 0),
      (''v8dbg_parent_ByteArray__HeapObject'', 0),
      (''v8dbg_parent_CallHandlerInfo__Struct'', 0),
      (''v8dbg_parent_Code__HeapObject'', 0),
      (''v8dbg_parent_CodeCache__Struct'', 0),
      (''v8dbg_parent_ConsString__String'', 0),
      (''v8dbg_parent_DebugInfo__Struct'', 0),
      (''v8dbg_parent_DeoptimizationInputData__FixedArray'', 0),
      (''v8dbg_parent_DeoptimizationOutputData__FixedArray'', 0),
      (''v8dbg_parent_DescriptorArray__FixedArray'', 0),
      (''v8dbg_parent_ExternalArray__HeapObject'', 0)]"

definition v8_symbols_node_04_3 :: "v8_cfg_symbol list" where
  "v8_symbols_node_04_3 =
     [(''v8dbg_parent_ExternalAsciiString__ExternalString'', 0),
      (''v8dbg_parent_ExternalByteArray__ExternalArray'', 0),
      (''v8dbg_parent_ExternalFloatArray__ExternalArray'', 0),
      (''v8dbg_parent_ExternalIntArray__ExternalArray'', 0),
      (''v8dbg_parent_ExternalShortArray__ExternalArray'', 0),
      (''v8dbg_parent_ExternalString__String'', 0),
      (''v8dbg_parent_ExternalTwoByteString__ExternalString'', 0),
      (''v8dbg_parent_ExternalUnsignedByteArray__ExternalArray'', 0),
      (''v8dbg_parent_ExternalUnsignedIntArray__ExternalArray'', 0),
      (''v8dbg_parent_ExternalUnsignedShortArray__ExternalArray'', 0),
      (''v8dbg_parent_Failure__MaybeObject'', 0),
      (''v8dbg_parent_FixedArray__HeapObject'', 0),
      (''v8dbg_parent_FunctionTemplateInfo__TemplateInfo'', 0),
      (''v8dbg_parent_GlobalObject__JSObject'', 0),
      (''v8dbg_parent_HeapNumber__HeapObject'', 0),
      (''v8dbg_parent_HeapObject__Object'', 0),
      (''v8dbg_parent_InterceptorInfo__Struct'', 0),
      (''v8dbg_parent_JSArray__JSObject'', 0),
      (''v8dbg_parent_JSBuiltinsObject__GlobalObject'', 0),
      (''v8dbg_parent_JSFunction__JSObject'', 0),
      (''v8dbg_parent_JSFunctionResultCache__FixedArray'', 0),
      (''v8dbg_parent_JSGlobalObject__GlobalObject'', 0),
      (''v8dbg_parent_JSGlobalPropertyCell__HeapObject'', 0),
      (''v8dbg_parent_JSGlobalProxy__JSObject'', 0),
      (''v8dbg_parent_JSMessageObject__JSObject'', 0),
      (''v8dbg_parent_JSObject__HeapObject'', 0),
      (''v8dbg_parent_JSRegExp__JSObject'', 0),
      (''v8dbg_parent_JSRegExpResult__JSArray'', 0),
      (''v8dbg_parent_JSValue__JSObject'', 0),
      (''v8dbg_parent_Map__HeapObject'', 0),
      (''v8dbg_parent_NormalizedMapCache__FixedArray'', 0),
      (''v8dbg_parent_Object__MaybeObject'', 0),
      (''v8dbg_parent_ObjectTemplateInfo__TemplateInfo'', 0),
      (''v8dbg_parent_Oddball__HeapObject'', 0),
      (''v8dbg_parent_Script__Struct'', 0),
      (''v8dbg_parent_SeqAsciiString__SeqString'', 0),
      (''v8dbg_parent_SeqString__String'', 0),
      (''v8dbg_parent_SeqTwoByteString__SeqString'', 0),
      (''v8dbg_parent_SharedFunctionInfo__HeapObject'', 0),
      (''v8dbg_parent_SignatureInfo__Struct'', 0),
      (''v8dbg_parent_Smi__Object'', 0),
      (''v8dbg_parent_String__HeapObject'', 0),
      (''v8dbg_parent_Struct__HeapObject'', 0),
      (''v8dbg_parent_TemplateInfo__Struct'', 0),
      (''v8dbg_parent_TypeSwitchInfo__Struct'', 0),
      (''v8dbg_frametype_ArgumentsAdaptorFrame'', 8),
      (''v8dbg_frametype_ConstructFrame'', 7),
      (''v8dbg_frametype_EntryConstructFrame'', 2),
      (''v8dbg_frametype_EntryFrame'', 1),
      (''v8dbg_frametype_ExitFrame'', 3),
      (''v8dbg_frametype_InternalFrame'', 6),
      (''v8dbg_frametype_JavaScriptFrame'', 4),
      (''v8dbg_frametype_OptimizedFrame'', 5),
      (''v8dbg_off_fp_context'', -4),
      (''v8dbg_off_fp_function'', -8),
      (''v8dbg_off_fp_marker'', -8),
      (''v8dbg_off_fp_args'', 8),
      (''v8dbg_prop_idx_content'', 0),
      (''v8dbg_prop_idx_first'', 2),
      (''v8dbg_prop_type_field'', 1),
      (''v8dbg_prop_type_first_phantom'', 6),
      (''v8dbg_prop_type_mask'', 15),
      (''v8dbg_AsciiStringTag'', 4),
      (''v8dbg_ConsStringTag'', 1),
      (''v8dbg_ExternalStringTag'', 2),
      (''v8dbg_FailureTag'', 3),
      (''v8dbg_FailureTagMask'', 3),
      (''v8dbg_FirstNonstringType'', 128),
      (''v8dbg_HeapObjectTag'', 1),
      (''v8dbg_HeapObjectTagMask'', 3),
      (''v8dbg_IsNotStringMask'', 128),
      (''v8dbg_NotStringTag'', 128),
      (''v8dbg_SeqStringTag'', 0),
      (''v8dbg_SmiTag'', 0),
      (''v8dbg_SmiTagMask'', 1),
      (''v8dbg_SmiValueShift'', 1),
      (''v8dbg_StringEncodingMask'', 4),
      (''v8dbg_StringRepresentationMask'', 3),
      (''v8dbg_StringTag'', 0),
      (''v8dbg_TwoByteStringTag'', 0),
      (''v8dbg_PointerSizeLog2'', 2)]"

definition v8_symbols_node_04 :: "v8_cfg_symbol list" where
  "v8_symbols_node_04 = v8_symbols_node_04_1 @ v8_symbols_node_04_2 @ v8_symbols_node_04_3"

definition v8_symbols_node_06_1 :: "v8_cfg_symbol list" where
  "v8_symbols_node_06_1 =
     [(''v8dbg_type_AccessCheckInfo__ACCESS_CHECK_INFO_TYPE'', 147),
      (''v8dbg_type_AccessorInfo__ACCESSOR_INFO_TYPE'', 146),
      (''v8dbg_type_BreakPointInfo__BREAK_POINT_INFO_TYPE'', 158),
      (''v8dbg_type_ByteArray__BYTE_ARRAY_TYPE'', 134),
      (''v8dbg_type_CallHandlerInfo__CALL_HANDLER_INFO_TYPE'', 149),
      (''v8dbg_type_Code__CODE_TYPE'', 129),
      (''v8dbg_type_CodeCache__CODE_CACHE_TYPE'', 155),
      (''v8dbg_type_ConsString__CONS_ASCII_STRING_TYPE'', 5),
      (''v8dbg_type_ConsString__CONS_ASCII_SYMBOL_TYPE'', 69),
      (''v8dbg_type_ConsString__CONS_STRING_TYPE'', 1),
      (''v8dbg_type_ConsString__CONS_SYMBOL_TYPE'', 65),
      (''v8dbg_type_DebugInfo__DEBUG_INFO_TYPE'', 157),
      (''v8dbg_type_ExternalAsciiString__EXTERNAL_ASCII_STRING_TYPE'', 6),
      (''v8dbg_type_ExternalAsciiString__EXTERNAL_ASCII_SYMBOL_TYPE'', 70),
      (''v8dbg_type_ExternalByteArray__EXTERNAL_BYTE_ARRAY_TYPE'', 135),
      (''v8dbg_type_ExternalDoubleArray__EXTERNAL_DOUBLE_ARRAY_TYPE'', 142),
      (''v8dbg_type_ExternalFloatArray__EXTERNAL_FLOAT_ARRAY_TYPE'', 141),
      (''v8dbg_type_ExternalIntArray__EXTERNAL_INT_ARRAY_TYPE'', 139),
      (''v8dbg_type_ExternalPixelArray__EXTERNAL_PIXEL_ARRAY_TYPE'', 143),
      (''v8dbg_type_ExternalShortArray__EXTERNAL_SHORT_ARRAY_TYPE'', 137),
      (''v8dbg_type_ExternalTwoByteString__EXTERNAL_STRING_TYPE'', 2),
      (''v8dbg_type_ExternalTwoByteString__EXTERNAL_SYMBOL_TYPE'', 66),
      (''v8dbg_type_ExternalUnsignedByteArray__EXTERNAL_UNSIGNED_BYTE_ARRAY_TYPE'', 136),
      (''v8dbg_type_ExternalUnsignedIntArray__EXTERNAL_UNSIGNED_INT_ARRAY_TYPE'', 140),
      (''v8dbg_type_ExternalUnsignedShortArray__EXTERNAL_UNSIGNED_SHORT_ARRAY_TYPE'', 138),
      (''v8dbg_type_FixedArray__FIXED_ARRAY_TYPE'', 159),
      (''v8dbg_type_FixedDoubleArray__FIXED_DOUBLE_ARRAY_TYPE'', 144),
      (''v8dbg_type_Foreign__FOREIGN_TYPE'', 133),
      (''v8dbg_type_FunctionTemplateInfo__FUNCTION_TEMPLATE_INFO_TYPE'', 150),
      (''v8dbg_type_HeapNumber__HEAP_NUMBER_TYPE'', 132),
      (''v8dbg_type_InterceptorInfo__INTERCEPTOR_INFO_TYPE'', 148),
      (''v8dbg_type_JSArray__JS_ARRAY_TYPE'', 168),
      (''v8dbg_type_JSBuiltinsObject__JS_BUILTINS_OBJECT_TYPE'', 166),
      (''v8dbg_type_JSFunction__JS_FUNCTION_TYPE'', 172),
      (''v8dbg_type_JSFunctionProxy__JS_FUNCTION_PROXY_TYPE'', 173),
      (''v8dbg_type_JSGlobalObject__JS_GLOBAL_OBJECT_TYPE'', 165),
      (''v8dbg_type_JSGlobalPropertyCell__JS_GLOBAL_PROPERTY_CELL_TYPE'', 131),
      (''v8dbg_type_JSMessageObject__JS_MESSAGE_OBJECT_TYPE'', 161),
      (''v8dbg_type_JSObject__JS_OBJECT_TYPE'', 163),
      (''v8dbg_type_JSProxy__JS_PROXY_TYPE'', 169),
      (''v8dbg_type_JSRegExp__JS_REGEXP_TYPE'', 171),
      (''v8dbg_type_JSValue__JS_VALUE_TYPE'', 162),
      (''v8dbg_type_JSWeakMap__JS_WEAK_MAP_TYPE'', 170),
      (''v8dbg_type_Map__MAP_TYPE'', 128),
      (''v8dbg_type_ObjectTemplateInfo__OBJECT_TEMPLATE_INFO_TYPE'', 151),
      (''v8dbg_type_Oddball__ODDBALL_TYPE'', 130),
      (''v8dbg_type_PolymorphicCodeCache__POLYMORPHIC_CODE_CACHE_TYPE'', 156),
      (''v8dbg_type_Script__SCRIPT_TYPE'', 154),
      (''v8dbg_type_SeqAsciiString__ASCII_STRING_TYPE'', 4),
      (''v8dbg_type_SeqAsciiString__ASCII_SYMBOL_TYPE'', 68),
      (''v8dbg_type_SeqTwoByteString__STRING_TYPE'', 0),
      (''v8dbg_type_SeqTwoByteString__SYMBOL_TYPE'', 64),
      (''v8dbg_type_SharedFunctionInfo__SHARED_FUNCTION_INFO_TYPE'', 160),
      (''v8dbg_type_SignatureInfo__SIGNATURE_INFO_TYPE'', 152),
      (''v8dbg_type_SlicedString__SLICED_ASCII_STRING_TYPE'', 7),
      (''v8dbg_type_SlicedString__SLICED_STRING_TYPE'', 3),
      (''v8dbg_type_TypeSwitchInfo__TYPE_SWITCH_INFO_TYPE'', 153),
      (''v8dbg_class_AccessCheckInfo__data__Object'', 12),
      (''v8dbg_class_AccessCheckInfo__indexed_callback__Object'', 8),
      (''v8dbg_class_AccessCheckInfo__named_callback__Object'', 4),
      (''v8dbg_class_AccessorInfo__data__Object'', 12),
      (''v8dbg_class_AccessorInfo__flag__Smi'', 20),
      (''v8dbg_class_AccessorInfo__getter__Object'', 4),
      (''v8dbg_class_AccessorInfo__name__Object'', 16),
      (''v8dbg_class_AccessorInfo__setter__Object'', 8),
      (''v8dbg_class_BreakPointInfo__break_point_objects__Object'', 16),
      (''v8dbg_class_BreakPointInfo__code_position__Smi'', 4),
      (''v8dbg_class_BreakPointInfo__source_position__Smi'', 8),
      (''v8dbg_class_BreakPointInfo__statement_position__Smi'', 12),
      (''v8dbg_class_CallHandlerInfo__callback__Object'', 4),
      (''v8dbg_class_CallHandlerInfo__data__Object'', 8),
      (''v8dbg_class_Code__deoptimization_data__FixedArray'', 12),
      (''v8dbg_class_Code__instruction_size__int'', 4),
      (''v8dbg_class_Code__instruction_start__int'', 32),
      (''v8dbg_class_Code__next_code_flushing_candidate__Object'', 16),
      (''v8dbg_class_Code__relocation_info__ByteArray'', 8),
      (''v8dbg_class_CodeCache__default_cache__FixedArray'', 4),
      (''v8dbg_class_CodeCache__normal_type_cache__Object'', 8),
      (''v8dbg_class_ConsString__first__String'', 12),
      (''v8dbg_class_ConsString__second__String'', 16),
      (''v8dbg_class_DebugInfo__break_points__FixedArray'', 20),
      (''v8dbg_class_DebugInfo__code__Code'', 12),
      (''v8dbg_class_DebugInfo__original_code__Code'', 8),
      (''v8dbg_class_DebugInfo__shared__SharedFunctionInfo'', 4),
      (''v8dbg_class_ExternalString__resource__Object'', 12),
      (''v8dbg_class_FixedArray__data__uintptr_t'', 8),
      (''v8dbg_class_FixedArrayBase__length__SMI'', 4),
      (''v8dbg_class_FunctionTemplateInfo__access_check_info__Object'', 56),
      (''v8dbg_class_FunctionTemplateInfo__call_code__Object'', 16),
      (''v8dbg_class_FunctionTemplateInfo__class_name__Object'', 44),
      (''v8dbg_class_FunctionTemplateInfo__flag__Smi'', 60),
      (''v8dbg_class_FunctionTemplateInfo__indexed_property_handler__Object'', 36)]"

definition v8_symbols_node_06_2 :: "v8_cfg_symbol list" where
  "v8_symbols_node_06_2 =
     [(''v8dbg_class_FunctionTemplateInfo__instance_call_handler__Object'', 52),
      (''v8dbg_class_FunctionTemplateInfo__instance_template__Object'', 40),
      (''v8dbg_class_FunctionTemplateInfo__named_property_handler__Object'', 32),
      (''v8dbg_class_FunctionTemplateInfo__parent_template__Object'', 28),
      (''v8dbg_class_FunctionTemplateInfo__property_accessors__Object'', 20),
      (''v8dbg_class_FunctionTemplateInfo__prototype_template__Object'', 24),
      (''v8dbg_class_FunctionTemplateInfo__serial_number__Object'', 12),
      (''v8dbg_class_FunctionTemplateInfo__signature__Object'', 48),
      (''v8dbg_class_GlobalObject__builtins__JSBuiltinsObject'', 12),
      (''v8dbg_class_GlobalObject__global_context__Context'', 16),
      (''v8dbg_class_GlobalObject__global_receiver__JSObject'', 20),
      (''v8dbg_class_HeapNumber__value__double'', 4),
      (''v8dbg_class_HeapObject__map__Map'', 0),
      (''v8dbg_class_InterceptorInfo__data__Object'', 24),
      (''v8dbg_class_InterceptorInfo__deleter__Object'', 16),
      (''v8dbg_class_InterceptorInfo__enumerator__Object'', 20),
      (''v8dbg_class_InterceptorInfo__getter__Object'', 4),
      (''v8dbg_class_InterceptorInfo__query__Object'', 12),
      (''v8dbg_class_InterceptorInfo__setter__Object'', 8),
      (''v8dbg_class_JSArray__length__Object'', 12),
      (''v8dbg_class_JSFunction__literals__FixedArray'', 28),
      (''v8dbg_class_JSFunction__next_function_link__Object'', 32),
      (''v8dbg_class_JSFunction__prototype_or_initial_map__Object'', 16),
      (''v8dbg_class_JSFunction__shared__SharedFunctionInfo'', 20),
      (''v8dbg_class_JSFunctionProxy__call_trap__Object'', 8),
      (''v8dbg_class_JSFunctionProxy__construct_trap__Object'', 12),
      (''v8dbg_class_JSGlobalProxy__context__Object'', 12),
      (''v8dbg_class_JSMessageObject__arguments__JSArray'', 16),
      (''v8dbg_class_JSMessageObject__end_position__SMI'', 36),
      (''v8dbg_class_JSMessageObject__script__Object'', 20),
      (''v8dbg_class_JSMessageObject__stack_frames__Object'', 28),
      (''v8dbg_class_JSMessageObject__stack_trace__Object'', 24),
      (''v8dbg_class_JSMessageObject__start_position__SMI'', 32),
      (''v8dbg_class_JSMessageObject__type__String'', 12),
      (''v8dbg_class_JSObject__elements__Object'', 8),
      (''v8dbg_class_JSObject__properties__FixedArray'', 4),
      (''v8dbg_class_JSProxy__handler__Object'', 4),
      (''v8dbg_class_JSRegExp__data__Object'', 12),
      (''v8dbg_class_JSValue__value__Object'', 12),
      (''v8dbg_class_JSWeakMap__next__Object'', 16),
      (''v8dbg_class_JSWeakMap__table__ObjectHashTable'', 12),
      (''v8dbg_class_Map__code_cache__Object'', 24),
      (''v8dbg_class_Map__constructor__Object'', 16),
      (''v8dbg_class_Map__inobject_properties__int'', 5),
      (''v8dbg_class_Map__instance_attributes__int'', 8),
      (''v8dbg_class_Map__instance_descriptors__FixedArray'', 20),
      (''v8dbg_class_Map__instance_size__int'', 4),
      (''v8dbg_class_Map__prototype_transitions__FixedArray'', 28),
      (''v8dbg_class_ObjectTemplateInfo__constructor__Object'', 12),
      (''v8dbg_class_ObjectTemplateInfo__internal_field_count__Object'', 16),
      (''v8dbg_class_Oddball__to_number__Object'', 8),
      (''v8dbg_class_Oddball__to_string__String'', 4),
      (''v8dbg_class_PolymorphicCodeCache__cache__Object'', 4),
      (''v8dbg_class_Script__column_offset__Smi'', 16),
      (''v8dbg_class_Script__compilation_type__Smi'', 36),
      (''v8dbg_class_Script__context_data__Object'', 24),
      (''v8dbg_class_Script__data__Object'', 20),
      (''v8dbg_class_Script__eval_from_instructions_offset__Smi'', 52),
      (''v8dbg_class_Script__eval_from_shared__Object'', 48),
      (''v8dbg_class_Script__id__Object'', 44),
      (''v8dbg_class_Script__line_ends__Object'', 40),
      (''v8dbg_class_Script__line_offset__Smi'', 12),
      (''v8dbg_class_Script__name__Object'', 8),
      (''v8dbg_class_Script__source__Object'', 4),
      (''v8dbg_class_Script__type__Smi'', 32),
      (''v8dbg_class_Script__wrapper__Foreign'', 28),
      (''v8dbg_class_SeqAsciiString__chars__char'', 12),
      (''v8dbg_class_SharedFunctionInfo__code__Code'', 8),
      (''v8dbg_class_SharedFunctionInfo__compiler_hints__SMI'', 80),
      (''v8dbg_class_SharedFunctionInfo__construct_stub__Code'', 16),
      (''v8dbg_class_SharedFunctionInfo__debug_info__Object'', 32),
      (''v8dbg_class_SharedFunctionInfo__end_position__SMI'', 72),
      (''v8dbg_class_SharedFunctionInfo__expected_nof_properties__SMI'', 60),
      (''v8dbg_class_SharedFunctionInfo__formal_parameter_count__SMI'', 56),
      (''v8dbg_class_SharedFunctionInfo__function_data__Object'', 24),
      (''v8dbg_class_SharedFunctionInfo__function_token_position__SMI'', 76),
      (''v8dbg_class_SharedFunctionInfo__inferred_name__String'', 36),
      (''v8dbg_class_SharedFunctionInfo__initial_map__Object'', 40),
      (''v8dbg_class_SharedFunctionInfo__instance_class_name__Object'', 20),
      (''v8dbg_class_SharedFunctionInfo__length__SMI'', 52),
      (''v8dbg_class_SharedFunctionInfo__name__Object'', 4),
      (''v8dbg_class_SharedFunctionInfo__num_literals__SMI'', 64),
      (''v8dbg_class_SharedFunctionInfo__opt_count__SMI'', 88),
      (''v8dbg_class_SharedFunctionInfo__script__Object'', 28),
      (''v8dbg_class_SharedFunctionInfo__start_position_and_type__SMI'', 68),
      (''v8dbg_class_SharedFunctionInfo__this_property_assignments__Object'', 44),
      (''v8dbg_class_SharedFunctionInfo__this_property_assignments_count__SMI'', 84),
      (''v8dbg_class_SignatureInfo__args__Object'', 8),
      (''v8dbg_class_SignatureInfo__receiver__Object'', 4),
      (''v8dbg_class_SlicedString__offset__SMI'', 16)]"

definition v8_symbols_node_06_3 :: "v8_cfg_symbol list" where
  "v8_symbols_node_06_3 =
     [(''v8dbg_class_String__length__SMI'', 4),
      (''v8dbg_class_TemplateInfo__property_list__Object'', 8),
      (''v8dbg_class_TemplateInfo__tag__Object'', 4),
      (''v8dbg_class_TypeSwitchInfo__types__Object'', 4),
      (''v8dbg_parent_AccessCheckInfo__Struct'', 0),
      (''v8dbg_parent_AccessorInfo__Struct'', 0),
      (''v8dbg_parent_BreakPointInfo__Struct'', 0),
      (''v8dbg_parent_ByteArray__FixedArrayBase'', 0),
      (''v8dbg_parent_CallHandlerInfo__Struct'', 0),
      (''v8dbg_parent_Code__HeapObject'', 0),
      (''v8dbg_parent_CodeCache__Struct'', 0),
      (''v8dbg_parent_ConsString__String'', 0),
      (''v8dbg_parent_DebugInfo__Struct'', 0),
      (''v8dbg_parent_DeoptimizationInputData__FixedArray'', 0),
      (''v8dbg_parent_DeoptimizationOutputData__FixedArray'', 0),
      (''v8dbg_parent_DescriptorArray__FixedArray'', 0),
      (''v8dbg_parent_ExternalArray__FixedArrayBase'', 0),
      (''v8dbg_parent_ExternalAsciiString__ExternalString'', 0),
      (''v8dbg_parent_ExternalByteArray__ExternalArray'', 0),
      (''v8dbg_parent_ExternalDoubleArray__ExternalArray'', 0),
      (''v8dbg_parent_ExternalFloatArray__ExternalArray'', 0),
      (''v8dbg_parent_ExternalIntArray__ExternalArray'', 0),
      (''v8dbg_parent_ExternalPixelArray__ExternalArray'', 0),
      (''v8dbg_parent_ExternalShortArray__ExternalArray'', 0),
      (''v8dbg_parent_ExternalString__String'', 0),
      (''v8dbg_parent_ExternalTwoByteString__ExternalString'', 0),
      (''v8dbg_parent_ExternalUnsignedByteArray__ExternalArray'', 0),
      (''v8dbg_parent_ExternalUnsignedIntArray__ExternalArray'', 0),
      (''v8dbg_parent_ExternalUnsignedShortArray__ExternalArray'', 0),
      (''v8dbg_parent_Failure__MaybeObject'', 0),
      (''v8dbg_parent_FixedArray__FixedArrayBase'', 0),
      (''v8dbg_parent_FixedArrayBase__HeapObject'', 0),
      (''v8dbg_parent_FixedDoubleArray__FixedArrayBase'', 0),
      (''v8dbg_parent_Foreign__HeapObject'', 0),
      (''v8dbg_parent_FunctionTemplateInfo__TemplateInfo'', 0),
      (''v8dbg_parent_GlobalObject__JSObject'', 0),
      (''v8dbg_parent_HashTable__FixedArray'', 0),
      (''v8dbg_parent_HeapNumber__HeapObject'', 0),
      (''v8dbg_parent_HeapObject__Object'', 0),
      (''v8dbg_parent_InterceptorInfo__Struct'', 0),
      (''v8dbg_parent_JSArray__JSObject'', 0),
      (''v8dbg_parent_JSBuiltinsObject__GlobalObject'', 0),
      (''v8dbg_parent_JSFunction__JSObject'', 0),
      (''v8dbg_parent_JSFunctionProxy__JSProxy'', 0),
      (''v8dbg_parent_JSFunctionResultCache__FixedArray'', 0),
      (''v8dbg_parent_JSGlobalObject__GlobalObject'', 0),
      (''v8dbg_parent_JSGlobalPropertyCell__HeapObject'', 0),
      (''v8dbg_parent_JSMessageObject__JSObject'', 0),
      (''v8dbg_parent_JSObject__JSReceiver'', 0),
      (''v8dbg_parent_JSProxy__JSReceiver'', 0),
      (''v8dbg_parent_JSReceiver__HeapObject'', 0),
      (''v8dbg_parent_JSRegExp__JSObject'', 0),
      (''v8dbg_parent_JSRegExpResult__JSArray'', 0),
      (''v8dbg_parent_JSValue__JSObject'', 0),
      (''v8dbg_parent_JSWeakMap__JSObject'', 0),
      (''v8dbg_parent_Map__HeapObject'', 0),
      (''v8dbg_parent_NormalizedMapCache__FixedArray'', 0),
      (''v8dbg_parent_ObjectTemplateInfo__TemplateInfo'', 0),
      (''v8dbg_parent_Oddball__HeapObject'', 0),
      (''v8dbg_parent_PolymorphicCodeCache__Struct'', 0),
      (''v8dbg_parent_Script__Struct'', 0),
      (''v8dbg_parent_SeqAsciiString__SeqString'', 0),
      (''v8dbg_parent_SeqString__String'', 0),
      (''v8dbg_parent_SeqTwoByteString__SeqString'', 0),
      (''v8dbg_parent_SharedFunctionInfo__HeapObject'', 0),
      (''v8dbg_parent_SignatureInfo__Struct'', 0),
      (''v8dbg_parent_SlicedString__String'', 0),
      (''v8dbg_parent_Smi__Object'', 0),
      (''v8dbg_parent_String__HeapObject'', 0),
      (''v8dbg_parent_Struct__HeapObject'', 0),
      (''v8dbg_parent_TemplateInfo__Struct'', 0),
      (''v8dbg_parent_TypeSwitchInfo__Struct'', 0),
      (''v8dbg_frametype_ArgumentsAdaptorFrame'', 8),
      (''v8dbg_frametype_ConstructFrame'', 7),
      (''v8dbg_frametype_EntryConstructFrame'', 2),
      (''v8dbg_frametype_EntryFrame'', 1),
      (''v8dbg_frametype_ExitFrame'', 3),
      (''v8dbg_frametype_InternalFrame'', 6),
      (''v8dbg_frametype_JavaScriptFrame'', 4),
      (''v8dbg_frametype_OptimizedFrame'', 5),
      (''v8dbg_off_fp_args'', 8),
      (''v8dbg_off_fp_context'', -4),
      (''v8dbg_off_fp_function'', -8),
      (''v8dbg_off_fp_marker'', -8),
      (''v8dbg_prop_idx_content'', 1),
      (''v8dbg_prop_idx_first'', 3),
      (''v8dbg_prop_type_field'', 1),
      (''v8dbg_prop_type_first_phantom'', 6),
      (''v8dbg_prop_type_mask'', 15),
      (''v8dbg_AsciiStringTag'', 4),
      (''v8dbg_PointerSizeLog2'', 2),
      (''v8dbg_SeqStringTag'', 0),
      (''v8dbg_SmiTag'', 0),
      (''v8dbg_SmiTagMask'', 1),
      (''v8dbg_SmiValueShift'', 1)]"

definition v8_symbols_node_06_4 :: "v8_cfg_symbol list" where
  "v8_symbols_node_06_4 =
     [(''v8dbg_StringEncodingMask'', 4),
      (''v8dbg_StringRepresentationMask'', 3),
      (''v8dbg_StringTag'', 0),
      (''v8dbg_TwoByteStringTag'', 0),
      (''v8dbg_ConsStringTag'', 1),
      (''v8dbg_ExternalStringTag'', 2),
      (''v8dbg_FailureTag'', 3),
      (''v8dbg_FailureTagMask'', 3),
      (''v8dbg_FirstNonstringType'', 128),
      (''v8dbg_HeapObjectTag'', 1),
      (''v8dbg_HeapObjectTagMask'', 3),
      (''v8dbg_IsNotStringMask'', 128),
      (''v8dbg_NotStringTag'', 128)]"

definition v8_symbols_node_06 :: "v8_cfg_symbol list" where
  "v8_symbols_node_06 = v8_symbols_node_06_1 @ v8_symbols_node_06_2 @ v8_symbols_node_06_3 @ v8_symbols_node_06_4"

end
