(* ===== verification/Cfg.thy ===== *)
theory Cfg
  imports CfgTables V8Dbg
begin

text \<open>
  The sources of configuration (\<^verbatim>\<open>src/src/mdb_v8_cfg.c\<close>, \<^verbatim>\<open>src/src/v8cfg.h\<close>): a
  configuration lists symbol names to a callback and reads a symbol's value. A canned
  configuration does so from a table, the target's configuration through the debugger,
  whose two entry points are parameters of the model (record \<open>v8_target\<close>).
\<close>

datatype v8_cfg_funcs = V8cfg_canned | V8cfg_target

record v8_cfg =
  v8cfg_name :: "string option"
  v8cfg_label :: "string option"
  v8cfg_symbols :: "v8_cfg_symbol list"
  v8cfg_funcs :: v8_cfg_funcs

text \<open>
  \<open>tgt_symbols\<close> are the global symbols \<^verbatim>\<open>mdb_symbol_iter\<close> goes through, \<open>tgt_readint\<close>
  is \<^verbatim>\<open>mdb_readsym\<close> of an \<open>int\<close>, \<open>tgt_has_symbol\<close> is \<^verbatim>\<open>mdb_lookup_by_name\<close>.
\<close>

record v8_target =
  tgt_symbols :: "string list"
  tgt_readint :: "string \<Rightarrow> 32 word option"
  tgt_has_symbol :: "string \<Rightarrow> bool"

definition v8cfg_target_iter :: "v8_target \<Rightarrow> (string \<Rightarrow> 's \<Rightarrow> int \<times> 's) \<Rightarrow> 's \<Rightarrow> int \<times> 's" where
  "v8cfg_target_iter T func s = cb_iter func (tgt_symbols T) s"

definition v8cfg_target_readsym :: "v8_target \<Rightarrow> string \<Rightarrow> uptr option" where
  "v8cfg_target_readsym T name = map_option scast (tgt_readint T name)"

fun v8cfg_canned_iter :: "v8_cfg_symbol list \<Rightarrow> (string \<Rightarrow> 's \<Rightarrow> int \<times> 's) \<Rightarrow> 's \<Rightarrow> int \<times> 's" where
  "v8cfg_canned_iter [] func s = (0, s)"
| "v8cfg_canned_iter ((n, v) # syms) func s =
     (case func n s of (rv, s') \<Rightarrow> if rv \<noteq> 0 then (rv, s') else v8cfg_canned_iter syms func s')"

fun v8cfg_canned_readsym :: "v8_cfg_symbol list \<Rightarrow> string \<Rightarrow> uptr option" where
  "v8cfg_canned_readsym [] name = None"
| "v8cfg_canned_readsym ((n, v) # syms) name =
     (if strcmp name n = 0 then Some v else v8cfg_canned_readsym syms name)"

text \<open>The calls through the function pointers of a configuration.\<close>

definition v8cfg_iter :: "v8_target \<Rightarrow> v8_cfg \<Rightarrow> (string \<Rightarrow> 's \<Rightarrow> int \<times> 's) \<Rightarrow> 's \<Rightarrow> int \<times> 's" where
  "v8cfg_iter T cfgp =
     (case v8cfg_funcs cfgp of
        V8cfg_canned \<Rightarrow> v8cfg_canned_iter (v8cfg_symbols cfgp)
      | V8cfg_target \<Rightarrow> v8cfg_target_iter T)"

definition v8cfg_readsym :: "v8_target \<Rightarrow> v8_cfg \<Rightarrow> string \<Rightarrow> uptr option" where
  "v8cfg_readsym T cfgp =
     (case v8cfg_funcs cfgp of
        V8cfg_canned \<Rightarrow> v8cfg_canned_readsym (v8cfg_symbols cfgp)
      | V8cfg_target \<Rightarrow> v8cfg_target_readsym T)"

definition v8_cfg_04 :: v8_cfg where
  "v8_cfg_04 = \<lparr>v8cfg_name = Some ''node-0.4'', v8cfg_label = Some ''node v0.4'',
     v8cfg_symbols = v8_symbols_node_04, v8cfg_funcs = V8cfg_canned\<rparr>"

definition v8_cfg_06 :: v8_cfg where
  "v8_cfg_06 = \<lparr>v8cfg_name = Some ''node-0.6'', v8cfg_label = Some ''node v0.6'',
     v8cfg_symbols = v8_symbols_node_06, v8cfg_funcs = V8cfg_canned\<rparr>"

definition v8_cfgs :: "v8_cfg list" where
  "v8_cfgs = [v8_cfg_04, v8_cfg_06]"

definition v8_cfg_target :: v8_cfg where
  "v8_cfg_target = \<lparr>v8cfg_name = None, v8cfg_label = None, v8cfg_symbols = [],
     v8cfg_funcs = V8cfg_target\<rparr>"

lemma canned_iter_cb: "v8cfg_canned_iter syms func s = cb_iter func (map fst syms) s"
  by (induction syms func s rule: v8cfg_canned_iter.induct) (auto split: prod.split)

lemma canned_readsym_map_of: "v8cfg_canned_readsym syms name = map_of syms name"
  by (induction syms name rule: v8cfg_canned_readsym.induct) (auto simp: strcmp_zero_iff)

definition cfg_names :: "v8_target \<Rightarrow> v8_cfg \<Rightarrow> string list" where
  "cfg_names T cfgp = (case v8cfg_funcs cfgp of
     V8cfg_canned \<Rightarrow> map fst (v8cfg_symbols cfgp) | V8cfg_target \<Rightarrow> tgt_symbols T)"

lemma cfg_iter_cb: "v8cfg_iter T cfgp func s = cb_iter func (cfg_names T cfgp) s"
  by (simp add: v8cfg_iter_def cfg_names_def v8cfg_target_iter_def canned_iter_cb split: v8_cfg_funcs.split)

end
