(* ===== verification/Conf.thy ===== *)
theory Conf
  imports Heap Cfg
begin

text \<open>
  The tables built from the debug metadata (the \<open>conf_*\<close> functions of
  \<^verbatim>\<open>src/src/mdb_v8.c\<close>): classes with their fields and parents from the names of the
  \<open>v8dbg_\<close> symbols, and the enumerations of type and frame values. Each update takes and
  returns the module's state; the outer option is \<open>None\<close> where the code writes outside an
  array, fails an assertion or does not return.
\<close>

section \<open>Symbol names\<close>

definition conf_next_part :: "string \<Rightarrow> (string \<times> string) option" where
  "conf_next_part s =
     (case strstr s ''__'' of None \<Rightarrow> None | Some i \<Rightarrow> Some (take i s, drop (i + 2) s))"

section \<open>Classes\<close>

text \<open>
  The list of classes is kept sorted by name. \<open>class_insert\<close> is the search and the insertion
  of \<open>conf_class_findcreate\<close>: the class found, or the new one linked before the first class
  with a greater name (\<open>None\<close> when it could not be allocated).
\<close>

fun class_insert :: "v8_class list \<Rightarrow> string \<Rightarrow> v8_class option \<Rightarrow> (v8_class list \<times> nat) option" where
  "class_insert [] name new = map_option (\<lambda>c. ([c], v8c_addr c)) new"
| "class_insert (iclp # cls) name new =
     (let cmp = strcmp (v8c_name iclp) name in
      if cmp = 0 then Some (iclp # cls, v8c_addr iclp)
      else if 0 < cmp then map_option (\<lambda>c. (c # iclp # cls, v8c_addr c)) new
      else map_option (\<lambda>(cls', a). (iclp # cls', a)) (class_insert cls name new))"

definition new_class :: "v8dbg \<Rightarrow> string \<Rightarrow> v8_class option" where
  "new_class D name =
     (if \<not> zalloc_ok D 104 {} then None
      else Some \<lparr>v8c_addr = length (v8_classes D), v8c_name = strlcpy 64 name, v8c_parent = None,
                v8c_fields = [], v8c_start = 0, v8c_end = - 1\<rparr>)"

definition conf_class_findcreate :: "v8dbg \<Rightarrow> string \<Rightarrow> (v8dbg \<times> nat) option" where
  "conf_class_findcreate D name =
     map_option (\<lambda>(cls, a). (D\<lparr>v8_classes := cls\<rparr>, a))
       (class_insert (v8_classes D) name (new_class D name))"

definition class_at :: "v8dbg \<Rightarrow> nat \<Rightarrow> v8_class option" where
  "class_at D a = List.find (\<lambda>c. v8c_addr c = a) (v8_classes D)"

definition class_update :: "nat \<Rightarrow> (v8_class \<Rightarrow> v8_class) \<Rightarrow> v8dbg \<Rightarrow> v8dbg" where
  "class_update a f D =
     D\<lparr>v8_classes := map (\<lambda>c. if v8c_addr c = a then f c else c) (v8_classes D)\<rparr>"

section \<open>Fields\<close>

text \<open>
  The fields of a class are kept sorted by offset, compared as \<open>size_t\<close>; a new field goes
  behind the fields of the same offset.
\<close>

fun field_insert_after :: "v8_field \<Rightarrow> v8_field list \<Rightarrow> v8_field \<Rightarrow> v8_field list" where
  "field_insert_after iflp [] flp = [iflp, flp]"
| "field_insert_after iflp (next # fls) flp =
     (if v8f_offset flp < v8f_offset next then iflp # flp # next # fls
      else iflp # field_insert_after next fls flp)"

fun field_insert :: "v8_field list \<Rightarrow> v8_field \<Rightarrow> v8_field list" where
  "field_insert [] flp = [flp]"
| "field_insert (f # fls) flp =
     (if v8f_offset flp < v8f_offset f then flp # f # fls else field_insert_after f fls flp)"

text \<open>\<open>isbyte\<close> and \<open>isstr\<close> are what the caller sets in the new field right after.\<close>

definition conf_field_create ::
    "v8dbg \<Rightarrow> nat \<Rightarrow> string \<Rightarrow> uptr \<Rightarrow> bool \<Rightarrow> bool \<Rightarrow> v8dbg option" where
  "conf_field_create D clp name offset isbyte isstr =
     (if \<not> zalloc_ok D 88 {} then None
      else Some (class_update clp (\<lambda>c. c\<lparr>v8c_fields := field_insert (v8c_fields c)
             \<lparr>v8f_name = strlcpy 64 name, v8f_offset = offset, v8f_isbyte = isbyte,
              v8f_isstr = isstr\<rparr>\<rparr>) D))"

section \<open>The metadata symbols\<close>

text \<open>
  Each of these returns 0 or \<open>-1\<close> and the state after it; a class that was created before
  the failure stays.
\<close>

definition conf_update_parent :: "string \<Rightarrow> v8dbg \<Rightarrow> int \<times> v8dbg" where
  "conf_update_parent symbol D =
     (case conf_next_part (drop (length ''v8dbg_parent_'') (strlcpy 128 symbol)) of
        None \<Rightarrow> (- 1, D)
      | Some (pp, qq) \<Rightarrow>
          (case conf_class_findcreate D pp of
             None \<Rightarrow> (case conf_class_findcreate D qq of None \<Rightarrow> (- 1, D) | Some (D', _) \<Rightarrow> (- 1, D'))
           | Some (D1, clp) \<Rightarrow>
               (case conf_class_findcreate D1 qq of
                  None \<Rightarrow> (- 1, D1)
                | Some (D2, pclp) \<Rightarrow> (0, class_update clp (\<lambda>c. c\<lparr>v8c_parent := Some pclp\<rparr>) D2))))"

definition conf_update_field :: "v8_target \<Rightarrow> v8_cfg \<Rightarrow> string \<Rightarrow> v8dbg \<Rightarrow> int \<times> v8dbg" where
  "conf_update_field T cfgp symbol D =
     (case conf_next_part (drop (length ''v8dbg_class_'') (strlcpy 128 symbol)) of
        None \<Rightarrow> (- 1, D)
      | Some (pp, rest) \<Rightarrow>
          (case conf_next_part rest of
             None \<Rightarrow> (- 1, D)
           | Some (qq, tt) \<Rightarrow>
               (case v8cfg_readsym T cfgp symbol of
                  None \<Rightarrow> (- 1, D)
                | Some offset \<Rightarrow>
                    (case conf_class_findcreate D pp of
                       None \<Rightarrow> (- 1, D)
                     | Some (D1, clp) \<Rightarrow>
                         let is_map_bitfield3_smi =
                               (strcmp pp ''Map'' = 0 \<and> strcmp qq ''bit_field3'' = 0 \<and> strcmp tt ''SMI'' = 0);
                             is_v8_bitfield3_actually_int = is_map_bitfield3_smi \<and>
                               (v8_major D = 3 \<and> 28 \<le> v8_minor D \<or> v8_major D = 4 \<and> v8_minor D \<le> 7);
                             isbyte = (strcmp tt ''int'' = 0 \<or>
                               is_map_bitfield3_smi \<and> is_v8_bitfield3_actually_int);
                             isstr = (\<not> isbyte \<and> strcmp tt ''char'' = 0)
                         in (case conf_field_create D1 clp qq offset isbyte isstr of
                               None \<Rightarrow> (- 1, D1)
                             | Some D2 \<Rightarrow> (0, D2))))))"

text \<open>
  The value of an enumeration symbol; \<open>None\<close> is the result \<open>-1\<close>, which leaves the entry
  zeroed.
\<close>

definition conf_update_enum :: "v8_target \<Rightarrow> v8_cfg \<Rightarrow> string \<Rightarrow> string \<Rightarrow> v8_enum option" where
  "conf_update_enum T cfgp symbol name =
     (case v8cfg_readsym T cfgp symbol of
        None \<Rightarrow> None
      | Some v \<Rightarrow> Some \<lparr>v8e_name = strlcpy 64 name, v8e_value = ucast v\<rparr>)"

definition zero_enum :: v8_enum where
  "zero_enum = \<lparr>v8e_name = [], v8e_value = 0\<rparr>"

text \<open>The entry behind the last of an array is counted, but cannot be written.\<close>

definition conf_update_type :: "v8_target \<Rightarrow> v8_cfg \<Rightarrow> string \<Rightarrow> v8dbg \<Rightarrow> (int \<times> v8dbg) option" where
  "conf_update_type T cfgp symbol D =
     (if NTYPES < length (v8_types D) then Some (- 1, D)
      else (case conf_next_part (drop (length ''v8dbg_type_'') (strlcpy 128 symbol)) of
         None \<Rightarrow> Some (- 1, D)
       | Some (klass, _) \<Rightarrow>
           (case conf_update_enum T cfgp symbol klass of
              None \<Rightarrow> Some (- 1, D\<lparr>v8_types := v8_types D @ [zero_enum]\<rparr>)
            | Some e \<Rightarrow>
                if NTYPES \<le> length (v8_types D) then None
                else Some (0, D\<lparr>v8_types := v8_types D @ [e]\<rparr>))))"

definition conf_update_frametype :: "v8_target \<Rightarrow> v8_cfg \<Rightarrow> string \<Rightarrow> v8dbg \<Rightarrow> (int \<times> v8dbg) option" where
  "conf_update_frametype T cfgp symbol D =
     (if NFRAMETYPES < length (v8_frametypes D) then Some (- 1, D)
      else (case conf_update_enum T cfgp symbol (drop (length ''v8dbg_frametype_'') symbol) of
              None \<Rightarrow> Some (- 1, D\<lparr>v8_frametypes := v8_frametypes D @ [zero_enum]\<rparr>)
            | Some e \<Rightarrow>
                if NFRAMETYPES \<le> length (v8_frametypes D) then None
                else Some (0, D\<lparr>v8_frametypes := v8_frametypes D @ [e]\<rparr>)))"

definition autoconf_iter_symbol :: "v8_target \<Rightarrow> v8_cfg \<Rightarrow> string \<Rightarrow> v8dbg \<Rightarrow> (int \<times> v8dbg) option" where
  "autoconf_iter_symbol T cfgp sym_name D =
     (if has_prefix ''v8dbg_parent_'' sym_name then Some (conf_update_parent sym_name D)
      else if has_prefix ''v8dbg_class_'' sym_name then Some (conf_update_field T cfgp sym_name D)
      else if has_prefix ''v8dbg_type_'' sym_name then conf_update_type T cfgp sym_name D
      else if has_prefix ''v8dbg_frametype_'' sym_name then conf_update_frametype T cfgp sym_name D
      else Some (0, D))"

section \<open>The extent of a class\<close>

text \<open>
  The recursion goes to the parent as long as its extent is not known. A class that is its
  own ancestor is followed forever.
\<close>

partial_function (option) conf_class_compute_offsets :: "nat \<Rightarrow> v8dbg \<Rightarrow> v8dbg option" where
  "conf_class_compute_offsets clp D =
     (case class_at D clp of
        None \<Rightarrow> None
      | Some c \<Rightarrow>
          if v8c_start c \<noteq> 0 \<or> v8c_end c \<noteq> - 1 then None
          else Option.bind
            (case v8c_parent c of
               None \<Rightarrow> Some (D, 0)
             | Some p \<Rightarrow>
                 (case class_at D p of
                    None \<Rightarrow> None
                  | Some pc \<Rightarrow>
                      Option.bind
                        (if v8c_end pc = - 1 then conf_class_compute_offsets p D else Some D)
                        (\<lambda>D'. map_option (\<lambda>pc'. (D', v8c_end pc')) (class_at D' p))))
            (\<lambda>(D', start).
               Some (class_update clp (\<lambda>c. c\<lparr>v8c_start := start,
                  v8c_end := (if v8c_fields c = [] then start
                              else v8f_offset (last (v8c_fields c)) + of_nat PTRSZ)\<rparr>) D')))"

section \<open>Lemmas: the class list\<close>

definition classes_sorted :: "v8_class list \<Rightarrow> bool" where
  "classes_sorted cls \<longleftrightarrow> sorted_wrt (\<lambda>a b. strcmp (v8c_name a) (v8c_name b) < 0) cls"

lemma strcmp_neg_iff: "strcmp s t < 0 \<longleftrightarrow> 0 < strcmp t s"
  using strcmp_swap [of s t] by auto

lemma class_insert_set:
  "class_insert cls n new = Some (cls', a) \<Longrightarrow>
     set cls' = set cls \<or> (\<exists>c. new = Some c \<and> set cls' = insert c (set cls))"
proof (induction cls arbitrary: cls')
  case (Cons x xs)
  then show ?case by (force simp: Let_def split: if_splits)
qed auto

lemma class_insert_sorted:
  assumes "classes_sorted cls" and "class_insert cls n new = Some (cls', a)"
    and "\<And>c. new = Some c \<Longrightarrow> v8c_name c = n"
  shows "classes_sorted cls'"
  using assms
proof (induction cls arbitrary: cls')
  case Nil
  then show ?case by (auto simp: classes_sorted_def)
next
  case (Cons x xs)
  let ?cmp = "strcmp (v8c_name x) n"
  have tail: "classes_sorted xs" and head: "\<forall>y\<in>set xs. strcmp (v8c_name x) (v8c_name y) < 0"
    using Cons.prems(1) by (auto simp: classes_sorted_def)
  consider "?cmp = 0" | "0 < ?cmp" | "?cmp < 0" by linarith
  then show ?case
  proof cases
    case 1
    with Cons.prems show ?thesis by simp
  next
    case 2
    with Cons.prems(2) obtain c where c: "new = Some c" "cls' = c # x # xs" by (auto simp: Let_def)
    have "strcmp (v8c_name c) (v8c_name x) < 0" using 2 Cons.prems(3) [OF c(1)] by (simp add: strcmp_neg_iff)
    moreover have "\<forall>y\<in>set xs. strcmp (v8c_name c) (v8c_name y) < 0"
      using head calculation by (blast intro: strcmp_trans)
    ultimately show ?thesis using Cons.prems(1) c by (simp add: classes_sorted_def)
  next
    case 3
    with Cons.prems(2) obtain ys where ys: "class_insert xs n new = Some (ys, a)" "cls' = x # ys"
      by (auto simp: Let_def)
    have "classes_sorted ys" using Cons.IH [OF tail ys(1)] Cons.prems(3) by blast
    moreover have "\<forall>y\<in>set ys. strcmp (v8c_name x) (v8c_name y) < 0"
      using class_insert_set [OF ys(1)] head 3 Cons.prems(3) by auto
    ultimately show ?thesis using ys(2) by (simp add: classes_sorted_def)
  qed
qed

lemma class_insert_lookup:
  assumes "classes_sorted cls" and "class_insert cls n new = Some (cls', a)"
    and "\<And>c. new = Some c \<Longrightarrow> v8c_name c = n"
  shows "class_lookup cls' m =
    (if m = n then (case class_lookup cls n of Some c \<Rightarrow> Some c | None \<Rightarrow> new) else class_lookup cls m)"
  using assms
proof (induction cls arbitrary: cls')
  case Nil
  then show ?case by (auto simp: strcmp_zero_iff)
next
  case (Cons x xs)
  have tail: "classes_sorted xs" and head: "\<forall>y\<in>set xs. strcmp (v8c_name x) (v8c_name y) < 0"
    using Cons.prems(1) by (auto simp: classes_sorted_def)
  let ?cmp = "strcmp (v8c_name x) n"
  consider "?cmp = 0" | "0 < ?cmp" | "?cmp < 0" by linarith
  then show ?case
  proof cases
    case 1
    with Cons.prems show ?thesis by (auto simp: strcmp_zero_iff)
  next
    case 2
    with Cons.prems(2) obtain c where c: "new = Some c" "cls' = c # x # xs" by (auto simp: Let_def)
    have lt: "strcmp n (v8c_name x) < 0" using 2 by (simp add: strcmp_neg_iff)
    have "n \<notin> v8c_name ` set xs"
    proof
      assume "n \<in> v8c_name ` set xs"
      then have "strcmp (v8c_name x) n < 0" using head by auto
      with 2 show False by simp
    qed
    then have "class_lookup (x # xs) n = None" using 2 by (auto simp: class_lookup_None strcmp_zero_iff)
    with c Cons.prems(3) [OF c(1)] show ?thesis by (auto simp: strcmp_zero_iff)
  next
    case 3
    with Cons.prems(2) obtain ys where ys: "class_insert xs n new = Some (ys, a)" "cls' = x # ys"
      by (auto simp: Let_def)
    from Cons.IH [OF tail ys(1)] Cons.prems(3)
    have "class_lookup ys m = (if m = n then case class_lookup xs n of Some c \<Rightarrow> Some c | None \<Rightarrow> new
        else class_lookup xs m)" by blast
    with 3 ys(2) show ?thesis by (auto simp: strcmp_zero_iff)
  qed
qed

lemma class_insert_addr:
  assumes "classes_sorted cls" and "class_insert cls n new = Some (cls', a)"
  shows "\<exists>c. (case class_lookup cls n of Some c \<Rightarrow> Some c | None \<Rightarrow> new) = Some c \<and> v8c_addr c = a"
  using assms
proof (induction cls arbitrary: cls')
  case (Cons x xs)
  have tail: "classes_sorted xs" and head: "\<forall>y\<in>set xs. strcmp (v8c_name x) (v8c_name y) < 0"
    using Cons.prems(1) by (auto simp: classes_sorted_def)
  let ?cmp = "strcmp (v8c_name x) n"
  consider "?cmp = 0" | "0 < ?cmp" | "?cmp < 0" by linarith
  then show ?case
  proof cases
    case 1
    with Cons.prems show ?thesis by (auto simp: strcmp_zero_iff)
  next
    case 2
    have "n \<notin> v8c_name ` set xs"
      using head 2 by fastforce
    then have "class_lookup (x # xs) n = None" using 2 by (auto simp: class_lookup_None strcmp_zero_iff)
    with 2 Cons.prems(2) show ?thesis by (auto simp: Let_def)
  next
    case 3
    with Cons.prems(2) obtain ys where "class_insert xs n new = Some (ys, a)" by (auto simp: Let_def)
    from Cons.IH [OF tail this] 3 show ?thesis by (auto simp: strcmp_zero_iff)
  qed
qed auto

section \<open>Lemmas: the field list\<close>

definition fields_sorted :: "v8_field list \<Rightarrow> bool" where
  "fields_sorted fls \<longleftrightarrow> sorted_wrt (\<lambda>a b. v8f_offset a \<le> v8f_offset b) fls"

text \<open>The position a field is inserted at: behind the fields of the same or a smaller offset.\<close>

lemma field_insert_after_eq:
  "v8f_offset f \<le> v8f_offset flp \<Longrightarrow> fields_sorted (f # fls) \<Longrightarrow>
   field_insert_after f fls flp =
     f # takeWhile (\<lambda>g. v8f_offset g \<le> v8f_offset flp) fls @ flp #
       dropWhile (\<lambda>g. v8f_offset g \<le> v8f_offset flp) fls"
proof (induction fls arbitrary: f)
  case (Cons g fls)
  then show ?case by (auto simp: fields_sorted_def not_less not_le)
qed simp

lemma field_insert_eq:
  assumes "fields_sorted fls"
  shows "field_insert fls flp = takeWhile (\<lambda>g. v8f_offset g \<le> v8f_offset flp) fls @ flp #
       dropWhile (\<lambda>g. v8f_offset g \<le> v8f_offset flp) fls"
proof (cases fls)
  case (Cons f fs)
  with assms field_insert_after_eq [of f flp fs] show ?thesis by (auto simp: not_less not_le)
qed simp

lemma dropWhile_sorted_greater:
  assumes "fields_sorted fls"
  shows "\<forall>f\<in>set (dropWhile (\<lambda>g. v8f_offset g \<le> off) fls). off < v8f_offset f"
  using assms
proof (induction fls)
  case (Cons f fls)
  then have tail: "fields_sorted fls" and le: "\<forall>g\<in>set fls. v8f_offset f \<le> v8f_offset g"
    by (simp_all add: fields_sorted_def)
  have "\<not> v8f_offset f \<le> off \<Longrightarrow> \<forall>g\<in>set (f # fls). off < v8f_offset g"
    using le by (metis not_le less_le_trans set_ConsD)
  with Cons.IH [OF tail] show ?case by simp
qed simp

lemma fields_sorted_middle:
  "fields_sorted (tw @ dw) \<Longrightarrow> \<forall>g\<in>set dw. v8f_offset flp \<le> v8f_offset g \<Longrightarrow>
   \<forall>g\<in>set tw. v8f_offset g \<le> v8f_offset flp \<Longrightarrow> fields_sorted (tw @ flp # dw)"
  by (simp add: fields_sorted_def sorted_wrt_append)

lemma field_insert_sorted:
  assumes "fields_sorted fls"
  shows "fields_sorted (field_insert fls flp)"
proof -
  let ?P = "\<lambda>g. v8f_offset g \<le> v8f_offset flp"
  have s: "sorted_wrt (\<lambda>a b. v8f_offset a \<le> v8f_offset b) (takeWhile ?P fls @ dropWhile ?P fls)"
    using assms by (simp add: fields_sorted_def)
  have "\<forall>g\<in>set (dropWhile ?P fls). v8f_offset flp \<le> v8f_offset g"
  proof (cases "dropWhile ?P fls")
    case (Cons h hs)
    then have "\<not> ?P h" using hd_dropWhile [of ?P fls] by auto
    moreover have "\<forall>g\<in>set hs. v8f_offset h \<le> v8f_offset g" using s Cons by (simp add: sorted_wrt_append)
    ultimately show ?thesis using Cons by (auto simp: not_le)
  next
    case Nil
    show ?thesis unfolding Nil by simp
  qed
  moreover have "\<forall>g\<in>set (takeWhile ?P fls). ?P g" by (auto dest: set_takeWhileD)
  ultimately show ?thesis
    unfolding field_insert_eq [OF assms] using s by (intro fields_sorted_middle) (simp_all only: fields_sorted_def)
qed

section \<open>Lemmas: the extent of a class\<close>

text \<open>
  A class whose extent is known starts where its parent ends. \<open>extents_ok\<close> says so of every
  class of the table, the others being untouched.
\<close>

definition class_end :: "v8_class \<Rightarrow> uptr \<Rightarrow> uptr" where
  "class_end c start =
     (if v8c_fields c = [] then start else v8f_offset (last (v8c_fields c)) + of_nat PTRSZ)"

definition extent_ok :: "v8dbg \<Rightarrow> v8_class \<Rightarrow> bool" where
  "extent_ok D c \<longleftrightarrow>
     (if v8c_end c = - 1 then v8c_start c = 0
      else v8c_end c = class_end c (v8c_start c) \<and>
        (case v8c_parent c of
           None \<Rightarrow> v8c_start c = 0
         | Some p \<Rightarrow> (\<exists>pc. class_at D p = Some pc \<and> v8c_end pc \<noteq> - 1 \<and> v8c_start c = v8c_end pc)))"

definition extents_ok :: "v8dbg \<Rightarrow> bool" where
  "extents_ok D \<longleftrightarrow> (\<forall>a c. class_at D a = Some c \<longrightarrow> extent_ok D c)"

text \<open>A rank for the parents: no class is its own ancestor.\<close>

definition parents_ranked :: "v8dbg \<Rightarrow> (nat \<Rightarrow> nat) \<Rightarrow> bool" where
  "parents_ranked D rank \<longleftrightarrow> (\<forall>a c p. class_at D a = Some c \<longrightarrow> v8c_parent c = Some p \<longrightarrow>
     rank p < rank a \<and> (\<exists>pc. class_at D p = Some pc))"

text \<open>Fields end below the address \<open>-1\<close>, which the code uses for "not known".\<close>

definition fields_end_ok :: "v8dbg \<Rightarrow> bool" where
  "fields_end_ok D \<longleftrightarrow> (\<forall>a c. class_at D a = Some c \<longrightarrow> v8c_fields c \<noteq> [] \<longrightarrow>
     v8f_offset (last (v8c_fields c)) + of_nat PTRSZ \<noteq> - 1)"

lemma class_at_update:
  assumes "\<And>c. v8c_addr (f c) = v8c_addr c"
  shows "class_at (class_update a f D) b = (if a = b then map_option f (class_at D b) else class_at D b)"
proof -
  have "List.find (\<lambda>c. v8c_addr c = b) (map (\<lambda>c. if v8c_addr c = a then f c else c) cls) =
      (if a = b then map_option f (List.find (\<lambda>c. v8c_addr c = b) cls)
       else List.find (\<lambda>c. v8c_addr c = b) cls)" for cls
    using assms by (induction cls) auto
  then show ?thesis by (simp add: class_at_def class_update_def)
qed

definition class_shape :: "v8_class \<Rightarrow> v8_class \<Rightarrow> bool" where
  "class_shape c c' \<longleftrightarrow> v8c_parent c' = v8c_parent c \<and> v8c_fields c' = v8c_fields c \<and>
     v8c_name c' = v8c_name c \<and> (v8c_end c \<noteq> - 1 \<longrightarrow> c' = c)"

definition same_shape :: "v8dbg \<Rightarrow> v8dbg \<Rightarrow> bool" where
  "same_shape D D' \<longleftrightarrow> (\<forall>a. case class_at D a of None \<Rightarrow> class_at D' a = None
     | Some c \<Rightarrow> \<exists>c'. class_at D' a = Some c' \<and> class_shape c c')"

lemma same_shapeD:
  assumes "same_shape D D'" and "class_at D a = Some c"
  obtains c' where "class_at D' a = Some c'" and "class_shape c c'"
proof -
  have "case class_at D a of None \<Rightarrow> class_at D' a = None
     | Some c \<Rightarrow> \<exists>c'. class_at D' a = Some c' \<and> class_shape c c'"
    using assms(1) unfolding same_shape_def by (rule spec)
  with assms(2) that show thesis by auto
qed

lemma same_shapeD2:
  assumes "same_shape D D'" and "class_at D' a = Some c'"
  obtains c where "class_at D a = Some c" and "class_shape c c'"
proof -
  have "case class_at D a of None \<Rightarrow> class_at D' a = None
     | Some c \<Rightarrow> \<exists>c'. class_at D' a = Some c' \<and> class_shape c c'"
    using assms(1) unfolding same_shape_def by (rule spec)
  with assms(2) that show thesis by (auto split: option.splits)
qed

lemma same_shape_refl: "same_shape D D"
  by (simp add: same_shape_def class_shape_def split: option.split)

lemma class_shape_trans: "class_shape a b \<Longrightarrow> class_shape b c \<Longrightarrow> class_shape a c"
  by (auto simp: class_shape_def)

lemma same_shape_trans:
  assumes "same_shape A B" and "same_shape B C"
  shows "same_shape A C"
  unfolding same_shape_def
proof
  fix a
  show "case class_at A a of None \<Rightarrow> class_at C a = None
     | Some c \<Rightarrow> \<exists>c'. class_at C a = Some c' \<and> class_shape c c'"
  proof (cases "class_at A a")
    case None
    then have "class_at C a = None"
      by (metis assms option.exhaust option.simps(3) same_shapeD2)
    with None show ?thesis by simp
  next
    case (Some c)
    from same_shapeD [OF assms(1) Some] obtain b where b: "class_at B a = Some b" "class_shape c b" .
    from same_shapeD [OF assms(2) b(1)] obtain d where "class_at C a = Some d" "class_shape b d" .
    with b(2) Some show ?thesis by (auto intro: class_shape_trans)
  qed
qed

lemma same_shape_ranked:
  assumes "same_shape D D'" and "parents_ranked D rank"
  shows "parents_ranked D' rank"
  unfolding parents_ranked_def
proof (intro allI impI)
  fix a c' p
  assume c': "class_at D' a = Some c'" "v8c_parent c' = Some p"
  from same_shapeD2 [OF assms(1) c'(1)] obtain c where c: "class_at D a = Some c" "class_shape c c'" .
  then have "v8c_parent c = Some p" using c'(2) by (simp add: class_shape_def)
  with assms(2) c(1) obtain pc where pc: "rank p < rank a" "class_at D p = Some pc"
    unfolding parents_ranked_def by blast
  from same_shapeD [OF assms(1) pc(2)] show "rank p < rank a \<and> (\<exists>pc. class_at D' p = Some pc)"
    using pc(1) by blast
qed

lemma same_shape_fields_end:
  assumes "same_shape D D'" and "fields_end_ok D"
  shows "fields_end_ok D'"
  unfolding fields_end_ok_def
proof (intro allI impI)
  fix a c'
  assume c': "class_at D' a = Some c'" "v8c_fields c' \<noteq> []"
  from same_shapeD2 [OF assms(1) c'(1)] obtain c where "class_at D a = Some c" "class_shape c c'" .
  with assms(2) c'(2) show "v8f_offset (last (v8c_fields c')) + of_nat PTRSZ \<noteq> - 1"
    by (auto simp: fields_end_ok_def class_shape_def)
qed

text \<open>
  Computing the extent of one class returns, makes its extent known, and leaves the table
  correct; known extents do not change.
\<close>

lemma compute_offsets_ok:
  assumes "extents_ok D" "parents_ranked D rank" "fields_end_ok D"
    and "class_at D a = Some c" "v8c_end c = - 1"
  shows "\<exists>D' c'. conf_class_compute_offsets a D = Some D' \<and> extents_ok D' \<and> same_shape D D' \<and>
    class_at D' a = Some c' \<and> v8c_end c' \<noteq> - 1 \<and>
    (\<forall>b. rank a < rank b \<longrightarrow> class_at D' b = class_at D b)"
  using assms
proof (induction "rank a" arbitrary: a c D rule: less_induct)
  case less
  have start: "v8c_start c = 0"
    using less.prems(1,4,5) by (auto simp: extents_ok_def extent_ok_def)
  \<comment> \<open>the parent's extent, computed if needed\<close>
  have "\<exists>D1 s. (case v8c_parent c of
               None \<Rightarrow> Some (D, 0)
             | Some p \<Rightarrow>
                 (case class_at D p of
                    None \<Rightarrow> None
                  | Some pc \<Rightarrow>
                      Option.bind
                        (if v8c_end pc = - 1 then conf_class_compute_offsets p D else Some D)
                        (\<lambda>D'. map_option (\<lambda>pc'. (D', v8c_end pc')) (class_at D' p)))) = Some (D1, s) \<and>
      extents_ok D1 \<and> same_shape D D1 \<and> s \<noteq> - 1 \<and>
      (case v8c_parent c of None \<Rightarrow> s = 0 | Some p \<Rightarrow> p \<noteq> a \<and> (\<exists>pc. class_at D1 p = Some pc \<and> v8c_end pc = s)) \<and>
      (\<forall>b. rank a \<le> rank b \<longrightarrow> class_at D1 b = class_at D b)"
  proof (cases "v8c_parent c")
    case None
    then show ?thesis using less.prems(1) same_shape_refl by auto
  next
    case (Some p)
    then obtain pc where pc: "rank p < rank a" "class_at D p = Some pc"
      using less.prems(2,4) unfolding parents_ranked_def by blast
    have pa: "p \<noteq> a" using pc(1) by auto
    show ?thesis
    proof (cases "v8c_end pc = - 1")
      case True
      from less.hyps [OF pc(1) less.prems(1-3) pc(2) True] obtain D1 pc' where
        "conf_class_compute_offsets p D = Some D1" "extents_ok D1" "same_shape D D1"
        "class_at D1 p = Some pc'" "v8c_end pc' \<noteq> - 1" "\<forall>b. rank p < rank b \<longrightarrow> class_at D1 b = class_at D b"
        by blast
      with True Some pc pa show ?thesis by auto
    next
      case False
      then show ?thesis using Some pc pa less.prems(1) same_shape_refl by auto
    qed
  qed
  then obtain D1 s where D1: "(case v8c_parent c of
               None \<Rightarrow> Some (D, 0)
             | Some p \<Rightarrow>
                 (case class_at D p of
                    None \<Rightarrow> None
                  | Some pc \<Rightarrow>
                      Option.bind
                        (if v8c_end pc = - 1 then conf_class_compute_offsets p D else Some D)
                        (\<lambda>D'. map_option (\<lambda>pc'. (D', v8c_end pc')) (class_at D' p)))) = Some (D1, s)"
      "extents_ok D1" "same_shape D D1" "s \<noteq> - 1"
      "case v8c_parent c of None \<Rightarrow> s = 0 | Some p \<Rightarrow> p \<noteq> a \<and> (\<exists>pc. class_at D1 p = Some pc \<and> v8c_end pc = s)"
      "\<forall>b. rank a \<le> rank b \<longrightarrow> class_at D1 b = class_at D b"
    by blast
  let ?f = "\<lambda>c. c\<lparr>v8c_start := s, v8c_end := (if v8c_fields c = [] then s
                              else v8f_offset (last (v8c_fields c)) + of_nat PTRSZ)\<rparr>"
  let ?D' = "class_update a ?f D1"
  have res: "conf_class_compute_offsets a D = Some ?D'"
    using less.prems(4,5) start D1(1) by (subst conf_class_compute_offsets.simps) simp
  have at: "class_at ?D' b = (if a = b then map_option ?f (class_at D1 b) else class_at D1 b)" for b
    by (rule class_at_update) simp
  have c1: "class_at D1 a = Some c" using D1(6) less.prems(4) by simp
  have "v8c_fields c \<noteq> [] \<Longrightarrow> v8f_offset (last (v8c_fields c)) + of_nat PTRSZ \<noteq> - 1"
    using less.prems(3,4) by (auto simp: fields_end_ok_def)
  then have ne: "v8c_end (?f c) \<noteq> - 1" using D1(4) by simp
  have "extents_ok ?D'"
    unfolding extents_ok_def
  proof (intro allI impI)
    fix b cb
    assume cb: "class_at ?D' b = Some cb"
    show "extent_ok ?D' cb"
    proof (cases "a = b")
      case True
      then have "cb = ?f c" using cb c1 at by simp
      with ne D1(4,5) at show ?thesis by (auto simp: extent_ok_def class_end_def split: option.splits)
    next
      case False
      then have cb1: "class_at D1 b = Some cb" using cb at by simp
      then have ok: "extent_ok D1 cb" using D1(2) by (auto simp: extents_ok_def)
      then have "v8c_parent cb = Some a \<Longrightarrow> v8c_end cb = - 1"
        using c1 less.prems(5) by (auto simp: extent_ok_def split: if_splits)
      with ok at show ?thesis by (auto simp: extent_ok_def split: option.splits if_splits)
    qed
  qed
  moreover have "same_shape D ?D'"
  proof (rule same_shape_trans [OF D1(3)])
    show "same_shape D1 ?D'"
      using c1 less.prems(5) unfolding same_shape_def
      by (auto simp: at class_shape_def split: option.split)
  qed
  moreover have "\<forall>b. rank a < rank b \<longrightarrow> class_at ?D' b = class_at D b"
    using D1(6) at by auto
  ultimately show ?case using res ne at [of a] c1 by auto
qed


lemma self_parent_diverges:
  assumes "conf_class_compute_offsets a D = Some D'"
  shows "\<not> (class_at D a = Some c \<and> v8c_parent c = Some a \<and> v8c_end c = - 1)"
proof (rule conf_class_compute_offsets.raw_induct
    [where P = "\<lambda>a D D'. \<not> (class_at D a = Some c \<and> v8c_parent c = Some a \<and> v8c_end c = - 1)", OF _ assms])
  fix f a D D'
  assume IH: "\<And>a D D'. f a D = Some D' \<Longrightarrow> \<not> (class_at D a = Some c \<and> v8c_parent c = Some a \<and> v8c_end c = - 1)"
    and eq: "(case class_at D a of
        None \<Rightarrow> None
      | Some c \<Rightarrow>
          if v8c_start c \<noteq> 0 \<or> v8c_end c \<noteq> - 1 then None
          else Option.bind
            (case v8c_parent c of
               None \<Rightarrow> Some (D, 0)
             | Some p \<Rightarrow>
                 (case class_at D p of
                    None \<Rightarrow> None
                  | Some pc \<Rightarrow>
                      Option.bind (if v8c_end pc = - 1 then f p D else Some D)
                        (\<lambda>D'. map_option (\<lambda>pc'. (D', v8c_end pc')) (class_at D' p))))
            (\<lambda>(D', start).
               Some (class_update a (\<lambda>c. c\<lparr>v8c_start := start,
                  v8c_end := (if v8c_fields c = [] then start
                              else v8f_offset (last (v8c_fields c)) + of_nat PTRSZ)\<rparr>) D'))) = Some D'"
  show "\<not> (class_at D a = Some c \<and> v8c_parent c = Some a \<and> v8c_end c = - 1)"
  proof
    assume self: "class_at D a = Some c \<and> v8c_parent c = Some a \<and> v8c_end c = - 1"
    with eq obtain D1 where "f a D = Some D1" by (auto split: if_splits Option.bind_splits)
    from IH [OF this] self show False by blast
  qed
qed

section \<open>Properties\<close>

text \<open>
  Looking up or creating a class keeps the class list sorted by name; afterwards the
  name is found, at the class returned, and every other name is found as before. (Names of
  64 characters and more are stored cut.)
\<close>

theorem class_findcreate_correct:
  assumes "classes_sorted (v8_classes D)" and "length name < 64"
    and "conf_class_findcreate D name = Some (D', a)"
  shows "classes_sorted (v8_classes D') \<and>
    (\<exists>c. class_lookup (v8_classes D') name = Some c \<and> v8c_addr c = a) \<and>
    (\<forall>n. n \<noteq> name \<longrightarrow> class_lookup (v8_classes D') n = class_lookup (v8_classes D) n)"
proof -
  let ?new = "new_class D name"
  have nm: "v8c_name c = name" if "?new = Some c" for c
    using that assms(2) by (auto simp: new_class_def strlcpy_def split: if_splits)
  from assms(3) obtain cls where cls: "class_insert (v8_classes D) name ?new = Some (cls, a)"
    "D' = D\<lparr>v8_classes := cls\<rparr>" by (auto simp: conf_class_findcreate_def)
  note look = class_insert_lookup [OF assms(1) cls(1) nm]
  have "\<exists>c. (case class_lookup (v8_classes D) name of Some c \<Rightarrow> Some c | None \<Rightarrow> ?new) = Some c \<and> v8c_addr c = a"
    using class_insert_addr [OF assms(1) cls(1)] .
  with look class_insert_sorted [OF assms(1) cls(1) nm] cls(2) show ?thesis by auto
qed

definition conf_sample :: v8dbg where
  "conf_sample = smi_sample\<lparr>v8_classes :=
     [\<lparr>v8c_addr = 0, v8c_name = ''Code'', v8c_parent = None, v8c_fields = [], v8c_start = 0, v8c_end = - 1\<rparr>]\<rparr>"

lemma class_findcreate_correct_witness:
  "\<exists>D' a. conf_class_findcreate conf_sample ''Map'' = Some (D', a) \<and> classes_sorted (v8_classes D') \<and>
     (\<exists>c. class_lookup (v8_classes D') ''Map'' = Some c \<and> v8c_addr c = a)"
proof -
  have s: "classes_sorted (v8_classes conf_sample)" by (simp add: classes_sorted_def conf_sample_def)
  obtain D' a where "conf_class_findcreate conf_sample ''Map'' = Some (D', a)"
    by (simp add: conf_class_findcreate_def conf_sample_def new_class_def smi_sample_def)
  with class_findcreate_correct [OF s _ this] show ?thesis by auto
qed

text \<open>
  Creating a field keeps the fields of its class sorted by offset (as unsigned
  numbers); the class has exactly the fields it had and the new one, behind those of the
  same offset, and no other class changes.
\<close>

theorem field_create_correct:
  assumes "class_at D clp = Some c" and "fields_sorted (v8c_fields c)"
    and "conf_field_create D clp name offset isbyte isstr = Some D'"
  shows "\<exists>pre post. v8c_fields c = pre @ post \<and>
    class_at D' clp = Some (c\<lparr>v8c_fields := pre @ \<lparr>v8f_name = strlcpy 64 name, v8f_offset = offset,
      v8f_isbyte = isbyte, v8f_isstr = isstr\<rparr> # post\<rparr>) \<and>
    (\<forall>f\<in>set pre. v8f_offset f \<le> offset) \<and> (\<forall>f\<in>set post. offset < v8f_offset f) \<and>
    (\<forall>b. b \<noteq> clp \<longrightarrow> class_at D' b = class_at D b)"
proof -
  let ?flp = "\<lparr>v8f_name = strlcpy 64 name, v8f_offset = offset, v8f_isbyte = isbyte, v8f_isstr = isstr\<rparr>"
  let ?P = "\<lambda>g. v8f_offset g \<le> offset"
  have D': "D' = class_update clp (\<lambda>c. c\<lparr>v8c_fields := field_insert (v8c_fields c) ?flp\<rparr>) D"
    using assms(3) by (simp add: conf_field_create_def split: if_splits)
  have at: "class_at D' b = (if clp = b then map_option (\<lambda>c. c\<lparr>v8c_fields := field_insert (v8c_fields c) ?flp\<rparr>) (class_at D b)
      else class_at D b)" for b
    unfolding D' by (rule class_at_update) simp
  have eq: "field_insert (v8c_fields c) ?flp = takeWhile ?P (v8c_fields c) @ ?flp # dropWhile ?P (v8c_fields c)"
    using field_insert_eq [OF assms(2), of ?flp] by simp
  have "\<forall>f\<in>set (dropWhile ?P (v8c_fields c)). offset < v8f_offset f"
    by (rule dropWhile_sorted_greater [OF assms(2)])
  moreover have "\<forall>f\<in>set (takeWhile ?P (v8c_fields c)). ?P f" by (auto dest: set_takeWhileD)
  ultimately show ?thesis
    using at assms(1) eq
    by (intro exI [of _ "takeWhile ?P (v8c_fields c)"] exI [of _ "dropWhile ?P (v8c_fields c)"]) auto
qed

lemma field_create_correct_witness:
  "\<exists>D' c. conf_field_create conf_sample 0 ''f'' 8 False False = Some D' \<and> class_at D' 0 = Some c \<and>
     v8c_fields c = [\<lparr>v8f_name = ''f'', v8f_offset = 8, v8f_isbyte = False, v8f_isstr = False\<rparr>]"
proof -
  obtain c where c: "class_at conf_sample 0 = Some c" "v8c_fields c = []"
    by (simp add: class_at_def conf_sample_def)
  obtain D' where "conf_field_create conf_sample 0 ''f'' 8 False False = Some D'"
    by (simp add: conf_field_create_def conf_sample_def smi_sample_def)
  from field_create_correct [OF c(1) _ this] c(2) this show ?thesis
    by (auto simp: fields_sorted_def strlcpy_def)
qed

text \<open>
  The table of types is not protected at its end: registering a well-formed, readable
  type symbol writes behind the array exactly when all 128 entries are in use; before that
  the type is stored.
\<close>

theorem type_table_overflow:
  assumes "conf_next_part (drop (length ''v8dbg_type_'') (strlcpy 128 symbol)) = Some (klass, rest)"
    and "v8cfg_readsym T cfgp symbol = Some v"
  shows "(conf_update_type T cfgp symbol D = None \<longleftrightarrow> length (v8_types D) = 128) \<and>
    (length (v8_types D) < 128 \<longrightarrow> conf_update_type T cfgp symbol D =
       Some (0, D\<lparr>v8_types := v8_types D @ [\<lparr>v8e_name = strlcpy 64 klass, v8e_value = ucast v\<rparr>]\<rparr>))"
  unfolding conf_update_type_def conf_update_enum_def assms by (simp add: NTYPES_def)

lemma type_table_overflow_witness:
  "conf_update_type \<lparr>tgt_symbols = [], tgt_readint = (\<lambda>_. None), tgt_has_symbol = (\<lambda>_. False)\<rparr>
     \<lparr>v8cfg_name = None, v8cfg_label = None, v8cfg_symbols = [(''v8dbg_type_A__B'', 7)], v8cfg_funcs = V8cfg_canned\<rparr>
     ''v8dbg_type_A__B'' (smi_sample\<lparr>v8_types := replicate 128 zero_enum\<rparr>) = None"
  (is "conf_update_type ?T ?cfg ?sym ?D = None")
proof -
  have "conf_next_part (drop (length ''v8dbg_type_'') (strlcpy 128 ?sym)) = Some (''A'', ''B'')"
    by (simp add: conf_next_part_def strlcpy_def)
  moreover have "v8cfg_readsym ?T ?cfg ?sym = Some 7" by (simp add: v8cfg_readsym_def)
  ultimately show ?thesis using type_table_overflow [of ?sym "''A''" "''B''" ?T ?cfg 7 ?D] by simp
qed

text \<open>
  A class that the metadata makes its own parent is followed forever when its extent is
  computed.
\<close>

theorem self_parent_never_returns:
  assumes "class_at D a = Some c" and "v8c_parent c = Some a" and "v8c_end c = - 1"
  shows "conf_class_compute_offsets a D = None"
  using self_parent_diverges [of a D] assms by (cases "conf_class_compute_offsets a D") auto

lemma self_parent_never_returns_witness:
  "conf_class_compute_offsets 0 (class_update 0 (\<lambda>c. c\<lparr>v8c_parent := Some 0\<rparr>) conf_sample) = None"
proof -
  obtain c where "class_at (class_update 0 (\<lambda>c. c\<lparr>v8c_parent := Some 0\<rparr>) conf_sample) 0 = Some c"
    "v8c_parent c = Some 0" "v8c_end c = - 1"
    by (simp add: class_at_def class_update_def conf_sample_def)
  then show ?thesis by (rule self_parent_never_returns)
qed

end
