(* ===== verification/Autoconf.thy ===== *)
theory Autoconf
  imports Conf
begin

text \<open>
  Configuration of the module from the debug metadata (\<^verbatim>\<open>src/src/mdb_v8.c\<close>): the tables
  of the constants and class offsets the module uses, the comparison of V8 versions that
  decides which of them are required, and \<open>autoconfigure\<close>. The tables are those of an LP64
  build.
\<close>

section \<open>Constants that depend on the V8 version\<close>

definition V8_CONSTANT_OPTIONAL :: "32 word" where "V8_CONSTANT_OPTIONAL = 1"
definition V8_CONSTANT_HASFALLBACK :: "32 word" where "V8_CONSTANT_HASFALLBACK = 2"
definition V8_CONSTANT_REMOVED :: "32 word" where "V8_CONSTANT_REMOVED = 4"
definition V8_CONSTANT_ADDED :: "32 word" where "V8_CONSTANT_ADDED = 8"
definition V8_CONSTANT_MAJORSHIFT :: nat where "V8_CONSTANT_MAJORSHIFT = 4"
definition V8_CONSTANT_MAJORMASK :: "32 word" where "V8_CONSTANT_MAJORMASK = push_bit 4 1 - 1"
definition V8_CONSTANT_MINORSHIFT :: nat where "V8_CONSTANT_MINORSHIFT = 8"
definition V8_CONSTANT_MINORMASK :: "32 word" where "V8_CONSTANT_MINORMASK = push_bit 9 1 - 1"

definition V8_CONSTANT_MAJOR :: "32 word \<Rightarrow> uptr" where
  "V8_CONSTANT_MAJOR flags = ucast (drop_bit V8_CONSTANT_MAJORSHIFT flags AND V8_CONSTANT_MAJORMASK)"

definition V8_CONSTANT_MINOR :: "32 word \<Rightarrow> uptr" where
  "V8_CONSTANT_MINOR flags = ucast (drop_bit V8_CONSTANT_MINORSHIFT flags AND V8_CONSTANT_MINORMASK)"

definition V8_CONSTANT_FALLBACK :: "32 word \<Rightarrow> 32 word \<Rightarrow> 32 word" where
  "V8_CONSTANT_FALLBACK maj mnr =
     V8_CONSTANT_OPTIONAL OR V8_CONSTANT_HASFALLBACK OR
     push_bit V8_CONSTANT_MAJORSHIFT maj OR push_bit V8_CONSTANT_MINORSHIFT mnr"

definition V8_CONSTANT_REMOVED_SINCE :: "32 word \<Rightarrow> 32 word \<Rightarrow> 32 word" where
  "V8_CONSTANT_REMOVED_SINCE maj mnr =
     V8_CONSTANT_REMOVED OR push_bit V8_CONSTANT_MAJORSHIFT maj OR push_bit V8_CONSTANT_MINORSHIFT mnr"

definition V8_CONSTANT_ADDED_SINCE :: "32 word \<Rightarrow> 32 word \<Rightarrow> 32 word" where
  "V8_CONSTANT_ADDED_SINCE maj mnr =
     V8_CONSTANT_ADDED OR push_bit V8_CONSTANT_MAJORSHIFT maj OR push_bit V8_CONSTANT_MINORSHIFT mnr"

record v8_constant =
  v8c_valp :: v8_global
  v8c_symbol :: string
  v8c_flags :: "32 word"
  v8c_fallback :: uptr

definition v8_constants :: "v8_constant list" where
  "v8_constants =
     [\<lparr>v8c_valp = V8_OFF_FP_CONTEXT_OR_FRAME_TYPE, v8c_symbol = ''v8dbg_off_fp_context_or_frame_type'', v8c_flags = V8_CONSTANT_FALLBACK 5 1, v8c_fallback = - 8\<rparr>,
      \<lparr>v8c_valp = V8_OFF_FP_CONTEXT, v8c_symbol = ''v8dbg_off_fp_context'', v8c_flags = 0, v8c_fallback = 0\<rparr>,
      \<lparr>v8c_valp = V8_OFF_FP_FUNCTION, v8c_symbol = ''v8dbg_off_fp_function'', v8c_flags = 0, v8c_fallback = 0\<rparr>,
      \<lparr>v8c_valp = V8_OFF_FP_MARKER, v8c_symbol = ''v8dbg_off_fp_marker'', v8c_flags = V8_CONSTANT_REMOVED_SINCE 5 1, v8c_fallback = 0\<rparr>,
      \<lparr>v8c_valp = V8_OFF_FP_ARGS, v8c_symbol = ''v8dbg_off_fp_args'', v8c_flags = 0, v8c_fallback = 0\<rparr>,
      \<lparr>v8c_valp = V8_FirstNonstringType, v8c_symbol = ''v8dbg_FirstNonstringType'', v8c_flags = 0, v8c_fallback = 0\<rparr>,
      \<lparr>v8c_valp = V8_IsNotStringMask, v8c_symbol = ''v8dbg_IsNotStringMask'', v8c_flags = 0, v8c_fallback = 0\<rparr>,
      \<lparr>v8c_valp = V8_StringTag, v8c_symbol = ''v8dbg_StringTag'', v8c_flags = 0, v8c_fallback = 0\<rparr>,
      \<lparr>v8c_valp = V8_NotStringTag, v8c_symbol = ''v8dbg_NotStringTag'', v8c_flags = 0, v8c_fallback = 0\<rparr>,
      \<lparr>v8c_valp = V8_StringEncodingMask, v8c_symbol = ''v8dbg_StringEncodingMask'', v8c_flags = 0, v8c_fallback = 0\<rparr>,
      \<lparr>v8c_valp = V8_TwoByteStringTag, v8c_symbol = ''v8dbg_TwoByteStringTag'', v8c_flags = 0, v8c_fallback = 0\<rparr>,
      \<lparr>v8c_valp = V8_AsciiStringTag, v8c_symbol = ''v8dbg_AsciiStringTag'', v8c_flags = V8_CONSTANT_REMOVED_SINCE 3 29, v8c_fallback = 0\<rparr>,
      \<lparr>v8c_valp = V8_OneByteStringTag, v8c_symbol = ''v8dbg_OneByteStringTag'', v8c_flags = V8_CONSTANT_ADDED_SINCE 3 29, v8c_fallback = 0\<rparr>,
      \<lparr>v8c_valp = V8_StringRepresentationMask, v8c_symbol = ''v8dbg_StringRepresentationMask'', v8c_flags = 0, v8c_fallback = 0\<rparr>,
      \<lparr>v8c_valp = V8_SeqStringTag, v8c_symbol = ''v8dbg_SeqStringTag'', v8c_flags = 0, v8c_fallback = 0\<rparr>,
      \<lparr>v8c_valp = V8_ConsStringTag, v8c_symbol = ''v8dbg_ConsStringTag'', v8c_flags = 0, v8c_fallback = 0\<rparr>,
      \<lparr>v8c_valp = V8_SlicedStringTag, v8c_symbol = ''v8dbg_SlicedStringTag'', v8c_flags = V8_CONSTANT_FALLBACK 0 0, v8c_fallback = 3\<rparr>,
      \<lparr>v8c_valp = V8_ExternalStringTag, v8c_symbol = ''v8dbg_ExternalStringTag'', v8c_flags = 0, v8c_fallback = 0\<rparr>,
      \<lparr>v8c_valp = V8_FailureTag, v8c_symbol = ''v8dbg_FailureTag'', v8c_flags = V8_CONSTANT_REMOVED_SINCE 3 28, v8c_fallback = 0\<rparr>,
      \<lparr>v8c_valp = V8_FailureTagMask, v8c_symbol = ''v8dbg_FailureTagMask'', v8c_flags = V8_CONSTANT_REMOVED_SINCE 3 28, v8c_fallback = 0\<rparr>,
      \<lparr>v8c_valp = V8_HeapObjectTag, v8c_symbol = ''v8dbg_HeapObjectTag'', v8c_flags = 0, v8c_fallback = 0\<rparr>,
      \<lparr>v8c_valp = V8_HeapObjectTagMask, v8c_symbol = ''v8dbg_HeapObjectTagMask'', v8c_flags = 0, v8c_fallback = 0\<rparr>,
      \<lparr>v8c_valp = V8_SmiTag, v8c_symbol = ''v8dbg_SmiTag'', v8c_flags = 0, v8c_fallback = 0\<rparr>,
      \<lparr>v8c_valp = V8_SmiTagMask, v8c_symbol = ''v8dbg_SmiTagMask'', v8c_flags = 0, v8c_fallback = 0\<rparr>,
      \<lparr>v8c_valp = V8_SmiValueShift, v8c_symbol = ''v8dbg_SmiValueShift'', v8c_flags = 0, v8c_fallback = 0\<rparr>,
      \<lparr>v8c_valp = V8_SmiShiftSize, v8c_symbol = ''v8dbg_SmiShiftSize'', v8c_flags = V8_CONSTANT_FALLBACK 0 0, v8c_fallback = 31\<rparr>,
      \<lparr>v8c_valp = V8_PointerSizeLog2, v8c_symbol = ''v8dbg_PointerSizeLog2'', v8c_flags = 0, v8c_fallback = 0\<rparr>,
      \<lparr>v8c_valp = V8_DICT_SHIFT, v8c_symbol = ''v8dbg_bit_field3_dictionary_map_shift'', v8c_flags = V8_CONSTANT_FALLBACK 3 13, v8c_fallback = 24\<rparr>,
      \<lparr>v8c_valp = V8_DICT_PREFIX_SIZE, v8c_symbol = ''v8dbg_dict_prefix_size'', v8c_flags = V8_CONSTANT_FALLBACK 3 11, v8c_fallback = 2\<rparr>,
      \<lparr>v8c_valp = V8_DICT_ENTRY_SIZE, v8c_symbol = ''v8dbg_dict_entry_size'', v8c_flags = V8_CONSTANT_FALLBACK 3 11, v8c_fallback = 3\<rparr>,
      \<lparr>v8c_valp = V8_DICT_START_INDEX, v8c_symbol = ''v8dbg_dict_start_index'', v8c_flags = V8_CONSTANT_FALLBACK 3 11, v8c_fallback = 3\<rparr>,
      \<lparr>v8c_valp = V8_PROPINDEX_MASK, v8c_symbol = ''v8dbg_prop_index_mask'', v8c_flags = V8_CONSTANT_FALLBACK 3 26, v8c_fallback = 1072693248\<rparr>,
      \<lparr>v8c_valp = V8_PROPINDEX_SHIFT, v8c_symbol = ''v8dbg_prop_index_shift'', v8c_flags = V8_CONSTANT_FALLBACK 3 26, v8c_fallback = 20\<rparr>,
      \<lparr>v8c_valp = V8_ISSHARED_SHIFT, v8c_symbol = ''v8dbg_isshared_shift'', v8c_flags = V8_CONSTANT_FALLBACK 3 11, v8c_fallback = 0\<rparr>,
      \<lparr>v8c_valp = V8_PROP_IDX_FIRST, v8c_symbol = ''v8dbg_prop_idx_first'', v8c_flags = 0, v8c_fallback = 0\<rparr>,
      \<lparr>v8c_valp = V8_PROP_TYPE_FIELD, v8c_symbol = ''v8dbg_prop_type_field'', v8c_flags = 0, v8c_fallback = 0\<rparr>,
      \<lparr>v8c_valp = V8_PROP_TYPE_MASK, v8c_symbol = ''v8dbg_prop_type_mask'', v8c_flags = 0, v8c_fallback = 0\<rparr>,
      \<lparr>v8c_valp = V8_PROP_IDX_CONTENT, v8c_symbol = ''v8dbg_prop_idx_content'', v8c_flags = V8_CONSTANT_OPTIONAL, v8c_fallback = 0\<rparr>,
      \<lparr>v8c_valp = V8_PROP_DESC_KEY, v8c_symbol = ''v8dbg_prop_desc_key'', v8c_flags = V8_CONSTANT_FALLBACK 0 0, v8c_fallback = 0\<rparr>,
      \<lparr>v8c_valp = V8_PROP_DESC_DETAILS, v8c_symbol = ''v8dbg_prop_desc_details'', v8c_flags = V8_CONSTANT_FALLBACK 0 0, v8c_fallback = 1\<rparr>,
      \<lparr>v8c_valp = V8_PROP_DESC_VALUE, v8c_symbol = ''v8dbg_prop_desc_value'', v8c_flags = V8_CONSTANT_FALLBACK 0 0, v8c_fallback = 2\<rparr>,
      \<lparr>v8c_valp = V8_PROP_DESC_SIZE, v8c_symbol = ''v8dbg_prop_desc_size'', v8c_flags = V8_CONSTANT_FALLBACK 0 0, v8c_fallback = 3\<rparr>,
      \<lparr>v8c_valp = V8_TRANSITIONS_IDX_DESC, v8c_symbol = ''v8dbg_transitions_idx_descriptors'', v8c_flags = V8_CONSTANT_OPTIONAL, v8c_fallback = 0\<rparr>,
      \<lparr>v8c_valp = V8_ELEMENTS_KIND_SHIFT, v8c_symbol = ''v8dbg_elements_kind_shift'', v8c_flags = V8_CONSTANT_FALLBACK 0 0, v8c_fallback = 3\<rparr>,
      \<lparr>v8c_valp = V8_ELEMENTS_KIND_BITCOUNT, v8c_symbol = ''v8dbg_elements_kind_bitcount'', v8c_flags = V8_CONSTANT_FALLBACK 0 0, v8c_fallback = 5\<rparr>,
      \<lparr>v8c_valp = V8_ELEMENTS_FAST_ELEMENTS, v8c_symbol = ''v8dbg_elements_fast_elements'', v8c_flags = V8_CONSTANT_FALLBACK 0 0, v8c_fallback = 2\<rparr>,
      \<lparr>v8c_valp = V8_ELEMENTS_FAST_HOLEY_ELEMENTS, v8c_symbol = ''v8dbg_elements_fast_holey_elements'', v8c_flags = V8_CONSTANT_FALLBACK 0 0, v8c_fallback = 3\<rparr>,
      \<lparr>v8c_valp = V8_ELEMENTS_DICTIONARY_ELEMENTS, v8c_symbol = ''v8dbg_elements_dictionary_elements'', v8c_flags = V8_CONSTANT_FALLBACK 0 0, v8c_fallback = 6\<rparr>,
      \<lparr>v8c_valp = V8_CONTEXT_NCOMMON, v8c_symbol = ''v8dbg_context_ncommon'', v8c_flags = V8_CONSTANT_FALLBACK 0 0, v8c_fallback = 4\<rparr>,
      \<lparr>v8c_valp = V8_CONTEXT_IDX_CLOSURE, v8c_symbol = ''v8dbg_context_idx_closure'', v8c_flags = V8_CONSTANT_FALLBACK 0 0, v8c_fallback = 0\<rparr>,
      \<lparr>v8c_valp = V8_CONTEXT_IDX_PREV, v8c_symbol = ''v8dbg_context_idx_prev'', v8c_flags = V8_CONSTANT_FALLBACK 0 0, v8c_fallback = 1\<rparr>,
      \<lparr>v8c_valp = V8_CONTEXT_IDX_EXT, v8c_symbol = ''v8dbg_context_idx_ext'', v8c_flags = V8_CONSTANT_FALLBACK 0 0, v8c_fallback = 2\<rparr>,
      \<lparr>v8c_valp = V8_CONTEXT_IDX_GLOBAL, v8c_symbol = ''v8dbg_context_idx_global'', v8c_flags = V8_CONSTANT_FALLBACK 0 0, v8c_fallback = 3\<rparr>,
      \<lparr>v8c_valp = V8_CONTEXT_IDX_NATIVE, v8c_symbol = ''v8dbg_context_idx_native'', v8c_flags = V8_CONSTANT_FALLBACK 4 9, v8c_fallback = 3\<rparr>,
      \<lparr>v8c_valp = V8_SCOPEINFO_IDX_NPARAMS, v8c_symbol = ''v8dbg_scopeinfo_idx_nparams'', v8c_flags = V8_CONSTANT_FALLBACK 3 7, v8c_fallback = 1\<rparr>,
      \<lparr>v8c_valp = V8_SCOPEINFO_IDX_NSTACKLOCALS, v8c_symbol = ''v8dbg_scopeinfo_idx_nstacklocals'', v8c_flags = V8_CONSTANT_FALLBACK 3 7, v8c_fallback = 2\<rparr>,
      \<lparr>v8c_valp = V8_SCOPEINFO_OFFSET_STACK_LOCALS, v8c_symbol = ''v8dbg_scopeinfo_offset_stack_locals'', v8c_flags = V8_CONSTANT_FALLBACK 4 4, v8c_fallback = 1\<rparr>,
      \<lparr>v8c_valp = V8_SCOPEINFO_IDX_NCONTEXTLOCALS, v8c_symbol = ''v8dbg_scopeinfo_idx_ncontextlocals'', v8c_flags = V8_CONSTANT_FALLBACK 3 7, v8c_fallback = 3\<rparr>,
      \<lparr>v8c_valp = V8_SCOPEINFO_IDX_FIRST_VARS, v8c_symbol = ''v8dbg_scopeinfo_idx_first_vars'', v8c_flags = V8_CONSTANT_FALLBACK 4 5, v8c_fallback = 6\<rparr>]"

text \<open>
  \<open>v8o_optional\<close> is a \<open>boolean_t\<close>, an \<open>int\<close> in C: two entries of the table have their
  version flags in its place.
\<close>

record v8_offset =
  v8o_valp :: v8_global
  v8o_class :: string
  v8o_member :: string
  v8o_optional :: "32 word"
  v8o_flags :: "32 word"
  v8o_fallback :: uptr

definition v8_offsets :: "v8_offset list" where
  "v8_offsets =
     [\<lparr>v8o_valp = V8_OFF_CODE_INSTRUCTION_SIZE, v8o_class = ''Code'', v8o_member = ''instruction_size'', v8o_optional = 0,
         v8o_flags = 0, v8o_fallback = 0\<rparr>,
      \<lparr>v8o_valp = V8_OFF_CODE_INSTRUCTION_START, v8o_class = ''Code'', v8o_member = ''instruction_start'', v8o_optional = 0,
         v8o_flags = 0, v8o_fallback = 0\<rparr>,
      \<lparr>v8o_valp = V8_OFF_CONSSTRING_FIRST, v8o_class = ''ConsString'', v8o_member = ''first'', v8o_optional = 0,
         v8o_flags = 0, v8o_fallback = 0\<rparr>,
      \<lparr>v8o_valp = V8_OFF_CONSSTRING_SECOND, v8o_class = ''ConsString'', v8o_member = ''second'', v8o_optional = 0,
         v8o_flags = 0, v8o_fallback = 0\<rparr>,
      \<lparr>v8o_valp = V8_OFF_EXTERNALSTRING_RESOURCE, v8o_class = ''ExternalString'', v8o_member = ''resource'', v8o_optional = 0,
         v8o_flags = 0, v8o_fallback = 0\<rparr>,
      \<lparr>v8o_valp = V8_OFF_FIXEDARRAY_DATA, v8o_class = ''FixedArray'', v8o_member = ''data'', v8o_optional = 0,
         v8o_flags = 0, v8o_fallback = 0\<rparr>,
      \<lparr>v8o_valp = V8_OFF_FIXEDARRAY_LENGTH, v8o_class = ''FixedArray'', v8o_member = ''length'', v8o_optional = 0,
         v8o_flags = 0, v8o_fallback = 0\<rparr>,
      \<lparr>v8o_valp = V8_OFF_HEAPNUMBER_VALUE, v8o_class = ''HeapNumber'', v8o_member = ''value'', v8o_optional = 0,
         v8o_flags = 0, v8o_fallback = 0\<rparr>,
      \<lparr>v8o_valp = V8_OFF_HEAPOBJECT_MAP, v8o_class = ''HeapObject'', v8o_member = ''map'', v8o_optional = 0,
         v8o_flags = 0, v8o_fallback = 0\<rparr>,
      \<lparr>v8o_valp = V8_OFF_JSARRAY_LENGTH, v8o_class = ''JSArray'', v8o_member = ''length'', v8o_optional = 0,
         v8o_flags = 0, v8o_fallback = 0\<rparr>,
      \<lparr>v8o_valp = V8_OFF_JSDATE_VALUE, v8o_class = ''JSDate'', v8o_member = ''value'', v8o_optional = 1,
         v8o_flags = 0, v8o_fallback = 0\<rparr>,
      \<lparr>v8o_valp = V8_OFF_JSBOUNDFUNCTION_BOUND_ARGUMENTS, v8o_class = ''JSBoundFunction'', v8o_member = ''bound_arguments'', v8o_optional = 0,
         v8o_flags = V8_CONSTANT_ADDED_SINCE 4 9, v8o_fallback = 0\<rparr>,
      \<lparr>v8o_valp = V8_OFF_JSBOUNDFUNCTION_BOUND_TARGET_FUNCTION, v8o_class = ''JSBoundFunction'', v8o_member = ''bound_target_function'', v8o_optional = 0,
         v8o_flags = V8_CONSTANT_ADDED_SINCE 4 9, v8o_fallback = 0\<rparr>,
      \<lparr>v8o_valp = V8_OFF_JSBOUNDFUNCTION_BOUND_THIS, v8o_class = ''JSBoundFunction'', v8o_member = ''bound_this'', v8o_optional = 0,
         v8o_flags = V8_CONSTANT_ADDED_SINCE 4 9, v8o_fallback = 0\<rparr>,
      \<lparr>v8o_valp = V8_OFF_JSFUNCTION_CONTEXT, v8o_class = ''JSFunction'', v8o_member = ''context'', v8o_optional = 1,
         v8o_flags = 0, v8o_fallback = 0\<rparr>,
      \<lparr>v8o_valp = V8_OFF_JSFUNCTION_LITERALS_OR_BINDINGS, v8o_class = ''JSFunction'', v8o_member = ''literals_or_bindings'', v8o_optional = 0,
         v8o_flags = V8_CONSTANT_REMOVED_SINCE 4 9, v8o_fallback = 0\<rparr>,
      \<lparr>v8o_valp = V8_OFF_JSFUNCTION_SHARED, v8o_class = ''JSFunction'', v8o_member = ''shared'', v8o_optional = 0,
         v8o_flags = 0, v8o_fallback = 0\<rparr>,
      \<lparr>v8o_valp = V8_OFF_JSOBJECT_ELEMENTS, v8o_class = ''JSObject'', v8o_member = ''elements'', v8o_optional = 0,
         v8o_flags = 0, v8o_fallback = 0\<rparr>,
      \<lparr>v8o_valp = V8_OFF_JSOBJECT_PROPERTIES, v8o_class = ''JSObject'', v8o_member = ''properties'', v8o_optional = 0,
         v8o_flags = V8_CONSTANT_REMOVED_SINCE 4 9, v8o_fallback = 0\<rparr>,
      \<lparr>v8o_valp = V8_OFF_JSRECEIVER_PROPERTIES, v8o_class = ''JSReceiver'', v8o_member = ''properties'', v8o_optional = 0,
         v8o_flags = V8_CONSTANT_ADDED_SINCE 4 9, v8o_fallback = 0\<rparr>,
      \<lparr>v8o_valp = V8_OFF_JSREGEXP_DATA, v8o_class = ''JSRegExp'', v8o_member = ''data'', v8o_optional = 1,
         v8o_flags = 0, v8o_fallback = 0\<rparr>,
      \<lparr>v8o_valp = V8_OFF_MAP_CONSTRUCTOR, v8o_class = ''Map'', v8o_member = ''constructor'', v8o_optional = 0,
         v8o_flags = V8_CONSTANT_REMOVED_SINCE 4 3, v8o_fallback = 0\<rparr>,
      \<lparr>v8o_valp = V8_OFF_MAP_CONSTRUCTOR_OR_BACKPOINTER, v8o_class = ''Map'', v8o_member = ''constructor_or_backpointer'', v8o_optional = 0,
         v8o_flags = V8_CONSTANT_ADDED_SINCE 4 3, v8o_fallback = 0\<rparr>,
      \<lparr>v8o_valp = V8_OFF_MAP_INOBJECT_PROPERTIES, v8o_class = ''Map'', v8o_member = ''inobject_properties'', v8o_optional = 0,
         v8o_flags = V8_CONSTANT_REMOVED_SINCE 4 6, v8o_fallback = 0\<rparr>,
      \<lparr>v8o_valp = V8_OFF_MAP_INOBJECT_PROPERTIES_OR_CTOR_FUN_INDEX, v8o_class = ''Map'', v8o_member = ''inobject_properties_or_constructor_function_index'', v8o_optional = 0,
         v8o_flags = V8_CONSTANT_FALLBACK 4 6, v8o_fallback = 8\<rparr>,
      \<lparr>v8o_valp = V8_OFF_MAP_INSTANCE_ATTRIBUTES, v8o_class = ''Map'', v8o_member = ''instance_attributes'', v8o_optional = 0,
         v8o_flags = 0, v8o_fallback = 0\<rparr>,
      \<lparr>v8o_valp = V8_OFF_MAP_INSTANCE_DESCRIPTORS, v8o_class = ''Map'', v8o_member = ''instance_descriptors'', v8o_optional = 1,
         v8o_flags = 0, v8o_fallback = 0\<rparr>,
      \<lparr>v8o_valp = V8_OFF_MAP_LAYOUT_DESCRIPTOR, v8o_class = ''Map'', v8o_member = ''layout_descriptor'', v8o_optional = 1,
         v8o_flags = 0, v8o_fallback = 0\<rparr>,
      \<lparr>v8o_valp = V8_OFF_MAP_TRANSITIONS, v8o_class = ''Map'', v8o_member = ''transitions'', v8o_optional = 1,
         v8o_flags = 0, v8o_fallback = 0\<rparr>,
      \<lparr>v8o_valp = V8_OFF_MAP_INSTANCE_SIZE, v8o_class = ''Map'', v8o_member = ''instance_size'', v8o_optional = 0,
         v8o_flags = 0, v8o_fallback = 0\<rparr>,
      \<lparr>v8o_valp = V8_OFF_MAP_BIT_FIELD2, v8o_class = ''Map'', v8o_member = ''bit_field2'', v8o_optional = 1,
         v8o_flags = 0, v8o_fallback = 0\<rparr>,
      \<lparr>v8o_valp = V8_OFF_MAP_BIT_FIELD3, v8o_class = ''Map'', v8o_member = ''bit_field3'', v8o_optional = 1,
         v8o_flags = 0, v8o_fallback = 0\<rparr>,
      \<lparr>v8o_valp = V8_OFF_ODDBALL_TO_STRING, v8o_class = ''Oddball'', v8o_member = ''to_string'', v8o_optional = 0,
         v8o_flags = 0, v8o_fallback = 0\<rparr>,
      \<lparr>v8o_valp = V8_OFF_SCRIPT_LINE_ENDS, v8o_class = ''Script'', v8o_member = ''line_ends'', v8o_optional = 0,
         v8o_flags = 0, v8o_fallback = 0\<rparr>,
      \<lparr>v8o_valp = V8_OFF_SCRIPT_NAME, v8o_class = ''Script'', v8o_member = ''name'', v8o_optional = 0,
         v8o_flags = 0, v8o_fallback = 0\<rparr>,
      \<lparr>v8o_valp = V8_OFF_SCRIPT_SOURCE, v8o_class = ''Script'', v8o_member = ''source'', v8o_optional = 0,
         v8o_flags = 0, v8o_fallback = 0\<rparr>,
      \<lparr>v8o_valp = V8_OFF_SEQASCIISTR_CHARS, v8o_class = ''SeqAsciiString'', v8o_member = ''chars'', v8o_optional = 1,
         v8o_flags = 0, v8o_fallback = 0\<rparr>,
      \<lparr>v8o_valp = V8_OFF_SEQONEBYTESTR_CHARS, v8o_class = ''SeqOneByteString'', v8o_member = ''chars'', v8o_optional = 1,
         v8o_flags = 0, v8o_fallback = 0\<rparr>,
      \<lparr>v8o_valp = V8_OFF_SEQTWOBYTESTR_CHARS, v8o_class = ''SeqTwoByteString'', v8o_member = ''chars'', v8o_optional = 1,
         v8o_flags = 0, v8o_fallback = 0\<rparr>,
      \<lparr>v8o_valp = V8_OFF_SHAREDFUNCTIONINFO_CODE, v8o_class = ''SharedFunctionInfo'', v8o_member = ''code'', v8o_optional = 0,
         v8o_flags = 0, v8o_fallback = 0\<rparr>,
      \<lparr>v8o_valp = V8_OFF_SHAREDFUNCTIONINFO_COMPILER_HINTS, v8o_class = ''SharedFunctionInfo'', v8o_member = ''compiler_hints'', v8o_optional = 0,
         v8o_flags = 0, v8o_fallback = 0\<rparr>,
      \<lparr>v8o_valp = V8_OFF_SHAREDFUNCTIONINFO_END_POSITION, v8o_class = ''SharedFunctionInfo'', v8o_member = ''end_position'', v8o_optional = 0,
         v8o_flags = 0, v8o_fallback = 0\<rparr>,
      \<lparr>v8o_valp = V8_OFF_SHAREDFUNCTIONINFO_FUNCTION_TOKEN_POSITION, v8o_class = ''SharedFunctionInfo'', v8o_member = ''function_token_position'', v8o_optional = 0,
         v8o_flags = 0, v8o_fallback = 0\<rparr>,
      \<lparr>v8o_valp = V8_OFF_SHAREDFUNCTIONINFO_INFERRED_NAME, v8o_class = ''SharedFunctionInfo'', v8o_member = ''inferred_name'', v8o_optional = V8_CONSTANT_REMOVED_SINCE 5 1,
         v8o_flags = 0, v8o_fallback = 0\<rparr>,
      \<lparr>v8o_valp = V8_OFF_SHAREDFUNCTIONINFO_IDENTIFIER, v8o_class = ''SharedFunctionInfo'', v8o_member = ''function_identifier'', v8o_optional = V8_CONSTANT_FALLBACK 5 1,
         v8o_flags = 79, v8o_fallback = 0\<rparr>,
      \<lparr>v8o_valp = V8_OFF_SHAREDFUNCTIONINFO_LENGTH, v8o_class = ''SharedFunctionInfo'', v8o_member = ''length'', v8o_optional = 0,
         v8o_flags = 0, v8o_fallback = 0\<rparr>,
      \<lparr>v8o_valp = V8_OFF_SHAREDFUNCTIONINFO_NAME, v8o_class = ''SharedFunctionInfo'', v8o_member = ''name'', v8o_optional = 0,
         v8o_flags = 0, v8o_fallback = 0\<rparr>,
      \<lparr>v8o_valp = V8_OFF_SHAREDFUNCTIONINFO_SCOPE_INFO, v8o_class = ''SharedFunctionInfo'', v8o_member = ''scope_info'', v8o_optional = 1,
         v8o_flags = 0, v8o_fallback = 0\<rparr>,
      \<lparr>v8o_valp = V8_OFF_SHAREDFUNCTIONINFO_SCRIPT, v8o_class = ''SharedFunctionInfo'', v8o_member = ''script'', v8o_optional = 0,
         v8o_flags = 0, v8o_fallback = 0\<rparr>,
      \<lparr>v8o_valp = V8_OFF_SLICEDSTRING_OFFSET, v8o_class = ''SlicedString'', v8o_member = ''offset'', v8o_optional = 0,
         v8o_flags = 0, v8o_fallback = 0\<rparr>,
      \<lparr>v8o_valp = V8_OFF_SLICEDSTRING_PARENT, v8o_class = ''SlicedString'', v8o_member = ''parent'', v8o_optional = 1,
         v8o_flags = 0, v8o_fallback = 0\<rparr>,
      \<lparr>v8o_valp = V8_OFF_STRING_LENGTH, v8o_class = ''String'', v8o_member = ''length'', v8o_optional = 0,
         v8o_flags = 0, v8o_fallback = 0\<rparr>,
      \<lparr>v8o_valp = V8_OFF_JSTYPEDARRAY_LENGTH, v8o_class = ''JSTypedArray'', v8o_member = ''length'', v8o_optional = 0,
         v8o_flags = V8_CONSTANT_FALLBACK 4 5, v8o_fallback = 55\<rparr>,
      \<lparr>v8o_valp = V8_OFF_JSARRAYBUFFER_BACKINGSTORE, v8o_class = ''JSArrayBuffer'', v8o_member = ''backing_store'', v8o_optional = 0,
         v8o_flags = V8_CONSTANT_FALLBACK 4 6, v8o_fallback = 23\<rparr>,
      \<lparr>v8o_valp = V8_OFF_JSARRAYBUFFERVIEW_BUFFER, v8o_class = ''JSArrayBufferView'', v8o_member = ''buffer'', v8o_optional = 0,
         v8o_flags = V8_CONSTANT_FALLBACK 3 20, v8o_fallback = 23\<rparr>,
      \<lparr>v8o_valp = V8_OFF_JSARRAYBUFFERVIEW_CONTENT_OFFSET, v8o_class = ''JSArrayBufferView'', v8o_member = ''byte_offset'', v8o_optional = 0,
         v8o_flags = V8_CONSTANT_FALLBACK 4 6, v8o_fallback = 31\<rparr>]"

section \<open>Versions\<close>

definition v8_version_older :: "uptr \<Rightarrow> uptr \<Rightarrow> 32 word \<Rightarrow> bool" where
  "v8_version_older major minor flags \<longleftrightarrow>
     major < V8_CONSTANT_MAJOR flags \<or>
     major = V8_CONSTANT_MAJOR flags \<and> minor < V8_CONSTANT_MINOR flags"

definition v8_version_at_least :: "uptr \<Rightarrow> uptr \<Rightarrow> 32 word \<Rightarrow> bool" where
  "v8_version_at_least major minor flags \<longleftrightarrow>
     V8_CONSTANT_MAJOR flags < major \<or>
     major = V8_CONSTANT_MAJOR flags \<and> V8_CONSTANT_MINOR flags \<le> minor"

section \<open>Autoconfiguration\<close>

definition set_gv :: "v8_global \<Rightarrow> uptr \<Rightarrow> v8dbg \<Rightarrow> v8dbg" where
  "set_gv g v D = D\<lparr>gv := (gv D)(g := v)\<rparr>"

text \<open>
  Whether an entry without metadata must be there, by the flags and the version of V8;
  whether its fallback applies.
\<close>

definition entry_required :: "v8dbg \<Rightarrow> 32 word \<Rightarrow> bool" where
  "entry_required D flags \<longleftrightarrow>
     flags AND V8_CONSTANT_OPTIONAL = 0 \<and>
     (flags AND V8_CONSTANT_REMOVED = 0 \<or> v8_version_older (v8_major D) (v8_minor D) flags) \<and>
     (flags AND V8_CONSTANT_ADDED = 0 \<or> v8_version_at_least (v8_major D) (v8_minor D) flags)"

definition fallback_applies :: "v8dbg \<Rightarrow> 32 word \<Rightarrow> bool" where
  "fallback_applies D flags \<longleftrightarrow>
     \<not> (flags AND V8_CONSTANT_HASFALLBACK = 0 \<or>
        v8_major D < V8_CONSTANT_MAJOR flags \<or>
        v8_major D = V8_CONSTANT_MAJOR flags \<and> v8_minor D < V8_CONSTANT_MINOR flags)"

text \<open>One constant: the number of failures and the state.\<close>

definition load_constant :: "v8_target \<Rightarrow> v8_cfg \<Rightarrow> v8_constant \<Rightarrow> nat \<times> v8dbg \<Rightarrow> nat \<times> v8dbg" where
  "load_constant T cfgp cnp st =
     (case st of (failed, D) \<Rightarrow>
        (case v8cfg_readsym T cfgp (v8c_symbol cnp) of
          Some v \<Rightarrow> (failed, set_gv (v8c_valp cnp) v D)
        | None \<Rightarrow>
            if entry_required D (v8c_flags cnp) then (failed + 1, D)
            else if \<not> fallback_applies D (v8c_flags cnp) then (failed, set_gv (v8c_valp cnp) (- 1) D)
            else (failed, set_gv (v8c_valp cnp) (v8c_fallback cnp) D)))"

text \<open>The globals that hold the type values of well-known classes.\<close>

definition v8_type_globals :: "(string \<times> v8_global) list" where
  "v8_type_globals =
     [(''JSObject'', V8_TYPE_JSOBJECT), (''JSArray'', V8_TYPE_JSARRAY),
      (''JSBoundFunction'', V8_TYPE_JSBOUNDFUNCTION), (''JSFunction'', V8_TYPE_JSFUNCTION),
      (''FixedArray'', V8_TYPE_FIXEDARRAY), (''AccessorInfo'', V8_TYPE_ACCESSORINFO),
      (''AccessorPair'', V8_TYPE_ACCESSORPAIR),
      (''ExecutableAccessorInfo'', V8_TYPE_EXECUTABLEACCESSORINFO),
      (''HeapNumber'', V8_TYPE_HEAPNUMBER), (''MutableHeapNumber'', V8_TYPE_MUTABLEHEAPNUMBER),
      (''JSDate'', V8_TYPE_JSDATE), (''JSRegExp'', V8_TYPE_JSREGEXP),
      (''Oddball'', V8_TYPE_ODDBALL), (''Map'', V8_TYPE_MAP),
      (''JSTypedArray'', V8_TYPE_JSTYPEDARRAY)]"

text \<open>\<open>v8e_value\<close> is an \<open>unsigned int\<close>: it is zero-extended.\<close>

definition load_type :: "v8_enum \<Rightarrow> v8dbg \<Rightarrow> v8dbg" where
  "load_type ep D =
     fold (\<lambda>(n, g) D. if strcmp (v8e_name ep) n = 0 then set_gv g (ucast (v8e_value ep)) D else D)
       v8_type_globals D"

definition load_types :: "v8dbg \<Rightarrow> v8dbg option" where
  "load_types D = map_option (\<lambda>entries. fold load_type entries D) (enum_entries NTYPES (v8_types D))"

definition missing_types :: "v8dbg \<Rightarrow> nat" where
  "missing_types D = length (filter (\<lambda>g. gv D g = - 1)
     [V8_TYPE_JSOBJECT, V8_TYPE_JSARRAY, V8_TYPE_JSFUNCTION, V8_TYPE_FIXEDARRAY])"

text \<open>The search stops at the entry \<^verbatim>\<open>Code\<close>, and else goes on to the end of the table.\<close>

definition infer_mutable_heap_number :: "v8dbg \<Rightarrow> v8dbg option" where
  "infer_mutable_heap_number D =
     (if gv D V8_TYPE_HEAPNUMBER \<noteq> - 1 \<and> gv D V8_TYPE_MUTABLEHEAPNUMBER = - 1 then
        if v8_version_current_older D 4 6 85 23
        then Some (set_gv V8_TYPE_MUTABLEHEAPNUMBER (gv D V8_TYPE_HEAPNUMBER + 1) D)
        else (case List.find (\<lambda>ep. strcmp (v8e_name ep) ''Code'' = 0)
                     (takeWhile (\<lambda>ep. v8e_name ep \<noteq> []) (take NTYPES (v8_types D))) of
                Some ep \<Rightarrow> Some (set_gv V8_TYPE_MUTABLEHEAPNUMBER (ucast (v8e_value ep + 1)) D)
              | None \<Rightarrow> if types_end D then Some D else None)
      else Some D)"

text \<open>
  \<open>heap_offset\<close> of a class and field, with the second try of \<open>FixedArray\<close>.
\<close>

definition offset_lookup :: "v8dbg \<Rightarrow> v8_offset \<Rightarrow> uptr option" where
  "offset_lookup D offp =
     (case heap_offset D (v8o_class offp) (v8o_member offp) of
        Some v \<Rightarrow> Some v
      | None \<Rightarrow> if strcmp (v8o_class offp) ''FixedArray'' = 0
                then heap_offset D ''FixedArrayBase'' (v8o_member offp) else None)"

definition load_offset :: "v8_offset \<Rightarrow> nat \<times> v8dbg \<Rightarrow> nat \<times> v8dbg" where
  "load_offset offp st =
     (case st of (failed, D) \<Rightarrow>
        (case offset_lookup D offp of
          Some v \<Rightarrow> (failed, set_gv (v8o_valp offp) v D)
        | None \<Rightarrow>
            if v8o_optional offp \<noteq> 0 then (failed, set_gv (v8o_valp offp) (- 1) D)
            else let failed = (if entry_required D (v8o_flags offp) then failed + 1 else failed) in
              if \<not> fallback_applies D (v8o_flags offp) then (failed, set_gv (v8o_valp offp) (- 1) D)
              else (failed, set_gv (v8o_valp offp) (v8o_fallback offp) D)))"

text \<open>
  The adjustments that follow the tables, in the order of the code: each takes the state of
  the one before.
\<close>

definition set_gv_if :: "bool \<Rightarrow> v8_global \<Rightarrow> uptr \<Rightarrow> v8dbg \<Rightarrow> v8dbg" where
  "set_gv_if b g v D = (if b then set_gv g v D else D)"

definition fix_string_offsets :: "v8dbg \<Rightarrow> v8dbg" where
  "fix_string_offsets D0 =
     (let D1 = set_gv_if (gv D0 V8_OFF_SEQONEBYTESTR_CHARS \<noteq> - 1) V8_OFF_SEQASCIISTR_CHARS
                 (gv D0 V8_OFF_SEQONEBYTESTR_CHARS) D0;
          D2 = set_gv_if (gv D1 V8_OFF_SEQTWOBYTESTR_CHARS = - 1) V8_OFF_SEQTWOBYTESTR_CHARS
                 (gv D1 V8_OFF_SEQASCIISTR_CHARS) D1
      in set_gv_if (gv D2 V8_OFF_SLICEDSTRING_PARENT = - 1) V8_OFF_SLICEDSTRING_PARENT
           (gv D2 V8_OFF_SLICEDSTRING_OFFSET - of_nat PTRSZ) D2)"

definition fix_function_offsets :: "v8dbg \<Rightarrow> v8dbg" where
  "fix_function_offsets D0 =
     (let D1 = set_gv_if (gv D0 V8_OFF_JSFUNCTION_CONTEXT = - 1) V8_OFF_JSFUNCTION_CONTEXT
                 (gv D0 V8_OFF_JSFUNCTION_SHARED + of_nat PTRSZ) D0
      in set_gv_if (gv D1 V8_OFF_SHAREDFUNCTIONINFO_SCOPE_INFO = - 1) V8_OFF_SHAREDFUNCTIONINFO_SCOPE_INFO
           (case heap_offset D1 ''SharedFunctionInfo'' ''optimized_code_map'' of
              None \<Rightarrow> - 1 | Some v \<Rightarrow> v + of_nat PTRSZ) D1)"

definition fix_map_offsets :: "v8dbg \<Rightarrow> v8dbg" where
  "fix_map_offsets D0 =
     (let D1 = set_gv_if (gv D0 V8_OFF_MAP_BIT_FIELD = - 1) V8_OFF_MAP_BIT_FIELD
                 (gv D0 V8_OFF_MAP_INSTANCE_ATTRIBUTES + 2) D0
      in set_gv_if (gv D1 V8_OFF_MAP_BIT_FIELD2 = - 1) V8_OFF_MAP_BIT_FIELD2
           (gv D1 V8_OFF_MAP_INSTANCE_ATTRIBUTES + 3) D1)"

definition fix_scopeinfo :: "v8dbg \<Rightarrow> v8dbg" where
  "fix_scopeinfo D =
     (if gv D V8_SCOPEINFO_IDX_FIRST_VARS = - 1 then
        if 4 < v8_major D \<or> v8_major D = 4 \<and> 3 \<le> v8_minor D then set_gv V8_SCOPEINFO_IDX_FIRST_VARS 5 D
        else if 3 < v8_major D \<or> v8_major D = 3 \<and> 7 \<le> v8_minor D
        then set_gv V8_SCOPEINFO_IDX_FIRST_VARS 4 D
        else D
      else D)"

definition fix_renamed_offsets :: "v8dbg \<Rightarrow> v8dbg" where
  "fix_renamed_offsets D0 =
     (let D1 = set_gv_if (gv D0 V8_OFF_MAP_CONSTRUCTOR_OR_BACKPOINTER \<noteq> - 1) V8_OFF_MAP_CONSTRUCTOR
                 (gv D0 V8_OFF_MAP_CONSTRUCTOR_OR_BACKPOINTER) D0;
          D2 = set_gv_if (gv D1 V8_OFF_MAP_INOBJECT_PROPERTIES_OR_CTOR_FUN_INDEX \<noteq> - 1)
                 V8_OFF_MAP_INOBJECT_PROPERTIES
                 (gv D1 V8_OFF_MAP_INOBJECT_PROPERTIES_OR_CTOR_FUN_INDEX) D1;
          D3 = set_gv_if (gv D2 V8_OFF_JSOBJECT_PROPERTIES = - 1) V8_OFF_JSOBJECT_PROPERTIES
                 (gv D2 V8_OFF_JSRECEIVER_PROPERTIES) D2;
          D4 = set_gv_if (gv D3 V8_OFF_FP_CONTEXT_OR_FRAME_TYPE = - 1) V8_OFF_FP_CONTEXT_OR_FRAME_TYPE
                 (gv D3 V8_OFF_FP_MARKER) D3
      in set_gv_if (gv D4 V8_OFF_SHAREDFUNCTIONINFO_IDENTIFIER = - 1) V8_OFF_SHAREDFUNCTIONINFO_IDENTIFIER
           (gv D4 V8_OFF_SHAREDFUNCTIONINFO_INFERRED_NAME) D4)"

definition fix_bound_function_bit :: "v8dbg \<Rightarrow> v8dbg" where
  "fix_bound_function_bit D =
     (if gv D V8_TYPE_JSBOUNDFUNCTION = - 1 then
        set_gv V8_CompilerHints_BoundFunction
          (if v8_version_current_older D 3 28 71 19 then 13
           else if v8_version_current_older D 4 5 103 30 then 8 else 10) D
      else D)"

text \<open>The callback of the symbol iteration, with the undefined outcome carried in the state.\<close>

definition autoconf_cb :: "v8_target \<Rightarrow> v8_cfg \<Rightarrow> string \<Rightarrow> v8dbg option \<Rightarrow> int \<times> v8dbg option" where
  "autoconf_cb T cfgp name st =
     (case st of None \<Rightarrow> (- 1, None)
      | Some D \<Rightarrow>
          (case autoconf_iter_symbol T cfgp name D of
             None \<Rightarrow> (- 1, None) | Some (rv, D') \<Rightarrow> (rv, Some D')))"

fun compute_all_offsets :: "nat list \<Rightarrow> v8dbg \<Rightarrow> v8dbg option" where
  "compute_all_offsets [] D = Some D"
| "compute_all_offsets (a # as) D =
     (case class_at D a of
        None \<Rightarrow> None
      | Some c \<Rightarrow>
          if v8c_end c \<noteq> - 1 then compute_all_offsets as D
          else Option.bind (conf_class_compute_offsets a D) (compute_all_offsets as))"

definition autoconfigure :: "v8_target \<Rightarrow> v8_cfg \<Rightarrow> v8dbg \<Rightarrow> (int \<times> v8dbg) option" where
  "autoconfigure T cfgp D =
     (if v8_classes D \<noteq> [] then None
      else (case v8cfg_iter T cfgp (autoconf_cb T cfgp) (Some D) of
        (_, None) \<Rightarrow> None
      | (rv, Some D1) \<Rightarrow>
          if rv \<noteq> 0 then Some (- 1, D1)
          else do {
            D2 \<leftarrow> compute_all_offsets (map v8c_addr (v8_classes D1)) D1;
            let (failed, D3) = fold (load_constant T cfgp) v8_constants (0, D2);
            D4 \<leftarrow> load_types D3;
            let failed = failed + missing_types D4;
            D5 \<leftarrow> infer_mutable_heap_number D4;
            let (failed, D6) = fold load_offset v8_offsets (failed, D5);
            let failed = (if (gv D6 V8_OFF_SEQASCIISTR_CHARS \<noteq> - 1) \<noteq> (gv D6 V8_OFF_SEQONEBYTESTR_CHARS \<noteq> - 1)
                          then failed else failed + 1);
            let D7 = fix_bound_function_bit (fix_renamed_offsets (fix_scopeinfo (fix_map_offsets
                       (fix_function_offsets (fix_string_offsets D6)))));
            Some (if failed \<noteq> 0 then - 1 else 0, D7)
          }))"


section \<open>Choosing a configuration\<close>

text \<open>
  What is printed, and the state; \<open>tgt_readint\<close> reads the version numbers.
\<close>

definition configure :: "v8_target \<Rightarrow> v8dbg \<Rightarrow> (string list \<times> v8dbg) option" where
  "configure T D =
     (case (tgt_readint T ''_ZN2v88internal7Version6major_E'',
            tgt_readint T ''_ZN2v88internal7Version6minor_E'',
            tgt_readint T ''_ZN2v88internal7Version6build_E'',
            tgt_readint T ''_ZN2v88internal7Version6patch_E'') of
       (Some major, Some minor, Some build, Some patch) \<Rightarrow>
         let D = D\<lparr>v8_major := scast major, v8_minor := scast minor,
                   v8_build := scast build, v8_patch := scast patch\<rparr>;
             version = ''V8 version: '' @ fmt_d (v8_major D) @ ''.'' @ fmt_d (v8_minor D) @ ''.'' @
               fmt_d (v8_build D) @ ''.'' @ fmt_d (v8_patch D) @ NL;
             choice =
               (if tgt_has_symbol T ''v8dbg_SmiTag''
                then Some (v8_cfg_target, ''Autoconfigured V8 support from target'')
                else if v8_major D = 3 \<and> v8_minor D = 1 \<and> v8_build D = 8
                then Some (v8_cfg_04, ''Configured V8 support based on node v0.4'')
                else if v8_major D = 3 \<and> v8_minor D = 6 \<and> v8_build D = 6
                then Some (v8_cfg_06, ''Configured V8 support based on node v0.6'')
                else None)
         in (case choice of
               None \<Rightarrow> Some ([version,
                 ''mdb_v8: target has no debug metadata and no existing config found'' @ NL], D)
             | Some (cfgp, success) \<Rightarrow>
                 map_option (\<lambda>(rv, D'). (version # (if rv \<noteq> 0 then [] else [success @ NL]), D'))
                   (autoconfigure T cfgp D))
     | _ \<Rightarrow> Some ([], D))"

text \<open>
  The loop of \<open>::v8load\<close> over the configurations: \<open>cfgp\<close> is the last one looked at, whether
  or not its name matched.
\<close>

fun v8load_search :: "string \<Rightarrow> v8_cfg list \<Rightarrow> v8_cfg option \<Rightarrow> v8_cfg option" where
  "v8load_search name [] cfgp = cfgp"
| "v8load_search name (c # cs) cfgp =
     (if v8cfg_name c = Some name then Some c else v8load_search name cs (Some c))"

definition dcmd_v8load :: "v8_target \<Rightarrow> string option \<Rightarrow> v8dbg \<Rightarrow> (int \<times> v8dbg) option" where
  "dcmd_v8load T arg D =
     (if v8_classes D \<noteq> [] then Some (DCMD_ERR, D)
      else (case arg of
        None \<Rightarrow> Some (DCMD_USAGE, D)
      | Some name \<Rightarrow>
          (case v8load_search name v8_cfgs None of
             None \<Rightarrow> Some (DCMD_ERR, D)
           | Some cfgp \<Rightarrow>
               if v8cfg_name cfgp = None then Some (DCMD_ERR, D)
               else map_option (\<lambda>(rv, D'). (if rv = - 1 then DCMD_ERR else DCMD_OK, D'))
                      (autoconfigure T cfgp D))))"

section \<open>Lemmas: versions\<close>

lemma mask_eqs: "V8_CONSTANT_MAJORMASK = mask 4" "V8_CONSTANT_MINORMASK = mask 9"
  by (simp_all add: V8_CONSTANT_MAJORMASK_def V8_CONSTANT_MINORMASK_def mask_eq_exp_minus_1 push_bit_eq_mult)

lemma version_fields:
  fixes low maj mnr :: "32 word"
  assumes "low < 16" and "maj < 16" and "mnr < 512"
  defines "flags \<equiv> low OR push_bit V8_CONSTANT_MAJORSHIFT maj OR push_bit V8_CONSTANT_MINORSHIFT mnr"
  shows "V8_CONSTANT_MAJOR flags = ucast maj" and "V8_CONSTANT_MINOR flags = ucast mnr"
proof -
  have small: "take_bit n w = w" if "unat w < 2 ^ n" for n and w :: "32 word"
    using that by (simp add: word_unat_eq_iff unsigned_take_bit_eq take_bit_nat_eq_self_iff)
  have l: "take_bit 4 low = low" "take_bit 4 maj = maj" "take_bit 9 mnr = mnr"
    using assms(1-3) by (auto intro!: small simp: word_less_nat_alt)
  have bl: "bit low n \<Longrightarrow> n < 4" "bit maj n \<Longrightarrow> n < 4" "bit mnr n \<Longrightarrow> n < 9" for n
    using l by (metis bit_take_bit_iff)+
  have "drop_bit 4 flags AND mask 4 = maj"
    by (rule bit_word_eqI)
       (auto simp: flags_def bit_simps V8_CONSTANT_MAJORSHIFT_def V8_CONSTANT_MINORSHIFT_def dest: bl)
  then show "V8_CONSTANT_MAJOR flags = ucast maj"
    by (simp only: V8_CONSTANT_MAJOR_def mask_eqs V8_CONSTANT_MAJORSHIFT_def)
  have "drop_bit 8 flags AND mask 9 = mnr"
    by (rule bit_word_eqI)
       (auto simp: flags_def bit_simps V8_CONSTANT_MAJORSHIFT_def V8_CONSTANT_MINORSHIFT_def dest: bl)
  then show "V8_CONSTANT_MINOR flags = ucast mnr"
    by (simp only: V8_CONSTANT_MINOR_def mask_eqs V8_CONSTANT_MINORSHIFT_def)
qed

section \<open>Lemmas: what each step changes\<close>

lemma set_gv_sel [simp]:
  "gv (set_gv g v D) h = (if h = g then v else gv D h)"
  "v8_major (set_gv g v D) = v8_major D" "v8_minor (set_gv g v D) = v8_minor D"
  "v8_build (set_gv g v D) = v8_build D" "v8_patch (set_gv g v D) = v8_patch D"
  "v8_classes (set_gv g v D) = v8_classes D" "v8_types (set_gv g v D) = v8_types D"
  by (simp_all add: set_gv_def)

definition same_version :: "v8dbg \<Rightarrow> v8dbg \<Rightarrow> bool" where
  "same_version D D' \<longleftrightarrow> v8_major D' = v8_major D \<and> v8_minor D' = v8_minor D \<and>
     v8_build D' = v8_build D \<and> v8_patch D' = v8_patch D"

lemma same_version_simps [simp]:
  "same_version D D" "same_version D (set_gv g v D') = same_version D D'"
  by (simp_all add: same_version_def)

lemma same_version_trans: "same_version A B \<Longrightarrow> same_version B C \<Longrightarrow> same_version A C"
  by (simp add: same_version_def)

lemma entry_same_version:
  "same_version D D' \<Longrightarrow> entry_required D' flags = entry_required D flags"
  "same_version D D' \<Longrightarrow> fallback_applies D' flags = fallback_applies D flags"
  by (simp_all add: entry_required_def fallback_applies_def same_version_def)

text \<open>The value the tables prescribe for a constant that is not required and missing.\<close>

definition constant_value :: "v8_target \<Rightarrow> v8_cfg \<Rightarrow> v8dbg \<Rightarrow> v8_constant \<Rightarrow> uptr" where
  "constant_value T cfgp D k =
     (case v8cfg_readsym T cfgp (v8c_symbol k) of
        Some v \<Rightarrow> v
      | None \<Rightarrow> if fallback_applies D (v8c_flags k) then v8c_fallback k else - 1)"

definition constant_missing :: "v8_target \<Rightarrow> v8_cfg \<Rightarrow> v8dbg \<Rightarrow> v8_constant \<Rightarrow> bool" where
  "constant_missing T cfgp D k \<longleftrightarrow>
     v8cfg_readsym T cfgp (v8c_symbol k) = None \<and> entry_required D (v8c_flags k)"

lemma load_constants:
  assumes "fold (load_constant T cfgp) ks (f, D) = (f', D')" and "distinct (map v8c_valp ks)"
  shows "same_version D D' \<and> v8_classes D' = v8_classes D \<and> v8_types D' = v8_types D \<and>
    f' = f + length (filter (constant_missing T cfgp D) ks) \<and>
    (\<forall>k\<in>set ks. \<not> constant_missing T cfgp D k \<longrightarrow> gv D' (v8c_valp k) = constant_value T cfgp D k) \<and>
    (\<forall>g. g \<notin> v8c_valp ` set ks \<longrightarrow> gv D' g = gv D g)"
  using assms
proof (induction ks arbitrary: f D)
  case (Cons k ks)
  obtain f1 D1 where s: "load_constant T cfgp k (f, D) = (f1, D1)" by fastforce
  have one: "same_version D D1" "v8_classes D1 = v8_classes D" "v8_types D1 = v8_types D"
    "f1 = f + (if constant_missing T cfgp D k then 1 else 0)"
    "\<not> constant_missing T cfgp D k \<Longrightarrow> gv D1 (v8c_valp k) = constant_value T cfgp D k"
    "\<And>g. g \<noteq> v8c_valp k \<Longrightarrow> gv D1 g = gv D g"
    using s by (auto simp: load_constant_def constant_missing_def constant_value_def
        split: option.splits if_splits)
  have cong: "constant_missing T cfgp D1 = constant_missing T cfgp D"
    "constant_value T cfgp D1 = constant_value T cfgp D"
    using entry_same_version [OF one(1)]
    by (auto simp: constant_missing_def [abs_def] constant_value_def [abs_def] cong: option.case_cong)
  from Cons.IH [of f1 D1] Cons.prems s one cong show ?case
    by (auto dest: same_version_trans [OF one(1)])
qed auto

lemma load_offsets:
  assumes "fold load_offset os (f, D) = (f', D')"
  shows "same_version D D' \<and> f \<le> f' \<and> v8_classes D' = v8_classes D \<and> v8_types D' = v8_types D \<and>
    (\<forall>g. g \<notin> v8o_valp ` set os \<longrightarrow> gv D' g = gv D g)"
  using assms
proof (induction os arbitrary: f D)
  case (Cons k ks)
  obtain f1 D1 where s: "load_offset k (f, D) = (f1, D1)" by fastforce
  have one: "same_version D D1" "f \<le> f1" "v8_classes D1 = v8_classes D" "v8_types D1 = v8_types D"
    "\<And>g. g \<noteq> v8o_valp k \<Longrightarrow> gv D1 g = gv D g"
    using s by (auto simp: load_offset_def Let_def split: option.splits if_splits)
  from Cons.IH [of f1 D1] Cons.prems s one show ?case
    by (auto dest: same_version_trans [OF one(1)] order_trans)
qed auto

text \<open>A required offset that no class provides is counted as a failure.\<close>

lemma load_offsets_missing:
  assumes "fold load_offset os (f, D) = (f', D')" and "off \<in> set os" and "v8o_optional off = 0"
    and "entry_required D (v8o_flags off)"
    and "\<And>D'. v8_classes D' = v8_classes D \<Longrightarrow> offset_lookup D' off = None"
  shows "f < f'"
  using assms
proof (induction os arbitrary: f D)
  case (Cons k ks)
  obtain f1 D1 where s: "load_offset k (f, D) = (f1, D1)" by fastforce
  have rest: "fold load_offset ks (f1, D1) = (f', D')" using Cons.prems(1) s by simp
  have one: "same_version D D1" "f \<le> f1" "v8_classes D1 = v8_classes D"
    using s by (auto simp: load_offset_def Let_def split: option.splits if_splits)
  show ?case
  proof (cases "k = off")
    case True
    then have "f1 = f + 1"
      using s Cons.prems(3,4) Cons.prems(5) [of D] by (auto simp: load_offset_def Let_def split: if_splits)
    then show ?thesis using load_offsets [OF rest] by auto
  next
    case False
    then have "off \<in> set ks" using Cons.prems(2) by simp
    from Cons.IH [OF rest this Cons.prems(3)] Cons.prems(4,5) one show ?thesis
      by (auto simp: entry_same_version(1) [OF one(1)])
  qed
qed simp

definition type_globals :: "v8_global set" where
  "type_globals = snd ` set v8_type_globals"

lemma load_type_frame:
  "same_version D (load_type ep D) \<and> v8_classes (load_type ep D) = v8_classes D \<and>
   v8_types (load_type ep D) = v8_types D \<and>
   (\<forall>g. g \<notin> type_globals \<longrightarrow> gv (load_type ep D) g = gv D g)"
proof -
  have "same_version D (fold (\<lambda>(n, g) D. if strcmp (v8e_name ep) n = 0 then set_gv g (ucast (v8e_value ep)) D else D) ps D) \<and>
    v8_classes (fold (\<lambda>(n, g) D. if strcmp (v8e_name ep) n = 0 then set_gv g (ucast (v8e_value ep)) D else D) ps D) = v8_classes D \<and>
    v8_types (fold (\<lambda>(n, g) D. if strcmp (v8e_name ep) n = 0 then set_gv g (ucast (v8e_value ep)) D else D) ps D) = v8_types D \<and>
    (\<forall>g. g \<notin> snd ` set ps \<longrightarrow>
      gv (fold (\<lambda>(n, g) D. if strcmp (v8e_name ep) n = 0 then set_gv g (ucast (v8e_value ep)) D else D) ps D) g = gv D g)"
    for ps
    by (induction ps arbitrary: D) (auto simp: same_version_def)
  then show ?thesis by (simp add: load_type_def type_globals_def)
qed

lemma load_types_frame:
  assumes "load_types D = Some D'"
  shows "same_version D D' \<and> v8_classes D' = v8_classes D \<and> v8_types D' = v8_types D \<and>
    (\<forall>g. g \<notin> type_globals \<longrightarrow> gv D' g = gv D g)"
proof -
  have "same_version D (fold load_type es D) \<and> v8_classes (fold load_type es D) = v8_classes D \<and>
     v8_types (fold load_type es D) = v8_types D \<and>
     (\<forall>g. g \<notin> type_globals \<longrightarrow> gv (fold load_type es D) g = gv D g)" for es
  proof (induction es arbitrary: D)
    case (Cons e es)
    from Cons.IH [of "load_type e D"] load_type_frame [of D e] show ?case
      by (auto dest: same_version_trans)
  qed simp
  then show ?thesis using assms by (auto simp: load_types_def)
qed

lemma load_types_end: "(\<exists>D'. load_types D = Some D') \<longleftrightarrow> types_end D"
  by (auto simp: load_types_def types_end_def)

definition adjusted_globals :: "v8_global list" where
  "adjusted_globals =
     [V8_OFF_SEQASCIISTR_CHARS, V8_OFF_SEQTWOBYTESTR_CHARS, V8_OFF_SLICEDSTRING_PARENT,
      V8_OFF_JSFUNCTION_CONTEXT, V8_OFF_SHAREDFUNCTIONINFO_SCOPE_INFO, V8_OFF_MAP_BIT_FIELD,
      V8_OFF_MAP_BIT_FIELD2, V8_SCOPEINFO_IDX_FIRST_VARS, V8_OFF_MAP_CONSTRUCTOR,
      V8_OFF_MAP_INOBJECT_PROPERTIES, V8_OFF_JSOBJECT_PROPERTIES, V8_OFF_FP_CONTEXT_OR_FRAME_TYPE,
      V8_OFF_SHAREDFUNCTIONINFO_IDENTIFIER, V8_CompilerHints_BoundFunction]"

lemma set_gv_if_gv: "gv (set_gv_if b g v D) h = (if b \<and> h = g then v else gv D h)"
  by (simp add: set_gv_if_def)

lemma set_gv_if_other: "h \<noteq> g \<Longrightarrow> gv (set_gv_if b g v D) h = gv D h"
  by (simp add: set_gv_if_def)

lemma fix_string_frame: "g \<notin> set adjusted_globals \<Longrightarrow> gv (fix_string_offsets D) g = gv D g"
  by (simp add: adjusted_globals_def fix_string_offsets_def Let_def set_gv_if_other)

lemma fix_function_frame: "g \<notin> set adjusted_globals \<Longrightarrow> gv (fix_function_offsets D) g = gv D g"
  by (simp add: adjusted_globals_def fix_function_offsets_def Let_def set_gv_if_other)

lemma fix_map_frame: "g \<notin> set adjusted_globals \<Longrightarrow> gv (fix_map_offsets D) g = gv D g"
  by (simp add: adjusted_globals_def fix_map_offsets_def Let_def set_gv_if_other)

lemma fix_scopeinfo_frame: "g \<notin> set adjusted_globals \<Longrightarrow> gv (fix_scopeinfo D) g = gv D g"
  by (simp add: adjusted_globals_def fix_scopeinfo_def)

lemma fix_renamed_frame: "g \<notin> set adjusted_globals \<Longrightarrow> gv (fix_renamed_offsets D) g = gv D g"
  by (simp add: adjusted_globals_def fix_renamed_offsets_def Let_def set_gv_if_other)

lemma fix_bound_frame: "g \<notin> set adjusted_globals \<Longrightarrow> gv (fix_bound_function_bit D) g = gv D g"
  by (simp add: adjusted_globals_def fix_bound_function_bit_def)

lemma fix_frame:
  "g \<notin> set adjusted_globals \<Longrightarrow>
   gv (fix_bound_function_bit (fix_renamed_offsets (fix_scopeinfo (fix_map_offsets
     (fix_function_offsets (fix_string_offsets D)))))) g = gv D g"
  by (simp add: fix_string_frame fix_function_frame fix_map_frame fix_scopeinfo_frame
      fix_renamed_frame fix_bound_frame)

lemma set_gv_if_types: "v8_types (set_gv_if b g v D) = v8_types D"
  by (simp add: set_gv_if_def)

lemma fix_types:
  "v8_types (fix_string_offsets D) = v8_types D" "v8_types (fix_function_offsets D) = v8_types D"
  "v8_types (fix_map_offsets D) = v8_types D" "v8_types (fix_scopeinfo D) = v8_types D"
  "v8_types (fix_renamed_offsets D) = v8_types D" "v8_types (fix_bound_function_bit D) = v8_types D"
  unfolding fix_string_offsets_def fix_function_offsets_def fix_map_offsets_def fix_scopeinfo_def
    fix_renamed_offsets_def fix_bound_function_bit_def Let_def
  by (simp_all add: set_gv_if_types)

lemma infer_frame:
  "infer_mutable_heap_number D = Some D' \<Longrightarrow>
   same_version D D' \<and> v8_classes D' = v8_classes D \<and> v8_types D' = v8_types D \<and>
   (\<forall>g. g \<noteq> V8_TYPE_MUTABLEHEAPNUMBER \<longrightarrow> gv D' g = gv D g)"
  by (auto simp: infer_mutable_heap_number_def split: option.splits if_splits)

lemma infer_returns: "types_end D \<Longrightarrow> \<exists>D'. infer_mutable_heap_number D = Some D'"
  by (auto simp: infer_mutable_heap_number_def split: option.split)

section \<open>Lemmas: the symbol iteration\<close>

text \<open>What building the tables leaves alone.\<close>

definition same_globals :: "v8dbg \<Rightarrow> v8dbg \<Rightarrow> bool" where
  "same_globals D D' \<longleftrightarrow> gv D' = gv D \<and> same_version D D'"

lemma same_globals_refl [simp]: "same_globals D D"
  by (simp add: same_globals_def)

lemma same_globals_trans: "same_globals A B \<Longrightarrow> same_globals B C \<Longrightarrow> same_globals A C"
  by (auto simp: same_globals_def intro: same_version_trans)

lemma same_globals_tables [simp]:
  "same_globals D (D'\<lparr>v8_classes := cls\<rparr>) = same_globals D D'"
  "same_globals D (D'\<lparr>v8_types := ts\<rparr>) = same_globals D D'"
  "same_globals D (D'\<lparr>v8_frametypes := ts\<rparr>) = same_globals D D'"
  "same_globals D (class_update a f D') = same_globals D D'"
  by (simp_all add: same_globals_def same_version_def class_update_def)

lemma findcreate_globals: "conf_class_findcreate D n = Some (D', a) \<Longrightarrow> same_globals D D'"
  by (auto simp: conf_class_findcreate_def)

lemma update_parent_globals: "conf_update_parent s D = (rv, D') \<Longrightarrow> same_globals D D'"
  by (auto simp: conf_update_parent_def dest!: findcreate_globals
      split: option.splits prod.splits intro: same_globals_trans)

lemma update_field_globals: "conf_update_field T cfgp s D = (rv, D') \<Longrightarrow> same_globals D D'"
  by (auto simp: conf_update_field_def conf_field_create_def Let_def dest!: findcreate_globals
      split: option.splits prod.splits if_splits intro: same_globals_trans)

lemma update_type_globals: "conf_update_type T cfgp s D = Some (rv, D') \<Longrightarrow> same_globals D D'"
  by (auto simp: conf_update_type_def split: option.splits if_splits)

lemma update_frametype_globals: "conf_update_frametype T cfgp s D = Some (rv, D') \<Longrightarrow> same_globals D D'"
  by (auto simp: conf_update_frametype_def split: option.splits if_splits)

lemma iter_symbol_globals: "autoconf_iter_symbol T cfgp s D = Some (rv, D') \<Longrightarrow> same_globals D D'"
  by (auto simp: autoconf_iter_symbol_def split: if_splits
      dest: update_parent_globals update_field_globals update_type_globals update_frametype_globals)

text \<open>An invariant of the callback is an invariant of the iteration.\<close>

lemma autoconf_iter_invariant:
  assumes "cb_iter (autoconf_cb T cfgp) names (Some D) = (rv, Some D')" and "P D"
    and "\<And>n D rv D'. n \<in> set names \<Longrightarrow> P D \<Longrightarrow> autoconf_iter_symbol T cfgp n D = Some (rv, D') \<Longrightarrow> P D'"
  shows "P D'"
  using assms
proof (induction names arbitrary: D)
  case (Cons n names)
  obtain r D1 where one: "autoconf_iter_symbol T cfgp n D = Some (r, D1)"
    using Cons.prems(1)
    by (cases "autoconf_iter_symbol T cfgp n D") (auto simp: autoconf_cb_def)
  have step: "autoconf_cb T cfgp n (Some D) = (r, Some D1)" by (simp add: autoconf_cb_def one)
  have P1: "P D1" using Cons.prems(2) Cons.prems(3) [OF _ Cons.prems(2) one] by simp
  show ?case
  proof (cases "r = 0")
    case True
    then have "cb_iter (autoconf_cb T cfgp) names (Some D1) = (rv, Some D')"
      using Cons.prems(1) step by simp
    from Cons.IH [OF this P1] Cons.prems(3) show ?thesis by auto
  next
    case False
    then show ?thesis using Cons.prems(1) step P1 by simp
  qed
qed simp

lemma compute_offsets_shape:
  assumes "conf_class_compute_offsets a D = Some D'"
  shows "same_globals D D' \<and> map v8c_name (v8_classes D') = map v8c_name (v8_classes D) \<and>
    map v8c_fields (v8_classes D') = map v8c_fields (v8_classes D)"
proof (rule conf_class_compute_offsets.raw_induct
    [where P = "\<lambda>a D D'. same_globals D D' \<and> map v8c_name (v8_classes D') = map v8c_name (v8_classes D) \<and>
    map v8c_fields (v8_classes D') = map v8c_fields (v8_classes D)", OF _ assms])
  fix f a D D'
  assume IH: "\<And>a D D'. f a D = Some D' \<Longrightarrow> same_globals D D' \<and>
      map v8c_name (v8_classes D') = map v8c_name (v8_classes D) \<and>
      map v8c_fields (v8_classes D') = map v8c_fields (v8_classes D)"
    and eq: "(case class_at D a of
        None \<Rightarrow> None
      | Some c \<Rightarrow>
          if v8c_start c \<noteq> 0 \<or> v8c_end c \<noteq> - 1 then None
          else Option.bind
            (case v8c_parent c of
               None \<Rightarrow> Some (D, 0)
             | Some p \<Rightarrow>
                 (case class_at D p of
                    None \<Rightarrow> None
                  | Some pc \<Rightarrow>
                      Option.bind (if v8c_end pc = - 1 then f p D else Some D)
                        (\<lambda>D'. map_option (\<lambda>pc'. (D', v8c_end pc')) (class_at D' p))))
            (\<lambda>(D', start).
               Some (class_update a (\<lambda>c. c\<lparr>v8c_start := start,
                  v8c_end := (if v8c_fields c = [] then start
                              else v8f_offset (last (v8c_fields c)) + of_nat PTRSZ)\<rparr>) D'))) = Some D'"
  have keep: "map v8c_name (v8_classes (class_update a g D)) = map v8c_name (v8_classes D)"
    "map v8c_fields (v8_classes (class_update a g D)) = map v8c_fields (v8_classes D)"
    if "\<And>c. v8c_name (g c) = v8c_name c" "\<And>c. v8c_fields (g c) = v8c_fields c" for g D
    using that by (simp_all add: class_update_def)
  show "same_globals D D' \<and> map v8c_name (v8_classes D') = map v8c_name (v8_classes D) \<and>
      map v8c_fields (v8_classes D') = map v8c_fields (v8_classes D)"
    using eq IH by (auto simp: keep split: option.splits if_splits Option.bind_splits)
qed

lemma compute_all_shape:
  "compute_all_offsets as D = Some D' \<Longrightarrow>
     same_globals D D' \<and> map v8c_name (v8_classes D') = map v8c_name (v8_classes D) \<and>
     map v8c_fields (v8_classes D') = map v8c_fields (v8_classes D)"
proof (induction as D rule: compute_all_offsets.induct)
  case (2 a as D)
  from "2.prems" obtain c where c: "class_at D a = Some c" by (auto split: option.splits)
  show ?case
  proof (cases "v8c_end c = - 1")
    case True
    then obtain D1 where D1: "conf_class_compute_offsets a D = Some D1" "compute_all_offsets as D1 = Some D'"
      using "2.prems" c by (auto split: Option.bind_splits)
    from "2.IH"(2) [OF c _ D1(1) D1(2)] True compute_offsets_shape [OF D1(1)]
    show ?thesis by (auto intro: same_globals_trans)
  next
    case False
    then show ?thesis using "2.IH"(1) [OF c] "2.prems" c by simp
  qed
qed simp

text \<open>The fields of the classes come from the names of the symbols.\<close>

definition fields_from :: "(string \<Rightarrow> bool) \<Rightarrow> v8dbg \<Rightarrow> bool" where
  "fields_from Q D \<longleftrightarrow> (\<forall>c\<in>set (v8_classes D). \<forall>f\<in>set (v8c_fields c). Q (v8f_name f))"

text \<open>The name of the field a class symbol declares.\<close>

definition symbol_field :: "string \<Rightarrow> string option" where
  "symbol_field n =
     (case conf_next_part (drop (length ''v8dbg_class_'') (strlcpy 128 n)) of
        None \<Rightarrow> None
      | Some (p, rest) \<Rightarrow> map_option (strlcpy 64 \<circ> fst) (conf_next_part rest))"

lemma fields_from_alt:
  "fields_from Q D \<longleftrightarrow> (\<forall>fls\<in>set (map v8c_fields (v8_classes D)). \<forall>f\<in>set fls. Q (v8f_name f))"
  by (simp add: fields_from_def)

lemma fields_from_findcreate:
  "conf_class_findcreate D n = Some (D', a) \<Longrightarrow> fields_from Q D \<Longrightarrow> fields_from Q D'"
  by (auto simp: conf_class_findcreate_def fields_from_def new_class_def dest!: class_insert_set
      split: if_splits)

lemma fields_from_keep:
  "(\<And>c. v8c_fields (g c) = v8c_fields c) \<Longrightarrow> fields_from Q D \<Longrightarrow> fields_from Q (class_update a g D)"
  by (auto simp: fields_from_def class_update_def)

lemma set_field_insert_after: "set (field_insert_after g fls flp) = insert g (insert flp (set fls))"
  by (induction g fls flp rule: field_insert_after.induct) auto

lemma set_field_insert: "set (field_insert fls flp) = insert flp (set fls)"
  by (cases fls) (auto simp: set_field_insert_after)

lemma fields_from_create:
  assumes "conf_field_create D clp n off b s = Some D'" "fields_from Q D" "Q (strlcpy 64 n)"
  shows "fields_from Q D'"
  using assms
  by (auto simp: conf_field_create_def fields_from_def class_update_def set_field_insert split: if_splits)

lemma fields_from_parent: "conf_update_parent s D = (rv, D') \<Longrightarrow> fields_from Q D \<Longrightarrow> fields_from Q D'"
  by (auto simp: conf_update_parent_def dest: fields_from_findcreate intro!: fields_from_keep
      split: option.splits prod.splits)

lemma fields_from_field:
  assumes "conf_update_field T cfgp s D = (rv, D')" "fields_from Q D"
    and "\<And>f. symbol_field s = Some f \<Longrightarrow> Q f"
  shows "fields_from Q D'"
  using assms
  by (auto simp: conf_update_field_def symbol_field_def Let_def dest: fields_from_findcreate
      dest!: fields_from_create split: option.splits prod.splits)

lemma fields_from_tables [simp]:
  "fields_from Q (D\<lparr>v8_types := ts\<rparr>) = fields_from Q D"
  "fields_from Q (D\<lparr>v8_frametypes := ts\<rparr>) = fields_from Q D"
  by (simp_all add: fields_from_def)

lemma fields_from_type: "conf_update_type T cfgp s D = Some (rv, D') \<Longrightarrow> fields_from Q D \<Longrightarrow> fields_from Q D'"
  by (auto simp: conf_update_type_def split: option.splits if_splits)

lemma fields_from_frametype:
  "conf_update_frametype T cfgp s D = Some (rv, D') \<Longrightarrow> fields_from Q D \<Longrightarrow> fields_from Q D'"
  by (auto simp: conf_update_frametype_def split: option.splits if_splits)

lemma fields_from_iter_symbol:
  assumes "autoconf_iter_symbol T cfgp s D = Some (rv, D')" "fields_from Q D"
    and "\<And>f. symbol_field s = Some f \<Longrightarrow> Q f"
  shows "fields_from Q D'"
  using assms
  by (auto simp: autoconf_iter_symbol_def split: if_splits
      dest: fields_from_parent fields_from_type fields_from_frametype intro: fields_from_field)

lemma fields_from_offset:
  assumes "fields_from (\<lambda>f. f \<noteq> m) D"
  shows "heap_offset D k m = None"
proof (rule ccontr)
  assume "heap_offset D k m \<noteq> None"
  then obtain c f where "c \<in> set (v8_classes D)" "f \<in> set (v8c_fields c)" "v8f_name f = m"
    by (auto simp: heap_offset_def conf_field_lookup_def strcmp_zero_iff split: option.splits
        dest!: class_lookup_Some field_lookup_Some)
  with assms show False by (auto simp: fields_from_def)
qed

section \<open>Lemmas: the whole of autoconfiguration\<close>

lemma constant_globals_distinct: "distinct (map v8c_valp v8_constants)"
  by (simp add: v8_constants_def)

text \<open>A successful run went through every stage; the constants survive the later ones.\<close>

lemma autoconfigure_stages:
  assumes "autoconfigure T cfgp D = Some (rv, D')"
    and "v8cfg_iter T cfgp (autoconf_cb T cfgp) (Some D) = (0, Some D1)"
  obtains D2 f3 D3 D4 D5 f6 D6 where
    "compute_all_offsets (map v8c_addr (v8_classes D1)) D1 = Some D2"
    "fold (load_constant T cfgp) v8_constants (0, D2) = (f3, D3)"
    "load_types D3 = Some D4" "infer_mutable_heap_number D4 = Some D5"
    "fold load_offset v8_offsets (f3 + missing_types D4, D5) = (f6, D6)"
    "D' = fix_bound_function_bit (fix_renamed_offsets (fix_scopeinfo (fix_map_offsets
       (fix_function_offsets (fix_string_offsets D6)))))"
    "rv = 0 \<longleftrightarrow> f6 = 0 \<and> (gv D6 V8_OFF_SEQASCIISTR_CHARS \<noteq> - 1) \<noteq> (gv D6 V8_OFF_SEQONEBYTESTR_CHARS \<noteq> - 1)"
    "rv = 0 \<or> rv = - 1"
proof -
  from assms obtain D2 where D2: "compute_all_offsets (map v8c_addr (v8_classes D1)) D1 = Some D2"
    by (auto simp: autoconfigure_def split: if_splits Option.bind_splits)
  obtain f3 D3 where 3: "fold (load_constant T cfgp) v8_constants (0, D2) = (f3, D3)" by fastforce
  obtain D4 where 4: "load_types D3 = Some D4"
    using assms D2 3 by (cases "load_types D3") (auto simp: autoconfigure_def Let_def split: if_splits)
  obtain D5 where 5: "infer_mutable_heap_number D4 = Some D5"
    using assms D2 3 4 by (cases "infer_mutable_heap_number D4") (auto simp: autoconfigure_def Let_def split: if_splits)
  obtain f6 D6 where 6: "fold load_offset v8_offsets (f3 + missing_types D4, D5) = (f6, D6)" by fastforce
  show thesis
    by (rule that [OF D2 3 4 5 6]) (use assms D2 3 4 5 6 in \<open>auto simp: autoconfigure_def Let_def split: if_splits\<close>)
qed

text \<open>In a module that autoconfiguration got through, the table of types ends.\<close>

lemma autoconfigure_types_end:
  assumes "autoconfigure T cfgp D = Some (rv, D')"
    and "v8cfg_iter T cfgp (autoconf_cb T cfgp) (Some D) = (0, Some D1)"
  shows "types_end D'"
proof -
  obtain D2 f3 D3 D4 D5 f6 D6 where
    st: "compute_all_offsets (map v8c_addr (v8_classes D1)) D1 = Some D2"
    "fold (load_constant T cfgp) v8_constants (0, D2) = (f3, D3)"
    "load_types D3 = Some D4" "infer_mutable_heap_number D4 = Some D5"
    "fold load_offset v8_offsets (f3 + missing_types D4, D5) = (f6, D6)"
    "D' = fix_bound_function_bit (fix_renamed_offsets (fix_scopeinfo (fix_map_offsets
       (fix_function_offsets (fix_string_offsets D6)))))"
    "rv = 0 \<longleftrightarrow> f6 = 0 \<and> (gv D6 V8_OFF_SEQASCIISTR_CHARS \<noteq> - 1) \<noteq> (gv D6 V8_OFF_SEQONEBYTESTR_CHARS \<noteq> - 1)"
    "rv = 0 \<or> rv = - 1"
    by (rule autoconfigure_stages [OF assms])
  have "v8_types D' = v8_types D6" unfolding st(6) by (simp only: fix_types)
  then have "v8_types D' = v8_types D3"
    using load_types_frame [OF st(3)] infer_frame [OF st(4)] load_offsets [OF st(5)] by simp
  moreover have "types_end D3" using st(3) load_types_end by blast
  ultimately show ?thesis by (simp add: types_end_def)
qed

lemma autoconfigure_returns:
  assumes "v8cfg_iter T cfgp (autoconf_cb T cfgp) (Some D) = (0, Some D1)" and "v8_classes D = []"
    and "compute_all_offsets (map v8c_addr (v8_classes D1)) D1 = Some D2" and "types_end D2"
  shows "\<exists>rv D'. autoconfigure T cfgp D = Some (rv, D')"
proof -
  obtain f3 D3 where 3: "fold (load_constant T cfgp) v8_constants (0, D2) = (f3, D3)" by fastforce
  then have "types_end D3"
    using load_constants [OF 3 constant_globals_distinct] assms(4) by (simp add: types_end_def)
  then obtain D4 where 4: "load_types D3 = Some D4" using load_types_end by blast
  then have "types_end D4" using load_types_frame [OF 4] \<open>types_end D3\<close> by (simp add: types_end_def)
  then obtain D5 where "infer_mutable_heap_number D4 = Some D5" using infer_returns by blast
  then show ?thesis using assms(1-3) 3 4 by (simp add: autoconfigure_def Let_def case_prod_beta)
qed

lemma autoconfigure_iter_failed:
  assumes "autoconfigure T cfgp D = Some (rv, D')"
    and "v8cfg_iter T cfgp (autoconf_cb T cfgp) (Some D) = (r, s)" "\<nexists>D1. r = 0 \<and> s = Some D1"
  shows "rv = - 1"
  using assms by (cases s) (auto simp: autoconfigure_def split: if_splits)

lemma constant_globals_apart:
  "list_all (\<lambda>k. v8c_valp k \<notin> set (map v8o_valp v8_offsets) \<and>
     v8c_valp k \<notin> set (map snd v8_type_globals)) v8_constants"
  by (simp add: v8_constants_def v8_offsets_def v8_type_globals_def)

lemma flag_bits:
  fixes low maj mnr b :: "32 word"
  assumes "b < 16"
  shows "(low OR push_bit V8_CONSTANT_MAJORSHIFT maj OR push_bit V8_CONSTANT_MINORSHIFT mnr) AND b = low AND b"
proof (rule bit_word_eqI)
  fix n assume "n < LENGTH(32)"
  have "take_bit 4 b = b"
    using assms by (simp add: word_less_nat_alt word_unat_eq_iff unsigned_take_bit_eq take_bit_nat_eq_self_iff)
  then have "bit b n \<Longrightarrow> n < 4" by (metis bit_take_bit_iff)
  then show "bit ((low OR push_bit V8_CONSTANT_MAJORSHIFT maj OR push_bit V8_CONSTANT_MINORSHIFT mnr) AND b) n =
      bit (low AND b) n"
    by (auto simp: bit_simps V8_CONSTANT_MAJORSHIFT_def V8_CONSTANT_MINORSHIFT_def)
qed

lemma removed_since_4_9:
  assumes "v8_major D < 4 \<or> v8_major D = 4 \<and> v8_minor D < 9"
  shows "entry_required D (V8_CONSTANT_REMOVED_SINCE 4 9)"
proof -
  have bits: "V8_CONSTANT_REMOVED_SINCE 4 9 AND V8_CONSTANT_OPTIONAL = 0"
    "V8_CONSTANT_REMOVED_SINCE 4 9 AND V8_CONSTANT_ADDED = 0"
    unfolding V8_CONSTANT_REMOVED_SINCE_def
    by (simp_all add: flag_bits V8_CONSTANT_REMOVED_def V8_CONSTANT_ADDED_def V8_CONSTANT_OPTIONAL_def)
  have "V8_CONSTANT_MAJOR (V8_CONSTANT_REMOVED_SINCE 4 9) = 4" "V8_CONSTANT_MINOR (V8_CONSTANT_REMOVED_SINCE 4 9) = 9"
    unfolding V8_CONSTANT_REMOVED_SINCE_def
    by (subst version_fields; simp add: V8_CONSTANT_REMOVED_def)+
  with bits assms show ?thesis by (simp add: entry_required_def v8_version_older_def)
qed

lemma canned_fields_04_1:
  "list_all (\<lambda>n. symbol_field n \<noteq> Some ''literals_or_bindings'') (map fst v8_symbols_node_04_1)"
  by code_simp

lemma canned_fields_04_2:
  "list_all (\<lambda>n. symbol_field n \<noteq> Some ''literals_or_bindings'') (map fst v8_symbols_node_04_2)"
  by code_simp

lemma canned_fields_04_3:
  "list_all (\<lambda>n. symbol_field n \<noteq> Some ''literals_or_bindings'') (map fst v8_symbols_node_04_3)"
  by code_simp

lemma canned_fields_06_1:
  "list_all (\<lambda>n. symbol_field n \<noteq> Some ''literals_or_bindings'') (map fst v8_symbols_node_06_1)"
  by code_simp

lemma canned_fields_06_2:
  "list_all (\<lambda>n. symbol_field n \<noteq> Some ''literals_or_bindings'') (map fst v8_symbols_node_06_2)"
  by code_simp

lemma canned_fields_06_3:
  "list_all (\<lambda>n. symbol_field n \<noteq> Some ''literals_or_bindings'') (map fst v8_symbols_node_06_3)"
  by code_simp

lemma canned_fields_06_4:
  "list_all (\<lambda>n. symbol_field n \<noteq> Some ''literals_or_bindings'') (map fst v8_symbols_node_06_4)"
  by code_simp

lemma canned_fields:
  "list_all (\<lambda>n. symbol_field n \<noteq> Some ''literals_or_bindings'') (map fst v8_symbols_node_04)"
  "list_all (\<lambda>n. symbol_field n \<noteq> Some ''literals_or_bindings'') (map fst v8_symbols_node_06)"
  unfolding v8_symbols_node_04_def v8_symbols_node_06_def map_append list_all_append
  by (intro conjI canned_fields_04_1 canned_fields_04_2 canned_fields_04_3
      canned_fields_06_1 canned_fields_06_2 canned_fields_06_3 canned_fields_06_4)+

lemma compute_all_offsets_ok:
  assumes "extents_ok D" "parents_ranked D rank" "fields_end_ok D" "\<forall>a\<in>set as. class_at D a \<noteq> None"
  shows "\<exists>D'. compute_all_offsets as D = Some D' \<and> extents_ok D' \<and> same_shape D D' \<and>
    (\<forall>a\<in>set as. \<exists>c. class_at D' a = Some c \<and> v8c_end c \<noteq> - 1)"
  using assms
proof (induction as arbitrary: D)
  case Nil
  then show ?case by (simp add: same_shape_refl)
next
  case (Cons a as)
  obtain c where c: "class_at D a = Some c" using Cons.prems(4) by auto
  have "\<exists>D1 c1. (if v8c_end c \<noteq> - 1 then Some D else conf_class_compute_offsets a D) = Some D1 \<and>
      extents_ok D1 \<and> same_shape D D1 \<and> class_at D1 a = Some c1 \<and> v8c_end c1 \<noteq> - 1"
    using compute_offsets_ok [OF Cons.prems(1-3) c] Cons.prems(1) c same_shape_refl
    by (cases "v8c_end c = - 1") auto
  then obtain D1 c1 where D1: "(if v8c_end c \<noteq> - 1 then Some D else conf_class_compute_offsets a D) = Some D1"
    "extents_ok D1" "same_shape D D1" "class_at D1 a = Some c1" "v8c_end c1 \<noteq> - 1" by blast
  have step: "compute_all_offsets (a # as) D = compute_all_offsets as D1"
    using c D1(1) by (auto split: if_splits)
  have "\<forall>a\<in>set as. class_at D1 a \<noteq> None"
    using Cons.prems(4) same_shapeD [OF D1(3)] by (metis list.set_intros(2) option.exhaust option.simps(3))
  from Cons.IH [OF D1(2) same_shape_ranked [OF D1(3) Cons.prems(2)]
      same_shape_fields_end [OF D1(3) Cons.prems(3)] this]
  obtain D' where D': "compute_all_offsets as D1 = Some D'" "extents_ok D'" "same_shape D1 D'"
    "\<forall>a\<in>set as. \<exists>c. class_at D' a = Some c \<and> v8c_end c \<noteq> - 1" by blast
  from same_shapeD [OF D'(3) D1(4)] obtain c' where "class_at D' a = Some c'" "class_shape c1 c'" .
  with D1(5) have "\<exists>c. class_at D' a = Some c \<and> v8c_end c \<noteq> - 1" by (auto simp: class_shape_def)
  with D' step same_shape_trans [OF D1(3) D'(3)] show ?case by auto
qed

section \<open>Properties\<close>

text \<open>
  The version flags of the tables order V8 versions lexicographically: an entry removed
  since version \<open>maj.mnr\<close> is required of exactly the older versions, one added since then of
  exactly the others.
\<close>

theorem version_flags_lexicographic:
  assumes "maj < 16" and "mnr < 512"
  shows "(entry_required D (V8_CONSTANT_REMOVED_SINCE maj mnr) \<longleftrightarrow>
      unat (v8_major D) < unat maj \<or> unat (v8_major D) = unat maj \<and> unat (v8_minor D) < unat mnr) \<and>
    (entry_required D (V8_CONSTANT_ADDED_SINCE maj mnr) \<longleftrightarrow>
      \<not> entry_required D (V8_CONSTANT_REMOVED_SINCE maj mnr))"
proof -
  have rem: "V8_CONSTANT_REMOVED < 16" and add: "V8_CONSTANT_ADDED < 16"
    by (simp_all add: V8_CONSTANT_REMOVED_def V8_CONSTANT_ADDED_def)
  note vf = version_fields [OF rem assms] version_fields [OF add assms]
  have bits: "V8_CONSTANT_REMOVED_SINCE maj mnr AND V8_CONSTANT_OPTIONAL = 0"
    "V8_CONSTANT_REMOVED_SINCE maj mnr AND V8_CONSTANT_REMOVED \<noteq> 0"
    "V8_CONSTANT_REMOVED_SINCE maj mnr AND V8_CONSTANT_ADDED = 0"
    "V8_CONSTANT_ADDED_SINCE maj mnr AND V8_CONSTANT_OPTIONAL = 0"
    "V8_CONSTANT_ADDED_SINCE maj mnr AND V8_CONSTANT_REMOVED = 0"
    "V8_CONSTANT_ADDED_SINCE maj mnr AND V8_CONSTANT_ADDED \<noteq> 0"
    unfolding V8_CONSTANT_REMOVED_SINCE_def V8_CONSTANT_ADDED_SINCE_def
    by (simp_all add: flag_bits V8_CONSTANT_REMOVED_def V8_CONSTANT_ADDED_def V8_CONSTANT_OPTIONAL_def)
  have uc: "unat (ucast w :: uptr) = unat w" for w :: "32 word"
    by (simp add: unsigned_ucast_eq take_bit_nat_eq_self_iff) (use unsigned_less [of w, where ?'a = nat] in simp)
  show ?thesis
    using vf bits
    by (auto simp: entry_required_def v8_version_older_def v8_version_at_least_def
        V8_CONSTANT_REMOVED_SINCE_def V8_CONSTANT_ADDED_SINCE_def word_less_nat_alt word_le_nat_alt
        word_unat_eq_iff uc)
qed

lemma version_flags_lexicographic_witness:
  "entry_required (smi_sample\<lparr>v8_major := 4, v8_minor := 8\<rparr>) (V8_CONSTANT_REMOVED_SINCE 4 9)"
  using version_flags_lexicographic [of 4 9 "smi_sample\<lparr>v8_major := 4, v8_minor := 8\<rparr>"] by simp

text \<open>
  C17. When the symbols could be processed, autoconfiguration gives every constant of the
  table the value of its symbol, or else its fallback where the version of V8 allows it, or
  else \<open>-1\<close>; and it fails when a constant that this version requires has no symbol.
  (The globals adjusted after the tables are left out.)
\<close>

theorem autoconfigure_constants:
  assumes "autoconfigure T cfgp D = Some (rv, D')"
    and "v8cfg_iter T cfgp (autoconf_cb T cfgp) (Some D) = (0, Some D1)"
  shows "(rv = 0 \<longrightarrow> (\<forall>k\<in>set v8_constants. \<not> constant_missing T cfgp D k)) \<and>
    (\<forall>k\<in>set v8_constants. v8c_valp k \<notin> set adjusted_globals \<longrightarrow> \<not> constant_missing T cfgp D k \<longrightarrow>
       gv D' (v8c_valp k) =
         (case v8cfg_readsym T cfgp (v8c_symbol k) of
            Some v \<Rightarrow> v
          | None \<Rightarrow> if fallback_applies D (v8c_flags k) then v8c_fallback k else - 1))"
proof -
  obtain D2 f3 D3 D4 D5 f6 D6 where
    st: "compute_all_offsets (map v8c_addr (v8_classes D1)) D1 = Some D2"
    "fold (load_constant T cfgp) v8_constants (0, D2) = (f3, D3)"
    "load_types D3 = Some D4" "infer_mutable_heap_number D4 = Some D5"
    "fold load_offset v8_offsets (f3 + missing_types D4, D5) = (f6, D6)"
    "D' = fix_bound_function_bit (fix_renamed_offsets (fix_scopeinfo (fix_map_offsets
       (fix_function_offsets (fix_string_offsets D6)))))"
    "rv = 0 \<longleftrightarrow> f6 = 0 \<and> (gv D6 V8_OFF_SEQASCIISTR_CHARS \<noteq> - 1) \<noteq> (gv D6 V8_OFF_SEQONEBYTESTR_CHARS \<noteq> - 1)"
    "rv = 0 \<or> rv = - 1"
    by (rule autoconfigure_stages [OF assms])
  have "same_globals D D1"
    by (rule autoconf_iter_invariant [OF assms(2) [unfolded cfg_iter_cb]])
      (auto intro: same_globals_trans dest: iter_symbol_globals)
  then have ver: "same_version D D2"
    using compute_all_shape [OF st(1)] same_version_trans by (auto simp: same_globals_def)
  have cong: "constant_missing T cfgp D2 = constant_missing T cfgp D"
    "constant_value T cfgp D2 = constant_value T cfgp D"
    using entry_same_version [OF ver]
    by (auto simp: constant_missing_def [abs_def] constant_value_def [abs_def] cong: option.case_cong)
  have cvals: "f3 = length (filter (constant_missing T cfgp D) v8_constants)"
    "\<And>k. k \<in> set v8_constants \<Longrightarrow> \<not> constant_missing T cfgp D k \<Longrightarrow> gv D3 (v8c_valp k) = constant_value T cfgp D k"
    using load_constants [OF st(2) constant_globals_distinct, unfolded cong] by simp_all
  have le: "f3 \<le> f6" using load_offsets [OF st(5)] by auto
  have keep: "gv D' g = gv D3 g"
    if "g \<notin> set adjusted_globals" "g \<notin> set (map v8o_valp v8_offsets)" "g \<notin> set (map snd v8_type_globals)" for g
  proof -
    have "gv D' g = gv D6 g" using fix_frame [OF that(1)] st(6) by simp
    also have "\<dots> = gv D5 g" using load_offsets [OF st(5)] that(2) by auto
    also have "\<dots> = gv D4 g" using infer_frame [OF st(4)] that(3) by (auto simp: v8_type_globals_def)
    also have "\<dots> = gv D3 g" using load_types_frame [OF st(3)] that(3) by (auto simp: type_globals_def)
    finally show ?thesis .
  qed
  have none: "\<forall>k\<in>set v8_constants. \<not> constant_missing T cfgp D k" if "rv = 0"
  proof -
    have "f3 = 0" using that st(7) le by simp
    then have "filter (constant_missing T cfgp D) v8_constants = []" using cvals(1) by simp
    then show ?thesis by (simp only: filter_empty_conv)
  qed
  have val: "gv D' (v8c_valp k) = constant_value T cfgp D k"
    if "k \<in> set v8_constants" "v8c_valp k \<notin> set adjusted_globals" "\<not> constant_missing T cfgp D k" for k
  proof -
    have "v8c_valp k \<notin> set (map v8o_valp v8_offsets)" "v8c_valp k \<notin> set (map snd v8_type_globals)"
      using constant_globals_apart that(1) unfolding list_all_iff by blast+
    then show ?thesis using keep [OF that(2)] cvals(2) [OF that(1,3)] by simp
  qed
  show ?thesis using none val by (auto simp: constant_value_def)
qed

lemma autoconfigure_constants_witness:
  "\<exists>D'. autoconfigure \<lparr>tgt_symbols = [], tgt_readint = (\<lambda>_. None), tgt_has_symbol = (\<lambda>_. False)\<rparr>
       \<lparr>v8cfg_name = None, v8cfg_label = None, v8cfg_symbols = [(''v8dbg_SmiTagMask'', 1)], v8cfg_funcs = V8cfg_canned\<rparr>
       smi_sample = Some (- 1, D') \<and> gv D' V8_SmiTagMask = 1"
  (is "\<exists>D'. autoconfigure ?T ?cfg ?D = _ \<and> _")
proof -
  have it: "v8cfg_iter ?T ?cfg (autoconf_cb ?T ?cfg) (Some ?D) = (0, Some ?D)"
    by (simp add: v8cfg_iter_def autoconf_cb_def autoconf_iter_symbol_def)
  have cls: "v8_classes ?D = []" by (simp add: smi_sample_def)
  obtain rv D' where r: "autoconfigure ?T ?cfg ?D = Some (rv, D')"
    using autoconfigure_returns [OF it cls, of ?D] types_end_empty [of ?D] by (auto simp: cls smi_sample_def)
  let ?k = "\<lparr>v8c_valp = V8_SmiTagMask, v8c_symbol = ''v8dbg_SmiTagMask'', v8c_flags = 0, v8c_fallback = 0\<rparr>"
  let ?s = "\<lparr>v8c_valp = V8_SmiTag, v8c_symbol = ''v8dbg_SmiTag'', v8c_flags = 0, v8c_fallback = 0\<rparr>"
  have k: "?k \<in> set v8_constants" "?s \<in> set v8_constants" by (simp_all add: v8_constants_def)
  note main = autoconfigure_constants [OF r it]
  have "\<not> constant_missing ?T ?cfg ?D ?k" "constant_missing ?T ?cfg ?D ?s" "V8_SmiTagMask \<notin> set adjusted_globals"
    by (simp_all add: constant_missing_def v8cfg_readsym_def entry_required_def adjusted_globals_def)
  note facts = this
  have "rv \<noteq> 0" using main k(2) facts(2) by blast
  moreover have "gv D' (v8c_valp ?k) = (case v8cfg_readsym ?T ?cfg (v8c_symbol ?k) of
            Some v \<Rightarrow> v
          | None \<Rightarrow> if fallback_applies ?D (v8c_flags ?k) then v8c_fallback ?k else - 1)"
    using main [THEN conjunct2, THEN bspec, OF k(1)] facts(1,3)
    by (simp only: v8_constant.select_convs simp_thms)
  then have "gv D' V8_SmiTagMask = 1" by (simp add: v8cfg_readsym_def)
  moreover have "rv = 0 \<or> rv = - 1" by (rule autoconfigure_stages [OF r it])
  ultimately show ?thesis using r by blast
qed

text \<open>
  C40. The two canned configurations cannot succeed for a V8 older than 4.9: they declare no
  field \<open>literals_or_bindings\<close>, which the offsets table requires of those versions.
\<close>

theorem canned_configurations_fail:
  assumes "cfgp \<in> set v8_cfgs"
    and "v8_major D < 4 \<or> v8_major D = 4 \<and> v8_minor D < 9"
  shows "autoconfigure T cfgp D \<noteq> Some (0, D')"
proof
  assume ok: "autoconfigure T cfgp D = Some (0, D')"
  obtain r s where it: "v8cfg_iter T cfgp (autoconf_cb T cfgp) (Some D) = (r, s)" by fastforce
  have "\<exists>D1. r = 0 \<and> s = Some D1" using autoconfigure_iter_failed [OF ok it] by fastforce
  then obtain D1 where s: "r = 0" "s = Some D1" by blast
  let ?Q = "\<lambda>f. f \<noteq> ''literals_or_bindings''"
  have cls: "v8_classes D = []" using ok by (auto simp: autoconfigure_def split: if_splits)
  have names: "\<And>n f. n \<in> set (cfg_names T cfgp) \<Longrightarrow> symbol_field n = Some f \<Longrightarrow> ?Q f"
    using assms(1) canned_fields
    by (auto simp: list_all_iff v8_cfgs_def cfg_names_def v8_cfg_04_def v8_cfg_06_def)
  have iter: "cb_iter (autoconf_cb T cfgp) (cfg_names T cfgp) (Some D) = (0, Some D1)"
    using it s by (simp add: cfg_iter_cb)
  have from1: "fields_from ?Q D1"
  proof (rule autoconf_iter_invariant [OF iter])
    show "fields_from ?Q D" using cls by (simp add: fields_from_def)
  next
    fix n D rv D'
    assume "n \<in> set (cfg_names T cfgp)" "fields_from ?Q D" "autoconf_iter_symbol T cfgp n D = Some (rv, D')"
    then show "fields_from ?Q D'" using fields_from_iter_symbol names by blast
  qed
  have same: "same_globals D D1"
    by (rule autoconf_iter_invariant [OF iter])
      (auto intro: same_globals_trans dest: iter_symbol_globals)
  obtain D2 f3 D3 D4 D5 f6 D6 where
    st: "compute_all_offsets (map v8c_addr (v8_classes D1)) D1 = Some D2"
    "fold (load_constant T cfgp) v8_constants (0, D2) = (f3, D3)"
    "load_types D3 = Some D4" "infer_mutable_heap_number D4 = Some D5"
    "fold load_offset v8_offsets (f3 + missing_types D4, D5) = (f6, D6)"
    "D' = fix_bound_function_bit (fix_renamed_offsets (fix_scopeinfo (fix_map_offsets
       (fix_function_offsets (fix_string_offsets D6)))))"
    "(0::int) = 0 \<longleftrightarrow> f6 = 0 \<and> (gv D6 V8_OFF_SEQASCIISTR_CHARS \<noteq> - 1) \<noteq> (gv D6 V8_OFF_SEQONEBYTESTR_CHARS \<noteq> - 1)"
    "(0::int) = 0 \<or> (0::int) = - 1"
    by (rule autoconfigure_stages [OF ok it [unfolded s]])
  have sh: "same_globals D1 D2" "map v8c_fields (v8_classes D2) = map v8c_fields (v8_classes D1)"
    using compute_all_shape [OF st(1)] by auto
  have c3: "same_version D2 D3" "v8_classes D3 = v8_classes D2"
    using load_constants [OF st(2) constant_globals_distinct] by auto
  have c5: "v8_classes D5 = v8_classes D2" "same_version D3 D5"
    using infer_frame [OF st(4)] load_types_frame [OF st(3)] c3 by (auto intro: same_version_trans)
  have ff: "fields_from ?Q E" if "v8_classes E = v8_classes D5" for E
    using from1 sh(2) c5(1) that by (simp add: fields_from_alt)
  have ver: "same_version D D5"
    using same sh(1) c3(1) c5(2) by (auto simp: same_globals_def intro: same_version_trans)
  let ?off = "\<lparr>v8o_valp = V8_OFF_JSFUNCTION_LITERALS_OR_BINDINGS, v8o_class = ''JSFunction'',
    v8o_member = ''literals_or_bindings'', v8o_optional = 0, v8o_flags = V8_CONSTANT_REMOVED_SINCE 4 9, v8o_fallback = 0\<rparr>"
  have "f3 + missing_types D4 < f6"
  proof (rule load_offsets_missing [OF st(5), of ?off])
    show "?off \<in> set v8_offsets" by (simp add: v8_offsets_def)
    show "entry_required D5 (v8o_flags ?off)"
      using removed_since_4_9 [OF assms(2)] by (simp add: entry_same_version(1) [OF ver])
    show "offset_lookup E ?off = None" if "v8_classes E = v8_classes D5" for E
      using fields_from_offset [OF ff [OF that]] by (simp add: offset_lookup_def)
  qed simp
  with st(7) show False by simp
qed

lemma canned_configurations_fail_witness:
  "\<not> (\<exists>D'. autoconfigure \<lparr>tgt_symbols = [], tgt_readint = (\<lambda>_. None), tgt_has_symbol = (\<lambda>_. False)\<rparr>
     v8_cfg_06 (smi_sample\<lparr>v8_major := 3, v8_minor := 6\<rparr>) = Some (0, D'))"
proof -
  have "v8_cfg_06 \<in> set v8_cfgs" by (simp add: v8_cfgs_def)
  from canned_configurations_fail [OF this] show ?thesis by simp
qed

text \<open>
  C19. When no class is its own ancestor and no field ends at the address \<open>-1\<close>, computing the
  extents of all classes returns, and every class then begins where its parent ends (at 0
  without a parent) and ends behind its last field (where it begins, without fields).
\<close>

theorem class_extents_complete:
  assumes "parents_ranked D rank" and "fields_end_ok D" and "extents_ok D"
  shows "\<exists>D'. compute_all_offsets (map v8c_addr (v8_classes D)) D = Some D' \<and>
    (\<forall>a c. class_at D' a = Some c \<longrightarrow>
       v8c_end c = (if v8c_fields c = [] then v8c_start c
                    else v8f_offset (last (v8c_fields c)) + of_nat PTRSZ) \<and>
       (case v8c_parent c of
          None \<Rightarrow> v8c_start c = 0
        | Some p \<Rightarrow> \<exists>pc. class_at D' p = Some pc \<and> v8c_start c = v8c_end pc))"
proof -
  have "\<forall>a\<in>set (map v8c_addr (v8_classes D)). class_at D a \<noteq> None"
    by (auto simp: class_at_def find_None_iff)
  from compute_all_offsets_ok [OF assms(3,1,2) this] obtain D' where
    D': "compute_all_offsets (map v8c_addr (v8_classes D)) D = Some D'" "extents_ok D'" "same_shape D D'"
    "\<forall>a\<in>set (map v8c_addr (v8_classes D)). \<exists>c. class_at D' a = Some c \<and> v8c_end c \<noteq> - 1" by blast
  have "extent_ok D' c \<and> v8c_end c \<noteq> - 1" if c: "class_at D' a = Some c" for a c
  proof -
    from same_shapeD2 [OF D'(3) c] obtain b where "class_at D a = Some b" .
    then have "a \<in> set (map v8c_addr (v8_classes D))" by (auto simp: class_at_def find_Some_iff)
    with D'(2,4) c show ?thesis by (auto simp: extents_ok_def)
  qed
  with D'(1) show ?thesis by (fastforce simp: extent_ok_def class_end_def split: option.splits)
qed

lemma class_extents_complete_witness:
  "\<exists>D'. compute_all_offsets [0] conf_sample = Some D' \<and>
    (\<forall>a c. class_at D' a = Some c \<longrightarrow> v8c_parent c = None \<longrightarrow> v8c_start c = 0)"
proof -
  have at: "class_at conf_sample a = (if a = 0 then Some \<lparr>v8c_addr = 0, v8c_name = ''Code'',
      v8c_parent = None, v8c_fields = [], v8c_start = 0, v8c_end = - 1\<rparr> else None)" for a
    by (simp add: class_at_def conf_sample_def)
  have addrs: "map v8c_addr (v8_classes conf_sample) = [0]" by (simp add: conf_sample_def)
  have "parents_ranked conf_sample id" "fields_end_ok conf_sample" "extents_ok conf_sample"
    by (auto simp: parents_ranked_def fields_end_ok_def extents_ok_def extent_ok_def at split: if_splits)
  from class_extents_complete [OF this, unfolded addrs] show ?thesis
    by (fastforce split: option.splits)
qed

end
