(* ===== verification/JsStr.thy ===== *)
theory JsStr
  imports StringWrite
begin

text \<open>
  The legacy string printer and the classification of values that rests on it
  (\<^verbatim>\<open>src/src/mdb_v8.c\<close>): \<open>jsstr_print\<close> lends the caller's buffer to the string
  writer; an oddball (\<open>undefined\<close>, the hole) is recognised by the text it prints.
\<close>

section \<open>Definitions\<close>

text \<open>
  The buffer the caller passes is taken over as it is; its bytes behind the text are not
  looked at, so they are written as NUL here. \<open>legacy_lbuf\<close> is what
  \<open>mdbv8_strbuf_legacy_update\<close> leaves in \<open>*bufp\<close> and \<open>*lenp\<close>.
\<close>

definition legacy_init :: "lbuf \<Rightarrow> mdbv8_strbuf option" where
  "legacy_init b = mdbv8_strbuf_init (replicate (lb_len b) NUL) (of_nat (lb_len b))"

definition legacy_lbuf :: "lbuf \<Rightarrow> mdbv8_strbuf \<Rightarrow> lbuf" where
  "legacy_lbuf b strb =
     (case mdbv8_strbuf_legacy_update strb of (curbuf, curbufsz) \<Rightarrow>
        b\<lparr>lb_text := lb_text b @ take curbuf (ms_buf strb), lb_len := unat curbufsz\<rparr>)"

text \<open>The result, the caller's buffer, and what was printed on the way.\<close>

definition jsstr_print ::
    "v8dbg \<Rightarrow> uptr \<Rightarrow> 32 word \<Rightarrow> lbuf \<Rightarrow> (int \<times> lbuf \<times> string list) option" where
  "jsstr_print D addr flags b = do {
     strbuf \<leftarrow> legacy_init b;
     case v8string_load D addr {UM_SLEEP} of
       None \<Rightarrow> do {
         strbuf \<leftarrow> mdbv8_strbuf_appends strbuf ''<string (failed to load string)>'' flags;
         Some (- 1, legacy_lbuf b strbuf, [])
       }
     | Some strp \<Rightarrow> do {
         (rv, strbuf, out) \<leftarrow> v8string_write D strp strbuf MSF_ASCIIONLY flags;
         Some (rv, legacy_lbuf b strbuf, out)
       }
   }"

text \<open>The local buffer \<open>buf\<close> as the C string it holds.\<close>

definition lbuf_cstr :: "lbuf \<Rightarrow> string" where
  "lbuf_cstr b = takeWhile (\<lambda>c. c \<noteq> NUL) (lb_text b)"

definition jsobj_is_oddball :: "v8dbg \<Rightarrow> uptr \<Rightarrow> string \<Rightarrow> bool option" where
  "jsobj_is_oddball D addr oddball =
     (case read_typebyte D addr of
        None \<Rightarrow> Some False
      | Some type \<Rightarrow>
          (case enum_lookup_str NTYPES (v8_types D) (ucast type) (Some ''<unknown>'') of
             None \<Rightarrow> None
           | Some typename \<Rightarrow>
               if typename \<noteq> Some ''Oddball'' then Some False
               else (case read_heap_ptr D addr (gv D V8_OFF_ODDBALL_TO_STRING) of
                  None \<Rightarrow> Some False
                | Some strptr \<Rightarrow> do {
                    (rv, b, _) \<leftarrow> jsstr_print D strptr JSSTR_NUDE \<lparr>lb_text = [], lb_len = 16\<rparr>;
                    Some (rv = 0 \<and> strcmp (lbuf_cstr b) oddball = 0)
                  })))"

definition jsobj_is_undefined :: "v8dbg \<Rightarrow> uptr \<Rightarrow> bool option" where
  "jsobj_is_undefined D addr = jsobj_is_oddball D addr ''undefined''"

definition jsobj_is_hole :: "v8dbg \<Rightarrow> uptr \<Rightarrow> bool option" where
  "jsobj_is_hole D addr = jsobj_is_oddball D addr ''hole''"

definition jsobj_maybe_garbage :: "v8dbg \<Rightarrow> uptr \<Rightarrow> bool" where
  "jsobj_maybe_garbage D addr \<longleftrightarrow>
     \<not> V8_IS_SMI D addr \<and>
     (case read_typebyte D addr of
        None \<Rightarrow> True
      | Some type \<Rightarrow>
          \<not> V8_TYPE_STRING D type \<and>
          \<not> is_type D type V8_TYPE_ACCESSORINFO \<and>
          \<not> is_type D type V8_TYPE_ACCESSORPAIR \<and>
          \<not> is_type D type V8_TYPE_EXECUTABLEACCESSORINFO \<and>
          \<not> is_type D type V8_TYPE_HEAPNUMBER \<and>
          \<not> is_type D type V8_TYPE_MUTABLEHEAPNUMBER \<and>
          \<not> is_type D type V8_TYPE_ODDBALL \<and>
          \<not> is_type D type V8_TYPE_JSOBJECT \<and>
          \<not> is_type D type V8_TYPE_JSARRAY \<and>
          \<not> is_type D type V8_TYPE_JSFUNCTION \<and>
          (gv D V8_TYPE_JSBOUNDFUNCTION = - 1 \<or> \<not> is_type D type V8_TYPE_JSBOUNDFUNCTION) \<and>
          \<not> is_type D type V8_TYPE_JSDATE \<and>
          \<not> is_type D type V8_TYPE_JSREGEXP \<and>
          \<not> is_type D type V8_TYPE_JSTYPEDARRAY)"

section \<open>Lemmas: lending a buffer\<close>

text \<open>A usable caller's buffer, and how a call may change it.\<close>

definition lbuf_ok :: "lbuf \<Rightarrow> bool" where
  "lbuf_ok b \<longleftrightarrow> 0 < lb_len b \<and> lb_len b < 2 ^ 64"

definition lbuf_grown :: "lbuf \<Rightarrow> lbuf \<Rightarrow> bool" where
  "lbuf_grown b b' \<longleftrightarrow> 0 < lb_len b' \<and>
     (\<exists>y. lb_text b' = lb_text b @ y \<and> length y + lb_len b' = lb_len b)"

lemma lbuf_grown_ok: "lbuf_grown b b' \<Longrightarrow> lbuf_ok b \<Longrightarrow> lbuf_ok b'"
  by (auto simp: lbuf_grown_def lbuf_ok_def)

lemma lbuf_grown_trans [trans]: "lbuf_grown a b \<Longrightarrow> lbuf_grown b c \<Longrightarrow> lbuf_grown a c"
  by (auto simp: lbuf_grown_def)

lemma lbuf_grown_refl: "lbuf_ok b \<Longrightarrow> lbuf_grown b b"
  by (simp add: lbuf_grown_def lbuf_ok_def)

lemma legacy_init_ok:
  assumes "lbuf_ok b"
  shows "\<exists>strb. legacy_init b = Some strb \<and> strbuf_wf strb \<and> strbuf_text strb = [] \<and>
    ms_bufsz strb = of_nat (lb_len b) \<and> ms_reservesz strb = 0"
proof -
  let ?b = "\<lparr>ms_buf = replicate (lb_len b) NUL, ms_bufsz = of_nat (lb_len b), ms_curbuf = 0,
     ms_curbufsz = 0, ms_reservesz = 0, ms_flags = MSB_NOALLOC, ms_memflags = {}\<rparr>"
  have n: "unat (of_nat (lb_len b) :: uptr) = lb_len b"
    using assms by (simp add: lbuf_ok_def unat_of_nat_lt)
  then have "ms_bufsz ?b \<noteq> 0" using assms by (auto simp: lbuf_ok_def)
  moreover have "length (ms_buf ?b) = unat (ms_bufsz ?b)" using n by simp
  ultimately show ?thesis
    using rewind_wf [of ?b] by (auto simp: legacy_init_def mdbv8_strbuf_init_def)
qed

lemma legacy_init_empty: "lb_len b = 0 \<Longrightarrow> legacy_init b = None"
  by (simp add: legacy_init_def mdbv8_strbuf_init_def mdbv8_strbuf_rewind_def)

lemma legacy_lbuf_grown:
  assumes "lbuf_ok b" and "strbuf_wf strb" and "ms_bufsz strb = of_nat (lb_len b)"
  shows "lbuf_grown b (legacy_lbuf b strb) \<and> lb_text (legacy_lbuf b strb) = lb_text b @ strbuf_text strb"
proof -
  have n: "unat (ms_bufsz strb) = lb_len b"
    using assms(1,3) by (simp add: lbuf_ok_def unat_of_nat_lt)
  with assms(2) show ?thesis
    by (auto simp: lbuf_grown_def legacy_lbuf_def mdbv8_strbuf_legacy_update_def strbuf_wf_def strbuf_text_def)
qed

text \<open>A function that writes into the borrowed buffer returns it grown.\<close>

lemma strbuf_grown_legacy:
  assumes "lbuf_ok b" and "legacy_init b = Some strb" and "strbuf_grown strb strb'"
  shows "lbuf_grown b (legacy_lbuf b strb')"
  using legacy_init_ok [OF assms(1)] assms legacy_lbuf_grown [OF assms(1), of strb']
  by (auto simp: strbuf_grown_def)

lemma appends_grown:
  assumes "strbuf_wf b" shows "\<exists>b'. mdbv8_strbuf_appends b s flags = Some b' \<and> strbuf_grown b b'"
proof -
  obtain b' where b': "mdbv8_strbuf_appends b s flags = Some b'" "strbuf_wf b'"
    "strbuf_text b' = strbuf_text b @ take (strbuf_left b) (escaped_string s flags)"
    using appends_spec [OF assms, of s flags] by blast
  with appends_bufsz [OF assms b'(1)] show ?thesis by (auto simp: strbuf_grown_def)
qed

section \<open>Lemmas: printing\<close>

text \<open>What the printer needs of the target: the reads of the debugger, and V8's tags.\<close>

definition target_ok :: "v8dbg \<Rightarrow> bool" where
  "target_ok D \<longleftrightarrow> vread_laws D \<and> v8_tags_amd64 D \<and> strrep_tags_distinct D"

lemma target_okD:
  assumes "target_ok D" shows "vread_laws D" "v8_tags_amd64 D" "strrep_tags_distinct D"
  using assms by (auto simp: target_ok_def)

lemma sample_target_ok [simp]: "target_ok (sample_dbg ws)"
  by (simp add: target_ok_def strrep_tags_distinct_def sample_values_def)

lemma jsstr_print_grown:
  assumes "target_ok D" and "lbuf_ok b"
  shows "\<exists>rv b' out. jsstr_print D addr flags b = Some (rv, b', out) \<and> rv \<in> {0, - 1} \<and> lbuf_grown b b'"
proof -
  obtain strb where init: "legacy_init b = Some strb" and wf: "strbuf_wf strb"
    using legacy_init_ok [OF assms(2)] by blast
  show ?thesis
  proof (cases "v8string_load D addr {UM_SLEEP}")
    case None
    obtain strb' where "mdbv8_strbuf_appends strb ''<string (failed to load string)>'' flags = Some strb'"
      "strbuf_grown strb strb'" using appends_grown [OF wf] by blast
    with None init strbuf_grown_legacy [OF assms(2) init] show ?thesis
      by (auto simp: jsstr_print_def simp del: mdbv8_strbuf_appends.simps)
  next
    case (Some strp)
    obtain rv strb' out where "v8string_write D strp strb MSF_ASCIIONLY flags = Some (rv, strb', out)"
      "rv \<in> {0, - 1}" "strbuf_grown strb strb'"
      using write_always_total [OF target_okD [OF assms(1)] v8string_load_ok [OF target_okD(2) [OF assms(1)] Some] wf]
      unfolding write_total_def by blast
    with Some init strbuf_grown_legacy [OF assms(2) init] show ?thesis
      by (auto simp: jsstr_print_def simp del: mdbv8_strbuf_appends.simps)
  qed
qed

lemma jsobj_is_oddball_total:
  assumes "target_ok D" "types_end D" shows "\<exists>r. jsobj_is_oddball D addr name = Some r"
proof -
  have look: "enum_lookup_str NTYPES (v8_types D) val dflt \<noteq> None" for val dflt
    using type_lookup_ends [OF assms(2)] by blast
  have "lbuf_ok \<lparr>lb_text = [], lb_len = 16\<rparr>" by (simp add: lbuf_ok_def)
  from jsstr_print_grown [OF assms(1) this]
  have "jsstr_print D strptr JSSTR_NUDE \<lparr>lb_text = [], lb_len = 16\<rparr> \<noteq> None" for strptr by blast
  with look have "jsobj_is_oddball D addr name \<noteq> None"
    by (auto simp: jsobj_is_oddball_def simp del: not_None_eq split: option.split Option.bind_splits prod.split)
  then show ?thesis by blast
qed

lemma jsobj_is_undefined_total: "target_ok D \<Longrightarrow> types_end D \<Longrightarrow> \<exists>r. jsobj_is_undefined D addr = Some r"
  by (simp add: jsobj_is_undefined_def jsobj_is_oddball_total)

lemma jsobj_is_hole_total: "target_ok D \<Longrightarrow> types_end D \<Longrightarrow> \<exists>r. jsobj_is_hole D addr = Some r"
  by (simp add: jsobj_is_hole_def jsobj_is_oddball_total)

section \<open>Properties\<close>

text \<open>
  C39. Printing any value as a string into a buffer with room for a terminator returns: the
  text is appended to the buffer, and the room left is smaller by exactly its length and
  still holds the terminator, whatever the heap holds at the address.
\<close>

theorem jsstr_print_safe:
  assumes "vread_laws D" and "v8_tags_amd64 D" and "strrep_tags_distinct D"
    and "0 < lb_len b" and "lb_len b < 2 ^ 64"
  shows "\<exists>rv b' out y. jsstr_print D addr flags b = Some (rv, b', out) \<and> rv \<in> {0, - 1} \<and>
    lb_text b' = lb_text b @ y \<and> length y + lb_len b' = lb_len b \<and> 0 < lb_len b'"
  using jsstr_print_grown [of D b addr flags] assms
  by (fastforce simp: lbuf_grown_def lbuf_ok_def target_ok_def)

lemma jsstr_print_safe_witness:
  "\<exists>rv b' out. jsstr_print (sample_dbg cyclic_cons) 4097 JSSTR_QUOTED \<lparr>lb_text = ''x'', lb_len = 16\<rparr> =
     Some (rv, b', out) \<and> length (lb_text b') + lb_len b' = 17"
proof -
  have "strrep_tags_distinct (sample_dbg cyclic_cons)"
    by (simp add: strrep_tags_distinct_def sample_values_def)
  from jsstr_print_safe [OF sample_laws sample_tags this,
      of "\<lparr>lb_text = ''x'', lb_len = 16\<rparr>" 4097 JSSTR_QUOTED] show ?thesis by auto
qed

end
