(* ===== verification/JsFunction.thy ===== *)
theory JsFunction
  imports JsStr FixedArray
begin

text \<open>
  JavaScript functions (\<^verbatim>\<open>src/src/mdb_v8_function.c\<close>, first half): JSFunction,
  SharedFunctionInfo and Code objects, and the place in the script a function is defined
  at, found by binary search in the script's table of line endings. The same search is in
  \<open>jsfunc_lineno\<close> of \<^verbatim>\<open>src/src/mdb_v8.c\<close>, the legacy form of the lookup, which is
  modelled here too.
\<close>

section \<open>Functions\<close>

record v8function =
  v8func_addr :: uptr
  v8func_memflags :: memflags
  v8func_shared :: uptr

definition v8function_load :: "v8dbg \<Rightarrow> uptr \<Rightarrow> memflags \<Rightarrow> v8function option" where
  "v8function_load D addr memflags =
     (if \<not> V8_IS_HEAPOBJECT D addr then None
      else do {
        type \<leftarrow> read_typebyte D addr;
        if \<not> is_type D type V8_TYPE_JSFUNCTION then None
        else do {
          shared \<leftarrow> read_heap_ptr D addr (gv D V8_OFF_JSFUNCTION_SHARED);
          if \<not> zalloc_ok D 24 memflags then None
          else Some \<lparr>v8func_addr = addr, v8func_memflags = memflags, v8func_shared = shared\<rparr>
        }
      })"

definition v8function_free :: "v8function option \<Rightarrow> bool" where
  "v8function_free funcp =
     (case funcp of None \<Rightarrow> False | Some f \<Rightarrow> maybefree (v8func_memflags f))"

section \<open>SharedFunctionInfo\<close>

record v8funcinfo =
  v8fi_addr :: uptr
  v8fi_memflags :: memflags
  v8fi_script :: uptr
  v8fi_funcname :: uptr
  v8fi_inferred_name :: uptr
  v8fi_scriptpath :: uptr
  v8fi_tokenpos :: uptr
  v8fi_line_endings :: uptr
  v8fi_code :: uptr

text \<open>
  What is read before the allocation. An inferred name that cannot be read is \<open>NULL\<close>.
\<close>

definition funcinfo_read ::
    "v8dbg \<Rightarrow> uptr \<Rightarrow> memflags \<Rightarrow> v8funcinfo option" where
  "funcinfo_read D funcinfo memflags = do {
     tokenpos \<leftarrow> read_heap_maybesmi D funcinfo (gv D V8_OFF_SHAREDFUNCTIONINFO_FUNCTION_TOKEN_POSITION);
     name \<leftarrow> read_heap_ptr D funcinfo (gv D V8_OFF_SHAREDFUNCTIONINFO_NAME);
     script \<leftarrow> read_heap_ptr D funcinfo (gv D V8_OFF_SHAREDFUNCTIONINFO_SCRIPT);
     scriptpath \<leftarrow> read_heap_ptr D script (gv D V8_OFF_SCRIPT_NAME);
     lineends \<leftarrow> read_heap_ptr D script (gv D V8_OFF_SCRIPT_LINE_ENDS);
     code \<leftarrow> read_heap_ptr D funcinfo (gv D V8_OFF_SHAREDFUNCTIONINFO_CODE);
     let inferred_name =
       (case read_heap_ptr D funcinfo (gv D V8_OFF_SHAREDFUNCTIONINFO_IDENTIFIER) of
          None \<Rightarrow> 0 | Some v \<Rightarrow> v);
     Some \<lparr>v8fi_addr = funcinfo, v8fi_memflags = memflags, v8fi_script = script,
           v8fi_funcname = name, v8fi_inferred_name = inferred_name,
           v8fi_scriptpath = scriptpath, v8fi_tokenpos = tokenpos,
           v8fi_line_endings = lineends, v8fi_code = code\<rparr>
   }"

definition v8funcinfo_load :: "v8dbg \<Rightarrow> uptr \<Rightarrow> memflags \<Rightarrow> v8funcinfo option option" where
  "v8funcinfo_load D funcinfo memflags =
     (case funcinfo_read D funcinfo memflags of
        None \<Rightarrow> Some None
      | Some fip \<Rightarrow>
          if \<not> zalloc_ok D 72 memflags then Some None
          else do {
            undef \<leftarrow> jsobj_is_undefined D (v8fi_line_endings fip);
            Some (Some (if undef then fip\<lparr>v8fi_line_endings := 0\<rparr> else fip))
          })"

definition v8funcinfo_free :: "v8funcinfo option \<Rightarrow> bool" where
  "v8funcinfo_free fip = (case fip of None \<Rightarrow> False | Some f \<Rightarrow> maybefree (v8fi_memflags f))"

definition v8function_funcinfo :: "v8dbg \<Rightarrow> v8function \<Rightarrow> memflags \<Rightarrow> v8funcinfo option option" where
  "v8function_funcinfo D funcp memflags = v8funcinfo_load D (v8func_shared funcp) memflags"

definition v8funcinfo_funcname :: "v8dbg \<Rightarrow> v8funcinfo \<Rightarrow> mdbv8_strbuf \<Rightarrow> 32 word \<Rightarrow> write_result" where
  "v8funcinfo_funcname D fip strb flags =
     (let inferred = (\<lambda>strb.
        if v8fi_inferred_name fip = 0 then Some (0, strb, [])
        else (case v8string_load D (v8fi_inferred_name fip) {UM_SLEEP} of
           None \<Rightarrow> Some (0, strb, [])
         | Some strp \<Rightarrow> do {
             strb \<leftarrow> mdbv8_strbuf_sprintf strb '' (as '';
             (rv, strb, out) \<leftarrow>
               (if v8string_length strp = 0
                then map_option (\<lambda>b. (0, b, [])) (mdbv8_strbuf_sprintf strb ''<anon>'')
                else v8string_write D strp strb flags JSSTR_NUDE);
             strb \<leftarrow> mdbv8_strbuf_sprintf strb '')'';
             Some (rv, strb, out)
           }))
      in (case v8string_load D (v8fi_funcname fip) {UM_SLEEP} of
            None \<Rightarrow> do { strb \<leftarrow> mdbv8_strbuf_sprintf strb ''<unknown>''; inferred strb }
          | Some strp \<Rightarrow>
              if v8string_length strp = 0
              then do { strb \<leftarrow> mdbv8_strbuf_sprintf strb ''<anonymous>''; inferred strb }
              else v8string_write D strp strb flags JSSTR_NUDE))"

definition v8funcinfo_scriptpath :: "v8dbg \<Rightarrow> v8funcinfo \<Rightarrow> mdbv8_strbuf \<Rightarrow> 32 word \<Rightarrow> write_result" where
  "v8funcinfo_scriptpath D fip strb flags =
     (case v8string_load D (v8fi_scriptpath fip) {UM_SLEEP} of
        None \<Rightarrow> Some (- 1, strb, [])
      | Some strp \<Rightarrow> v8string_write D strp strb flags JSSTR_NUDE)"

section \<open>The line of a position\<close>

text \<open>
  The \<open>while\<close> loop of the binary search over the table of line endings, with its three
  variables. \<open>None\<close>: an access outside the table, or a loop that does not end.
\<close>

partial_function (option) line_search :: "uptr list \<Rightarrow> uptr \<Rightarrow> uptr \<Rightarrow> uptr \<Rightarrow> uptr \<Rightarrow> uptr option" where
  "line_search data tokpos lower upper i =
     (if upper < 1 then Some i
      else let i = drop_bit 1 (lower + upper) in
        if length data \<le> unat i then None
        else if data ! unat i < tokpos then line_search data tokpos (i + 1) upper i
        else if i = 0 then None
        else if tokpos \<le> data ! unat (i - 1) then line_search data tokpos lower (i - 1) i
        else Some i)"

definition v8funcinfo_definition_location ::
    "v8dbg \<Rightarrow> v8funcinfo \<Rightarrow> mdbv8_strbuf \<Rightarrow> 32 word \<Rightarrow> (int \<times> mdbv8_strbuf) option" where
  "v8funcinfo_definition_location D fip strb flags =
     (let tokpos = V8_VALUE_SMI D (v8fi_tokenpos fip);
          print = (\<lambda>s. map_option (Pair 0) (mdbv8_strbuf_sprintf strb s))
      in if v8fi_line_endings fip = 0 then
           if tokpos = V8_VALUE_SMI D (- 1) then print ''unknown position''
           else print (''position '' @ fmt_d (v8fi_tokenpos fip))
         else (case v8fixedarray_load D (v8fi_line_endings fip) {} of
           None \<Rightarrow> Some (- 1, strb)
         | Some arrayp \<Rightarrow>
             if v8fixedarray_length arrayp = 0 then print ''position out of range''
             else (case v8fixedarray_as_array D arrayp {} of
               None \<Rightarrow> Some (- 1, strb)
             | Some data \<Rightarrow>
                 let upper = v8fixedarray_length arrayp - 1 in
                 if data ! unat upper < tokpos then print ''position out of range''
                 else if tokpos \<le> data ! 0 then print ''line 1''
                 else do {
                   i \<leftarrow> line_search data tokpos 0 upper 0;
                   print (''line '' @ fmt_d (i + 1))
                 })))"

text \<open>
  \<open>jsfunc_lineno\<close> (\<^verbatim>\<open>src/src/mdb_v8.c\<close>) takes the position still encoded. It returns
  the result, the text put into the caller's buffer, and the line number (0 when the
  position has no line, \<open>-1\<close> on failure).
\<close>

definition jsfunc_lineno ::
    "v8dbg \<Rightarrow> uptr \<Rightarrow> uptr \<Rightarrow> nat \<Rightarrow> (int \<times> string option \<times> int) option" where
  "jsfunc_lineno D lendsp tokpos buflen = do {
     undef \<leftarrow> jsobj_is_undefined D lendsp;
     let print = (\<lambda>s n. Some (0, Some (strlcpy buflen s), n));
     if undef then
       print (if tokpos = V8_VALUE_SMI D (- 1) then ''unknown position''
              else ''position '' @ fmt_d (V8_SMI_VALUE D tokpos)) 0
     else (case read_heap_smi D lendsp (gv D V8_OFF_FIXEDARRAY_LENGTH) of
       None \<Rightarrow> Some (- 1, None, - 1)
     | Some nelts \<Rightarrow>
         let bufsz = unat (nelts * of_nat PTRSZ) in
         if \<not> zalloc_ok D bufsz {} then Some (- 1, None, - 1)
         else (case mem_vread D (lendsp + gv D V8_OFF_FIXEDARRAY_DATA) bufsz of
           None \<Rightarrow> Some (- 1, None, - 1)
         | Some bs \<Rightarrow>
             let data = le_words (unat nelts) bs; upper = nelts - 1 in
             if length data \<le> unat upper then None
             else if data ! unat upper < tokpos then print ''position out of range'' 0
             else if tokpos \<le> data ! 0 then print ''line 1'' 1
             else do {
               ii \<leftarrow> line_search data tokpos 0 upper 0;
               print (''line '' @ fmt_d (ii + 1)) (sint (ucast (ii + 1) :: 32 word))
             }))
   }"

text \<open>
  \<open>jsfunc_name\<close> (\<^verbatim>\<open>src/src/mdb_v8.c\<close>): the name of a function through the legacy
  buffer.
\<close>

definition jsfunc_name :: "v8dbg \<Rightarrow> uptr \<Rightarrow> lbuf \<Rightarrow> (int \<times> lbuf \<times> string list) option" where
  "jsfunc_name D funcinfop b = do {
     strbuf \<leftarrow> legacy_init b;
     fip \<leftarrow> v8funcinfo_load D funcinfop {UM_SLEEP};
     case fip of
       None \<Rightarrow> Some (- 1, b, [])
     | Some fip \<Rightarrow> do {
         (rv, strbuf, out) \<leftarrow> v8funcinfo_funcname D fip strbuf MSF_ASCIIONLY;
         Some (rv, legacy_lbuf b strbuf, out)
       }
   }"

section \<open>Code\<close>

record v8code =
  v8code_addr :: uptr
  v8code_memflags :: memflags
  v8code_instr_start :: uptr
  v8code_instr_size :: uptr

definition v8code_load :: "v8dbg \<Rightarrow> uptr \<Rightarrow> memflags \<Rightarrow> v8code option" where
  "v8code_load D code memflags = do {
     sz \<leftarrow> read_heap_ptr D code (gv D V8_OFF_CODE_INSTRUCTION_SIZE);
     if \<not> zalloc_ok D 32 memflags then None
     else Some \<lparr>v8code_addr = code, v8code_memflags = memflags,
                v8code_instr_start = code + gv D V8_OFF_CODE_INSTRUCTION_START,
                v8code_instr_size = sz\<rparr>
   }"

definition v8code_free :: "v8code option \<Rightarrow> bool" where
  "v8code_free codep = (case codep of None \<Rightarrow> False | Some c \<Rightarrow> maybefree (v8code_memflags c))"

text \<open>The selectors \<open>v8code_addr\<close> etc. of the record are the accessors of the code.\<close>

definition v8code_instructions_start :: "v8code \<Rightarrow> uptr" where
  "v8code_instructions_start codep = v8code_instr_start codep"

definition v8code_instructions_size :: "v8code \<Rightarrow> uptr" where
  "v8code_instructions_size codep = v8code_instr_size codep"

definition v8funcinfo_code :: "v8dbg \<Rightarrow> v8funcinfo \<Rightarrow> memflags \<Rightarrow> v8code option" where
  "v8funcinfo_code D fip memflags = v8code_load D (v8fi_code fip) memflags"

section \<open>Lemmas: the search\<close>

lemma half_of_nat:
  assumes "n < 2 ^ 64" shows "drop_bit 1 (of_nat n :: uptr) = of_nat (n div 2)"
proof -
  have "unat (drop_bit 1 (of_nat n :: uptr)) = n div 2"
    using assms by (simp add: drop_bit_eq_div unat_div unat_of_nat_lt)
  then show ?thesis using assms by (simp add: word_unat_eq_iff unat_of_nat_lt)
qed

text \<open>
  The invariant of the loop: everything left of \<open>lower\<close> ends before the position in the
  sense that its neighbour does, and the entry at \<open>upper\<close> does not. It needs no order of
  the table: the search always ends at a boundary.
\<close>

lemma line_search_step:
  assumes "m = (l + u) div 2" "m < length data" "length data < 2 ^ 62" "0 < u" "l + u < 2 ^ 63"
  shows "line_search data tok (of_nat l) (of_nat u) i0 =
      (if data ! m < tok then line_search data tok (of_nat (m + 1)) (of_nat u) (of_nat m)
       else if m = 0 then None
       else if tok \<le> data ! (m - 1) then line_search data tok (of_nat l) (of_nat (m - 1)) (of_nat m)
       else Some (of_nat m))"
proof -
  have n: "unat (of_nat k :: uptr) = k" if "k < 2 ^ 63" for k
    using that by (simp add: unat_of_nat_lt)
  have nu: "\<not> (of_nat u :: uptr) < 1" using n [of u] assms(4,5) by (simp add: uptr_less_unat)
  have mid: "drop_bit 1 (of_nat l + of_nat u :: uptr) = of_nat m"
    using half_of_nat [of "l + u"] assms(1,5) by simp
  have m: "unat (of_nat m :: uptr) = m" using n assms(2,3) by simp
  then have zero: "(of_nat m :: uptr) = 0 \<longleftrightarrow> m = 0" by (simp add: word_unat_eq_iff)
  have suc: "(of_nat m :: uptr) + 1 = of_nat (m + 1)" by simp
  have m1: "(of_nat m :: uptr) - 1 = of_nat (m - 1)" "unat (of_nat (m - 1) :: uptr) = m - 1" if "m \<noteq> 0"
    using that n [of "m - 1"] assms(2,3) by auto
  show ?thesis
    unfolding line_search.simps [of data tok "of_nat l" "of_nat u" i0] Let_def mid m suc zero
    using nu assms(2) m1 by (cases "m = 0") simp_all
qed

lemma line_search_nat:
  assumes "l \<le> u" "u < length data" "length data < 2 ^ 62"
    and "data ! 0 < tok" "tok \<le> data ! u" "0 < l \<Longrightarrow> data ! (l - 1) < tok"
  shows "\<exists>i. line_search data tok (of_nat l) (of_nat u) i0 = Some (of_nat i) \<and>
    0 < i \<and> i < length data \<and> data ! (i - 1) < tok \<and> tok \<le> data ! i"
  using assms
proof (induction "u - l" arbitrary: l u i0 rule: less_induct)
  case less
  define m where "m = (l + u) div 2"
  have u: "0 < u" using less.prems(4,5) by (cases u) auto
  have m: "m \<le> u" "l \<le> m" "m < length data" using less.prems(1,2) by (auto simp: m_def)
  have "l + u < 2 ^ 63" using less.prems(1-3) by simp
  note step = line_search_step [OF m_def m(3) less.prems(3) u this, of tok i0]
  consider (right) "data ! m < tok" | (left) "tok \<le> data ! m" "tok \<le> data ! (m - 1)" "m \<noteq> 0"
    | (found) "tok \<le> data ! m" "data ! (m - 1) < tok" "m \<noteq> 0"
    using less.prems(4) by (metis not_le)
  then show ?case
  proof cases
    case right
    then have "m \<noteq> u" using less.prems(5) by auto
    then have "u - (m + 1) < u - l" "m + 1 \<le> u" using m by auto
    from less.hyps [OF this less.prems(2-5), of "of_nat m"] right show ?thesis using step by simp
  next
    case left
    have "m \<noteq> l" using left less.prems(6) by auto
    then have "m - 1 - l < u - l" "l \<le> m - 1" "m - 1 < length data" using left(3) m by auto
    from less.hyps [OF this less.prems(3,4) left(2) less.prems(6), of "of_nat m"] obtain i where
      i: "line_search data tok (of_nat l) (of_nat (m - 1)) (of_nat m) = Some (of_nat i)"
      "0 < i \<and> i < length data \<and> data ! (i - 1) < tok \<and> tok \<le> data ! i" by blast
    have "\<not> data ! m < tok" using left(1) by simp
    with step left i(1) have "line_search data tok (of_nat l) (of_nat u) i0 = Some (of_nat i)" by simp
    with i(2) show ?thesis by blast
  next
    case found
    then show ?thesis using step m(3) by (auto intro!: exI [of _ m])
  qed
qed

lemma sorted_boundary:
  assumes "sorted data" "i < length data" "0 < i \<Longrightarrow> data ! (i - 1) < tok" "tok \<le> data ! i"
  shows "length (filter (\<lambda>e. e < tok) data) = i"
proof -
  have "\<forall>e\<in>set (take i data). e < tok"
  proof
    fix e assume "e \<in> set (take i data)"
    then obtain k where k: "k < i" "e = data ! k" using assms(2) by (auto simp: in_set_conv_nth)
    then have "e \<le> data ! (i - 1)" using assms(1,2) by (auto intro: sorted_nth_mono)
    with k(1) assms(3) show "e < tok" by (auto intro: order_le_less_trans)
  qed
  moreover have "\<forall>e\<in>set (drop i data). \<not> e < tok"
  proof
    fix e assume "e \<in> set (drop i data)"
    then obtain k where k: "k < length data - i" "e = data ! (i + k)" by (auto simp: in_set_conv_nth)
    then have "data ! i \<le> e" using assms(1,2) by (auto intro: sorted_nth_mono)
    with assms(4) show "\<not> e < tok" by simp
  qed
  ultimately have "filter (\<lambda>e. e < tok) (take i data @ drop i data) = take i data"
    unfolding filter_append by simp
  then show ?thesis using assms(2) by simp
qed

lemma fmt_d_1: "fmt_d 1 = ''1''"
  by (simp add: fmt_d_def show_int_def digits_of.simps digit_char_def char_of_def bit_Suc_0_iff)

section \<open>Properties\<close>

text \<open>
  The binary search for the line of a position returns on every table, sorted or not,
  whose first entry is before the position and whose last one is not; it stays inside the
  table and ends at an entry that is not before the position but whose predecessor is.
\<close>

theorem line_search_total:
  assumes "0 < length data" and "length data < 2 ^ 62"
    and "data ! 0 < tokpos" and "tokpos \<le> data ! (length data - 1)"
  shows "\<exists>i. line_search data tokpos 0 (of_nat (length data - 1)) 0 = Some (of_nat i) \<and>
    0 < i \<and> i < length data \<and> data ! (i - 1) < tokpos \<and> tokpos \<le> data ! i"
  using line_search_nat [of 0 "length data - 1" data tokpos 0] assms by (simp del: of_nat_diff)

lemma line_search_total_witness:
  "\<exists>i. line_search [2, 9, 4, 8] 5 0 3 0 = Some (of_nat i) \<and> i < 4 \<and> [2, 9, 4, 8 :: uptr] ! (i - 1) < 5"
  using line_search_total [of "[2, 9, 4, 8]" 5] by auto

text \<open>
  C34. When the script's table of line endings can be read and is sorted, the location of a
  function is reported as \<open>line n\<close> with \<open>n - 1\<close> the number of lines that end before its
  position, and as out of range when the last line does.
\<close>

theorem definition_location_line:
  assumes "v8_tags_amd64 D" and "v8fi_line_endings fip \<noteq> 0"
    and "v8fixedarray_load D (v8fi_line_endings fip) {} = Some arrayp"
    and "v8fixedarray_as_array D arrayp {} = Some data" and "sorted data"
  shows "v8funcinfo_definition_location D fip strb flags =
    map_option (Pair 0) (mdbv8_strbuf_sprintf strb
      (if last data < V8_VALUE_SMI D (v8fi_tokenpos fip) then ''position out of range''
       else ''line '' @ fmt_d (of_nat
         (length (filter (\<lambda>e. e < V8_VALUE_SMI D (v8fi_tokenpos fip)) data) + 1))))"
proof -
  let ?tok = "V8_VALUE_SMI D (v8fi_tokenpos fip)"
  have ne: "v8fa_nelts arrayp \<noteq> 0" and len: "length data = unat (v8fa_nelts arrayp)"
    using assms(4) by (auto simp: v8fixedarray_as_array_def Let_def split: if_splits Option.bind_splits)
  have bound: "unat (v8fa_nelts arrayp) < 2 ^ 32"
    using assms(1,3) read_heap_smi_bound
    by (auto simp: v8fixedarray_load_def split: if_splits Option.bind_splits)
  have pos: "0 < length data" using ne len by (simp add: unat_gt_0)
  have upper: "v8fa_nelts arrayp - 1 = of_nat (length data - 1)" "unat (v8fa_nelts arrayp - 1) = length data - 1"
    using pos len by (simp_all add: unat_sub uptr_le_unat)
  have last: "data ! (length data - 1) = last data" using pos by (simp add: last_conv_nth)
  have unfold: "v8funcinfo_definition_location D fip strb flags =
    (if last data < ?tok then map_option (Pair 0) (mdbv8_strbuf_sprintf strb ''position out of range'')
     else if ?tok \<le> data ! 0 then map_option (Pair 0) (mdbv8_strbuf_sprintf strb ''line 1'')
     else Option.bind (line_search data ?tok 0 (of_nat (length data - 1)) 0)
       (\<lambda>i. map_option (Pair 0) (mdbv8_strbuf_sprintf strb (''line '' @ fmt_d (i + 1)))))"
    unfolding v8funcinfo_definition_location_def Let_def
    using assms(2-4) ne by (simp only: if_False option.case v8fixedarray_length_def upper(2) last upper(1) [symmetric])
  consider (out) "last data < ?tok" | (first) "\<not> last data < ?tok" "?tok \<le> data ! 0"
    | (search) "\<not> last data < ?tok" "\<not> ?tok \<le> data ! 0" by blast
  then show ?thesis
  proof cases
    case out
    then show ?thesis by (simp add: unfold)
  next
    case first
    then have "length (filter (\<lambda>e. e < ?tok) data) = 0"
      using sorted_boundary [OF assms(5) pos, of ?tok] by simp
    with first show ?thesis by (simp add: unfold fmt_d_1)
  next
    case search
    then have "data ! 0 < ?tok" "?tok \<le> data ! (length data - 1)" unfolding last by simp_all
    moreover have "length data < 2 ^ 62" using len bound by simp
    ultimately obtain i where i: "line_search data ?tok 0 (of_nat (length data - 1)) 0 = Some (of_nat i)"
      "0 < i" "i < length data" "data ! (i - 1) < ?tok" "?tok \<le> data ! i"
      using line_search_nat [of 0 "length data - 1" data ?tok 0] pos by auto
    have "length (filter (\<lambda>e. e < ?tok) data) = i"
      by (rule sorted_boundary [OF assms(5) i(3) i(4) i(5)])
    then have eq: "(of_nat i :: uptr) + 1 = of_nat (length (filter (\<lambda>e. e < ?tok) data) + 1)" by simp
    show ?thesis unfolding unfold using search by (simp only: if_False i(1) Option.bind.simps eq)
  qed
qed

text \<open>A table of two line endings, 5 and 9, at the address 4096.\<close>

definition line_table :: "(uptr \<times> uptr) list" where
  "line_table = [(4096, 8193), (8200, 164), (4104, push_bit 32 2),
     (4112, push_bit 32 5), (4120, push_bit 32 9)]"

lemma definition_location_line_witness:
  "v8funcinfo_definition_location (sample_dbg line_table)
     \<lparr>v8fi_addr = 0, v8fi_memflags = {}, v8fi_script = 0, v8fi_funcname = 0, v8fi_inferred_name = 0,
      v8fi_scriptpath = 0, v8fi_tokenpos = 7, v8fi_line_endings = 4097, v8fi_code = 0\<rparr> sample_buf 0 =
   map_option (Pair 0) (mdbv8_strbuf_sprintf sample_buf (''line '' @ fmt_d 2))"
  (is "v8funcinfo_definition_location ?D ?fip _ _ = _")
proof -
  let ?a = "\<lparr>v8fa_addr = 4097, v8fa_memflags = {}, v8fa_nelts = 2, v8fa_elements = 0\<rparr>"
  have sh: "V8_VALUE_SMI ?D 7 = push_bit 32 7"
    using smi_shift_amd64 [OF sample_tags, of line_table] by (simp add: V8_VALUE_SMI_def)
  have load: "v8fixedarray_load ?D 4097 {} = Some ?a"
    by (simp add: v8fixedarray_load_def sample_typebyte sample_smi line_table_def V8_IS_HEAPOBJECT_def
        is_type_def sample_values_def push_bit_eq_mult drop_bit_eq_div)
  obtain bs where "mem_vread ?D 4112 (8 * 2) = Some bs"
    "le_words 2 bs = map (\<lambda>i. words_at line_table (4112 + 8 * of_nat i)) [0..<2]"
    using sample_words [of 4112 line_table 2] by auto
  then have arr: "v8fixedarray_as_array ?D ?a {} = Some [push_bit 32 5, push_bit 32 9]"
    by (simp add: v8fixedarray_as_array_def PTRSZ_def line_table_def sample_values_def upt_rec)
  have "sorted [push_bit 32 5, push_bit 32 9 :: uptr]" by (simp add: push_bit_eq_mult)
  from definition_location_line [OF sample_tags _ _ arr this, of ?fip sample_buf 0] load sh show ?thesis
    by (simp add: push_bit_eq_mult)
qed

end
