(* ===== verification/Context.thy ===== *)
theory Context
  imports JsFunction
begin

text \<open>
  Contexts, ScopeInfos and bound functions (\<^verbatim>\<open>src/src/mdb_v8_function.c\<close>, second half).
  A Context and a ScopeInfo are FixedArrays copied into the module: the values of the
  variables in scope, and their names by kind of variable. A failed \<open>assert\<close> and an access
  outside a copied array have no value (\<open>None\<close>, the outer option where there are two).
\<close>

section \<open>Contexts\<close>

record v8context =
  v8ctx_addr :: uptr
  v8ctx_memflags :: memflags
  v8ctx_elts :: "uptr list"

definition v8ctx_nelts :: "v8context \<Rightarrow> uptr" where
  "v8ctx_nelts ctxp = of_nat (length (v8ctx_elts ctxp))"

definition v8context_load :: "v8dbg \<Rightarrow> uptr \<Rightarrow> memflags \<Rightarrow> v8context option" where
  "v8context_load D addr memflags =
     (if \<not> zalloc_ok D 32 memflags then None
      else do {
        elts \<leftarrow> read_heap_array D addr memflags;
        let ctxp = \<lparr>v8ctx_addr = addr, v8ctx_memflags = memflags, v8ctx_elts = elts\<rparr>;
        if v8ctx_nelts ctxp < gv D V8_CONTEXT_NCOMMON then None else Some ctxp
      })"

text \<open>Whether the array and the context are handed back.\<close>

definition v8context_free :: "v8context option \<Rightarrow> bool \<times> bool" where
  "v8context_free ctxp =
     (case ctxp of None \<Rightarrow> (False, False)
      | Some c \<Rightarrow> (maybefree (v8ctx_memflags c), maybefree (v8ctx_memflags c)))"

definition v8context_addr :: "v8context \<Rightarrow> uptr" where
  "v8context_addr ctxp = v8ctx_addr ctxp"

definition v8context_elt :: "v8context \<Rightarrow> 32 word \<Rightarrow> uptr option" where
  "v8context_elt ctxp i =
     (if unat i < length (v8ctx_elts ctxp) then Some (v8ctx_elts ctxp ! unat i) else None)"

text \<open>An index that is an \<open>intptr_t\<close> is converted to \<open>unsigned int\<close> by the call.\<close>

definition v8context_closure :: "v8dbg \<Rightarrow> v8context \<Rightarrow> uptr option" where
  "v8context_closure D ctxp = v8context_elt ctxp (ucast (gv D V8_CONTEXT_IDX_CLOSURE))"

definition v8context_prev_context :: "v8dbg \<Rightarrow> v8context \<Rightarrow> uptr option" where
  "v8context_prev_context D ctxp = v8context_elt ctxp (ucast (gv D V8_CONTEXT_IDX_PREV))"

definition v8context_var_value :: "v8dbg \<Rightarrow> v8context \<Rightarrow> 32 word \<Rightarrow> uptr option option" where
  "v8context_var_value D ctxp i =
     (let idx = (ucast (ucast i + gv D V8_CONTEXT_NCOMMON) :: 32 word) in
      if v8ctx_nelts ctxp \<le> ucast idx then Some None
      else map_option Some (v8context_elt ctxp idx))"

definition v8context_fields :: "(string \<times> v8_global) list" where
  "v8context_fields =
     [(''closure function'', V8_CONTEXT_IDX_CLOSURE), (''previous context'', V8_CONTEXT_IDX_PREV),
      (''extension'', V8_CONTEXT_IDX_EXT)]"

text \<open>
  The loop over the static slots, then the native context or the global object: the
  callback is called once more even when it stopped the loop.
\<close>

fun static_slots_loop ::
    "v8dbg \<Rightarrow> v8context \<Rightarrow> (v8context \<Rightarrow> string \<Rightarrow> uptr \<Rightarrow> 's \<Rightarrow> int \<times> 's) \<Rightarrow>
     (string \<times> v8_global) list \<Rightarrow> 's \<Rightarrow> (int \<times> 's) option" where
  "static_slots_loop D ctxp func [] s = Some (0, s)"
| "static_slots_loop D ctxp func ((label, idxp) # fps) s =
     (case v8context_elt ctxp (ucast (gv D idxp)) of
        None \<Rightarrow> None
      | Some value \<Rightarrow>
          (case func ctxp label value s of
             (rv, s') \<Rightarrow> if rv \<noteq> 0 then Some (rv, s')
                        else static_slots_loop D ctxp func fps s'))"

definition v8context_iter_static_slots ::
    "v8dbg \<Rightarrow> v8context \<Rightarrow> (v8context \<Rightarrow> string \<Rightarrow> uptr \<Rightarrow> 's \<Rightarrow> int \<times> 's) \<Rightarrow> 's \<Rightarrow> (int \<times> 's) option" where
  "v8context_iter_static_slots D ctxp func arg = do {
     (_, s) \<leftarrow> static_slots_loop D ctxp func v8context_fields arg;
     if gv D V8_CONTEXT_IDX_NATIVE \<noteq> - 1 then do {
       value \<leftarrow> v8context_elt ctxp (ucast (gv D V8_CONTEXT_IDX_NATIVE));
       Some (func ctxp ''native context'' value s)
     } else do {
       value \<leftarrow> v8context_elt ctxp (ucast (gv D V8_CONTEXT_IDX_GLOBAL));
       Some (func ctxp ''global object'' value s)
     }
   }"

text \<open>
  The dynamic slots. The counter is an \<open>unsigned int\<close> compared with a \<open>size_t\<close>; the loop
  is \<open>None\<close> where it does not end.
\<close>

partial_function (option) dynamic_slots_loop ::
    "v8context \<Rightarrow> (v8context \<Rightarrow> 32 word \<Rightarrow> uptr \<Rightarrow> 's \<Rightarrow> int \<times> 's) \<Rightarrow> 32 word \<Rightarrow> 32 word \<Rightarrow> 's \<Rightarrow>
     (int \<times> 's) option" where
  "dynamic_slots_loop ctxp func nslots i s =
     (if v8ctx_nelts ctxp \<le> ucast i then Some (0, s)
      else (case v8context_elt ctxp i of
        None \<Rightarrow> None
      | Some value \<Rightarrow>
          (case func ctxp (i - nslots) value s of
             (rv, s') \<Rightarrow> if rv \<noteq> 0 then Some (rv, s')
                        else dynamic_slots_loop ctxp func nslots (i + 1) s')))"

definition v8context_iter_dynamic_slots ::
    "v8dbg \<Rightarrow> v8context \<Rightarrow> (v8context \<Rightarrow> 32 word \<Rightarrow> uptr \<Rightarrow> 's \<Rightarrow> int \<times> 's) \<Rightarrow> 's \<Rightarrow> (int \<times> 's) option" where
  "v8context_iter_dynamic_slots D ctxp func arg =
     (let nslots = (ucast (gv D V8_CONTEXT_NCOMMON) :: 32 word) in
      dynamic_slots_loop ctxp func nslots nslots arg)"

section \<open>ScopeInfos\<close>

datatype v8scopeinfo_vartype = V8SV_PARAMS | V8SV_STACKLOCALS | V8SV_CONTEXTLOCALS

record v8scopeinfo =
  v8si_addr :: uptr
  v8si_memflags :: memflags
  v8si_elts :: "uptr list"

definition v8si_nelts :: "v8scopeinfo \<Rightarrow> uptr" where
  "v8si_nelts sip = of_nat (length (v8si_elts sip))"

record v8scopeinfo_var =
  v8siv_which :: uptr
  v8siv_realidx :: uptr

record v8scopeinfo_vartype_info =
  v8vti_vartype :: v8scopeinfo_vartype
  v8vti_label :: string
  v8vti_idx_countp :: v8_global
  v8vti_offset :: "v8_global option"

definition v8scopeinfo_vartypes :: "v8scopeinfo_vartype_info list" where
  "v8scopeinfo_vartypes =
     [\<lparr>v8vti_vartype = V8SV_PARAMS, v8vti_label = ''parameter'',
       v8vti_idx_countp = V8_SCOPEINFO_IDX_NPARAMS, v8vti_offset = None\<rparr>,
      \<lparr>v8vti_vartype = V8SV_STACKLOCALS, v8vti_label = ''stack local variable'',
       v8vti_idx_countp = V8_SCOPEINFO_IDX_NSTACKLOCALS,
       v8vti_offset = Some V8_SCOPEINFO_OFFSET_STACK_LOCALS\<rparr>,
      \<lparr>v8vti_vartype = V8SV_CONTEXTLOCALS, v8vti_label = ''context local variable'',
       v8vti_idx_countp = V8_SCOPEINFO_IDX_NCONTEXTLOCALS, v8vti_offset = None\<rparr>]"

definition scopeinfo_elt :: "v8scopeinfo \<Rightarrow> uptr \<Rightarrow> uptr option" where
  "scopeinfo_elt sip i =
     (if unat i < length (v8si_elts sip) then Some (v8si_elts sip ! unat i) else None)"

text \<open>\<open>||\<close> looks at the next count only when the one before is a small integer.\<close>

fun scopeinfo_counts_ok :: "v8dbg \<Rightarrow> v8scopeinfo \<Rightarrow> v8_global list \<Rightarrow> bool option" where
  "scopeinfo_counts_ok D sip [] = Some True"
| "scopeinfo_counts_ok D sip (g # gs) = do {
     v \<leftarrow> scopeinfo_elt sip (gv D g);
     if V8_IS_SMI D v then scopeinfo_counts_ok D sip gs else Some False
   }"

definition v8scopeinfo_load :: "v8dbg \<Rightarrow> uptr \<Rightarrow> memflags \<Rightarrow> v8scopeinfo option option" where
  "v8scopeinfo_load D addr memflags =
     (if \<not> zalloc_ok D 32 memflags then Some None
      else (case read_heap_array D addr memflags of
        None \<Rightarrow> Some None
      | Some elts \<Rightarrow>
          let sip = \<lparr>v8si_addr = addr, v8si_memflags = memflags, v8si_elts = elts\<rparr> in
          if v8si_nelts sip < gv D V8_SCOPEINFO_IDX_FIRST_VARS then Some None
          else map_option (\<lambda>ok. if ok then Some sip else None)
            (scopeinfo_counts_ok D sip [V8_SCOPEINFO_IDX_NPARAMS, V8_SCOPEINFO_IDX_NSTACKLOCALS,
               V8_SCOPEINFO_IDX_NCONTEXTLOCALS])))"

definition v8scopeinfo_free :: "v8scopeinfo option \<Rightarrow> bool \<times> bool" where
  "v8scopeinfo_free sip =
     (case sip of None \<Rightarrow> (False, False)
      | Some s \<Rightarrow> (maybefree (v8si_memflags s), maybefree (v8si_memflags s)))"

definition v8scopeinfo_addr :: "v8scopeinfo \<Rightarrow> uptr" where
  "v8scopeinfo_addr sip = v8si_addr sip"

definition v8scopeinfo_iter_vartypes ::
    "v8scopeinfo \<Rightarrow> (v8scopeinfo \<Rightarrow> v8scopeinfo_vartype \<Rightarrow> 's \<Rightarrow> int \<times> 's) \<Rightarrow> 's \<Rightarrow> int \<times> 's" where
  "v8scopeinfo_iter_vartypes sip func arg =
     cb_iter (\<lambda>vtip. func sip (v8vti_vartype vtip)) v8scopeinfo_vartypes arg"

definition v8scopeinfo_vartype_lookup :: "v8scopeinfo_vartype \<Rightarrow> v8scopeinfo_vartype_info option" where
  "v8scopeinfo_vartype_lookup scopevartype =
     List.find (\<lambda>vtip. scopevartype = v8vti_vartype vtip) v8scopeinfo_vartypes"

definition v8scopeinfo_vartype_name :: "v8scopeinfo_vartype \<Rightarrow> string option" where
  "v8scopeinfo_vartype_name scopevartype =
     map_option v8vti_label (v8scopeinfo_vartype_lookup scopevartype)"

definition v8scopeinfo_vartype_nvars :: "v8dbg \<Rightarrow> v8scopeinfo \<Rightarrow> v8scopeinfo_vartype \<Rightarrow> uptr option" where
  "v8scopeinfo_vartype_nvars D sip scopevartype = do {
     vtip \<leftarrow> v8scopeinfo_vartype_lookup scopevartype;
     value \<leftarrow> scopeinfo_elt sip (gv D (v8vti_idx_countp vtip));
     if V8_IS_SMI D value then Some (V8_SMI_VALUE D value) else None
   }"

text \<open>The entries to skip before those of the kind wanted.\<close>

fun scopeinfo_nskip ::
    "v8dbg \<Rightarrow> v8scopeinfo \<Rightarrow> v8scopeinfo_vartype_info \<Rightarrow> v8scopeinfo_vartype_info list \<Rightarrow> uptr \<Rightarrow> uptr option" where
  "scopeinfo_nskip D sip vtip [] nskip = Some nskip"
| "scopeinfo_nskip D sip vtip (ogrp # ogrps) nskip =
     (let nskip = (case v8vti_offset ogrp of
                     None \<Rightarrow> nskip
                   | Some g \<Rightarrow> if gv D g \<noteq> - 1 then nskip + gv D g else nskip)
      in if gv D (v8vti_idx_countp ogrp) = gv D (v8vti_idx_countp vtip) then Some nskip
         else do {
           n \<leftarrow> v8scopeinfo_vartype_nvars D sip (v8vti_vartype ogrp);
           scopeinfo_nskip D sip vtip ogrps (nskip + n)
         })"

fun scopeinfo_vars_loop ::
    "v8scopeinfo \<Rightarrow> (v8scopeinfo \<Rightarrow> v8scopeinfo_var \<Rightarrow> 's \<Rightarrow> int \<times> 's) \<Rightarrow> uptr \<Rightarrow> nat \<Rightarrow> nat \<Rightarrow> 's \<Rightarrow> int \<times> 's" where
  "scopeinfo_vars_loop sip func nskip i 0 s = (0, s)"
| "scopeinfo_vars_loop sip func nskip i (Suc k) s =
     (let idx = nskip + of_nat i in
      if v8si_nelts sip \<le> idx then (- 1, s)
      else (case func sip \<lparr>v8siv_which = of_nat i, v8siv_realidx = idx\<rparr> s of
              (rv, s') \<Rightarrow> if rv \<noteq> 0 then (rv, s')
                         else scopeinfo_vars_loop sip func nskip (i + 1) k s'))"

definition v8scopeinfo_iter_vars ::
    "v8dbg \<Rightarrow> v8scopeinfo \<Rightarrow> v8scopeinfo_vartype \<Rightarrow>
     (v8scopeinfo \<Rightarrow> v8scopeinfo_var \<Rightarrow> 's \<Rightarrow> int \<times> 's) \<Rightarrow> 's \<Rightarrow> (int \<times> 's) option" where
  "v8scopeinfo_iter_vars D sip scopevartype func arg = do {
     vtip \<leftarrow> v8scopeinfo_vartype_lookup scopevartype;
     nvars \<leftarrow> v8scopeinfo_vartype_nvars D sip scopevartype;
     nskip \<leftarrow> scopeinfo_nskip D sip vtip v8scopeinfo_vartypes (gv D V8_SCOPEINFO_IDX_FIRST_VARS);
     Some (scopeinfo_vars_loop sip func nskip 0 (unat nvars) arg)
   }"

definition v8scopeinfo_var_idx :: "v8scopeinfo \<Rightarrow> v8scopeinfo_var \<Rightarrow> uptr" where
  "v8scopeinfo_var_idx sip sivp = v8siv_which sivp"

definition v8scopeinfo_var_name :: "v8scopeinfo \<Rightarrow> v8scopeinfo_var \<Rightarrow> uptr option" where
  "v8scopeinfo_var_name sip sivp = scopeinfo_elt sip (v8siv_realidx sivp)"

section \<open>The context and the scope of a function\<close>

definition v8function_context :: "v8dbg \<Rightarrow> v8function \<Rightarrow> memflags \<Rightarrow> v8context option" where
  "v8function_context D funcp memflags = do {
     context \<leftarrow> read_heap_ptr D (v8func_addr funcp) (gv D V8_OFF_JSFUNCTION_CONTEXT);
     v8context_load D context memflags
   }"

definition v8function_scopeinfo :: "v8dbg \<Rightarrow> v8function \<Rightarrow> memflags \<Rightarrow> v8scopeinfo option option" where
  "v8function_scopeinfo D funcp memflags =
     (if gv D V8_OFF_SHAREDFUNCTIONINFO_SCOPE_INFO = - 1 then Some None
      else (case read_heap_ptr D (v8func_addr funcp) (gv D V8_OFF_JSFUNCTION_SHARED) of
        None \<Rightarrow> Some None
      | Some shared \<Rightarrow>
          (case read_heap_ptr D shared (gv D V8_OFF_SHAREDFUNCTIONINFO_SCOPE_INFO) of
             None \<Rightarrow> Some None
           | Some scopeinfo \<Rightarrow> v8scopeinfo_load D scopeinfo memflags)))"

definition v8context_scopeinfo :: "v8dbg \<Rightarrow> v8context \<Rightarrow> memflags \<Rightarrow> v8scopeinfo option option" where
  "v8context_scopeinfo D ctxp memflags = do {
     closure \<leftarrow> v8context_closure D ctxp;
     case v8function_load D closure memflags of
       None \<Rightarrow> Some None
     | Some funcp \<Rightarrow> v8function_scopeinfo D funcp memflags
   }"

section \<open>Bound functions\<close>

definition V8_BINDINGS_INDEX_TARGET :: nat where "V8_BINDINGS_INDEX_TARGET = 0"
definition V8_BINDINGS_INDEX_THIS :: nat where "V8_BINDINGS_INDEX_THIS = 1"
definition V8_BINDINGS_INDEX_ARGS_START :: nat where "V8_BINDINGS_INDEX_ARGS_START = 2"

record v8boundfunction =
  v8bf_addr :: uptr
  v8bf_memflags :: memflags
  v8bf_target :: uptr
  v8bf_this :: uptr
  v8bf_array :: "uptr list"
  v8bf_idx_arg0 :: uptr

definition v8bf_arraylen :: "v8boundfunction \<Rightarrow> uptr" where
  "v8bf_arraylen bfp = of_nat (length (v8bf_array bfp))"

text \<open>The outer option is that of \<open>v8function_funcinfo\<close>.\<close>

definition v8boundfunction_load_bindings ::
    "v8dbg \<Rightarrow> uptr \<Rightarrow> memflags \<Rightarrow> v8boundfunction option option" where
  "v8boundfunction_load_bindings D addr memflags =
     (case v8function_load D addr memflags of
        None \<Rightarrow> Some None
      | Some funcp \<Rightarrow> do {
          fip \<leftarrow> v8function_funcinfo D funcp memflags;
          Some (do {
            fip \<leftarrow> fip;
            hints \<leftarrow> read_heap_maybesmi D (v8fi_addr fip) (gv D V8_OFF_SHAREDFUNCTIONINFO_COMPILER_HINTS);
            if \<not> V8_HINT_BOUND D hints then None
            else do {
              bindingsp \<leftarrow> read_heap_ptr D addr (gv D V8_OFF_JSFUNCTION_LITERALS_OR_BINDINGS);
              if \<not> zalloc_ok D 56 memflags then None
              else do {
                array \<leftarrow> read_heap_array D bindingsp memflags;
                if length array < V8_BINDINGS_INDEX_ARGS_START then None
                else Some \<lparr>v8bf_addr = addr, v8bf_memflags = memflags,
                  v8bf_target = array ! V8_BINDINGS_INDEX_TARGET,
                  v8bf_this = array ! V8_BINDINGS_INDEX_THIS, v8bf_array = array,
                  v8bf_idx_arg0 = of_nat V8_BINDINGS_INDEX_ARGS_START\<rparr>
              }
            }
          })
        })"

definition v8boundfunction_load_direct ::
    "v8dbg \<Rightarrow> uptr \<Rightarrow> memflags \<Rightarrow> v8boundfunction option option" where
  "v8boundfunction_load_direct D addr memflags =
     (if gv D V8_TYPE_JSBOUNDFUNCTION = - 1 then None
      else Some (if \<not> V8_IS_HEAPOBJECT D addr then None
        else do {
          type \<leftarrow> read_typebyte D addr;
          if \<not> is_type D type V8_TYPE_JSBOUNDFUNCTION then None
          else if \<not> zalloc_ok D 56 memflags then None
          else do {
            target \<leftarrow> read_heap_ptr D addr (gv D V8_OFF_JSBOUNDFUNCTION_BOUND_TARGET_FUNCTION);
            this_v \<leftarrow> read_heap_ptr D addr (gv D V8_OFF_JSBOUNDFUNCTION_BOUND_THIS);
            boundArgs \<leftarrow> read_heap_ptr D addr (gv D V8_OFF_JSBOUNDFUNCTION_BOUND_ARGUMENTS);
            array \<leftarrow> read_heap_array D boundArgs memflags;
            Some \<lparr>v8bf_addr = addr, v8bf_memflags = memflags, v8bf_target = target,
                  v8bf_this = this_v, v8bf_array = array, v8bf_idx_arg0 = 0\<rparr>
          }
        }))"

definition v8boundfunction_load :: "v8dbg \<Rightarrow> uptr \<Rightarrow> memflags \<Rightarrow> v8boundfunction option option" where
  "v8boundfunction_load D addr memflags =
     (if gv D V8_TYPE_JSBOUNDFUNCTION = - 1 then v8boundfunction_load_bindings D addr memflags
      else v8boundfunction_load_direct D addr memflags)"

definition v8boundfunction_target :: "v8boundfunction \<Rightarrow> uptr" where
  "v8boundfunction_target bfp = v8bf_target bfp"

definition v8boundfunction_this :: "v8boundfunction \<Rightarrow> uptr" where
  "v8boundfunction_this bfp = v8bf_this bfp"

definition v8boundfunction_nargs :: "v8boundfunction \<Rightarrow> uptr" where
  "v8boundfunction_nargs bfp = v8bf_arraylen bfp - v8bf_idx_arg0 bfp"

text \<open>
  The loop over the arguments: \<open>argi\<close> counts them, and reaches the callback as an
  \<open>unsigned int\<close>. The assertion behind the loop compares the count with \<open>nargs\<close>.
\<close>

definition v8boundfunction_iter_args ::
    "v8boundfunction \<Rightarrow> (v8boundfunction \<Rightarrow> 32 word \<Rightarrow> uptr \<Rightarrow> 's \<Rightarrow> int \<times> 's) \<Rightarrow> 's \<Rightarrow> (int \<times> 's) option" where
  "v8boundfunction_iter_args bfp func arg =
     (let args = drop (unat (v8bf_idx_arg0 bfp)) (v8bf_array bfp) in
      case cb_iter (\<lambda>(argi, v). func bfp (of_nat argi) v) (enumerate 0 args) arg of
        (rv, s) \<Rightarrow>
          if rv \<noteq> 0 then Some (rv, s)
          else if of_nat (length args) = v8boundfunction_nargs bfp then Some (0, s)
          else None)"

definition v8boundfunction_free :: "v8boundfunction option \<Rightarrow> bool \<times> bool" where
  "v8boundfunction_free bfp =
     (case bfp of None \<Rightarrow> (False, False)
      | Some b \<Rightarrow> (maybefree (v8bf_memflags b), maybefree (v8bf_memflags b)))"

section \<open>Lemmas\<close>

lemma ucast_of_nat32:
  assumes "n < 2 ^ 32" shows "(ucast (of_nat n :: 32 word) :: uptr) = of_nat n"
proof -
  have "take_bit 32 n = n" "take_bit 64 n = n" using assms by (simp_all add: take_bit_nat_eq_self_iff)
  then show ?thesis by (simp add: word_unat_eq_iff unsigned_ucast_eq unsigned_of_nat)
qed

lemma ucast_of_nat64:
  assumes "n < 2 ^ 32" shows "(ucast (of_nat n :: uptr) :: 32 word) = of_nat n"
proof -
  have "take_bit 32 n = n" "take_bit 64 n = n" using assms by (simp_all add: take_bit_nat_eq_self_iff)
  then show ?thesis by (simp add: word_unat_eq_iff unsigned_ucast_eq unsigned_of_nat)
qed

lemma of_nat_le64: "n < 2 ^ 64 \<Longrightarrow> m < 2 ^ 64 \<Longrightarrow> (of_nat n :: uptr) \<le> of_nat m \<longleftrightarrow> n \<le> m"
  by (simp add: uptr_le_unat unat_of_nat_lt)

lemma context_elt_nat:
  "n < 2 ^ 32 \<Longrightarrow> v8context_elt ctxp (of_nat n) =
     (if n < length (v8ctx_elts ctxp) then Some (v8ctx_elts ctxp ! n) else None)"
  by (simp add: v8context_elt_def unat32_of_nat)

lemma dynamic_slots_loop_cb:
  assumes "length (v8ctx_elts ctxp) < 2 ^ 32" and "n + k \<le> length (v8ctx_elts ctxp)"
  shows "dynamic_slots_loop ctxp func (of_nat n) (of_nat (n + k)) s =
    Some (cb_iter (\<lambda>(i, v). func ctxp (of_nat i) v) (enumerate k (drop (n + k) (v8ctx_elts ctxp))) s)"
  using assms(2)
proof (induction "length (v8ctx_elts ctxp) - (n + k)" arbitrary: k s)
  case 0
  then have "v8ctx_nelts ctxp \<le> ucast (of_nat (n + k) :: 32 word)"
    using assms(1) by (simp add: v8ctx_nelts_def ucast_of_nat32 del: of_nat_add)
  with 0 show ?case by (subst dynamic_slots_loop.simps) simp
next
  case (Suc d)
  have lt: "n + k < length (v8ctx_elts ctxp)" using Suc.hyps(2) by simp
  have go: "\<not> v8ctx_nelts ctxp \<le> ucast (of_nat (n + k) :: 32 word)"
    using lt assms(1) by (simp add: v8ctx_nelts_def ucast_of_nat32 of_nat_le64 del: of_nat_add)
  have idx: "of_nat (n + k) - of_nat n = (of_nat k :: 32 word)" by simp
  have nxt: "of_nat (n + k) + 1 = (of_nat (n + Suc k) :: 32 word)" by simp
  have elt: "v8context_elt ctxp (of_nat (n + k)) = Some (v8ctx_elts ctxp ! (n + k))"
    using context_elt_nat [of "n + k" ctxp] lt assms(1) by (simp del: of_nat_add)
  have "d = length (v8ctx_elts ctxp) - (n + Suc k)" "n + Suc k \<le> length (v8ctx_elts ctxp)"
    using Suc.hyps(2) lt by auto
  note IH = Suc.hyps(1) [OF this]
  have dr: "drop (n + k) (v8ctx_elts ctxp) = (v8ctx_elts ctxp ! (n + k)) # drop (n + Suc k) (v8ctx_elts ctxp)"
    using lt by (simp add: Cons_nth_drop_Suc)
  show ?case
    using IH by (subst dynamic_slots_loop.simps) (simp only: go elt idx nxt dr if_False option.case
        enumerate_simps cb_iter.simps split: prod.split if_split, auto)
qed

lemma read_heap_array_bound:
  "v8_tags_amd64 D \<Longrightarrow> read_heap_array D addr flags = Some elts \<Longrightarrow> length elts < 2 ^ 32"
  using read_heap_smi_bound [of D]
  by (fastforce simp: read_heap_array_def Let_def split: if_splits Option.bind_splits)

section \<open>Properties\<close>

text \<open>
  C36. The two views of a loaded context agree: the iteration over the dynamic slots calls the
  callback with the slots behind the common ones, in order and numbered from 0, until it
  returns non-zero; and the value of variable \<open>i\<close> is the slot with that number, or an error
  when there is none.
\<close>

theorem context_variables:
  assumes "v8_tags_amd64 D" and "v8context_load D addr memflags = Some ctxp"
    and "gv D V8_CONTEXT_NCOMMON = of_nat n" and "n < 2 ^ 32"
  defines "slots \<equiv> drop n (v8ctx_elts ctxp)"
  shows "v8context_iter_dynamic_slots D ctxp func arg =
      Some (cb_iter (\<lambda>(i, v). func ctxp (of_nat i) v) (enumerate 0 slots) arg) \<and>
    (\<forall>i. n + i < 2 ^ 32 \<longrightarrow> v8context_var_value D ctxp (of_nat i) =
      Some (if i < length slots then Some (slots ! i) else None))"
proof -
  have len: "length (v8ctx_elts ctxp) < 2 ^ 32" and n: "n \<le> length (v8ctx_elts ctxp)"
  proof -
    from assms(2) obtain elts where e: "read_heap_array D addr memflags = Some elts"
      "v8ctx_elts ctxp = elts" "\<not> v8ctx_nelts ctxp < gv D V8_CONTEXT_NCOMMON"
      by (auto simp: v8context_load_def Let_def split: if_splits Option.bind_splits)
    show l: "length (v8ctx_elts ctxp) < 2 ^ 32" using read_heap_array_bound [OF assms(1) e(1)] e(2) by simp
    show "n \<le> length (v8ctx_elts ctxp)"
      using e(3) assms(3,4) l by (simp add: v8ctx_nelts_def not_less of_nat_le64)
  qed
  have "v8context_iter_dynamic_slots D ctxp func arg =
      Some (cb_iter (\<lambda>(i, v). func ctxp (of_nat i) v) (enumerate 0 slots) arg)"
    using dynamic_slots_loop_cb [OF len, of n 0 func arg] n assms(3,4)
    by (simp add: v8context_iter_dynamic_slots_def Let_def ucast_of_nat64 slots_def)
  moreover have "v8context_var_value D ctxp (of_nat i) =
      Some (if i < length slots then Some (slots ! i) else None)" if "n + i < 2 ^ 32" for i
  proof -
    have idx: "(ucast (ucast (of_nat i :: 32 word) + gv D V8_CONTEXT_NCOMMON) :: 32 word) = of_nat (n + i)"
      using that ucast_of_nat64 [of "n + i"] assms(3) by (simp add: ucast_of_nat32 add.commute)
    show ?thesis
      unfolding v8context_var_value_def Let_def idx
      using that len n context_elt_nat [of "n + i" ctxp]
      by (auto simp: v8ctx_nelts_def ucast_of_nat32 of_nat_le64 slots_def simp del: of_nat_add)
  qed
  ultimately show ?thesis by blast
qed

text \<open>A Context of six slots at the address 4096, four of them common.\<close>

definition context_words :: "(uptr \<times> uptr) list" where
  "context_words = [(4096, 8193), (8200, 164), (4104, push_bit 32 6),
     (4112, 1), (4120, 9), (4128, 17), (4136, 25), (4144, 33), (4152, 41)]"

lemma context_variables_witness:
  "\<exists>ctxp. v8context_load (sample_dbg context_words) 4097 {} = Some ctxp \<and>
     v8context_iter_dynamic_slots (sample_dbg context_words) ctxp (\<lambda>_ i v. record_cb (i, v)) [] =
       Some (0, [(0, 33), (1, 41)]) \<and>
     v8context_var_value (sample_dbg context_words) ctxp 1 = Some (Some 41)"
proof -
  let ?S = "sample_dbg context_words"
  let ?c = "\<lparr>v8ctx_addr = 4097, v8ctx_memflags = {}, v8ctx_elts = [1, 9, 17, 25, 33, 41]\<rparr>"
  have "read_heap_array ?S 4097 {} = Some (map (\<lambda>i. words_at context_words (4097 + 15 + 8 * of_nat i)) [0..<6])"
    by (rule sample_heap_array) (simp_all add: context_words_def)
  also have "map (\<lambda>i. words_at context_words (4097 + 15 + 8 * of_nat i)) [0..<6] = [1, 9, 17, 25, 33, 41]"
    by (simp add: context_words_def upt_rec)
  finally have load: "v8context_load ?S 4097 {} = Some ?c"
    by (simp add: v8context_load_def v8ctx_nelts_def sample_values_def)
  have n: "gv ?S V8_CONTEXT_NCOMMON = of_nat 4" by (simp add: sample_values_def)
  note ctx = context_variables [OF sample_tags load n]
  have "v8context_iter_dynamic_slots ?S ?c (\<lambda>_ i v. record_cb (i, v)) [] = Some (0, [(0, 33), (1, 41)])"
    using ctx [of "\<lambda>_ i v. record_cb (i, v)" "[]"] by (simp add: record_cb_def)
  moreover have "v8context_var_value ?S ?c (of_nat 1) = Some (Some 41)"
    using ctx [THEN conjunct2, THEN spec, of 1] by simp
  ultimately show ?thesis using load by auto
qed

lemma scopeinfo_vars_loop_cb:
  assumes "length (v8si_elts sip) < 2 ^ 32" and "start + i + k < 2 ^ 64"
  shows "scopeinfo_vars_loop sip func (of_nat start) i k s =
    (case cb_iter (\<lambda>j. func sip \<lparr>v8siv_which = of_nat j, v8siv_realidx = of_nat (start + j)\<rparr>)
            [i..<i + min k (length (v8si_elts sip) - (start + i))] s of
       (rv, s') \<Rightarrow> if rv \<noteq> 0 \<or> k \<le> length (v8si_elts sip) - (start + i) then (rv, s') else (- 1, s'))"
  using assms(2)
proof (induction k arbitrary: i s)
  case (Suc k)
  have test: "v8si_nelts sip \<le> of_nat start + of_nat i \<longleftrightarrow> length (v8si_elts sip) \<le> start + i"
    using of_nat_le64 [of "length (v8si_elts sip)" "start + i"] assms(1) Suc.prems by (simp add: v8si_nelts_def)
  show ?case
  proof (cases "length (v8si_elts sip) \<le> start + i")
    case True
    then show ?thesis using test by simp
  next
    case False
    have "min (Suc k) (length (v8si_elts sip) - (start + i)) = Suc (min k (length (v8si_elts sip) - (start + Suc i)))"
      using False by linarith
    then have "[i..<i + min (Suc k) (length (v8si_elts sip) - (start + i))] =
        i # [Suc i..<Suc i + min k (length (v8si_elts sip) - (start + Suc i))]"
      by (simp add: upt_rec)
    moreover have "Suc k \<le> length (v8si_elts sip) - (start + i) \<longleftrightarrow> k \<le> length (v8si_elts sip) - (start + Suc i)"
      using False by linarith
    ultimately show ?thesis
      using False test Suc.IH [of "Suc i"] Suc.prems by (simp split: prod.split)
  qed
qed simp

text \<open>
  C32. The variables of a ScopeInfo: parameters, stack locals and context locals lie behind
  each other, after the fixed part (and the stack locals after the first-slot entry, when
  V8 has one). Iterating one kind visits exactly its own entries, in order and numbered from
  0, until the callback returns non-zero; where the array is too short it visits those
  present and fails.
\<close>

theorem scopeinfo_variables:
  assumes "v8scopeinfo_vartype_nvars D sip V8SV_PARAMS = Some (of_nat np)"
    and "v8scopeinfo_vartype_nvars D sip V8SV_STACKLOCALS = Some (of_nat ns)"
    and "v8scopeinfo_vartype_nvars D sip V8SV_CONTEXTLOCALS = Some (of_nat nc)"
    and "distinct [gv D V8_SCOPEINFO_IDX_NPARAMS, gv D V8_SCOPEINFO_IDX_NSTACKLOCALS,
      gv D V8_SCOPEINFO_IDX_NCONTEXTLOCALS]"
    and "gv D V8_SCOPEINFO_IDX_FIRST_VARS = of_nat first"
    and "off = (if gv D V8_SCOPEINFO_OFFSET_STACK_LOCALS = - 1 then 0
                else unat (gv D V8_SCOPEINFO_OFFSET_STACK_LOCALS))"
    and "length (v8si_elts sip) < 2 ^ 32" and "first + np + off + ns + nc < 2 ^ 64"
    and "(start, n) = (case t of V8SV_PARAMS \<Rightarrow> (first, np) | V8SV_STACKLOCALS \<Rightarrow> (first + np + off, ns)
                       | V8SV_CONTEXTLOCALS \<Rightarrow> (first + np + off + ns, nc))"
  shows "v8scopeinfo_iter_vars D sip t func arg = Some
    (case cb_iter (\<lambda>i. func sip \<lparr>v8siv_which = of_nat i, v8siv_realidx = of_nat (start + i)\<rparr>)
            [0..<min n (length (v8si_elts sip) - start)] arg of
       (rv, s) \<Rightarrow> if rv \<noteq> 0 \<or> n \<le> length (v8si_elts sip) - start then (rv, s) else (- 1, s))"
proof -
  have o: "(if gv D V8_SCOPEINFO_OFFSET_STACK_LOCALS \<noteq> - 1 then w + gv D V8_SCOPEINFO_OFFSET_STACK_LOCALS else w) =
      w + of_nat off" for w
    using assms(6) by simp
  obtain vtip where vtip: "v8scopeinfo_vartype_lookup t = Some vtip"
    and skip: "scopeinfo_nskip D sip vtip v8scopeinfo_vartypes (gv D V8_SCOPEINFO_IDX_FIRST_VARS) = Some (of_nat start)"
    using assms(1,2,4,5,9) o
    by (cases t) (auto simp: v8scopeinfo_vartype_lookup_def v8scopeinfo_vartypes_def Let_def)
  have nv: "v8scopeinfo_vartype_nvars D sip t = Some (of_nat n)" and b: "start + 0 + n < 2 ^ 64"
    using assms(1-3,8,9) by (cases t; simp)+
  have "unat (of_nat n :: uptr) = n" using b by (simp add: unat_of_nat_lt)
  then show ?thesis
    using scopeinfo_vars_loop_cb [OF assms(7) b, of func arg]
    by (simp add: v8scopeinfo_iter_vars_def vtip nv skip)
qed

lemma scopeinfo_variables_witness:
  "v8scopeinfo_iter_vars (sample_dbg []) \<lparr>v8si_addr = 4097, v8si_memflags = {},
       v8si_elts = [0, push_bit 32 1, push_bit 32 1, push_bit 32 2, 4129, 4137, 4145, 4153]\<rparr>
     V8SV_CONTEXTLOCALS (\<lambda>_ v. record_cb (v8siv_which v, v8siv_realidx v)) [] =
   Some (0, [(0, 6), (1, 7)])"
  (is "v8scopeinfo_iter_vars ?D ?sip _ ?func _ = _")
proof -
  have c: "v8scopeinfo_vartype_nvars ?D ?sip V8SV_PARAMS = Some (of_nat 1)"
    "v8scopeinfo_vartype_nvars ?D ?sip V8SV_STACKLOCALS = Some (of_nat 1)"
    "v8scopeinfo_vartype_nvars ?D ?sip V8SV_CONTEXTLOCALS = Some (of_nat 2)"
    using smi_shift_amd64 [OF sample_tags, of "[]"]
    by (simp_all add: v8scopeinfo_vartype_nvars_def v8scopeinfo_vartype_lookup_def v8scopeinfo_vartypes_def
        scopeinfo_elt_def sample_values_def V8_IS_SMI_def V8_SMI_VALUE_def push_bit_eq_mult drop_bit_eq_div)
  have d: "distinct [gv ?D V8_SCOPEINFO_IDX_NPARAMS, gv ?D V8_SCOPEINFO_IDX_NSTACKLOCALS,
      gv ?D V8_SCOPEINFO_IDX_NCONTEXTLOCALS]" "gv ?D V8_SCOPEINFO_IDX_FIRST_VARS = of_nat 4"
    "0 = (if gv ?D V8_SCOPEINFO_OFFSET_STACK_LOCALS = - 1 then 0
                else unat (gv ?D V8_SCOPEINFO_OFFSET_STACK_LOCALS))"
    by (simp_all add: sample_values_def)
  show ?thesis
    using scopeinfo_variables [OF c d, where t = V8SV_CONTEXTLOCALS and start = 6 and n = 2 and func = ?func and arg = "[]"]
    by (simp add: record_cb_def upt_rec)
qed

text \<open>
  C37. However the V8 of the target represents bound functions, a loaded one has well-defined
  arguments: those of the array behind the target and \<open>this\<close> (of a bindings array) or all of
  them (of a JSBoundFunction). The count does not wrap, and iterating calls the callback with
  each, in order and numbered from 0, until it returns non-zero.
\<close>

theorem boundfunction_arguments:
  assumes "v8_tags_amd64 D" and "v8boundfunction_load D addr memflags = Some (Some bfp)"
  defines "args \<equiv> drop (if gv D V8_TYPE_JSBOUNDFUNCTION = - 1 then 2 else 0) (v8bf_array bfp)"
  shows "v8boundfunction_nargs bfp = of_nat (length args) \<and>
    v8boundfunction_iter_args bfp func arg =
      Some (cb_iter (\<lambda>(i, v). func bfp (of_nat i) v) (enumerate 0 args) arg) \<and>
    (gv D V8_TYPE_JSBOUNDFUNCTION = - 1 \<longrightarrow>
      v8bf_array bfp = v8boundfunction_target bfp # v8boundfunction_this bfp # args)"
proof -
  have shape: "v8bf_idx_arg0 bfp = (if gv D V8_TYPE_JSBOUNDFUNCTION = - 1 then 2 else 0)"
    "gv D V8_TYPE_JSBOUNDFUNCTION = - 1 \<Longrightarrow>
      2 \<le> length (v8bf_array bfp) \<and> v8bf_target bfp = v8bf_array bfp ! 0 \<and> v8bf_this bfp = v8bf_array bfp ! 1"
    using assms(2)
    by (auto simp: v8boundfunction_load_def v8boundfunction_load_bindings_def v8boundfunction_load_direct_def
        V8_BINDINGS_INDEX_ARGS_START_def V8_BINDINGS_INDEX_TARGET_def V8_BINDINGS_INDEX_THIS_def
        split: if_splits option.splits Option.bind_splits)
  have nargs: "v8boundfunction_nargs bfp = of_nat (length args)"
    using shape by (auto simp: v8boundfunction_nargs_def v8bf_arraylen_def args_def of_nat_diff)
  have dr: "drop (unat (v8bf_idx_arg0 bfp)) (v8bf_array bfp) = args" using shape(1) by (simp add: args_def)
  have "v8boundfunction_iter_args bfp func arg =
      Some (cb_iter (\<lambda>(i, v). func bfp (of_nat i) v) (enumerate 0 args) arg)"
    unfolding v8boundfunction_iter_args_def Let_def dr nargs by (simp split: prod.split)
  moreover have "v8bf_array bfp = v8boundfunction_target bfp # v8boundfunction_this bfp # args"
    if old: "gv D V8_TYPE_JSBOUNDFUNCTION = - 1"
  proof -
    obtain x y zs where "v8bf_array bfp = x # y # zs"
      using shape(2) [OF old] by (cases "v8bf_array bfp" rule: remdups_adj.cases) auto
    then show ?thesis
      using shape(2) [OF old] old by (simp add: args_def v8boundfunction_target_def v8boundfunction_this_def)
  qed
  ultimately show ?thesis using nargs by blast
qed

text \<open>A JSBoundFunction at 4096 whose argument array is at 5120.\<close>

definition bound_words :: "(uptr \<times> uptr) list" where
  "bound_words = [(4096, 8193), (8200, 176), (4120, 6145), (4128, 6209), (4136, 5121),
     (5120, 9217), (9224, 164), (5128, push_bit 32 2), (5136, 11), (5144, 22)]"

lemma boundfunction_arguments_witness:
  "\<exists>bfp. v8boundfunction_load (sample_dbg bound_words) 4097 {} = Some (Some bfp) \<and>
     v8boundfunction_nargs bfp = 2 \<and>
     v8boundfunction_iter_args bfp (\<lambda>_ i v. record_cb (i, v)) [] = Some (0, [(0, 11), (1, 22)])"
proof -
  let ?D = "sample_dbg bound_words"
  let ?b = "\<lparr>v8bf_addr = 4097, v8bf_memflags = {}, v8bf_target = 6145, v8bf_this = 6209,
     v8bf_array = [11, 22], v8bf_idx_arg0 = 0\<rparr>"
  have "read_heap_array ?D 5121 {} = Some (map (\<lambda>i. words_at bound_words (5121 + 15 + 8 * of_nat i)) [0..<2])"
    by (rule sample_heap_array) (simp_all add: bound_words_def)
  also have "map (\<lambda>i. words_at bound_words (5121 + 15 + 8 * of_nat i)) [0..<2] = [11, 22]"
    by (simp add: bound_words_def upt_rec)
  finally have load: "v8boundfunction_load ?D 4097 {} = Some (Some ?b)"
    by (simp add: v8boundfunction_load_def v8boundfunction_load_direct_def sample_values_def V8_IS_HEAPOBJECT_def
        is_type_def sample_typebyte sample_ptr bound_words_def)
  have "gv ?D V8_TYPE_JSBOUNDFUNCTION \<noteq> - 1" by (simp add: sample_values_def)
  with boundfunction_arguments [OF sample_tags load, of "\<lambda>_ i v. record_cb (i, v)" "[]"] load show ?thesis
    by (simp add: record_cb_def)
qed

end
