(* ===== verification/JsObject.thy ===== *)
theory JsObject
  imports JsStr
begin

text \<open>
  The properties of JavaScript objects (\<^verbatim>\<open>src/src/mdb_v8.c\<close>): property values, layout
  descriptors, the dictionary representation, and \<open>jsobj_properties\<close>, which finds the
  properties of an object in its elements, in a dictionary, in the object itself and in its
  properties array, and hands each to a callback.

  The callback's result is an \<open>int\<close>; its state is passed along. An outer \<open>None\<close> is
  a run without a defined outcome: a failed assertion, a read outside an array or of an
  uninitialised variable, a division by zero, or a loop that does not end.
\<close>

section \<open>Property values\<close>

text \<open>The union of a double and an address is its 64 bits.\<close>

record v8propvalue =
  v8v_isboxeddouble :: bool
  v8v_u :: uptr

definition jsobj_propvalue_addr :: "uptr \<Rightarrow> v8propvalue" where
  "jsobj_propvalue_addr addr = \<lparr>v8v_isboxeddouble = False, v8v_u = addr\<rparr>"

definition jsobj_propvalue_double :: "uptr \<Rightarrow> v8propvalue" where
  "jsobj_propvalue_double d = \<lparr>v8v_isboxeddouble = True, v8v_u = d\<rparr>"

type_synonym jspropinfo = "32 word"

definition JPI_NONE :: jspropinfo where "JPI_NONE = 0"
definition JPI_NUMERIC :: jspropinfo where "JPI_NUMERIC = 0x01"
definition JPI_DICT :: jspropinfo where "JPI_DICT = 0x02"
definition JPI_INOBJECT :: jspropinfo where "JPI_INOBJECT = 0x04"
definition JPI_PROPS :: jspropinfo where "JPI_PROPS = 0x08"
definition JPI_SKIPPED :: jspropinfo where "JPI_SKIPPED = 0x10"
definition JPI_BADLAYOUT :: jspropinfo where "JPI_BADLAYOUT = 0x20"
definition JPI_BADPROPS :: jspropinfo where "JPI_BADPROPS = 0x40"
definition JPI_MAYBE_GARBAGE :: jspropinfo where
  "JPI_MAYBE_GARBAGE = JPI_SKIPPED OR JPI_BADLAYOUT OR JPI_BADPROPS"
definition JPI_UNDEFPROPNAME :: jspropinfo where "JPI_UNDEFPROPNAME = 0x80"
definition JPI_HASTRANSITIONS :: jspropinfo where "JPI_HASTRANSITIONS = 0x100"
definition JPI_HASCONTENT :: jspropinfo where "JPI_HASCONTENT = 0x200"

lemmas JPI_defs = JPI_NONE_def JPI_NUMERIC_def JPI_DICT_def JPI_INOBJECT_def JPI_PROPS_def
  JPI_SKIPPED_def JPI_BADLAYOUT_def JPI_BADPROPS_def JPI_MAYBE_GARBAGE_def JPI_UNDEFPROPNAME_def
  JPI_HASTRANSITIONS_def JPI_HASCONTENT_def

section \<open>Layout descriptors\<close>

text \<open>The three flags of \<open>jl_flags\<close> are three fields.\<close>

definition JL_MAXBITVECS :: nat where
  "JL_MAXBITVECS = 8"

record jsobj_layout =
  jl_haslayout :: bool
  jl_alltagged :: bool
  jl_array :: bool
  jl_descriptor :: uptr
  jl_length :: uptr
  jl_bitvecs :: "32 word list"

definition layout_zero :: jsobj_layout where
  "layout_zero = \<lparr>jl_haslayout = False, jl_alltagged = False, jl_array = False, jl_descriptor = 0,
     jl_length = 0, jl_bitvecs = replicate JL_MAXBITVECS 0\<rparr>"

fun le_words32 :: "nat \<Rightarrow> byte list \<Rightarrow> 32 word list" where
  "le_words32 0 bs = []"
| "le_words32 (Suc n) bs = ucast (le_word (take 4 bs)) # le_words32 n (drop 4 bs)"

definition layout_data_offset :: "v8dbg \<Rightarrow> uptr \<Rightarrow> uptr" where
  "layout_data_offset D off =
     (let off = off + of_nat PTRSZ;
          off = (if \<not> v8_version_current_older D 4 6 85 23 then off + of_nat PTRSZ else off);
          off = off + (8 - 1)
      in off AND NOT (8 - 1))"

definition jsobj_layout_load :: "v8dbg \<Rightarrow> uptr \<Rightarrow> jsobj_layout option" where
  "jsobj_layout_load D mapp =
     (if gv D V8_OFF_MAP_LAYOUT_DESCRIPTOR = - 1 then Some layout_zero
      else do {
        descriptor \<leftarrow> read_heap_ptr D mapp (gv D V8_OFF_MAP_LAYOUT_DESCRIPTOR);
        let layout = layout_zero\<lparr>jl_descriptor := descriptor\<rparr>;
        if V8_IS_SMI D descriptor then
          (let word = ucast (V8_SMI_VALUE D descriptor) in
           Some (layout\<lparr>jl_haslayout := True, jl_length := 1, jl_bitvecs := (jl_bitvecs layout)[0 := word],
                        jl_alltagged := (word = 0)\<rparr>))
        else do {
          off \<leftarrow> heap_offset D ''FixedTypedArrayBase'' ''base_pointer'';
          let off = layout_data_offset D off;
          len \<leftarrow> read_heap_smi D descriptor (gv D V8_OFF_FIXEDARRAY_LENGTH);
          if of_nat JL_MAXBITVECS < len then None
          else do {
            bs \<leftarrow> mem_vread D (V8_OFF_HEAP D (descriptor + off)) (unat (len * 4));
            Some (layout\<lparr>jl_length := len, jl_haslayout := True, jl_array := True,
                         jl_bitvecs := le_words32 (unat len) bs @ drop (unat len) (jl_bitvecs layout)\<rparr>)
          }
        }
      })"

text \<open>
  \<open>whichword\<close> is an \<open>int\<close>: a 64-bit quotient is cut to its low half, and compared with
  the length after sign extension.
\<close>

definition jsobj_layout_untagged :: "jsobj_layout \<Rightarrow> uptr \<Rightarrow> bool option" where
  "jsobj_layout_untagged layout propidx =
     (if \<not> jl_haslayout layout then Some False
      else if jl_alltagged layout then Some False
      else if \<not> (jl_array layout \<or> jl_length layout = 1) then None
      else let whichword = sint (ucast (propidx div 32) :: 32 word);
               whichbit = unat (propidx mod 32)
        in if jl_length layout \<le> of_int whichword then Some False
           else if \<not> whichword < int JL_MAXBITVECS then None
           else let word = jl_bitvecs layout ! nat whichword; mask = push_bit whichbit 1
             in Some (mask AND word \<noteq> 0))"

section \<open>Dictionaries\<close>

type_synonym 's prop_cb = "string \<Rightarrow> v8propvalue option \<Rightarrow> 's \<Rightarrow> int \<times> 's"

text \<open>A key of a dictionary: skipped, not a name, or a name.\<close>

datatype dict_key = DK_SKIP | DK_FAIL | DK_NAME string

definition dict_key_name :: "v8dbg \<Rightarrow> uptr \<Rightarrow> dict_key option" where
  "dict_key_name D key = do {
     undefd \<leftarrow> jsobj_is_undefined D key;
     if undefd then Some DK_SKIP
     else if V8_IS_SMI D key then Some (DK_NAME (show_int (sint (V8_SMI_VALUE D key))))
     else do {
       hole \<leftarrow> jsobj_is_hole D key;
       if hole then Some DK_SKIP
       else (case read_typebyte D key of
          None \<Rightarrow> Some DK_FAIL
        | Some type \<Rightarrow>
            if \<not> V8_TYPE_STRING D type then Some DK_FAIL
            else do {
              (rv, b, _) \<leftarrow> jsstr_print D key JSSTR_NUDE \<lparr>lb_text = [], lb_len = 512\<rparr>;
              Some (if rv \<noteq> 0 then DK_FAIL else DK_NAME (lbuf_cstr b))
            })
     }
   }"

text \<open>\<open>propinfo\<close> is \<open>None\<close> where the caller passes \<open>NULL\<close>.\<close>

partial_function (option) read_heap_dict_loop ::
    "v8dbg \<Rightarrow> uptr list \<Rightarrow> 's prop_cb \<Rightarrow> uptr \<Rightarrow> 's \<Rightarrow> jspropinfo option \<Rightarrow>
     (int \<times> 's \<times> jspropinfo option) option" where
  "read_heap_dict_loop D dict func i s propinfo =
     (if \<not> i + 1 < of_nat (length dict) then Some (0, s, propinfo)
      else if \<not> unat i + 1 < length dict then None
      else (case dict_key_name D (dict ! unat i) of
         None \<Rightarrow> None
       | Some DK_SKIP \<Rightarrow> read_heap_dict_loop D dict func (i + gv D V8_DICT_ENTRY_SIZE) s propinfo
       | Some DK_FAIL \<Rightarrow> Some (- 1, s, propinfo)
       | Some (DK_NAME buf) \<Rightarrow>
           let value = dict ! (unat i + 1);
               propinfo = (if jsobj_maybe_garbage D value then map_option (\<lambda>p. p OR JPI_BADPROPS) propinfo
                           else propinfo)
           in (case func buf (Some (jsobj_propvalue_addr value)) s of
                 (rv, s) \<Rightarrow>
                   if rv = - 1 then Some (- 1, s, propinfo)
                   else read_heap_dict_loop D dict func (i + gv D V8_DICT_ENTRY_SIZE) s propinfo)))"

definition read_heap_dict ::
    "v8dbg \<Rightarrow> uptr \<Rightarrow> 's prop_cb \<Rightarrow> 's \<Rightarrow> jspropinfo option \<Rightarrow> (int \<times> 's \<times> jspropinfo option) option" where
  "read_heap_dict D addr func s propinfo =
     (case read_heap_array D addr {UM_SLEEP} of
        None \<Rightarrow> Some (- 1, s, propinfo)
      | Some dict \<Rightarrow>
          if sint (gv D V8_DICT_ENTRY_SIZE) < 2 then Some (- 1, s, propinfo)
          else read_heap_dict_loop D dict func (gv D V8_DICT_START_INDEX + gv D V8_DICT_PREFIX_SIZE) s propinfo)"

section \<open>Numeric properties\<close>

text \<open>
  The parts of \<open>jsobj_properties\<close> that can leave it through \<^verbatim>\<open>goto err\<close> return \<open>True\<close>
  there, with the callback's state and the flags so far.
\<close>

type_synonym 's prop_step = "bool \<times> 's \<times> jspropinfo"

fun elements_loop ::
    "v8dbg \<Rightarrow> bool \<Rightarrow> 's prop_cb \<Rightarrow> nat \<Rightarrow> uptr list \<Rightarrow> 's \<Rightarrow> jspropinfo \<Rightarrow> 's prop_step option" where
  "elements_loop D holey func ii [] s propinfo = Some (False, s, propinfo)"
| "elements_loop D holey func ii (elt # elts) s propinfo = do {
     skip \<leftarrow> (if holey then jsobj_is_hole D elt else Some False);
     if skip then elements_loop D holey func (ii + 1) elts s propinfo
     else
       let propinfo = (if jsobj_maybe_garbage D elt then propinfo OR JPI_BADPROPS else propinfo)
       in (case func (show_int (int ii)) (Some (jsobj_propvalue_addr elt)) s of
             (rv, s) \<Rightarrow>
               if rv \<noteq> 0 then Some (True, s, propinfo)
               else elements_loop D holey func (ii + 1) elts s propinfo)
   }"

definition elements_kind :: "v8dbg \<Rightarrow> byte \<Rightarrow> byte" where
  "elements_kind D bit_field2 =
     (let kind = ucast (drop_bit (unat (gv D V8_ELEMENTS_KIND_SHIFT)) (ucast bit_field2 :: 32 word))
      in kind AND ucast (push_bit (unat (gv D V8_ELEMENTS_KIND_BITCOUNT)) 1 - 1 :: 32 word))"

definition jsobj_elements ::
    "v8dbg \<Rightarrow> uptr \<Rightarrow> uptr \<Rightarrow> byte \<Rightarrow> 's prop_cb \<Rightarrow> 's \<Rightarrow> jspropinfo \<Rightarrow> 's prop_step option" where
  "jsobj_elements D addr mapp type func s propinfo =
     (if gv D V8_ELEMENTS_KIND_SHIFT = - 1 \<or> is_type D type V8_TYPE_JSTYPEDARRAY
      then Some (False, s, propinfo)
      else (case read_heap_ptr D addr (gv D V8_OFF_JSOBJECT_ELEMENTS) of
         None \<Rightarrow> Some (False, s, propinfo)
       | Some elements \<Rightarrow>
           (case read_heap_array D elements {UM_SLEEP} of
              None \<Rightarrow> Some (False, s, propinfo)
            | Some elts \<Rightarrow>
                if elts = [] then Some (False, s, propinfo)
                else (case mem_vread D (mapp + gv D V8_OFF_MAP_BIT_FIELD2) 1 of
                   None \<Rightarrow> Some (True, s, propinfo)
                 | Some bs \<Rightarrow>
                     let kind = ucast (elements_kind D (ucast (le_word bs)));
                         propinfo = propinfo OR JPI_NUMERIC
                     in if kind = gv D V8_ELEMENTS_FAST_ELEMENTS \<or> kind = gv D V8_ELEMENTS_FAST_HOLEY_ELEMENTS
                        then elements_loop D (kind = gv D V8_ELEMENTS_FAST_HOLEY_ELEMENTS) func 0 elts s propinfo
                        else if kind = gv D V8_ELEMENTS_DICTIONARY_ELEMENTS then
                          (case read_heap_dict D elements func s (Some (propinfo OR JPI_DICT)) of
                             None \<Rightarrow> None
                           | Some (rv, s, pinfo) \<Rightarrow> Some (rv \<noteq> 0, s, the pinfo))
                        else Some (False, s, propinfo)))))"

section \<open>Named properties\<close>

text \<open>Whether the object is in dictionary mode; \<open>None\<close> is \<^verbatim>\<open>goto err\<close>.\<close>

definition jsobj_isdict :: "v8dbg \<Rightarrow> uptr \<Rightarrow> bool option" where
  "jsobj_isdict D mapp =
     (if gv D V8_DICT_SHIFT \<noteq> - 1 then
        (let flp = conf_field_lookup (v8_classes D) ''Map'' ''bit_field3'' in do {
           bit_field3 \<leftarrow>
             (if flp = None \<or> v8f_isbyte (the flp)
              then map_option (\<lambda>bs. ucast (ucast (le_word bs) :: 32 word)) (mem_vread D (mapp + gv D V8_OFF_MAP_BIT_FIELD3) 4)
              else map_option (\<lambda>bs. V8_SMI_VALUE D (le_word bs)) (mem_vread D (mapp + gv D V8_OFF_MAP_BIT_FIELD3) 8));
           Some (bit_field3 AND scast (push_bit (unat (gv D V8_DICT_SHIFT)) 1 :: 32 word) \<noteq> 0)
         })
      else if gv D V8_OFF_MAP_INSTANCE_DESCRIPTORS \<noteq> - 1 then
        map_option (\<lambda>bs. V8_SMI_VALUE D (le_word bs) = scast (push_bit (unat (gv D V8_ISSHARED_SHIFT)) 1 :: 32 word))
          (mem_vread D (mapp + gv D V8_OFF_MAP_INSTANCE_DESCRIPTORS) 8)
      else Some False)"

text \<open>
  Where the descriptors are: \<open>Some None\<close> is \<^verbatim>\<open>goto err\<close>, and the flag is set where
  they were found in the transitions array.
\<close>

definition jsobj_descriptors_ptr :: "v8dbg \<Rightarrow> uptr \<Rightarrow> jspropinfo \<Rightarrow> (uptr \<times> jspropinfo) option option" where
  "jsobj_descriptors_ptr D mapp propinfo =
     (if gv D V8_OFF_MAP_INSTANCE_DESCRIPTORS = - 1 then
        (if gv D V8_OFF_MAP_TRANSITIONS = - 1 \<or> gv D V8_TRANSITIONS_IDX_DESC = - 1 \<or>
            gv D V8_PROP_IDX_CONTENT \<noteq> - 1
         then Some None
         else (case mem_vread D (mapp + gv D V8_OFF_MAP_TRANSITIONS) 8 of
            None \<Rightarrow> Some None
          | Some bs \<Rightarrow>
              (case read_heap_array D (le_word bs) {UM_SLEEP} of
                 None \<Rightarrow> Some None
               | Some transarr \<Rightarrow>
                   if \<not> unat (gv D V8_TRANSITIONS_IDX_DESC) < length transarr then None
                   else Some (Some (transarr ! unat (gv D V8_TRANSITIONS_IDX_DESC), propinfo OR JPI_HASTRANSITIONS)))))
      else Some (map_option (\<lambda>bs. (le_word bs, propinfo)) (mem_vread D (mapp + gv D V8_OFF_MAP_INSTANCE_DESCRIPTORS) 8)))"

text \<open>
  What the loop over the descriptors works with. \<open>po_content\<close> is \<open>None\<close> where the variable
  stays uninitialised.
\<close>

record propobj =
  po_addr :: uptr
  po_props :: "uptr list"
  po_descs :: "uptr list"
  po_content :: "uptr list option"
  po_rndescs :: int
  po_size :: uptr
  po_ninprops :: byte
  po_layout :: jsobj_layout

text \<open>The content array and the number of descriptors.\<close>

definition jsobj_content ::
    "v8dbg \<Rightarrow> uptr list \<Rightarrow> jspropinfo \<Rightarrow> (uptr list option \<times> int \<times> jspropinfo) option option" where
  "jsobj_content D descs propinfo =
     (let ndescs = of_nat (length descs); first = gv D V8_PROP_IDX_FIRST; idx = gv D V8_PROP_IDX_CONTENT in
      if idx = - 1 then
        (if first < ndescs then
           (if gv D V8_PROP_DESC_SIZE = 0 then None
            else Some (Some (Some descs, sint ((ndescs - first) div gv D V8_PROP_DESC_SIZE), propinfo)))
         else Some (Some (Some descs, 0, propinfo)))
      else if idx < ndescs then
        (case read_heap_array D (descs ! unat idx) {UM_SLEEP} of
           None \<Rightarrow> Some None
         | Some content \<Rightarrow> Some (Some (Some content, sint (ndescs - first), propinfo OR JPI_HASCONTENT)))
      else Some (Some (None, sint (ndescs - first), propinfo OR JPI_HASCONTENT)))"

text \<open>The indexes of a descriptor's key, value and details.\<close>

definition desc_indexes :: "v8dbg \<Rightarrow> uptr \<Rightarrow> uptr \<times> uptr \<times> uptr" where
  "desc_indexes D ii =
     (if gv D V8_PROP_IDX_CONTENT \<noteq> - 1
      then (ii + gv D V8_PROP_IDX_FIRST, push_bit 1 ii, push_bit 1 ii + 1)
      else let baseidx = gv D V8_PROP_IDX_FIRST + ii * gv D V8_PROP_DESC_SIZE
        in (baseidx + gv D V8_PROP_DESC_KEY, baseidx + gv D V8_PROP_DESC_VALUE, baseidx + gv D V8_PROP_DESC_DETAILS))"

text \<open>
  The name of a property; \<open>Inl\<close> is the flag with which it is left out.
\<close>

definition desc_name :: "v8dbg \<Rightarrow> uptr \<Rightarrow> (jspropinfo + string) option" where
  "desc_name D key = do {
     (rv, b, _) \<leftarrow> jsstr_print D key JSSTR_NUDE \<lparr>lb_text = [], lb_len = 1024\<rparr>;
     if rv \<noteq> 0 then do {
       undefd \<leftarrow> jsobj_is_undefined D key;
       Some (Inl (if undefd then JPI_UNDEFPROPNAME else JPI_SKIPPED))
     }
     else Some (Inr (lbuf_cstr b))
   }"

text \<open>
  Where the value is: \<open>propidx\<close>, \<open>propaddr\<close> (0 for none) and \<open>proparrayidx\<close> (-1
  for none), or \<open>None\<close> where the value index is no small integer.
\<close>

definition desc_place :: "v8dbg \<Rightarrow> propobj \<Rightarrow> uptr list \<Rightarrow> uptr \<Rightarrow> uptr \<Rightarrow> (uptr \<times> uptr \<times> uptr) option option" where
  "desc_place D po content validx detidx =
     (let ninprops = ucast (po_ninprops po) in
      if 3 < v8_major D \<or> v8_major D = 3 \<and> 26 \<le> v8_minor D then
        (let propidx = V8_PROP_FIELDINDEX D (content ! unat detidx) in
         if sint propidx < sint ninprops
         then Some (Some (propidx, po_addr po + V8_OFF_HEAP D (po_size po - (ninprops - propidx) * of_nat PTRSZ), - 1))
         else Some (Some (propidx, 0, propidx - ninprops)))
      else if \<not> unat validx < length content then None
      else (let val = content ! unat validx in
        if \<not> V8_IS_SMI D val then Some None
        else (let propidx = V8_SMI_VALUE_INTPTR D val - ninprops in
          if sint propidx < 0
          then Some (Some (propidx, po_addr po + V8_OFF_HEAP D (po_size po + propidx * of_nat PTRSZ), - 1))
          else Some (Some (propidx, 0, propidx)))))"

text \<open>Reading the value: skipped with flags, an error with flags, or found with flags.\<close>

datatype prop_read = PR_SKIP jspropinfo | PR_ERR jspropinfo | PR_VALUE uptr jspropinfo

definition desc_read :: "v8dbg \<Rightarrow> propobj \<Rightarrow> uptr \<Rightarrow> uptr \<Rightarrow> uptr \<Rightarrow> prop_read" where
  "desc_read D po propidx propaddr proparrayidx =
     (if propaddr \<noteq> 0 then
        (case mem_vread D propaddr 8 of
           None \<Rightarrow> PR_SKIP JPI_SKIPPED
         | Some bs \<Rightarrow> PR_VALUE (le_word bs) JPI_INOBJECT)
      else if 0 \<le> sint proparrayidx \<and> proparrayidx < of_nat (length (po_props po))
      then PR_VALUE (po_props po ! unat proparrayidx) JPI_PROPS
      else if sint propidx < po_rndescs po then PR_SKIP 0
      else PR_ERR JPI_SKIPPED)"

text \<open>The body of the loop.\<close>

definition desc_visit ::
    "v8dbg \<Rightarrow> propobj \<Rightarrow> uptr list \<Rightarrow> uptr \<Rightarrow> uptr \<Rightarrow> string \<Rightarrow> 's prop_cb \<Rightarrow> 's \<Rightarrow> jspropinfo \<Rightarrow> 's prop_step option" where
  "desc_visit D po content validx detidx buf func s propinfo =
     (case desc_place D po content validx detidx of
        None \<Rightarrow> None
      | Some None \<Rightarrow> Some (False, s, propinfo OR JPI_SKIPPED)
      | Some (Some (propidx, propaddr, proparrayidx)) \<Rightarrow>
          (case desc_read D po propidx propaddr proparrayidx of
             PR_SKIP p \<Rightarrow> Some (False, s, propinfo OR p)
           | PR_ERR p \<Rightarrow> Some (True, s, propinfo OR p)
           | PR_VALUE ptr p \<Rightarrow> do {
               untagged \<leftarrow> jsobj_layout_untagged (po_layout po) propidx;
               let propinfo = propinfo OR p;
               let propinfo = (if \<not> untagged \<and> jsobj_maybe_garbage D ptr then propinfo OR JPI_BADPROPS else propinfo);
               let value = (if untagged then jsobj_propvalue_double ptr else jsobj_propvalue_addr ptr);
               let (rv, s) = func buf (Some value) s;
               Some (rv \<noteq> 0, s, propinfo)
             }))"

definition desc_step ::
    "v8dbg \<Rightarrow> propobj \<Rightarrow> uptr \<Rightarrow> 's prop_cb \<Rightarrow> 's \<Rightarrow> jspropinfo \<Rightarrow> 's prop_step option" where
  "desc_step D po ii func s propinfo =
     (case po_content po of
        None \<Rightarrow> None
      | Some content \<Rightarrow>
          (case desc_indexes D ii of (keyidx, validx, detidx) \<Rightarrow>
             if of_nat (length content) \<le> detidx then Some (False, s, propinfo OR JPI_SKIPPED)
             else if \<not> V8_DESC_ISFIELD D (content ! unat detidx) then Some (False, s, propinfo)
             else if of_nat (length (po_descs po)) \<le> keyidx then Some (False, s, propinfo OR JPI_SKIPPED)
             else (case desc_name D (po_descs po ! unat keyidx) of
                None \<Rightarrow> None
              | Some (Inl p) \<Rightarrow> Some (False, s, propinfo OR p)
              | Some (Inr buf) \<Rightarrow> desc_visit D po content validx detidx buf func s propinfo)))"

fun desc_loop ::
    "v8dbg \<Rightarrow> propobj \<Rightarrow> nat \<Rightarrow> uptr \<Rightarrow> 's prop_cb \<Rightarrow> 's \<Rightarrow> jspropinfo \<Rightarrow> 's prop_step option" where
  "desc_loop D po 0 ii func s propinfo = Some (False, s, propinfo)"
| "desc_loop D po (Suc n) ii func s propinfo = do {
     (err, s, propinfo) \<leftarrow> desc_step D po ii func s propinfo;
     if err then Some (True, s, propinfo) else desc_loop D po n (ii + 1) func s propinfo
   }"

text \<open>
  What is read before the loop: \<open>Some None\<close> is \<^verbatim>\<open>goto err\<close>.
\<close>

definition jsobj_propobj ::
    "v8dbg \<Rightarrow> uptr \<Rightarrow> uptr \<Rightarrow> uptr \<Rightarrow> jspropinfo \<Rightarrow> (propobj \<times> jspropinfo) option option" where
  "jsobj_propobj D addr ptr mapp propinfo =
     (case read_heap_array D ptr {UM_SLEEP} of
        None \<Rightarrow> Some None
      | Some props \<Rightarrow>
          (case jsobj_descriptors_ptr D mapp propinfo of
             None \<Rightarrow> None
           | Some None \<Rightarrow> Some None
           | Some (Some (dptr, propinfo)) \<Rightarrow>
               (case read_heap_array D dptr {UM_SLEEP} of
                  None \<Rightarrow> Some None
                | Some descs \<Rightarrow>
                    (case mem_vread D (mapp + gv D V8_OFF_MAP_INOBJECT_PROPERTIES) 1 of
                       None \<Rightarrow> Some None
                     | Some bs \<Rightarrow>
                         (case jsobj_content D descs propinfo of
                            None \<Rightarrow> None
                          | Some None \<Rightarrow> Some None
                          | Some (Some (content, rndescs, propinfo)) \<Rightarrow>
                              Some (map_option (\<lambda>layout.
                                (\<lparr>po_addr = addr, po_props = props, po_descs = descs, po_content = content,
                                  po_rndescs = rndescs,
                                  po_size = (case read_size D addr of None \<Rightarrow> 0 | Some sz \<Rightarrow> sz),
                                  po_ninprops = ucast (le_word bs), po_layout = layout\<rparr>, propinfo))
                                (jsobj_layout_load D mapp)))))))"

text \<open>The tail of \<open>jsobj_properties\<close>: an object that is not in dictionary mode.\<close>

definition jsobj_named ::
    "v8dbg \<Rightarrow> uptr \<Rightarrow> uptr \<Rightarrow> uptr \<Rightarrow> 's prop_cb \<Rightarrow> 's \<Rightarrow> jspropinfo \<Rightarrow> jspropinfo option \<Rightarrow>
     (int \<times> 's \<times> jspropinfo option) option" where
  "jsobj_named D addr ptr mapp func s propinfo propinfop =
     (case jsobj_propobj D addr ptr mapp propinfo of
        None \<Rightarrow> None
      | Some None \<Rightarrow> Some (- 1, s, propinfop)
      | Some (Some (po, propinfo)) \<Rightarrow> do {
          (err, s, propinfo) \<leftarrow> desc_loop D po (nat (po_rndescs po)) 0 func s propinfo;
          Some (if err then (- 1, s, propinfop) else (0, s, map_option (\<lambda>_. propinfo) propinfop))
        })"

text \<open>The properties that are no elements: a dictionary, or described by descriptors.\<close>

definition jsobj_nonnumeric ::
    "v8dbg \<Rightarrow> uptr \<Rightarrow> uptr \<Rightarrow> uptr \<Rightarrow> 's prop_cb \<Rightarrow> jspropinfo \<Rightarrow> 's \<Rightarrow> jspropinfo option \<Rightarrow>
     (int \<times> 's \<times> jspropinfo option) option" where
  "jsobj_nonnumeric D addr ptr mapp func propinfo s propinfop =
     (case jsobj_isdict D mapp of
        None \<Rightarrow> Some (- 1, s, propinfop)
      | Some True \<Rightarrow> read_heap_dict D ptr func s (map_option (\<lambda>_. propinfo OR JPI_DICT) propinfop)
      | Some False \<Rightarrow> jsobj_named D addr ptr mapp func s propinfo propinfop)"

definition jsobj_properties ::
    "v8dbg \<Rightarrow> uptr \<Rightarrow> 's prop_cb \<Rightarrow> 's \<Rightarrow> jspropinfo option \<Rightarrow> (int \<times> 's \<times> jspropinfo option) option" where
  "jsobj_properties D addr func s propinfop =
     (case mem_vread D (addr + gv D V8_OFF_JSOBJECT_PROPERTIES) 8 of
        None \<Rightarrow> Some (- 1, s, propinfop)
      | Some bs \<Rightarrow>
          let ptr = le_word bs in
          (case read_typebyte D ptr of
             None \<Rightarrow> Some (- 1, s, propinfop)
           | Some type \<Rightarrow>
               if \<not> is_type D type V8_TYPE_FIXEDARRAY then
                 (case enum_lookup_str NTYPES (v8_types D) (ucast type) (Some ''unknown'') of
                    None \<Rightarrow> None
                  | Some typename \<Rightarrow>
                      let buf = take 255 (''<'' @ the typename @ ''>'')
                      in (case func buf None s of
                            (rv, s) \<Rightarrow> Some (rv, s, map_option (\<lambda>_. JPI_BADLAYOUT) propinfop)))
               else (case mem_vread D (addr + gv D V8_OFF_HEAPOBJECT_MAP) 8 of
                  None \<Rightarrow> Some (- 1, s, propinfop)
                | Some bs \<Rightarrow>
                    let mapp = le_word bs in
                    (case jsobj_elements D addr mapp type func s JPI_NONE of
                       None \<Rightarrow> None
                     | Some (True, s, propinfo) \<Rightarrow> Some (- 1, s, propinfop)
                     | Some (False, s, propinfo) \<Rightarrow> jsobj_nonnumeric D addr ptr mapp func propinfo s propinfop))))"

text \<open>A callback that does nothing.\<close>

definition jsobj_noop :: "'s prop_cb" where
  "jsobj_noop name propval s = (0, s)"

section \<open>Lemmas: layouts\<close>

lemma length_le_words32 [simp]: "length (le_words32 n bs) = n"
  by (induction n arbitrary: bs) auto

text \<open>Where the words of a layout are, and how many.\<close>

definition layout_ok :: "jsobj_layout \<Rightarrow> bool" where
  "layout_ok layout \<longleftrightarrow> length (jl_bitvecs layout) = 8 \<and> unat (jl_length layout) \<le> 8 \<and>
     (jl_haslayout layout \<and> \<not> jl_array layout \<longrightarrow> jl_length layout = 1) \<and>
     (jl_alltagged layout \<longrightarrow> jl_length layout = 1 \<and> jl_bitvecs layout ! 0 = 0)"

lemma layout_load_ok:
  assumes "jsobj_layout_load D mapp = Some layout" shows "layout_ok layout"
proof -
  have z: "length (jl_bitvecs layout_zero) = 8" "jl_length layout_zero = 0" "\<not> jl_haslayout layout_zero"
    "\<not> jl_alltagged layout_zero" by (simp_all add: layout_zero_def JL_MAXBITVECS_def)
  have n: "\<not> of_nat JL_MAXBITVECS < len \<longleftrightarrow> unat len \<le> 8" for len :: uptr
    by (simp add: JL_MAXBITVECS_def uptr_less_unat not_less)
  show ?thesis
    using assms z
    by (auto simp: jsobj_layout_load_def layout_ok_def Let_def n split: if_splits Option.bind_splits)
qed

text \<open>The bit vector of a layout as a single predicate.\<close>

definition layout_bit :: "jsobj_layout \<Rightarrow> nat \<Rightarrow> bool" where
  "layout_bit layout k \<longleftrightarrow> jl_haslayout layout \<and> k < 32 * unat (jl_length layout) \<and>
     bit (jl_bitvecs layout ! (k div 32)) (k mod 32)"

lemma mask_and_bit: "2 ^ k AND (w :: 32 word) = 0 \<longleftrightarrow> \<not> bit w k" if "k < 32"
proof
  assume "2 ^ k AND w = 0"
  then have "\<not> bit (2 ^ k AND w) k" by simp
  then show "\<not> bit w k" using that by (simp add: bit_simps)
next
  assume "\<not> bit w k"
  then show "2 ^ k AND w = 0" by (intro bit_word_eqI) (auto simp: bit_simps)
qed

lemma layout_untagged_bit:
  assumes "layout_ok layout" and "unat k < 2 ^ 36"
  shows "jsobj_layout_untagged layout k = Some (layout_bit layout (unat k))"
proof -
  let ?q = "unat k div 32"
  have q: "?q < 2 ^ 31" using assms(2) by (simp add: less_mult_imp_div_less)
  have "unat (ucast (k div 32) :: 32 word) = ?q"
    using q by (simp add: unsigned_ucast_eq take_bit_nat_eq_self_iff unat_div)
  then have w: "sint (ucast (k div 32) :: 32 word) = int ?q"
    using q by (simp add: sint_uint uint_nat signed_take_bit_int_eq_self_iff)
  have le: "jl_length layout \<le> of_int (int ?q) \<longleftrightarrow> unat (jl_length layout) \<le> ?q"
    using q by (simp add: uptr_le_unat unat_of_nat_lt)
  have r: "unat (k mod 32) = unat k mod 32" by (simp add: unat_mod)
  have lt: "unat k < 32 * unat (jl_length layout) \<longleftrightarrow> \<not> unat (jl_length layout) \<le> ?q" by linarith
  show ?thesis
  proof (cases "jl_haslayout layout \<and> \<not> jl_alltagged layout")
    case False
    then show ?thesis using assms(1)
      by (auto simp: jsobj_layout_untagged_def layout_bit_def layout_ok_def)
  next
    case True
    then show ?thesis using assms(1) le lt r
      by (auto simp: jsobj_layout_untagged_def layout_bit_def layout_ok_def w JL_MAXBITVECS_def mask_and_bit)
  qed
qed

section \<open>Lemmas: dictionaries\<close>

lemma sint_nonneg:
  assumes "0 \<le> sint (w :: uptr)" shows "sint w = int (unat w)" "unat w < 2 ^ 63"
proof -
  have lt: "sint w < 2 ^ 63" using sint_less [of w] by simp
  have "uint w = take_bit 64 (sint w)" using uint_sint [of w] by simp
  also have "\<dots> = sint w" using lt assms by (simp add: take_bit_int_eq_self_iff)
  finally have "sint w = uint w" by (rule sym)
  then show eq: "sint w = int (unat w)" by (simp only: uint_nat)
  have "int (unat w) < int (2 ^ 63)" using lt unfolding eq by (simp only: of_nat_power of_nat_numeral)
  then show "unat w < 2 ^ 63" by (simp only: of_nat_less_iff)
qed

text \<open>The positions of the keys in a dictionary of \<open>n\<close> words, from position \<open>lo\<close> on.\<close>

definition dict_start :: "v8dbg \<Rightarrow> nat" where
  "dict_start D = unat (gv D V8_DICT_START_INDEX + gv D V8_DICT_PREFIX_SIZE)"

definition dict_slots :: "v8dbg \<Rightarrow> nat \<Rightarrow> nat \<Rightarrow> nat list" where
  "dict_slots D n lo =
     filter (\<lambda>k. dict_start D \<le> k \<and> unat (gv D V8_DICT_ENTRY_SIZE) dvd k - dict_start D) [lo..<n - 1]"

text \<open>The properties the entries at some positions stand for, up to a key that is no name,
  and the result.\<close>

fun dict_visits :: "v8dbg \<Rightarrow> uptr list \<Rightarrow> nat list \<Rightarrow> (string \<times> v8propvalue option) list" where
  "dict_visits D dict [] = []"
| "dict_visits D dict (k # ks) =
     (case dict_key_name D (dict ! k) of
        Some DK_FAIL \<Rightarrow> []
      | Some (DK_NAME name) \<Rightarrow> (name, Some (jsobj_propvalue_addr (dict ! (k + 1)))) # dict_visits D dict ks
      | _ \<Rightarrow> dict_visits D dict ks)"

fun dict_result :: "v8dbg \<Rightarrow> uptr list \<Rightarrow> nat list \<Rightarrow> int" where
  "dict_result D dict [] = 0"
| "dict_result D dict (k # ks) =
     (if dict_key_name D (dict ! k) = Some DK_FAIL then - 1 else dict_result D dict ks)"

text \<open>The callback as a dictionary sees it: only \<open>-1\<close> stops the iteration.\<close>

definition dict_cb :: "'s prop_cb \<Rightarrow> string \<times> v8propvalue option \<Rightarrow> 's \<Rightarrow> int \<times> 's" where
  "dict_cb func nv s = (case func (fst nv) (snd nv) s of (rv, s') \<Rightarrow> (if rv = - 1 then - 1 else 0, s'))"

lemma dict_slots_step:
  assumes "dict_start D \<le> k" "unat (gv D V8_DICT_ENTRY_SIZE) dvd k - dict_start D"
    and "0 < unat (gv D V8_DICT_ENTRY_SIZE)" "k < n - 1"
  shows "dict_slots D n k = k # dict_slots D n (k + unat (gv D V8_DICT_ENTRY_SIZE))"
proof -
  let ?e = "unat (gv D V8_DICT_ENTRY_SIZE)" and ?st = "dict_start D"
  let ?P = "\<lambda>k. ?st \<le> k \<and> ?e dvd k - ?st"
  have mid: "filter ?P [Suc k..<min (k + ?e) (n - 1)] = []"
  proof -
    have False if "Suc k \<le> j" "j < k + ?e" "?st \<le> j" "?e dvd j - ?st" for j
    proof -
      have "?e dvd (j - ?st) - (k - ?st)" using assms(2) that(4) by (rule dvd_diff_nat [rotated])
      then have "?e dvd j - k" using assms(1) that by simp
      then show False using that by (auto dest!: dvd_imp_le)
    qed
    then show ?thesis unfolding filter_empty_conv by (auto simp: not_less)
  qed
  have "[k..<n - 1] = k # [Suc k..<n - 1]" using assms(4) by (simp add: upt_conv_Cons)
  moreover have "[Suc k..<n - 1] = [Suc k..<min (k + ?e) (n - 1)] @ [k + ?e..<n - 1]"
  proof (cases "k + ?e \<le> n - 1")
    case True
    then obtain m where m: "n - 1 = k + ?e + m" using le_Suc_ex by blast
    have "[Suc k..<n - 1] = [Suc k..<k + ?e] @ [k + ?e..<n - 1]"
      unfolding m by (rule upt_add_eq_append) (use assms(3) in linarith)
    with True show ?thesis by (simp add: min_def)
  qed (simp add: min_def)
  ultimately have "[k..<n - 1] = k # [Suc k..<min (k + ?e) (n - 1)] @ [k + ?e..<n - 1]" by simp
  then show ?thesis
    unfolding dict_slots_def by (simp only: filter.simps filter_append mid append_Nil assms(1,2) if_True simp_thms)
qed

lemma dict_key_name_total:
  assumes "target_ok D" "types_end D" shows "\<exists>r. dict_key_name D key = Some r"
proof -
  have "lbuf_ok \<lparr>lb_text = [], lb_len = 512\<rparr>" by (simp add: lbuf_ok_def)
  from jsstr_print_grown [OF assms(1) this, of key JSSTR_NUDE]
  obtain rv b out where "jsstr_print D key JSSTR_NUDE \<lparr>lb_text = [], lb_len = 512\<rparr> = Some (rv, b, out)" by blast
  moreover obtain u where "jsobj_is_undefined D key = Some u" using jsobj_is_undefined_total [OF assms] by blast
  moreover obtain h where "jsobj_is_hole D key = Some h" using jsobj_is_hole_total [OF assms] by blast
  ultimately show ?thesis by (cases "read_typebyte D key") (auto simp: dict_key_name_def)
qed

lemma dict_loop_entries:
  assumes "target_ok D" "2 \<le> sint (gv D V8_DICT_ENTRY_SIZE)" "length dict < 2 ^ 32"
    and ends: "types_end D"
    and "unat i < 2 ^ 64 - 1" "dict_start D \<le> unat i"
    and "unat (gv D V8_DICT_ENTRY_SIZE) dvd unat i - dict_start D"
  shows "\<exists>p. read_heap_dict_loop D dict func i s propinfo =
    (let ks = dict_slots D (length dict) (unat i) in
     Some (case cb_iter (dict_cb func) (dict_visits D dict ks) s of
             (rv, s') \<Rightarrow> (if rv \<noteq> 0 then - 1 else dict_result D dict ks, s', p)))"
  using assms(5-7)
proof (induction "length dict - unat i" arbitrary: i s propinfo rule: less_induct)
  case less
  let ?e = "gv D V8_DICT_ENTRY_SIZE" and ?n = "length dict"
  have e: "2 \<le> unat ?e" "unat ?e < 2 ^ 63"
  proof -
    show "2 \<le> unat ?e" "unat ?e < 2 ^ 63" using sint_nonneg [of ?e] assms(2) by linarith+
  qed
  have i1: "unat (i + 1) = unat i + 1" using unat_add_lt [of i 1] less.prems(1) by simp
  have test: "i + 1 < of_nat ?n \<longleftrightarrow> unat i + 1 < ?n"
    using assms(3) i1 by (simp add: uptr_less_unat unat_of_nat_lt)
  show ?case
  proof (cases "unat i + 1 < ?n")
    case False
    then have "dict_slots D ?n (unat i) = []" by (simp add: dict_slots_def)
    with False test show ?thesis by (subst read_heap_dict_loop.simps) (simp add: Let_def cong: if_cong)
  next
    case True
    have step: "dict_slots D ?n (unat i) = unat i # dict_slots D ?n (unat i + unat ?e)"
      by (rule dict_slots_step) (use less.prems e True in auto)
    have nxt: "unat (i + ?e) = unat i + unat ?e"
      by (rule unat_add_lt) (use True assms(3) e in simp)
    have IH: "\<exists>p. read_heap_dict_loop D dict func (i + ?e) s propinfo =
      (let ks = dict_slots D ?n (unat i + unat ?e) in
       Some (case cb_iter (dict_cb func) (dict_visits D dict ks) s of
               (rv, s') \<Rightarrow> (if rv \<noteq> 0 then - 1 else dict_result D dict ks, s', p)))" for s propinfo
      unfolding nxt [symmetric]
    proof (rule less.hyps)
      show "?n - unat (i + ?e) < ?n - unat i" using True e nxt by linarith
      show "unat (i + ?e) < 2 ^ 64 - 1" using True assms(3) e nxt by simp
      show "dict_start D \<le> unat (i + ?e)" using less.prems(2) nxt by linarith
      have "unat (i + ?e) - dict_start D = (unat i - dict_start D) + unat ?e" using less.prems(2) nxt by simp
      then show "unat ?e dvd unat (i + ?e) - dict_start D" using less.prems(3) by simp
    qed
    obtain k where k: "dict_key_name D (dict ! unat i) = Some k" using dict_key_name_total [OF assms(1) ends] by blast
    show ?thesis
    proof (cases k)
      case DK_SKIP
      with k test True IH [of s propinfo] step show ?thesis
        by (subst read_heap_dict_loop.simps) (simp add: Let_def cong: if_cong)
    next
      case DK_FAIL
      with k test True step show ?thesis
        by (subst read_heap_dict_loop.simps) (simp add: Let_def cong: if_cong)
    next
      case (DK_NAME name)
      let ?v = "dict ! (unat i + 1)"
      let ?p = "if jsobj_maybe_garbage D ?v then map_option (\<lambda>p. p OR JPI_BADPROPS) propinfo else propinfo"
      obtain rv s1 where f: "func name (Some (jsobj_propvalue_addr ?v)) s = (rv, s1)" by fastforce
      from DK_NAME k test True step f IH [of s1 ?p] show ?thesis
        by (subst read_heap_dict_loop.simps) (simp add: Let_def dict_cb_def cong: if_cong)
    qed
  qed
qed

text \<open>
  What iterating a dictionary does, in terms of its array. The constants are those of an entry,
  and the table of types ends, as it does in every configured module.
\<close>

definition dict_constants_ok :: "v8dbg \<Rightarrow> bool" where
  "dict_constants_ok D \<longleftrightarrow> 2 \<le> sint (gv D V8_DICT_ENTRY_SIZE) \<and> dict_start D < 2 ^ 32 \<and> types_end D"

lemma read_heap_array_length:
  "v8_tags_amd64 D \<Longrightarrow> read_heap_array D addr flags = Some elts \<Longrightarrow> length elts < 2 ^ 32"
  using read_heap_array_Some read_heap_smi_bound by metis

lemma read_heap_dict_entries:
  assumes "target_ok D" "dict_constants_ok D" "read_heap_array D addr {UM_SLEEP} = Some dict"
  shows "\<exists>p. read_heap_dict D addr func s propinfo =
    (let ks = dict_slots D (length dict) (dict_start D) in
     Some (case cb_iter (dict_cb func) (dict_visits D dict ks) s of
             (rv, s') \<Rightarrow> (if rv \<noteq> 0 then - 1 else dict_result D dict ks, s', p)))"
proof -
  have len: "length dict < 2 ^ 32" by (rule read_heap_array_length [OF target_okD(2) [OF assms(1)] assms(3)])
  have e: "2 \<le> sint (gv D V8_DICT_ENTRY_SIZE)" "dict_start D < 2 ^ 64 - 1" "types_end D"
    using assms(2) by (simp_all add: dict_constants_ok_def)
  show ?thesis
    using dict_loop_entries [OF assms(1) e(1) len e(3), of "gv D V8_DICT_START_INDEX + gv D V8_DICT_PREFIX_SIZE" func s propinfo]
      e assms(3) by (simp add: read_heap_dict_def flip: dict_start_def)
qed

section \<open>Properties\<close>

text \<open>
  C35. A layout descriptor is a bit vector: for every field number an object can have, the
  module's answer is the bit of the descriptor's words at that number, and \<open>False\<close> past
  their end, in the small form inside a small integer as in the form of an array of words.
  No assertion fails.
\<close>

theorem layout_descriptor_bits:
  assumes "v8_tags_amd64 D" and "jsobj_layout_load D mapp = Some layout" and "unat k < 2 ^ 36"
  shows "jsobj_layout_untagged layout k =
    Some (gv D V8_OFF_MAP_LAYOUT_DESCRIPTOR \<noteq> - 1 \<and> unat k < 32 * unat (jl_length layout) \<and>
          bit (jl_bitvecs layout ! (unat k div 32)) (unat k mod 32)) \<and>
    (V8_IS_SMI D (jl_descriptor layout) \<longrightarrow> gv D V8_OFF_MAP_LAYOUT_DESCRIPTOR \<noteq> - 1 \<longrightarrow>
       jsobj_layout_untagged layout k = Some (unat k < 32 \<and> bit (V8_SMI_VALUE D (jl_descriptor layout)) (unat k)))"
proof -
  have has: "jl_haslayout layout \<longleftrightarrow> gv D V8_OFF_MAP_LAYOUT_DESCRIPTOR \<noteq> - 1"
    using assms(2) by (auto simp: jsobj_layout_load_def layout_zero_def Let_def split: if_splits Option.bind_splits)
  have small: "jl_length layout = 1 \<and> jl_bitvecs layout ! 0 = ucast (V8_SMI_VALUE D (jl_descriptor layout))"
    if "V8_IS_SMI D (jl_descriptor layout)" "gv D V8_OFF_MAP_LAYOUT_DESCRIPTOR \<noteq> - 1"
    using assms(2) that
    by (auto simp: jsobj_layout_load_def layout_zero_def Let_def JL_MAXBITVECS_def split: if_splits Option.bind_splits)
  show ?thesis
    using layout_untagged_bit [OF layout_load_ok [OF assms(2)] assms(3)] has small
    by (auto simp: layout_bit_def bit_ucast_iff)
qed

text \<open>A Map whose descriptor is the small integer 9: the fields 0 and 3 are untagged.\<close>

definition layout_dbg :: v8dbg where
  "layout_dbg = (sample_dbg [(8264, push_bit 32 9)])\<lparr>gv := (values_at sample_values)(V8_OFF_MAP_LAYOUT_DESCRIPTOR := 71)\<rparr>"

lemma layout_descriptor_bits_witness:
  "\<exists>layout. jsobj_layout_load layout_dbg 8193 = Some layout \<and> jsobj_layout_untagged layout 3 = Some True \<and>
     jsobj_layout_untagged layout 2 = Some False"
proof -
  have g: "gv layout_dbg V8_OFF_MAP_LAYOUT_DESCRIPTOR = 71" "gv layout_dbg V8_SmiTagMask = 1" "gv layout_dbg V8_SmiTag = 0"
    and tags: "v8_tags_amd64 layout_dbg"
    by (simp_all add: layout_dbg_def sample_values_def v8_tags_amd64_def)
  have "read_heap_ptr layout_dbg 8193 71 = Some (push_bit 32 9)"
    using sample_ptr [of 8193 71 "[(8264, push_bit 32 9)]"] by (simp add: read_heap_ptr_def layout_dbg_def)
  then obtain layout where l: "jsobj_layout_load layout_dbg 8193 = Some layout" "jl_descriptor layout = push_bit 32 9"
    by (auto simp: jsobj_layout_load_def g V8_IS_SMI_def Let_def layout_zero_def push_bit_eq_mult)
  have v: "V8_SMI_VALUE layout_dbg (push_bit 32 9) = 9" "V8_IS_SMI layout_dbg (push_bit 32 9)"
    using smi_shift_amd64 [OF tags] by (simp_all add: V8_SMI_VALUE_def V8_IS_SMI_def g push_bit_eq_mult drop_bit_eq_div)
  have "unat (3 :: uptr) < 2 ^ 36" "unat (2 :: uptr) < 2 ^ 36" by simp_all
  from layout_descriptor_bits [OF tags l(1) this(1)] layout_descriptor_bits [OF tags l(1) this(2)] l v g
  show ?thesis by (auto simp: bit_numeral_rec)
qed

text \<open>
  C23. Iterating a dictionary hands the callback the name and value of every entry whose key
  is neither undefined nor the hole, in order, up to a key that is no name; it goes on after
  any result of the callback but -1, and fails exactly if a callback did or such a key was
  reached.
\<close>

theorem dictionary_entries:
  assumes "target_ok D" and "dict_constants_ok D" and "read_heap_array D addr {UM_SLEEP} = Some dict"
  shows "\<exists>p. read_heap_dict D addr func s propinfo =
    (let ks = dict_slots D (length dict) (dict_start D) in
     Some (case cb_iter (dict_cb func) (dict_visits D dict ks) s of
             (rv, s') \<Rightarrow> (if rv \<noteq> 0 then - 1 else dict_result D dict ks, s', p)))"
  by (rule read_heap_dict_entries [OF assms])

text \<open>A dictionary with one entry, from 5 to 7.\<close>

definition dict_words :: "(uptr \<times> uptr) list" where
  "dict_words = [(4096, 8193), (8200, 164), (4104, push_bit 32 8), (4152, push_bit 32 5), (4160, push_bit 32 7)]"

definition name_cb :: "string prop_cb" where
  "name_cb n v s = (1, s @ n)"

lemma dictionary_entries_witness:
  "\<exists>p. read_heap_dict (sample_dbg dict_words) 4097 name_cb [] None = Some (0, ''5'', p)"
proof -
  let ?D = "sample_dbg dict_words"
  let ?dict = "map (\<lambda>i. words_at dict_words (4097 + 15 + 8 * of_nat i)) [0..<8]"
  have arr: "read_heap_array ?D 4097 {UM_SLEEP} = Some ?dict"
    by (rule sample_heap_array) (simp_all add: dict_words_def push_bit_eq_mult)
  have pconst: "dict_constants_ok ?D" "dict_start ?D = 5" "unat (gv ?D V8_DICT_ENTRY_SIZE) = 3"
    by (simp_all add: dict_constants_ok_def dict_start_def sample_values_def)
  have "dict_slots ?D 8 5 = filter (\<lambda>k. 5 \<le> k \<and> 3 dvd k - 5) [5..<7]" unfolding dict_slots_def pconst by simp
  also have "\<dots> = [5]" by (simp add: upt_rec)
  finally have slots: "dict_slots ?D 8 5 = [5]" .
  have "read_typebyte ?D 21474836480 = None"
    by (simp add: read_typebyte_def sample_values_def sample_vread_def upt_rec sample_byte_def dict_words_def V8_IS_HEAPOBJECT_def)
  then have "jsobj_is_undefined ?D 21474836480 = Some False" by (simp add: jsobj_is_undefined_def jsobj_is_oddball_def)
  moreover have "V8_IS_SMI ?D 21474836480" "V8_SMI_VALUE ?D 21474836480 = 5"
    using smi_shift_amd64 [OF sample_tags, of dict_words]
    by (simp_all add: V8_IS_SMI_def V8_SMI_VALUE_def sample_values_def drop_bit_eq_div)
  moreover have "show_int 5 = ''5''" by (simp add: show_int_def digits_of.simps digit_char_def char_of_def bit_simps)
  ultimately have "dict_key_name ?D 21474836480 = Some (DK_NAME ''5'')" by (simp add: dict_key_name_def)
  moreover have "?dict ! 5 = 21474836480" by (simp add: dict_words_def push_bit_eq_mult)
  ultimately show ?thesis
    using dictionary_entries [OF sample_target_ok pconst(1) arr, of name_cb "[]" None]
    by (simp add: pconst slots Let_def dict_cb_def name_cb_def)
qed

end
