(* ===== verification/PropIter.thy ===== *)
theory PropIter
  imports JsObject
begin

text \<open>
  The iteration over the properties of an object, seen from the callback: which properties
  are visited is decided by the heap alone, and no run over a heap of any content gets stuck,
  reads outside an array or fails an assertion.
\<close>

section \<open>Lemmas: what is visited does not depend on the callback\<close>

text \<open>A callback that only asks to go on or to stop with \<open>-1\<close>.\<close>

definition stop_or_go :: "'s prop_cb \<Rightarrow> bool" where
  "stop_or_go func \<longleftrightarrow> (\<forall>n v s. fst (func n v s) \<in> {0, - 1})"

definition visit :: "'s prop_cb \<Rightarrow> string \<times> v8propvalue option \<Rightarrow> 's \<Rightarrow> int \<times> 's" where
  "visit func nv s = func (fst nv) (snd nv) s"

lemma dict_cb_visit: "stop_or_go func \<Longrightarrow> dict_cb func = visit func"
  by (auto simp: stop_or_go_def dict_cb_def visit_def fun_eq_iff split: prod.splits) (metis fst_conv)+

lemma cb_iter_visit_range:
  "stop_or_go func \<Longrightarrow> cb_iter (visit func) vs s = (rv, s') \<Longrightarrow> rv \<in> {0, - 1}"
proof (induction vs arbitrary: s)
  case (Cons v vs)
  obtain r s1 where f: "func (fst v) (snd v) s = (r, s1)" by fastforce
  then have "r \<in> {0, - 1}" using Cons.prems(1) unfolding stop_or_go_def by (metis fst_conv)
  with f Cons show ?case by (auto simp: visit_def split: if_splits)
qed simp

text \<open>
  A part of the iteration calls the callback with the properties \<open>vs\<close>, and leaves through
  \<open>err\<close> if the callback did not stop it before.
\<close>

definition iterates ::
    "(string \<times> v8propvalue option) list \<Rightarrow> bool \<Rightarrow> 's prop_cb \<Rightarrow> ('s \<Rightarrow> jspropinfo \<Rightarrow> 's prop_step option) \<Rightarrow> bool" where
  "iterates vs err func step \<longleftrightarrow>
     (\<forall>s p. \<exists>p'. step s p = Some (case cb_iter (visit func) vs s of (rv, s') \<Rightarrow> (rv \<noteq> 0 \<or> err, s', p')))"

lemma iteratesI:
  "(\<And>s p rv s1. cb_iter (visit func) vs s = (rv, s1) \<Longrightarrow> \<exists>p'. step s p = Some (rv \<noteq> 0 \<or> err, s1, p')) \<Longrightarrow>
   iterates vs err func step"
  unfolding iterates_def by (metis (no_types, lifting) old.prod.case surj_pair)

lemma iteratesD:
  assumes "iterates vs err func step" "cb_iter (visit func) vs s = (rv, s1)"
  shows "\<exists>p'. step s p = Some (rv \<noteq> 0 \<or> err, s1, p')"
  using assms(1) unfolding iterates_def by (metis (no_types, lifting) assms(2) old.prod.case)

lemma iterates_none: "(\<And>s p. \<exists>p'. step s p = Some (err, s, p')) \<Longrightarrow> iterates [] err func step"
  by (simp add: iterates_def)

lemma iterates_one:
  assumes "\<And>s p rv s1. func n v s = (rv, s1) \<Longrightarrow> \<exists>p'. step s p = Some (rv \<noteq> 0, s1, p')"
  shows "iterates [(n, v)] False func step"
proof (rule iteratesI)
  fix s p rv s1 assume c: "cb_iter (visit func) [(n, v)] s = (rv, s1)"
  obtain r s2 where f: "func n v s = (r, s2)" by fastforce
  with c have "rv = r \<and> s1 = s2" by (auto simp: visit_def split: if_splits)
  with assms [OF f, of p] show "\<exists>p'. step s p = Some (rv \<noteq> 0 \<or> False, s1, p')" by simp
qed

lemma iterates_seq:
  assumes "iterates vs False func step" "iterates ws err func rest"
  shows "iterates (vs @ ws) err func
    (\<lambda>s p. case step s p of None \<Rightarrow> None | Some (e, s, p) \<Rightarrow> if e then Some (True, s, p) else rest s p)"
proof (rule iteratesI)
  fix s p rv s2 assume c: "cb_iter (visit func) (vs @ ws) s = (rv, s2)"
  obtain r s1 where c1: "cb_iter (visit func) vs s = (r, s1)" by fastforce
  obtain p1 where "step s p = Some (r \<noteq> 0, s1, p1)" using iteratesD [OF assms(1) c1] by auto
  moreover have "r = 0 \<Longrightarrow> \<exists>p'. rest s1 p1 = Some (rv \<noteq> 0 \<or> err, s2, p')"
    using c c1 iteratesD [OF assms(2), of s1] by (simp add: cb_iter_append)
  ultimately show "\<exists>p'. (case step s p of None \<Rightarrow> None | Some (e, s, p) \<Rightarrow> if e then Some (True, s, p) else rest s p) =
      Some (rv \<noteq> 0 \<or> err, s2, p')"
    using c c1 by (auto simp: cb_iter_append split: if_splits)
qed

lemma iterates_err:
  assumes "iterates vs True func step"
  shows "iterates vs True func
    (\<lambda>s p. case step s p of None \<Rightarrow> None | Some (e, s, p) \<Rightarrow> if e then Some (True, s, p) else rest s p)"
proof (rule iteratesI)
  fix s p rv s1 assume "cb_iter (visit func) vs s = (rv, s1)"
  from iteratesD [OF assms this, of p] show "\<exists>p'. (case step s p of None \<Rightarrow> None
      | Some (e, s, p) \<Rightarrow> if e then Some (True, s, p) else rest s p) = Some (rv \<noteq> 0 \<or> True, s1, p')" by auto
qed

text \<open>The parts of \<open>jsobj_properties\<close>, run with two callbacks.\<close>

lemma elements_loop_iterates:
  assumes "target_ok D" "types_end D"
  shows "\<exists>vs. iterates vs False func (elements_loop D holey func ii elts) \<and>
    iterates vs False func' (elements_loop D holey func' ii elts)"
proof (induction elts arbitrary: ii)
  case Nil
  show ?case by (intro exI [of _ "[]"] conjI iterates_none) simp_all
next
  case (Cons elt elts)
  obtain vs where vs: "iterates vs False func (elements_loop D holey func (ii + 1) elts)"
    "iterates vs False func' (elements_loop D holey func' (ii + 1) elts)" using Cons.IH by blast
  obtain skip where skip: "(if holey then jsobj_is_hole D elt else Some False) = Some skip"
    using jsobj_is_hole_total [OF assms, of elt] by (cases holey) auto
  show ?case
  proof (cases skip)
    case True
    with skip vs show ?thesis by (intro exI [of _ vs]) simp
  next
    case False
    let ?v = "(show_int (int ii), Some (jsobj_propvalue_addr elt))"
    have one: "iterates (?v # vs) False f (elements_loop D holey f ii (elt # elts))"
      if "iterates vs False f (elements_loop D holey f (ii + 1) elts)" for f :: "'z prop_cb"
    proof (rule iteratesI)
      fix s p rv s1 assume c: "cb_iter (visit f) (?v # vs) s = (rv, s1)"
      obtain r s2 where f: "f (fst ?v) (snd ?v) s = (r, s2)" by fastforce
      with c skip False iteratesD [OF that, of s2]
      show "\<exists>p'. elements_loop D holey f ii (elt # elts) s p = Some (rv \<noteq> 0 \<or> False, s1, p')"
        by (auto simp: visit_def Let_def split: if_splits)
    qed
    from one [OF vs(1)] one [OF vs(2)] show ?thesis by blast
  qed
qed

text \<open>The constants of V8 as every version the module supports since node v0.10 has them.\<close>

definition prop_constants_ok :: "v8dbg \<Rightarrow> bool" where
  "prop_constants_ok D \<longleftrightarrow> dict_constants_ok D \<and> gv D V8_PROP_IDX_CONTENT = - 1 \<and>
     gv D V8_PROP_DESC_SIZE = 3 \<and> gv D V8_PROP_DESC_KEY = 0 \<and> gv D V8_PROP_DESC_DETAILS = 1 \<and>
     gv D V8_PROP_DESC_VALUE = 2 \<and> unat (gv D V8_PROP_IDX_FIRST) < 2 ^ 16 \<and>
     gv D V8_OFF_MAP_INSTANCE_DESCRIPTORS \<noteq> - 1"

lemma prop_types_end: "prop_constants_ok D \<Longrightarrow> types_end D"
  by (simp add: prop_constants_ok_def dict_constants_ok_def)

lemma layout_untagged_total:
  assumes "layout_ok layout" shows "\<exists>b. jsobj_layout_untagged layout k = Some b"
proof -
  let ?w = "sint (ucast (k div 32) :: 32 word)"
  have "jl_length layout \<le> of_int ?w" if "\<not> ?w < 8"
  proof -
    have "?w < 2 ^ 31" using sint_less [of "ucast (k div 32) :: 32 word"] by simp
    then have "nat ?w < 2 ^ 64" using that by simp
    moreover have "(of_int ?w :: uptr) = of_nat (nat ?w)" using that by simp
    ultimately have "unat (of_int ?w :: uptr) = nat ?w" by (metis unat_of_nat_lt)
    moreover have "unat (jl_length layout) \<le> 8" using assms by (simp add: layout_ok_def)
    moreover have "8 \<le> nat ?w" using that by linarith
    ultimately show ?thesis unfolding uptr_le_unat by linarith
  qed
  then show ?thesis using assms
    by (auto simp: jsobj_layout_untagged_def layout_ok_def JL_MAXBITVECS_def Let_def)
qed

lemma desc_name_total:
  assumes "target_ok D" "types_end D" shows "\<exists>r. desc_name D key = Some r"
proof -
  have "lbuf_ok \<lparr>lb_text = [], lb_len = 1024\<rparr>" by (simp add: lbuf_ok_def)
  from jsstr_print_grown [OF assms(1) this, of key JSSTR_NUDE]
  obtain rv b out where "jsstr_print D key JSSTR_NUDE \<lparr>lb_text = [], lb_len = 1024\<rparr> = Some (rv, b, out)" by blast
  moreover obtain u where "jsobj_is_undefined D key = Some u" using jsobj_is_undefined_total [OF assms] by blast
  ultimately show ?thesis by (auto simp: desc_name_def)
qed

text \<open>An object whose descriptors were read with these constants.\<close>

definition propobj_ok :: "v8dbg \<Rightarrow> propobj \<Rightarrow> bool" where
  "propobj_ok D po \<longleftrightarrow> po_content po = Some (po_descs po) \<and> length (po_descs po) < 2 ^ 32 \<and>
     layout_ok (po_layout po) \<and>
     po_rndescs po = int ((length (po_descs po) - unat (gv D V8_PROP_IDX_FIRST)) div 3)"

lemma desc_indexes_unat:
  assumes "prop_constants_ok D" "propobj_ok D po" "unat ii < nat (po_rndescs po)"
  shows "\<exists>k v d. desc_indexes D ii = (k, v, d) \<and> unat k = unat (gv D V8_PROP_IDX_FIRST) + 3 * unat ii \<and>
    unat v = unat k + 2 \<and> unat d = unat k + 1 \<and> unat v < length (po_descs po)"
proof -
  let ?f = "gv D V8_PROP_IDX_FIRST" and ?n = "length (po_descs po)"
  have c: "gv D V8_PROP_IDX_CONTENT = - 1" "gv D V8_PROP_DESC_SIZE = 3" "gv D V8_PROP_DESC_KEY = 0"
    "gv D V8_PROP_DESC_DETAILS = 1" "gv D V8_PROP_DESC_VALUE = 2" "unat ?f < 2 ^ 16"
    using assms(1) by (simp_all add: prop_constants_ok_def)
  have n: "?n < 2 ^ 32" using assms(2) by (simp add: propobj_ok_def)
  have "unat ii < (?n - unat ?f) div 3" using assms(2,3) by (simp add: propobj_ok_def)
  then have lt: "unat ?f + 3 * unat ii + 2 < ?n" by linarith
  then have ii: "unat ii < 2 ^ 32" using n by simp
  have m: "unat (ii * 3) = 3 * unat ii" using ii by (simp add: unat_word_ariths)
  have b: "unat (?f + ii * 3) = unat ?f + 3 * unat ii"
    using unat_add_lt [of ?f "ii * 3"] m lt n by simp
  have "unat (?f + ii * 3 + 2) = unat ?f + 3 * unat ii + 2" "unat (?f + ii * 3 + 1) = unat ?f + 3 * unat ii + 1"
    using unat_add_lt [of "?f + ii * 3" 2] unat_add_lt [of "?f + ii * 3" 1] b lt n by simp_all
  then show ?thesis using c b lt by (auto simp: desc_indexes_def Let_def)
qed

lemma desc_place_total:
  "unat validx < length content \<Longrightarrow> \<exists>r. desc_place D po content validx detidx = Some r"
  by (auto simp: desc_place_def Let_def)

lemma desc_visit_iterates:
  assumes "layout_ok (po_layout po)" "unat validx < length content"
  shows "\<exists>vs err. iterates vs err func (desc_visit D po content validx detidx buf func) \<and>
    iterates vs err func' (desc_visit D po content validx detidx buf func')"
proof -
  obtain place where place: "desc_place D po content validx detidx = Some place"
    using desc_place_total [OF assms(2)] by blast
  show ?thesis
  proof (cases place)
    case None
    with place show ?thesis
      by (intro exI [of _ "[]"] exI [of _ False] conjI iterates_none) (simp_all add: desc_visit_def)
  next
    case (Some pl)
    obtain propidx propaddr proparrayidx where pl: "pl = (propidx, propaddr, proparrayidx)" by (cases pl)
    show ?thesis
    proof (cases "desc_read D po propidx propaddr proparrayidx")
      case (PR_SKIP p)
      with place Some pl show ?thesis
        by (intro exI [of _ "[]"] exI [of _ False] conjI iterates_none) (simp_all add: desc_visit_def)
    next
      case (PR_ERR p)
      with place Some pl show ?thesis
        by (intro exI [of _ "[]"] exI [of _ True] conjI iterates_none) (simp_all add: desc_visit_def)
    next
      case (PR_VALUE ptr p)
      obtain untagged where u: "jsobj_layout_untagged (po_layout po) propidx = Some untagged"
        using layout_untagged_total [OF assms(1)] by blast
      let ?v = "Some (if untagged then jsobj_propvalue_double ptr else jsobj_propvalue_addr ptr)"
      show ?thesis
        by (intro exI [of _ "[(buf, ?v)]"] exI [of _ False] conjI iterates_one)
          (simp_all add: desc_visit_def place Some pl PR_VALUE u Let_def)
    qed
  qed
qed

lemma desc_step_iterates:
  assumes "target_ok D" "prop_constants_ok D" "propobj_ok D po" "unat ii < nat (po_rndescs po)"
  shows "\<exists>vs err. iterates vs err func (desc_step D po ii func) \<and> iterates vs err func' (desc_step D po ii func')"
proof -
  obtain k v d where ix: "desc_indexes D ii = (k, v, d)" and v: "unat v < length (po_descs po)"
    using desc_indexes_unat [OF assms(2-4)] by blast
  have content: "po_content po = Some (po_descs po)" "layout_ok (po_layout po)"
    using assms(3) by (simp_all add: propobj_ok_def)
  obtain name where name: "desc_name D (po_descs po ! unat k) = Some name"
    using desc_name_total [OF assms(1) prop_types_end [OF assms(2)]] by blast
  let ?stop = "of_nat (length (po_descs po)) \<le> d \<or> \<not> V8_DESC_ISFIELD D (po_descs po ! unat d) \<or>
    of_nat (length (po_descs po)) \<le> k \<or> (\<exists>p. name = Inl p)"
  show ?thesis
  proof (cases ?stop)
    case True
    then show ?thesis
      by (intro exI [of _ "[]"] exI [of _ False] conjI iterates_none)
        (auto simp: desc_step_def content ix name)
  next
    case False
    then obtain buf where buf: "name = Inr buf" by (cases name) auto
    have "desc_step D po ii func = desc_visit D po (po_descs po) v d buf func"
      "desc_step D po ii func' = desc_visit D po (po_descs po) v d buf func'"
      using False by (simp_all add: desc_step_def content ix name buf fun_eq_iff)
    with desc_visit_iterates [OF content(2) v, where D = D and detidx = d and buf = buf and func = func and func' = func']
    show ?thesis by simp
  qed
qed

lemma desc_loop_Suc: "desc_loop D po (Suc n) ii f = (\<lambda>s p. case desc_step D po ii f s p of None \<Rightarrow> None
    | Some (e, s, p) \<Rightarrow> if e then Some (True, s, p) else desc_loop D po n (ii + 1) f s p)"
  by (intro ext) (simp split: option.split prod.split)

lemma desc_loop_iterates:
  assumes "target_ok D" "prop_constants_ok D" "propobj_ok D po" "unat ii + n \<le> nat (po_rndescs po)"
  shows "\<exists>vs err. iterates vs err func (desc_loop D po n ii func) \<and> iterates vs err func' (desc_loop D po n ii func')"
  using assms(4)
proof (induction n arbitrary: ii)
  case 0
  show ?case by (intro exI [of _ "[]"] exI [of _ False] conjI iterates_none) simp_all
next
  case (Suc n)
  have lt: "unat ii < nat (po_rndescs po)" "nat (po_rndescs po) < 2 ^ 32"
    using Suc.prems assms(3) by (auto simp: propobj_ok_def)
  then have "unat (ii + 1) = unat ii + 1" using unat_add_lt [of ii 1] by simp
  with Suc.prems have "unat (ii + 1) + n \<le> nat (po_rndescs po)" by simp
  from Suc.IH [OF this] obtain ws err2 where ws: "iterates ws err2 func (desc_loop D po n (ii + 1) func)"
    "iterates ws err2 func' (desc_loop D po n (ii + 1) func')" by blast
  obtain vs err where vs: "iterates vs err func (desc_step D po ii func)"
    "iterates vs err func' (desc_step D po ii func')"
    using desc_step_iterates [OF assms(1-3) lt(1)] by blast
  show ?case
  proof (cases err)
    case True
    with vs have "iterates vs True func (desc_loop D po (Suc n) ii func)" "iterates vs True func' (desc_loop D po (Suc n) ii func')"
      unfolding desc_loop_Suc by (auto intro: iterates_err)
    then show ?thesis by blast
  next
    case False
    with vs ws have "iterates (vs @ ws) err2 func (desc_loop D po (Suc n) ii func)"
      "iterates (vs @ ws) err2 func' (desc_loop D po (Suc n) ii func')"
      unfolding desc_loop_Suc by (auto intro: iterates_seq)
    then show ?thesis by blast
  qed
qed

text \<open>The same for the parts that return the result of \<open>jsobj_properties\<close>.\<close>

definition returns ::
    "(string \<times> v8propvalue option) list \<Rightarrow> int \<Rightarrow> 's prop_cb \<Rightarrow>
     ('s \<Rightarrow> jspropinfo option \<Rightarrow> (int \<times> 's \<times> jspropinfo option) option) \<Rightarrow> bool" where
  "returns vs rv0 func step \<longleftrightarrow> rv0 \<in> {0, - 1} \<and>
     (\<forall>s p. \<exists>p'. step s p = Some (case cb_iter (visit func) vs s of (rv, s') \<Rightarrow> (if rv \<noteq> 0 then - 1 else rv0, s', p')))"

lemma returnsI:
  "rv0 \<in> {0, - 1} \<Longrightarrow>
   (\<And>s p rv s1. cb_iter (visit func) vs s = (rv, s1) \<Longrightarrow> \<exists>p'. step s p = Some (if rv \<noteq> 0 then - 1 else rv0, s1, p')) \<Longrightarrow>
   returns vs rv0 func step"
  unfolding returns_def by (metis (no_types, lifting) old.prod.case surj_pair)

lemma returnsD:
  assumes "returns vs rv0 func step" "cb_iter (visit func) vs s = (rv, s1)"
  shows "\<exists>p'. step s p = Some (if rv \<noteq> 0 then - 1 else rv0, s1, p')"
  using assms(1) unfolding returns_def by (metis (no_types, lifting) assms(2) old.prod.case)

lemma returns_none: "rv0 \<in> {0, - 1} \<Longrightarrow> (\<And>s p. \<exists>p'. step s p = Some (rv0, s, p')) \<Longrightarrow> returns [] rv0 func step"
  by (rule returnsI) auto

lemma dict_result_range: "dict_result D dict ks \<in> {0, - 1}"
  by (induction ks) auto

lemma read_heap_dict_returns:
  assumes "target_ok D" "dict_constants_ok D"
  shows "\<exists>vs rv0. (stop_or_go func \<longrightarrow> returns vs rv0 func (read_heap_dict D addr func)) \<and>
    (stop_or_go func' \<longrightarrow> returns vs rv0 func' (read_heap_dict D addr func'))"
proof (cases "read_heap_array D addr {UM_SLEEP}")
  case None
  then show ?thesis
    by (intro exI [of _ "[]"] exI [of _ "- 1"] conjI impI returns_none) (simp_all add: read_heap_dict_def)
next
  case (Some dict)
  let ?ks = "dict_slots D (length dict) (dict_start D)"
  have ret: "returns (dict_visits D dict ?ks) (dict_result D dict ?ks) f (read_heap_dict D addr f)"
    if "stop_or_go f" for f :: "'z prop_cb"
  proof (rule returnsI [OF dict_result_range])
    fix s p rv s1 assume "cb_iter (visit f) (dict_visits D dict ?ks) s = (rv, s1)"
    with read_heap_dict_entries [OF assms Some, of f s p]
    show "\<exists>p'. read_heap_dict D addr f s p = Some (if rv \<noteq> 0 then - 1 else dict_result D dict ?ks, s1, p')"
      by (simp add: dict_cb_visit [OF that] Let_def)
  qed
  show ?thesis using ret [of func] ret [of func'] by blast
qed

lemma jsobj_elements_iterates:
  assumes "target_ok D" "dict_constants_ok D"
  shows "\<exists>vs err. (stop_or_go func \<longrightarrow> iterates vs err func (jsobj_elements D addr mapp type func)) \<and>
    (stop_or_go func' \<longrightarrow> iterates vs err func' (jsobj_elements D addr mapp type func'))"
proof -
  have ends: "types_end D" using assms(2) by (simp add: dict_constants_ok_def)
  have none: ?thesis if "\<And>s p. jsobj_elements D addr mapp type func s p = Some (err, s, g p)"
    "\<And>s p. jsobj_elements D addr mapp type func' s p = Some (err, s, g p)" for err g
    using that by (intro exI [of _ "[]"] exI [of _ err] conjI impI iterates_none) simp_all
  show ?thesis
  proof (cases "gv D V8_ELEMENTS_KIND_SHIFT = - 1 \<or> is_type D type V8_TYPE_JSTYPEDARRAY \<or>
      read_heap_ptr D addr (gv D V8_OFF_JSOBJECT_ELEMENTS) = None")
    case True
    then show ?thesis by (intro none [of False "\<lambda>p. p"]) (auto simp: jsobj_elements_def)
  next
    case False
    then obtain elements where g: "gv D V8_ELEMENTS_KIND_SHIFT \<noteq> - 1" "\<not> is_type D type V8_TYPE_JSTYPEDARRAY"
      "read_heap_ptr D addr (gv D V8_OFF_JSOBJECT_ELEMENTS) = Some elements" by auto
    show ?thesis
    proof (cases "read_heap_array D elements {UM_SLEEP} = None \<or> read_heap_array D elements {UM_SLEEP} = Some []")
      case True
      with g show ?thesis by (intro none [of False "\<lambda>p. p"]) (auto simp: jsobj_elements_def)
    next
      case False
      then obtain elts where elts: "read_heap_array D elements {UM_SLEEP} = Some elts" "elts \<noteq> []" by auto
      show ?thesis
      proof (cases "mem_vread D (mapp + gv D V8_OFF_MAP_BIT_FIELD2) 1")
        case None
        with g elts show ?thesis by (intro none [of True "\<lambda>p. p"]) (auto simp: jsobj_elements_def)
      next
        case (Some bs)
        let ?k = "ucast (elements_kind D (ucast (le_word bs))) :: uptr"
        let ?h = "?k = gv D V8_ELEMENTS_FAST_HOLEY_ELEMENTS"
        consider "?k = gv D V8_ELEMENTS_FAST_ELEMENTS \<or> ?h"
          | "\<not> (?k = gv D V8_ELEMENTS_FAST_ELEMENTS \<or> ?h)" "?k = gv D V8_ELEMENTS_DICTIONARY_ELEMENTS"
          | "\<not> (?k = gv D V8_ELEMENTS_FAST_ELEMENTS \<or> ?h)" "?k \<noteq> gv D V8_ELEMENTS_DICTIONARY_ELEMENTS"
          by blast
        then show ?thesis
        proof cases
          case 1
          obtain vs where vs: "iterates vs False func (elements_loop D ?h func 0 elts)"
            "iterates vs False func' (elements_loop D ?h func' 0 elts)"
            using elements_loop_iterates [OF assms(1) ends, of func ?h 0 elts func'] by blast
          have one: "iterates vs False f (jsobj_elements D addr mapp type f)"
            if "iterates vs False f (elements_loop D ?h f 0 elts)" for f :: "'z prop_cb"
            by (rule iteratesI) (use iteratesD [OF that] 1 g elts Some in \<open>simp add: jsobj_elements_def Let_def\<close>)
          show ?thesis using one [OF vs(1)] one [OF vs(2)] by blast
        next
          case 2
          obtain vs rv0 where vs: "stop_or_go func \<longrightarrow> returns vs rv0 func (read_heap_dict D elements func)"
            "stop_or_go func' \<longrightarrow> returns vs rv0 func' (read_heap_dict D elements func')"
            using read_heap_dict_returns [OF assms, of func elements func'] by blast
          have two: "iterates vs (rv0 \<noteq> 0) f (jsobj_elements D addr mapp type f)"
            if "returns vs rv0 f (read_heap_dict D elements f)" for f :: "'z prop_cb"
          proof (rule iteratesI)
            fix s p rv s1 assume "cb_iter (visit f) vs s = (rv, s1)"
            from returnsD [OF that this, of "Some ((p OR JPI_NUMERIC) OR JPI_DICT)"] 2 g elts Some
            show "\<exists>p'. jsobj_elements D addr mapp type f s p = Some (rv \<noteq> 0 \<or> rv0 \<noteq> 0, s1, p')"
              by (auto simp: jsobj_elements_def Let_def)
          qed
          show ?thesis using two [of func] two [of func'] vs by blast
        next
          case 3
          with g elts Some show ?thesis
            by (intro none [of False "\<lambda>p. p OR JPI_NUMERIC"]) (auto simp: jsobj_elements_def Let_def)
        qed
      qed
    qed
  qed
qed

lemma sint_of_unat:
  assumes "unat (w :: uptr) < 2 ^ 63" shows "sint w = int (unat w)"
proof -
  have "int (unat w) < 2 ^ 63" using assms by (simp only: of_nat_less_iff [where 'a = int, symmetric] of_nat_power of_nat_numeral)
  then have "0 \<le> uint w" "uint w < 2 ^ 63" by (simp_all only: uint_nat of_nat_0_le_iff)
  moreover from this(1) have "- (2 ^ 63) \<le> uint w" by (rule order_trans [rotated]) simp
  ultimately have "signed_take_bit 63 (uint w) = uint w" by (intro signed_take_bit_int_eq_self)
  moreover have "sint w = signed_take_bit 63 (uint w)" by (simp add: sint_uint)
  ultimately show ?thesis by (simp only: uint_nat)
qed

lemma jsobj_content_descs:
  assumes "prop_constants_ok D" "length descs < 2 ^ 32"
  shows "jsobj_content D descs p =
    Some (Some (Some descs, int ((length descs - unat (gv D V8_PROP_IDX_FIRST)) div 3), p))"
proof -
  let ?f = "gv D V8_PROP_IDX_FIRST" and ?n = "of_nat (length descs) :: uptr"
  have c: "gv D V8_PROP_IDX_CONTENT = - 1" "gv D V8_PROP_DESC_SIZE = 3"
    using assms(1) by (simp_all add: prop_constants_ok_def)
  have n: "unat ?n = length descs" using assms(2) by (intro unat_of_nat_lt) simp
  show ?thesis
  proof (cases "?f < ?n")
    case True
    then have "unat (?n - ?f) = length descs - unat ?f" using n by (simp add: unat_sub_le)
    then have "unat ((?n - ?f) div 3) = (length descs - unat ?f) div 3" by (simp add: unat_div)
    moreover have "(length descs - unat ?f) div 3 < 2 ^ 63" using assms(2) by simp
    ultimately have "sint ((?n - ?f) div 3) = int ((length descs - unat ?f) div 3)" by (simp add: sint_of_unat)
    with True c show ?thesis by (simp add: jsobj_content_def Let_def)
  next
    case False
    then have "length descs - unat ?f = 0" using n by (simp add: uptr_less_unat)
    with False c show ?thesis by (simp add: jsobj_content_def Let_def)
  qed
qed

lemma jsobj_propobj_cases:
  assumes "target_ok D" "prop_constants_ok D"
  obtains (err) "\<And>p. jsobj_propobj D addr ptr mapp p = Some None"
    | (ok) po where "propobj_ok D po" "\<And>p. jsobj_propobj D addr ptr mapp p = Some (Some (po, p))"
proof -
  have desc: "gv D V8_OFF_MAP_INSTANCE_DESCRIPTORS \<noteq> - 1" using assms(2) by (simp add: prop_constants_ok_def)
  show thesis
  proof (cases "read_heap_array D ptr {UM_SLEEP} = None \<or>
      mem_vread D (mapp + gv D V8_OFF_MAP_INSTANCE_DESCRIPTORS) 8 = None")
    case True
    with desc show thesis
      by (intro err) (auto simp: jsobj_propobj_def jsobj_descriptors_ptr_def split: option.split)
  next
    case False
    then obtain props db where b: "read_heap_array D ptr {UM_SLEEP} = Some props"
      "mem_vread D (mapp + gv D V8_OFF_MAP_INSTANCE_DESCRIPTORS) 8 = Some db" by auto
    show thesis
    proof (cases "read_heap_array D (le_word db) {UM_SLEEP} = None \<or>
        mem_vread D (mapp + gv D V8_OFF_MAP_INOBJECT_PROPERTIES) 1 = None \<or> jsobj_layout_load D mapp = None")
      case True
      show thesis
      proof (intro err)
        fix p
        show "jsobj_propobj D addr ptr mapp p = Some None"
        proof (cases "read_heap_array D (le_word db) {UM_SLEEP}")
          case (Some descs)
          with True b desc jsobj_content_descs [OF assms(2) read_heap_array_length [OF target_okD(2) [OF assms(1)] Some]]
          show ?thesis by (auto simp: jsobj_propobj_def jsobj_descriptors_ptr_def split: option.split)
        qed (use b desc in \<open>simp add: jsobj_propobj_def jsobj_descriptors_ptr_def\<close>)
      qed
    next
      case False
      then obtain descs nb layout where d: "read_heap_array D (le_word db) {UM_SLEEP} = Some descs"
        "mem_vread D (mapp + gv D V8_OFF_MAP_INOBJECT_PROPERTIES) 1 = Some nb" "jsobj_layout_load D mapp = Some layout"
        by auto
      have len: "length descs < 2 ^ 32" by (rule read_heap_array_length [OF target_okD(2) [OF assms(1)] d(1)])
      define po where "po = \<lparr>po_addr = addr, po_props = props, po_descs = descs, po_content = Some descs,
        po_rndescs = int ((length descs - unat (gv D V8_PROP_IDX_FIRST)) div 3),
        po_size = (case read_size D addr of None \<Rightarrow> 0 | Some sz \<Rightarrow> sz),
        po_ninprops = ucast (le_word nb), po_layout = layout\<rparr>"
      show thesis
      proof (rule ok)
        show "propobj_ok D po" using len layout_load_ok [OF d(3)] by (simp add: propobj_ok_def po_def)
        show "jsobj_propobj D addr ptr mapp p = Some (Some (po, p))" for p
          using b d desc jsobj_content_descs [OF assms(2) len]
          by (simp add: jsobj_propobj_def jsobj_descriptors_ptr_def po_def)
      qed
    qed
  qed
qed

lemma jsobj_named_returns:
  assumes "target_ok D" "prop_constants_ok D"
  shows "\<exists>vs rv0. (\<forall>q. returns vs rv0 func (\<lambda>s. jsobj_named D addr ptr mapp func s q)) \<and>
    (\<forall>q. returns vs rv0 func' (\<lambda>s. jsobj_named D addr ptr mapp func' s q))"
  using assms
proof (cases rule: jsobj_propobj_cases [of D addr ptr mapp])
  case err
  then show ?thesis
    by (intro exI [of _ "[]"] exI [of _ "- 1"] conjI allI returns_none) (simp_all add: jsobj_named_def)
next
  case (ok po)
  have "unat 0 + nat (po_rndescs po) \<le> nat (po_rndescs po)" by simp
  from desc_loop_iterates [OF assms ok(1) this, of func func'] obtain vs e where vs:
    "iterates vs e func (desc_loop D po (nat (po_rndescs po)) 0 func)"
    "iterates vs e func' (desc_loop D po (nat (po_rndescs po)) 0 func')" by blast
  have one: "returns vs (if e then - 1 else 0) f (\<lambda>s. jsobj_named D addr ptr mapp f s r)"
    if "iterates vs e f (desc_loop D po (nat (po_rndescs po)) 0 f)" for f :: "'z prop_cb" and r
  proof (rule returnsI)
    fix s p rv s1 assume "cb_iter (visit f) vs s = (rv, s1)"
    from iteratesD [OF that this, of r] ok(2)
    show "\<exists>p'. jsobj_named D addr ptr mapp f s r p = Some (if rv \<noteq> 0 then - 1 else if e then - 1 else 0, s1, p')"
      by (auto simp: jsobj_named_def)
  qed simp
  show ?thesis using one [OF vs(1)] one [OF vs(2)] by blast
qed

lemma jsobj_nonnumeric_returns:
  assumes "target_ok D" "prop_constants_ok D"
  shows "\<exists>vs rv0. (stop_or_go func \<longrightarrow> (\<forall>q. returns vs rv0 func (jsobj_nonnumeric D addr ptr mapp func q))) \<and>
    (stop_or_go func' \<longrightarrow> (\<forall>q. returns vs rv0 func' (jsobj_nonnumeric D addr ptr mapp func' q)))"
proof (cases "jsobj_isdict D mapp")
  case None
  then show ?thesis
    by (intro exI [of _ "[]"] exI [of _ "- 1"] conjI allI impI returns_none) (simp_all add: jsobj_nonnumeric_def)
next
  case (Some b)
  show ?thesis
  proof (cases b)
    case True
    have "dict_constants_ok D" using assms(2) by (simp add: prop_constants_ok_def)
    from read_heap_dict_returns [OF assms(1) this, of func ptr func'] obtain vs rv0 where vs:
      "stop_or_go func \<Longrightarrow> returns vs rv0 func (read_heap_dict D ptr func)"
      "stop_or_go func' \<Longrightarrow> returns vs rv0 func' (read_heap_dict D ptr func')" by blast
    have one: "returns vs rv0 f (jsobj_nonnumeric D addr ptr mapp f q)"
      if "returns vs rv0 f (read_heap_dict D ptr f)" for f :: "'z prop_cb" and q
      by (rule returnsI) (use that returnsD [OF that] True Some in \<open>auto simp: jsobj_nonnumeric_def returns_def\<close>)
    show ?thesis using one [OF vs(1)] one [OF vs(2)] by blast
  next
    case False
    obtain vs rv0 where vs: "\<And>q. returns vs rv0 func (\<lambda>s. jsobj_named D addr ptr mapp func s q)"
      "\<And>q. returns vs rv0 func' (\<lambda>s. jsobj_named D addr ptr mapp func' s q)"
      using jsobj_named_returns [OF assms, of func addr ptr mapp func'] by blast
    have one: "returns vs rv0 f (jsobj_nonnumeric D addr ptr mapp f q)"
      if "returns vs rv0 f (\<lambda>s. jsobj_named D addr ptr mapp f s q)" for f :: "'z prop_cb" and q
      by (rule returnsI) (use that returnsD [OF that] False Some in \<open>auto simp: jsobj_nonnumeric_def returns_def\<close>)
    show ?thesis using one [OF vs(1)] one [OF vs(2)] by blast
  qed
qed

lemma jsobj_properties_returns:
  assumes "target_ok D" "prop_constants_ok D" "stop_or_go func" "stop_or_go func'"
  shows "\<exists>vs rv0. returns vs rv0 func (jsobj_properties D addr func) \<and> returns vs rv0 func' (jsobj_properties D addr func')"
proof -
  have dict: "dict_constants_ok D" using assms(2) by (simp add: prop_constants_ok_def)
  have none: ?thesis if "\<And>s p. jsobj_properties D addr func s p = Some (- 1, s, p)"
    "\<And>s p. jsobj_properties D addr func' s p = Some (- 1, s, p)"
    using that by (intro exI [of _ "[]"] exI [of _ "- 1"] conjI returns_none) simp_all
  show ?thesis
  proof (cases "mem_vread D (addr + gv D V8_OFF_JSOBJECT_PROPERTIES) 8")
    case None
    then show ?thesis by (intro none) (simp_all add: jsobj_properties_def)
  next
    case (Some bs)
    note ptr = this
    show ?thesis
    proof (cases "read_typebyte D (le_word bs)")
      case None
      with ptr show ?thesis by (intro none) (simp_all add: jsobj_properties_def)
    next
      case (Some type)
      note type = this
      show ?thesis
      proof (cases "is_type D type V8_TYPE_FIXEDARRAY")
        case False
        obtain name where name: "enum_lookup_str NTYPES (v8_types D) (ucast type) (Some ''unknown'') = Some name"
          using type_lookup_ends [OF prop_types_end [OF assms(2)]] by blast
        define buf where "buf = take 255 (''<'' @ the name @ ''>'')"
        have one: "returns [(buf, None)] 0 f (jsobj_properties D addr f)" if "stop_or_go f" for f :: "'z prop_cb"
        proof (rule returnsI)
          fix s p rv s1 assume c: "cb_iter (visit f) [(buf, None)] s = (rv, s1)"
          obtain r s2 where f: "f buf None s = (r, s2)" by fastforce
          have "r \<in> {0, - 1}" using that f unfolding stop_or_go_def by (metis fst_conv)
          then have "r = (if rv \<noteq> 0 then - 1 else 0)" "s2 = s1" using c f by (auto simp: visit_def split: if_splits)
          with f show "\<exists>p'. jsobj_properties D addr f s p = Some (if rv \<noteq> 0 then - 1 else 0, s1, p')"
            using ptr type False name by (simp add: jsobj_properties_def buf_def)
        qed simp
        show ?thesis using one [OF assms(3)] one [OF assms(4)] by blast
      next
        case True
        show ?thesis
        proof (cases "mem_vread D (addr + gv D V8_OFF_HEAPOBJECT_MAP) 8")
          case None
          with ptr type True show ?thesis by (intro none) (simp_all add: jsobj_properties_def)
        next
          case (Some mb)
          let ?m = "le_word mb" and ?ptr = "le_word bs"
          obtain vs e where vs: "iterates vs e func (jsobj_elements D addr ?m type func)"
            "iterates vs e func' (jsobj_elements D addr ?m type func')"
            using jsobj_elements_iterates [OF assms(1) dict, of func addr ?m type func'] assms(3,4) by blast
          obtain ws rv0 where ws: "\<And>q. returns ws rv0 func (jsobj_nonnumeric D addr ?ptr ?m func q)"
            "\<And>q. returns ws rv0 func' (jsobj_nonnumeric D addr ?ptr ?m func' q)"
            using jsobj_nonnumeric_returns [OF assms(1,2), of func addr ?ptr ?m func'] assms(3,4) by blast
          have "rv0 \<in> {0, - 1}" using ws(1) [of 0] by (simp add: returns_def)
          have one: "returns (if e then vs else vs @ ws) (if e then - 1 else rv0) f (jsobj_properties D addr f)"
            if it: "iterates vs e f (jsobj_elements D addr ?m type f)"
              and re: "\<And>q. returns ws rv0 f (jsobj_nonnumeric D addr ?ptr ?m f q)" for f :: "'z prop_cb"
          proof (rule returnsI)
            fix s p rv s2 assume c: "cb_iter (visit f) (if e then vs else vs @ ws) s = (rv, s2)"
            obtain r s1 where c1: "cb_iter (visit f) vs s = (r, s1)" by fastforce
            obtain p1 where p1: "jsobj_elements D addr ?m type f s JPI_NONE = Some (r \<noteq> 0 \<or> e, s1, p1)"
              using iteratesD [OF it c1] by blast
            have props: "jsobj_properties D addr f s p =
              (if r \<noteq> 0 \<or> e then Some (- 1, s1, p) else jsobj_nonnumeric D addr ?ptr ?m f p1 s1 p)"
              using ptr type True Some p1 by (simp add: jsobj_properties_def)
            show "\<exists>p'. jsobj_properties D addr f s p = Some (if rv \<noteq> 0 then - 1 else if e then - 1 else rv0, s2, p')"
            proof (cases "r \<noteq> 0 \<or> e")
              case True
              then show ?thesis using c c1 props by (auto simp: cb_iter_append split: if_splits)
            next
              case False
              then have "cb_iter (visit f) ws s1 = (rv, s2)" using c c1 by (simp add: cb_iter_append)
              from returnsD [OF re this, of p1 p] False props show ?thesis by auto
            qed
          qed (use \<open>rv0 \<in> {0, - 1}\<close> in simp)
          show ?thesis using one [OF vs(1) ws(1)] one [OF vs(2) ws(2)] by blast
        qed
      qed
    qed
  qed
qed

section \<open>Properties\<close>

definition record_prop :: "(string \<times> v8propvalue option) list prop_cb" where
  "record_prop n v s = (0, s @ [(n, v)])"

lemma cb_iter_record_prop: "cb_iter (visit record_prop) vs s = (0, s @ vs)"
  by (induction vs arbitrary: s) (auto simp: visit_def record_prop_def)

text \<open>
  C11. Whatever the heap holds, the iteration over an object's properties returns, without
  reading outside an array or failing an assertion. The properties it visits do not depend on
  the callback: they are those a recording callback collects, and any callback that returns 0
  or -1 is called with them in order until it returns -1.
\<close>

theorem properties_iteration:
  assumes "target_ok D" and "prop_constants_ok D" and "stop_or_go func"
  shows "\<exists>visits rv0 p0. jsobj_properties D addr record_prop [] None = Some (rv0, visits, p0) \<and> rv0 \<in> {0, - 1} \<and>
    (\<forall>s propinfop. \<exists>p. jsobj_properties D addr func s propinfop =
       Some (case cb_iter (visit func) visits s of (rv, s') \<Rightarrow> (if rv \<noteq> 0 then - 1 else rv0, s', p)))"
proof -
  have "stop_or_go record_prop" by (simp add: stop_or_go_def record_prop_def)
  from jsobj_properties_returns [OF assms(1,2) this assms(3), of addr] obtain vs rv0 where
    vs: "returns vs rv0 record_prop (jsobj_properties D addr record_prop)"
      "returns vs rv0 func (jsobj_properties D addr func)" by blast
  obtain p0 where "jsobj_properties D addr record_prop [] None = Some (rv0, vs, p0)"
    using returnsD [OF vs(1) cb_iter_record_prop, of "[]" None] by auto
  moreover have "rv0 \<in> {0, - 1}" using vs(1) by (simp add: returns_def)
  ultimately show ?thesis using vs(2) unfolding returns_def by blast
qed

text \<open>An object whose properties field is an array object: a layout that is not understood.\<close>

definition badlayout_words :: "(uptr \<times> uptr) list" where
  "badlayout_words = [(4104, 4161), (4160, 8257), (8264, 170)]"

definition stop_cb :: "nat prop_cb" where
  "stop_cb n v s = (- 1, s + 1)"

lemma properties_iteration_witness:
  "\<exists>p. jsobj_properties (sample_dbg badlayout_words) 4097 stop_cb 0 None = Some (- 1, 1, p)"
proof -
  let ?D = "sample_dbg badlayout_words"
  have pconst: "prop_constants_ok ?D"
    by (simp add: prop_constants_ok_def dict_constants_ok_def dict_start_def sample_values_def)
  have cb: "stop_or_go stop_cb" by (simp add: stop_or_go_def stop_cb_def)
  have ptr: "mem_vread ?D 4104 8 = Some bs \<Longrightarrow> le_word bs = 4161" for bs
    using sample_ptr [of 4097 7 badlayout_words] by (simp add: read_heap_ptr_def badlayout_words_def)
  have "\<exists>bs. mem_vread ?D 4104 8 = Some bs" by (simp add: sample_vread_def)
  then obtain bs where "mem_vread ?D 4104 8 = Some bs" "le_word bs = 4161" using ptr by blast
  moreover have "read_typebyte ?D 4161 = Some 170" by (simp add: sample_typebyte badlayout_words_def)
  ultimately have rec: "jsobj_properties ?D 4097 record_prop [] None = Some (0, [(''<JSArray>'', None)], None)"
    by (simp add: jsobj_properties_def sample_values_def is_type_def record_prop_def sample_types NTYPES_def)
  from properties_iteration [OF sample_target_ok pconst cb, of 4097] rec show ?thesis
    by (auto simp: visit_def stop_cb_def)
qed

end
