(* ===== verification/StringText.thy ===== *)
theory StringText
  imports JsStr
begin

text \<open>
  What a string of the target says: its text as a sequence of 16-bit characters, defined by
  what the heap holds and not by how it is printed, for sequential strings of both
  encodings, slices of them, and concatenations of strings to any depth. The string
  printer is proved to write that text.
\<close>

section \<open>The text of a string\<close>

definition seq_chars :: "v8dbg \<Rightarrow> uptr \<Rightarrow> bool \<Rightarrow> nat \<Rightarrow> 16 word list option" where
  "seq_chars D addr ascii n =
     (if ascii then map_option (map scast) (mem_vread D (addr + gv D V8_OFF_SEQASCIISTR_CHARS) n)
      else map_option decode2 (mem_vread D (addr + gv D V8_OFF_SEQTWOBYTESTR_CHARS) (2 * n)))"

text \<open>A string object with its type byte and length.\<close>

definition string_object :: "v8dbg \<Rightarrow> uptr \<Rightarrow> byte \<Rightarrow> uptr \<Rightarrow> bool" where
  "string_object D addr type len \<longleftrightarrow>
     read_typebyte D addr = Some type \<and> V8_TYPE_STRING D type \<and>
     read_heap_smi D addr (gv D V8_OFF_STRING_LENGTH) = Some len"

text \<open>\<open>n\<close> is the depth of the concatenations.\<close>

inductive string_text :: "v8dbg \<Rightarrow> uptr \<Rightarrow> 16 word list \<Rightarrow> nat \<Rightarrow> bool" for D where
  text_seq: "string_object D addr type len \<Longrightarrow> V8_STRREP_SEQ D type \<Longrightarrow>
    seq_chars D addr (V8_STRENC_ASCII D type) (unat len) = Some cs \<Longrightarrow> string_text D addr cs 0"
| text_cons: "string_object D addr type len \<Longrightarrow> V8_STRREP_CONS D type \<Longrightarrow>
    read_heap_ptr D addr (gv D V8_OFF_CONSSTRING_FIRST) = Some p1 \<Longrightarrow>
    read_heap_ptr D addr (gv D V8_OFF_CONSSTRING_SECOND) = Some p2 \<Longrightarrow>
    string_text D p1 cs1 n1 \<Longrightarrow> string_text D p2 cs2 n2 \<Longrightarrow>
    string_text D addr (cs1 @ cs2) (Suc (max n1 n2))"
| text_sliced: "string_object D addr type len \<Longrightarrow> V8_STRREP_SLICED D type \<Longrightarrow>
    read_heap_ptr D addr (gv D V8_OFF_SLICEDSTRING_PARENT) = Some parent \<Longrightarrow>
    read_heap_smi D addr (gv D V8_OFF_SLICEDSTRING_OFFSET) = Some off \<Longrightarrow>
    string_object D parent ptype plen \<Longrightarrow> V8_STRREP_SEQ D ptype \<Longrightarrow>
    V8_STRENC_ASCII D ptype = V8_STRENC_ASCII D type \<Longrightarrow>
    seq_chars D parent (V8_STRENC_ASCII D ptype) (unat plen) = Some cs \<Longrightarrow>
    unat off + unat len \<le> unat plen \<Longrightarrow>
    string_text D addr (take (unat len) (drop (unat off) cs)) 0"

text \<open>The representations are told apart by their tags.\<close>

definition strrep_tags_ok :: "v8dbg \<Rightarrow> bool" where
  "strrep_tags_ok D \<longleftrightarrow> distinct (map (gv D) [V8_SeqStringTag, V8_ConsStringTag, V8_SlicedStringTag, V8_ExternalStringTag])"

section \<open>Flags\<close>

lemma bit_bump:
  assumes "depth_of f < 65535" "16 \<le> n" shows "bit (JSSTR_BUMPDEPTH f) n \<longleftrightarrow> bit f n"
proof -
  let ?u = "unat f"
  have lo: "?u mod 65536 < 65535" using assms(1) by (simp add: depth_of_mod)
  have "?u < 2 ^ 32" using unsigned_less [of f] by simp
  then have "?u + 1 < 2 ^ 32"
  proof -
    have "?u \<noteq> 2 ^ 32 - 1" using lo by auto
    with \<open>?u < 2 ^ 32\<close> show ?thesis by simp
  qed
  then have "unat (f + 1) = ?u + 1" by (simp add: unat_word_ariths)
  moreover have "(?u + 1) div 65536 = ?u div 65536" using lo by (simp add: div_Suc mod_Suc)
  ultimately have "unat (f + 1) div 2 ^ 16 = ?u div 2 ^ 16" by simp
  then have "drop_bit 16 (f + 1) = drop_bit 16 f"
    by (simp only: word_unat_eq_iff unsigned_drop_bit_eq drop_bit_eq_div) (simp add: unat_div_distrib drop_bit_eq_div take_bit_nat_eq_self_iff)
  then have "bit (drop_bit 16 (f + 1)) (n - 16) \<longleftrightarrow> bit (drop_bit 16 f) (n - 16)" by simp
  then show ?thesis using assms(2) by (simp add: bit_drop_bit_eq JSSTR_BUMPDEPTH_def)
qed

lemma and_push_bit: "f AND push_bit n 1 = (0 :: 32 word) \<longleftrightarrow> \<not> bit f n" if "n < 32"
proof
  assume "f AND push_bit n 1 = 0"
  then have "\<not> bit (f AND push_bit n 1) n" by simp
  then show "\<not> bit f n" using that by (simp add: bit_simps)
next
  assume "\<not> bit f n"
  then show "f AND push_bit n 1 = 0" by (intro bit_word_eqI) (auto simp: bit_simps)
qed

lemma string_flag_bits: "f AND JSSTR_QUOTED = 0 \<longleftrightarrow> \<not> bit f 17" "f AND JSSTR_ISASCII = 0 \<longleftrightarrow> \<not> bit f 18"
  unfolding jsstr_bits by (simp_all only: and_push_bit)

lemma subflags_bits:
  assumes "depth_of f \<le> 512"
  shows "\<not> bit (write_subflags D type f) 17" "bit (write_subflags D type f) 18 \<longleftrightarrow> V8_STRENC_ASCII D type"
proof -
  let ?g = "write_type_flags D type f AND NOT JSSTR_QUOTED"
  have d: "depth_of ?g < 65535" using assms by (simp add: write_type_flags_def)
  show "\<not> bit (write_subflags D type f) 17"
    by (simp add: write_subflags_def jsstr_bits bit_simps)
  have "bit (write_subflags D type f) 18 \<longleftrightarrow> bit ?g 18"
    using bit_bump [OF d, of 18] by (simp add: write_subflags_def jsstr_bits bit_simps)
  then show "bit (write_subflags D type f) 18 \<longleftrightarrow> V8_STRENC_ASCII D type"
    by (simp add: write_type_flags_def jsstr_bits bit_simps)
qed

section \<open>Writing\<close>

lemma left_of_text: "strbuf_wf b \<Longrightarrow>
    strbuf_left b = unat (ms_bufsz b) - length (strbuf_text b) - 1 - unat (ms_reservesz b)"
  by (subst strbuf_left_nat) (auto simp: strbuf_wf_def strbuf_text_def)

lemma grown_left:
  assumes "strbuf_wf b" "strbuf_grown b b'" "strbuf_text b' = strbuf_text b @ y"
  shows "strbuf_left b' = strbuf_left b - length y"
  using assms left_of_text [of b] left_of_text [of b'] by (simp add: strbuf_grown_def)

lemma write_seq_fits:
  assumes "vread_laws D" "strbuf_wf b" "unat (v8s_len strp) < 2 ^ 32"
    and "seq_slice (v8string_length strp) off l = (o', l')"
    and "mem_vread D (v8s_addr strp + (if v8flags AND JSSTR_ISASCII \<noteq> 0 then gv D V8_OFF_SEQASCIISTR_CHARS
          else gv D V8_OFF_SEQTWOBYTESTR_CHARS) + of_nat (unat o' * char_size v8flags))
        (char_size v8flags * unat l') = Some bs"
    and "nbytes strflags (decode_chars v8flags bs) \<le> strbuf_left b"
  shows "\<exists>b' out. v8string_write_seq D strp b strflags v8flags off l = Some (0, b', out) \<and>
    strbuf_grown b b' \<and> strbuf_text b' = strbuf_text b @ escaped_all strflags (decode_chars v8flags bs)"
  using write_seq_text [OF assms(1-5), of strflags] truncated_fits [OF assms(6)]
    write_seq_safe [OF assms(1-3), of strflags v8flags off l] by auto

text \<open>\<open>writes\<close>: loading and writing the string at an address adds a text that fits.\<close>

definition writes_str :: "v8dbg \<Rightarrow> v8string \<Rightarrow> 16 word list \<Rightarrow> nat \<Rightarrow> bool" where
  "writes_str D strp cs n \<longleftrightarrow> (\<forall>b sf f. strbuf_wf b \<longrightarrow> nbytes sf cs \<le> strbuf_left b \<longrightarrow>
     depth_of f + 2 * n \<le> 512 \<longrightarrow> \<not> bit f 17 \<longrightarrow>
     (\<exists>b' out. v8string_write D strp b sf f = Some (0, b', out) \<and> strbuf_grown b b' \<and>
        strbuf_text b' = strbuf_text b @ escaped_all sf cs))"

lemma write_unquoted:
  assumes "depth_of f \<le> 512" "\<not> bit f 17"
  shows "v8string_write D strp b sf f =
    (let type = v8s_type strp; flags = write_subflags D type f in
     if V8_STRREP_SEQ D type then v8string_write_seq D strp b sf flags 0 (- 1)
     else if V8_STRREP_CONS D type then v8string_write_cons D strp b sf flags
     else if V8_STRREP_EXT D type then v8string_write_ext D strp b sf flags
     else if V8_STRREP_SLICED D type then v8string_write_sliced D strp b sf flags
     else None)"
proof -
  have "\<not> JSSTR_MAXDEPTH < JSSTR_DEPTH f" using assms(1) by (simp add: depth_guard)
  moreover have "f AND JSSTR_QUOTED = 0" using assms(2) by (simp add: string_flag_bits)
  ultimately show ?thesis by (subst v8string_write.simps) (simp add: Let_def)
qed

text \<open>Sequential strings and parts of them.\<close>

lemma decode2_take: "decode2 (take (2 * n) bs) = take n (decode2 bs)"
proof (induction n arbitrary: bs)
  case (Suc n)
  show ?case
  proof (cases bs)
    case (Cons a as)
    then show ?thesis using Suc.IH by (cases as) auto
  qed auto
qed auto

lemma decode2_drop: "decode2 (drop (2 * n) bs) = drop n (decode2 bs)"
proof (induction n arbitrary: bs)
  case (Suc n)
  show ?case
  proof (cases bs)
    case (Cons a as)
    then show ?thesis using Suc.IH by (cases as) auto
  qed auto
qed auto

lemma seq_chars_length: "vread_laws D \<Longrightarrow> seq_chars D addr ascii n = Some cs \<Longrightarrow> length cs = n"
  by (auto simp: seq_chars_def length_decode2 dest!: vread_length split: if_splits)

lemma write_seq_part:
  assumes "target_ok D" "strbuf_wf b" "seq_chars D (v8s_addr strp) (bit g 18) (unat (v8s_len strp)) = Some cs"
    and "unat (v8s_len strp) < 2 ^ 32" "seq_slice (v8string_length strp) off l = (o', l')"
    and "nbytes sf (take (unat l') (drop (unat o') cs)) \<le> strbuf_left b"
  shows "\<exists>b' out. v8string_write_seq D strp b sf g off l = Some (0, b', out) \<and> strbuf_grown b b' \<and>
    strbuf_text b' = strbuf_text b @ escaped_all sf (take (unat l') (drop (unat o') cs))"
proof -
  let ?o = "unat o'" and ?l = "unat l'" and ?n = "unat (v8s_len strp)"
  have laws: "vread_laws D" by (rule target_okD [OF assms(1)])
  have le: "?o + ?l \<le> ?n"
    using seq_slice_nat [OF assms(5)] by (auto simp: v8string_length_def)
  have as: "g AND JSSTR_ISASCII \<noteq> 0 \<longleftrightarrow> bit g 18" using string_flag_bits(2) by blast
  show ?thesis
  proof (cases "bit g 18")
    case True
    then obtain bs where bs: "mem_vread D (v8s_addr strp + gv D V8_OFF_SEQASCIISTR_CHARS) ?n = Some bs" "cs = map scast bs"
      using assms(3) by (auto simp: seq_chars_def)
    have "mem_vread D (v8s_addr strp + gv D V8_OFF_SEQASCIISTR_CHARS + of_nat ?o) ?l = Some (take ?l (drop ?o bs))"
      by (rule vread_part [OF laws bs(1) le])
    moreover have "decode_chars g (take ?l (drop ?o bs)) = take ?l (drop ?o cs)"
      using True as by (simp add: decode_chars_def bs(2) take_map drop_map)
    ultimately show ?thesis
      using write_seq_fits [OF laws assms(2,4,5), of g "take ?l (drop ?o bs)" sf] True as assms(6)
      by (simp add: char_size_def)
  next
    case False
    then obtain bs where bs: "mem_vread D (v8s_addr strp + gv D V8_OFF_SEQTWOBYTESTR_CHARS) (2 * ?n) = Some bs" "cs = decode2 bs"
      using assms(3) by (auto simp: seq_chars_def)
    have "2 * ?o + 2 * ?l \<le> 2 * ?n" using le by simp
    from vread_part [OF laws bs(1) this]
    have "mem_vread D (v8s_addr strp + gv D V8_OFF_SEQTWOBYTESTR_CHARS + of_nat (?o * 2)) (2 * ?l) =
        Some (take (2 * ?l) (drop (2 * ?o) bs))" by (simp add: mult.commute)
    moreover have "decode_chars g (take (2 * ?l) (drop (2 * ?o) bs)) = take ?l (drop ?o cs)"
      using False as by (simp add: decode_chars_def bs(2) decode2_take decode2_drop)
    ultimately show ?thesis
      using write_seq_fits [OF laws assms(2,4,5), of g "take (2 * ?l) (drop (2 * ?o) bs)" sf] False as assms(6)
      by (simp add: char_size_def)
  qed
qed

lemma strrep_distinct:
  assumes "strrep_tags_ok D"
  shows "V8_STRREP_CONS D t \<Longrightarrow> \<not> V8_STRREP_SEQ D t"
    "V8_STRREP_SLICED D t \<Longrightarrow> \<not> V8_STRREP_SEQ D t \<and> \<not> V8_STRREP_CONS D t \<and> \<not> V8_STRREP_EXT D t"
    "V8_STRREP_SEQ D t \<Longrightarrow> \<not> V8_STRREP_CONS D t \<and> \<not> V8_STRREP_SLICED D t \<and> \<not> V8_STRREP_EXT D t"
    "V8_STRREP_CONS D t \<Longrightarrow> \<not> V8_STRREP_EXT D t \<and> \<not> V8_STRREP_SLICED D t"
  using assms by (auto simp: strrep_tags_ok_def V8_STRREP_CONS_def V8_STRREP_SEQ_def V8_STRREP_SLICED_def V8_STRREP_EXT_def)

definition str_of :: "uptr \<Rightarrow> byte \<Rightarrow> uptr \<Rightarrow> memflags \<Rightarrow> v8s_info \<Rightarrow> v8string" where
  "str_of addr type len mf info =
     \<lparr>v8s_addr = addr, v8s_len = len, v8s_type = type, v8s_memflags = mf, v8s_infop = info\<rparr>"

lemma load_seq:
  assumes "strrep_tags_ok D" "string_object D addr type len" "V8_STRREP_SEQ D type" "zalloc_ok D 48 mf"
  shows "v8string_load D addr mf = Some (str_of addr type len mf V8s_noinfo)"
  using assms strrep_distinct(3) [OF assms(1,3)] by (simp add: v8string_load_def string_object_def str_of_def)

lemma load_cons:
  assumes "strrep_tags_ok D" "string_object D addr type len" "V8_STRREP_CONS D type" "zalloc_ok D 48 mf"
    and "read_heap_ptr D addr (gv D V8_OFF_CONSSTRING_FIRST) = Some p1"
    and "read_heap_ptr D addr (gv D V8_OFF_CONSSTRING_SECOND) = Some p2"
  shows "v8string_load D addr mf = Some (str_of addr type len mf (V8s_consinfo p1 p2))"
  using assms strrep_distinct(1,4) [OF assms(1,3)] by (simp add: v8string_load_def string_object_def str_of_def)

lemma load_sliced:
  assumes "strrep_tags_ok D" "string_object D addr type len" "V8_STRREP_SLICED D type" "zalloc_ok D 48 mf"
    and "read_heap_ptr D addr (gv D V8_OFF_SLICEDSTRING_PARENT) = Some parent"
    and "read_heap_smi D addr (gv D V8_OFF_SLICEDSTRING_OFFSET) = Some off"
  shows "v8string_load D addr mf = Some (str_of addr type len mf (V8s_slicedinfo parent off))"
  using assms strrep_distinct(2) [OF assms(1,3)] by (simp add: v8string_load_def string_object_def str_of_def)

lemma string_len_bound:
  "target_ok D \<Longrightarrow> string_object D addr type len \<Longrightarrow> unat len < 2 ^ 32"
  using read_heap_smi_bound by (auto simp: string_object_def target_ok_def)

lemma seq_writes:
  assumes "target_ok D" "strrep_tags_ok D" "string_object D addr type len" "V8_STRREP_SEQ D type"
    and "seq_chars D addr (V8_STRENC_ASCII D type) (unat len) = Some cs"
  shows "writes_str D (str_of addr type len mf V8s_noinfo) cs 0"
  unfolding writes_str_def
proof (intro allI impI)
  fix b sf and f :: "32 word"
  assume b: "strbuf_wf b" "nbytes sf cs \<le> strbuf_left b" "depth_of f + 2 * 0 \<le> 512" "\<not> bit f 17"
  let ?s = "str_of addr type len mf V8s_noinfo" and ?g = "write_subflags D type f"
  have len: "unat (v8s_len ?s) < 2 ^ 32" using string_len_bound [OF assms(1,3)] by (simp add: str_of_def)
  have bit: "bit ?g 18 \<longleftrightarrow> V8_STRENC_ASCII D type" by (rule subflags_bits) (use b(3) in simp)
  have chars: "seq_chars D (v8s_addr ?s) (bit ?g 18) (unat (v8s_len ?s)) = Some cs"
    using assms(5) by (simp add: bit str_of_def)
  have sl: "seq_slice (v8string_length ?s) 0 (- 1) = (0, len)"
    by (simp add: seq_slice_def v8string_length_def str_of_def Let_def)
  have all: "take (unat len) (drop (unat (0 :: uptr)) cs) = cs"
    using seq_chars_length [OF target_okD(1) [OF assms(1)] assms(5)] by simp
  have fit: "nbytes sf (take (unat len) (drop (unat (0 :: uptr)) cs)) \<le> strbuf_left b" using b(2) all by simp
  from write_seq_part [OF assms(1) b(1) chars len sl fit] show
    "\<exists>b' out. v8string_write D ?s b sf f = Some (0, b', out) \<and> strbuf_grown b b' \<and>
       strbuf_text b' = strbuf_text b @ escaped_all sf cs"
    unfolding all using b(3,4) assms(4) by (subst write_unquoted) (simp_all add: Let_def str_of_def)
qed

lemma cons_writes:
  assumes "target_ok D" "strrep_tags_ok D" "string_object D addr type len" "V8_STRREP_CONS D type"
    and "v8string_load D p1 mf = Some s1" "writes_str D s1 cs1 n1"
    and "v8string_load D p2 mf = Some s2" "writes_str D s2 cs2 n2"
  shows "writes_str D (str_of addr type len mf (V8s_consinfo p1 p2)) (cs1 @ cs2) (Suc (max n1 n2))"
  unfolding writes_str_def
proof (intro allI impI)
  fix b sf and f :: "32 word"
  assume b: "strbuf_wf b" "nbytes sf (cs1 @ cs2) \<le> strbuf_left b"
    "depth_of f + 2 * Suc (max n1 n2) \<le> 512" "\<not> bit f 17"
  let ?s = "str_of addr type len mf (V8s_consinfo p1 p2)" and ?g = "JSSTR_BUMPDEPTH (write_subflags D type f)"
  have d: "depth_of (write_subflags D type f) = depth_of f + 1" by (rule depth_of_subflags) (use b(3) in simp)
  then have g: "depth_of ?g = depth_of f + 2" using b(3) by (simp add: depth_of_bump)
  have q: "\<not> bit ?g 17"
    using bit_bump [of "write_subflags D type f" 17] subflags_bits(1) [of f D type] d b(3) by simp
  have n: "nbytes sf cs1 \<le> strbuf_left b" "depth_of ?g + 2 * n1 \<le> 512" "depth_of ?g + 2 * n2 \<le> 512"
    using b(2,3) g by auto
  from assms(6) b(1) n(1,2) q obtain b1 out1 where b1: "v8string_write D s1 b sf ?g = Some (0, b1, out1)"
    "strbuf_grown b b1" "strbuf_text b1 = strbuf_text b @ escaped_all sf cs1" unfolding writes_str_def by blast
  have "nbytes sf cs2 \<le> strbuf_left b1"
    using grown_left [OF b(1) b1(2,3)] escaped_all_le [of sf cs1] b(2) by simp
  with assms(8) strbuf_grown_wf [OF b1(2)] n(3) q obtain b2 out2 where
    b2: "v8string_write D s2 b1 sf ?g = Some (0, b2, out2)" "strbuf_grown b1 b2"
    "strbuf_text b2 = strbuf_text b1 @ escaped_all sf cs2" unfolding writes_str_def by blast
  have rep: "\<not> V8_STRREP_SEQ D type" by (rule strrep_distinct(1) [OF assms(2,4)])
  have "\<exists>out. v8string_write_cons D ?s b sf (write_subflags D type f) = Some (0, b2, out)"
    using assms(5,7) b1(1) b2(1) by (subst v8string_write_cons.simps) (simp add: str_of_def Let_def)
  then have "\<exists>out. v8string_write D ?s b sf f = Some (0, b2, out)"
    using b(3,4) rep assms(4) by (subst write_unquoted) (simp_all add: Let_def str_of_def)
  then show "\<exists>b' out. v8string_write D ?s b sf f = Some (0, b', out) \<and> strbuf_grown b b' \<and>
      strbuf_text b' = strbuf_text b @ escaped_all sf (cs1 @ cs2)"
    using strbuf_grown_trans [OF b1(2) b2(2)] b1(3) b2(3) by auto
qed

lemma sliced_writes:
  assumes "target_ok D" "strrep_tags_ok D" "string_object D addr type len" "V8_STRREP_SLICED D type"
    and "string_object D parent ptype plen" "V8_STRREP_SEQ D ptype" "V8_STRENC_ASCII D ptype = V8_STRENC_ASCII D type"
    and "seq_chars D parent (V8_STRENC_ASCII D ptype) (unat plen) = Some cs"
    and "unat off + unat len \<le> unat plen" "zalloc_ok D 48 mf"
  shows "writes_str D (str_of addr type len mf (V8s_slicedinfo parent off)) (take (unat len) (drop (unat off) cs)) 0"
  unfolding writes_str_def
proof (intro allI impI)
  fix b sf and f :: "32 word"
  let ?cs = "take (unat len) (drop (unat off) cs)"
  assume b: "strbuf_wf b" "nbytes sf ?cs \<le> strbuf_left b" "depth_of f + 2 * 0 \<le> 512" "\<not> bit f 17"
  let ?s = "str_of addr type len mf (V8s_slicedinfo parent off)" and ?p = "str_of parent ptype plen mf V8s_noinfo"
  let ?h = "write_subflags D type f"
  let ?g = "JSSTR_BUMPDEPTH ?h"
  have d: "depth_of ?h = depth_of f + 1" by (rule depth_of_subflags) (use b(3) in simp)
  have bit: "bit ?g 18 \<longleftrightarrow> V8_STRENC_ASCII D ptype"
    using bit_bump [of ?h 18] subflags_bits(2) [of f D type] d b(3) assms(7) by simp
  have plen: "unat (v8s_len ?p) < 2 ^ 32" using string_len_bound [OF assms(1,5)] by (simp add: str_of_def)
  have chars: "seq_chars D (v8s_addr ?p) (bit ?g 18) (unat (v8s_len ?p)) = Some cs"
    using assms(8) by (simp add: bit str_of_def)
  have lb: "unat len < 2 ^ 32" by (rule string_len_bound [OF assms(1,3)])
  have "len \<noteq> - 1" using lb by (auto simp: unsigned_minus_1_eq_mask mask_eq_exp_minus_1)
  obtain o' l' where sl: "seq_slice (v8string_length ?p) off len = (o', l')" by fastforce
  have ol: "unat o' = unat off" "unat l' = unat len"
    using seq_slice_nat [OF sl] assms(9) \<open>len \<noteq> - 1\<close> by (simp_all add: v8string_length_def str_of_def)
  have fit: "nbytes sf (take (unat l') (drop (unat o') cs)) \<le> strbuf_left b" using b(2) ol by simp
  from write_seq_part [OF assms(1) b(1) chars plen sl fit] obtain b' out where
    w: "v8string_write_seq D ?p b sf ?g off len = Some (0, b', out)" "strbuf_grown b b'"
    "strbuf_text b' = strbuf_text b @ escaped_all sf ?cs" unfolding ol by blast
  have rep: "\<not> V8_STRREP_SEQ D type" "\<not> V8_STRREP_CONS D type" "\<not> V8_STRREP_EXT D type"
    using strrep_distinct(2) [OF assms(2,4)] by auto
  have "\<exists>out. v8string_write_sliced D ?s b sf ?h = Some (0, b', out)"
    using load_seq [OF assms(2,5,6,10)] assms(6) w(1)
    by (simp add: v8string_write_sliced_def str_of_def v8string_length_def Let_def)
  then have "\<exists>out. v8string_write D ?s b sf f = Some (0, b', out)"
    using b(3,4) rep assms(4) by (subst write_unquoted) (simp_all add: Let_def str_of_def)
  then show "\<exists>b' out. v8string_write D ?s b sf f = Some (0, b', out) \<and> strbuf_grown b b' \<and>
      strbuf_text b' = strbuf_text b @ escaped_all sf ?cs" using w by blast
qed

lemma text_written:
  assumes "target_ok D" "strrep_tags_ok D" "zalloc_ok D 48 mf" "string_text D addr cs n"
  shows "\<exists>strp. v8string_load D addr mf = Some strp \<and> writes_str D strp cs n"
  using assms(4)
proof induction
  case (text_seq addr type len cs)
  then show ?case using load_seq [OF assms(2) _ _ assms(3)] seq_writes [OF assms(1,2)] by blast
next
  case (text_cons addr type len p1 p2 cs1 n1 cs2 n2)
  then show ?case using load_cons [OF assms(2) _ _ assms(3)] cons_writes [OF assms(1,2)] by blast
next
  case (text_sliced addr type len parent off ptype plen cs)
  then show ?case using load_sliced [OF assms(2) _ _ assms(3)] sliced_writes [OF assms(1,2) _ _ _ _ _ _ _ assms(3)]
    by blast
qed

text \<open>The same through the legacy interface.\<close>

lemma legacy_init_left:
  assumes "lbuf_ok b" "legacy_init b = Some strb" shows "strbuf_left strb = lb_len b - 1"
proof -
  from legacy_init_ok [OF assms(1)] assms(2) have w: "strbuf_wf strb" "strbuf_text strb = []"
    "ms_bufsz strb = of_nat (lb_len b)" "ms_reservesz strb = 0" by auto
  moreover have "unat (of_nat (lb_len b) :: uptr) = lb_len b" using assms(1) by (simp add: lbuf_ok_def unat_of_nat_lt)
  ultimately show ?thesis by (simp add: left_of_text)
qed

lemma jsstr_print_text:
  assumes "target_ok D" "strrep_tags_ok D" "zalloc_ok D 48 {UM_SLEEP}" "string_text D addr cs n"
    and "\<not> bit flags 17" "depth_of flags + 2 * n \<le> 512" "lbuf_ok b" "nbytes MSF_ASCIIONLY cs < lb_len b"
  shows "\<exists>b' out. jsstr_print D addr flags b = Some (0, b', out) \<and> lbuf_grown b b' \<and>
    lb_text b' = lb_text b @ escaped_all MSF_ASCIIONLY cs"
proof -
  obtain strb where init: "legacy_init b = Some strb" "strbuf_wf strb" "strbuf_text strb = []"
    "ms_bufsz strb = of_nat (lb_len b)" using legacy_init_ok [OF assms(7)] by blast
  obtain strp where strp: "v8string_load D addr {UM_SLEEP} = Some strp" "writes_str D strp cs n"
    using text_written [OF assms(1-4)] by blast
  have "nbytes MSF_ASCIIONLY cs \<le> strbuf_left strb" using legacy_init_left [OF assms(7) init(1)] assms(8) by simp
  with strp(2) init(2) assms(5,6) obtain strb' out where
    w: "v8string_write D strp strb MSF_ASCIIONLY flags = Some (0, strb', out)" "strbuf_grown strb strb'"
    "strbuf_text strb' = strbuf_text strb @ escaped_all MSF_ASCIIONLY cs" unfolding writes_str_def by blast
  have "lb_text (legacy_lbuf b strb') = lb_text b @ strbuf_text strb'"
    using legacy_lbuf_grown [OF assms(7), of strb'] w(2) init(4) by (simp add: strbuf_grown_def)
  then show ?thesis
    using strp(1) init w strbuf_grown_legacy [OF assms(7) init(1) w(2)] by (simp add: jsstr_print_def)
qed

section \<open>Properties\<close>

text \<open>
  C7. The string printer implements the text of a string. Wherever the heap holds a string
  with the text \<open>cs\<close>, sequential, sliced, or concatenated to depth \<open>n\<close>, loading it
  succeeds, and writing it into a buffer with room for it returns 0 and adds exactly the
  escaped characters of \<open>cs\<close>. Every level of concatenation uses up two of the 512 levels of
  \<open>JSSTR_MAXDEPTH\<close>.
\<close>

theorem string_text_written:
  assumes "target_ok D" and "strrep_tags_ok D" and "zalloc_ok D 48 mf" and "string_text D addr cs n"
    and "strbuf_wf b" and "nbytes sf cs \<le> strbuf_left b" and "depth_of f + 2 * n \<le> 512"
    and "f AND JSSTR_QUOTED = 0"
  shows "\<exists>strp b' out. v8string_load D addr mf = Some strp \<and>
    v8string_write D strp b sf f = Some (0, b', out) \<and> strbuf_wf b' \<and>
    strbuf_text b' = strbuf_text b @ escaped_all sf cs"
proof -
  obtain strp where "v8string_load D addr mf = Some strp" "writes_str D strp cs n"
    using text_written [OF assms(1-4)] by blast
  moreover have "\<not> bit f 17" using assms(8) by (simp add: string_flag_bits)
  ultimately show ?thesis using assms(5-7) strbuf_grown_wf unfolding writes_str_def by blast
qed

text \<open>A concatenation of a string with itself.\<close>

definition rope_words :: "(uptr \<times> uptr) list" where
  "rope_words = [(4096, 8193), (4104, push_bit 32 4), (4112, 4161), (4120, 4161), (8200, 5),
     (4160, 8257), (4168, push_bit 32 2), (4176, 0x6968), (8264, 4)]"

lemma rope_text: "string_text (sample_dbg rope_words) 4097 [104, 105, 104, 105] 1"
proof -
  let ?D = "sample_dbg rope_words"
  have so: "string_object ?D 4097 5 4" "string_object ?D 4161 4 2"
    by (simp_all add: string_object_def sample_typebyte sample_smi sample_values_def rope_words_def
        V8_TYPE_STRING_def push_bit_eq_mult drop_bit_eq_div)
  have chars: "seq_chars ?D 4161 True (unat (2 :: uptr)) = Some [104, 105]"
    using sample_byte_aligned [of 4176 0 "words_at rope_words"] sample_byte_aligned [of 4176 1 "words_at rope_words"]
    by (simp add: seq_chars_def sample_values_def sample_vread_def upt_rec rope_words_def drop_bit_eq_div)
  have ascii: "V8_STRENC_ASCII ?D 4" "V8_STRREP_SEQ ?D 4" "V8_STRREP_CONS ?D 5"
    by (simp_all add: V8_STRENC_ASCII_def V8_STRREP_SEQ_def V8_STRREP_CONS_def sample_values_def)
  have leaf: "string_text ?D 4161 [104, 105] 0" by (rule text_seq [OF so(2) ascii(2)]) (use chars ascii in simp)
  have ptrs: "read_heap_ptr ?D 4097 (gv ?D V8_OFF_CONSSTRING_FIRST) = Some 4161"
    "read_heap_ptr ?D 4097 (gv ?D V8_OFF_CONSSTRING_SECOND) = Some 4161"
    by (simp_all add: sample_ptr sample_values_def rope_words_def)
  from text_cons [OF so(1) ascii(3) ptrs leaf leaf] show ?thesis by simp
qed

definition rope_buf :: mdbv8_strbuf where
  "rope_buf = \<lparr>ms_buf = replicate 8 NUL, ms_bufsz = 8, ms_curbuf = 0, ms_curbufsz = 8,
     ms_reservesz = 0, ms_flags = 0, ms_memflags = {}\<rparr>"

lemma string_text_written_witness:
  "\<exists>strp b' out. v8string_load (sample_dbg rope_words) 4097 {} = Some strp \<and>
     v8string_write (sample_dbg rope_words) strp rope_buf MSF_ASCIIONLY JSSTR_NUDE = Some (0, b', out) \<and>
     strbuf_text b' = ''hihi''"
proof -
  have tags: "strrep_tags_ok (sample_dbg rope_words)" by (simp add: strrep_tags_ok_def sample_values_def)
  have alloc: "zalloc_ok (sample_dbg rope_words) 48 {}" by simp
  have buf: "strbuf_wf rope_buf" "strbuf_left rope_buf = 7" "strbuf_text rope_buf = []"
    by (simp_all add: strbuf_wf_def rope_buf_def strbuf_left_def mdbv8_strbuf_bytesleft_def strbuf_text_def)
  have "escaped 104 MSF_ASCIIONLY = ''h''" "escaped 105 MSF_ASCIIONLY = ''i''"
    by (simp_all add: escaped_ascii_plain char_of_def bit_simps)
  then have esc: "escaped_all MSF_ASCIIONLY [104, 105, 104, 105] = ''hihi''" by simp
  have fits: "nbytes MSF_ASCIIONLY [104, 105, 104, 105] \<le> strbuf_left rope_buf"
    by (simp add: buf mdbv8_strbuf_nbytesforchar_def MSF_ASCIIONLY_def MSF_JSON_def)
  have flags: "depth_of JSSTR_NUDE + 2 * 1 \<le> 512" "JSSTR_NUDE AND JSSTR_QUOTED = 0"
    by (simp_all add: JSSTR_NUDE_def JSSTR_NONE_def depth_of_mod)
  from string_text_written [OF sample_target_ok tags alloc rope_text buf(1) fits flags] esc buf(3)
  show ?thesis by auto
qed

end
