(* ===== verification/FastObject.thy ===== *)
theory FastObject
  imports PropIter StringText
begin

section \<open>Objects with fast properties\<close>

text \<open>
  What an object in fast mode means, independently of how it is iterated: each property has a
  name, a field number, and a value in the field's slot, which is in the object while the
  number is below the number of in-object properties, and in the properties array above.
\<close>

record fast_shape =
  fs_props :: "uptr list"
  fs_descs :: "uptr list"
  fs_size :: uptr
  fs_ninprops :: byte

definition field_number :: "v8dbg \<Rightarrow> uptr \<Rightarrow> uptr \<Rightarrow> uptr" where
  "field_number D details val =
     (if 3 < v8_major D \<or> v8_major D = 3 \<and> 26 \<le> v8_minor D then V8_PROP_FIELDINDEX D details
      else V8_SMI_VALUE_INTPTR D val)"

definition field_value :: "v8dbg \<Rightarrow> uptr \<Rightarrow> fast_shape \<Rightarrow> nat \<Rightarrow> uptr \<Rightarrow> bool" where
  "field_value D addr fs n v \<longleftrightarrow>
     (if n < unat (fs_ninprops fs)
      then (let a = V8_OFF_HEAP D (fs_size fs - of_nat (8 * (unat (fs_ninprops fs) - n))) in
            addr + a \<noteq> 0 \<and> read_heap_ptr D addr a = Some v)
      else n - unat (fs_ninprops fs) < length (fs_props fs) \<and> fs_props fs ! (n - unat (fs_ninprops fs)) = v)"

text \<open>The \<open>k\<close>-th property: its key is a string that fits the name buffer, its details say it is
  a field, and its slot holds the value.\<close>

definition fast_property :: "v8dbg \<Rightarrow> uptr \<Rightarrow> fast_shape \<Rightarrow> nat \<Rightarrow> 16 word list \<times> uptr \<Rightarrow> bool" where
  "fast_property D addr fs k cv \<longleftrightarrow>
     (let base = unat (gv D V8_PROP_IDX_FIRST) + 3 * k; key = fs_descs fs ! base;
          details = fs_descs fs ! (base + 1); val = fs_descs fs ! (base + 2)
      in (\<exists>n \<le> 256. string_text D key (fst cv) n) \<and> nbytes MSF_ASCIIONLY (fst cv) < 1024 \<and>
         V8_DESC_ISFIELD D details \<and> V8_IS_SMI D val \<and>
         unat (field_number D details val) < 2 ^ 32 \<and>
         field_value D addr fs (unat (field_number D details val)) (snd cv))"

definition fast_object :: "v8dbg \<Rightarrow> uptr \<Rightarrow> (16 word list \<times> uptr) list \<Rightarrow> bool" where
  "fast_object D addr props \<longleftrightarrow>
     (\<exists>ptr mapp dptr nin layout fs.
        read_heap_ptr D addr (gv D V8_OFF_JSOBJECT_PROPERTIES) = Some ptr \<and>
        read_heap_array D ptr {UM_SLEEP} = Some (fs_props fs) \<and>
        read_heap_ptr D addr (gv D V8_OFF_HEAPOBJECT_MAP) = Some mapp \<and>
        (gv D V8_ELEMENTS_KIND_SHIFT = - 1 \<or>
         (\<exists>e. read_heap_ptr D addr (gv D V8_OFF_JSOBJECT_ELEMENTS) = Some e \<and>
              read_heap_array D e {UM_SLEEP} = Some [])) \<and>
        jsobj_isdict D mapp = Some False \<and>
        read_heap_ptr D mapp (gv D V8_OFF_MAP_INSTANCE_DESCRIPTORS) = Some dptr \<and>
        read_heap_array D dptr {UM_SLEEP} = Some (fs_descs fs) \<and>
        length (fs_descs fs) = unat (gv D V8_PROP_IDX_FIRST) + 3 * length props \<and>
        read_size D addr = Some (fs_size fs) \<and>
        mem_vread D (mapp + gv D V8_OFF_MAP_INOBJECT_PROPERTIES) 1 = Some nin \<and>
        fs_ninprops fs = ucast (le_word nin) \<and>
        jsobj_layout_load D mapp = Some layout \<and> (\<not> jl_haslayout layout \<or> jl_alltagged layout) \<and>
        (\<forall>k < length props. fast_property D addr fs k (props ! k)))"

text \<open>What the callback is given for a property.\<close>

definition prop_visit :: "16 word list \<times> uptr \<Rightarrow> string \<times> v8propvalue option" where
  "prop_visit cv = (takeWhile (\<lambda>c. c \<noteq> NUL) (escaped_all MSF_ASCIIONLY (fst cv)), Some (jsobj_propvalue_addr (snd cv)))"

text \<open>The printer's conditions on the target, and the constants.\<close>

definition js_target :: "v8dbg \<Rightarrow> bool" where
  "js_target D \<longleftrightarrow> target_ok D \<and> strrep_tags_ok D \<and> zalloc_ok D 48 {UM_SLEEP} \<and> prop_constants_ok D"

lemma desc_name_text:
  assumes "js_target D" "string_text D key cs n" "n \<le> 256" "nbytes MSF_ASCIIONLY cs < 1024"
  shows "desc_name D key = Some (Inr (takeWhile (\<lambda>c. c \<noteq> NUL) (escaped_all MSF_ASCIIONLY cs)))"
proof -
  let ?b = "\<lparr>lb_text = [], lb_len = 1024\<rparr>"
  have fl: "\<not> bit JSSTR_NUDE 17" "depth_of JSSTR_NUDE + 2 * n \<le> 512"
    using assms(3) by (simp_all add: JSSTR_NUDE_def JSSTR_NONE_def depth_of_mod)
  have ok: "lbuf_ok ?b" and fits: "nbytes MSF_ASCIIONLY cs < lb_len ?b" using assms(4) by (simp_all add: lbuf_ok_def)
  from jsstr_print_text [OF _ _ _ assms(2) fl ok fits] assms(1) obtain b' out where
    "jsstr_print D key JSSTR_NUDE ?b = Some (0, b', out)" "lb_text b' = escaped_all MSF_ASCIIONLY cs"
    unfolding js_target_def by auto
  then show ?thesis by (simp add: desc_name_def lbuf_cstr_def)
qed

lemma unat_ninprops: "unat (ucast (n :: byte) :: uptr) = unat n" "sint (ucast n :: uptr) = int (unat n)"
proof -
  have "unat n < 256" using unsigned_less [of n] by simp
  then show u: "unat (ucast n :: uptr) = unat n" by (simp add: unsigned_ucast_eq take_bit_nat_eq_self_iff)
  with \<open>unat n < 256\<close> show "sint (ucast n :: uptr) = int (unat n)" by (subst sint_of_unat) simp_all
qed

lemma of_nat_minus_unat: "n < unat m \<Longrightarrow> unat i = n \<Longrightarrow> (m - i) * of_nat PTRSZ = (of_nat (8 * (unat m - n)) :: uptr)"
  by (auto simp: PTRSZ_def mult.commute)

lemma field_place:
  assumes "field_value D (po_addr po) fs (unat i) v" "unat i < 2 ^ 32"
    and "i = field_number D (content ! unat detidx) (content ! unat validx)"
    and "V8_IS_SMI D (content ! unat validx)" "unat validx < length content"
    and "fs_props fs = po_props po" "fs_size fs = po_size po" "fs_ninprops fs = po_ninprops po"
    and "length (po_props po) < 2 ^ 32"
  shows "\<exists>j a p fl. desc_place D po content validx detidx = Some (Some (j, a, p)) \<and>
    desc_read D po j a p = PR_VALUE v fl"
proof -
  define nn where "nn = (ucast (po_ninprops po) :: uptr)"
  have nn: "unat (po_ninprops po) = unat nn" "sint nn = int (unat nn)" by (simp_all add: nn_def unat_ninprops)
  let ?modern = "3 < v8_major D \<or> v8_major D = 3 \<and> 26 \<le> v8_minor D"
  have n: "unat nn < 256" using unsigned_less [where ?'a = nat and w = "po_ninprops po"] by (simp add: nn)
  have i: "sint i = int (unat i)" using assms(2) by (simp add: sint_of_unat)
  show ?thesis
  proof (cases "unat i < unat nn")
    case True
    define a where "a = V8_OFF_HEAP D (po_size po - of_nat (8 * (unat nn - unat i)))"
    have v: "po_addr po + a \<noteq> 0" "read_heap_ptr D (po_addr po) a = Some v"
      using assms(1,6-8) True by (simp_all add: field_value_def a_def Let_def nn)
    have eq: "(nn - i) * of_nat PTRSZ = of_nat (8 * (unat nn - unat i))" by (rule of_nat_minus_unat [OF True refl])
    have place: "\<exists>j. desc_place D po content validx detidx = Some (Some (j, po_addr po + a, - 1))"
    proof (cases ?modern)
      case True
      then have "i = V8_PROP_FIELDINDEX D (content ! unat detidx)" using assms(3) by (auto simp: field_number_def)
      moreover have "sint i < sint nn" using \<open>unat i < unat nn\<close> unfolding i nn(2) by (simp only: of_nat_less_iff)
      ultimately show ?thesis
        using True eq by (simp add: desc_place_def Let_def a_def flip: nn_def)
    next
      case False
      then have j: "i = V8_SMI_VALUE_INTPTR D (content ! unat validx)" using assms(3) by (auto simp: field_number_def)
      have neg: "sint (i - nn) < 0"
      proof (rule ccontr)
        assume "\<not> sint (i - nn) < 0"
        then have "unat (i - nn) < 2 ^ 63" using sint_nonneg [of "i - nn"] by simp
        then have "unat (i - nn + nn) = unat (i - nn) + unat nn" by (intro unat_add_lt) (use n in simp)
        moreover have "i - nn + nn = i" by simp
        ultimately show False using \<open>unat i < unat nn\<close> by simp
      qed
      have "po_size po + (i - nn) * of_nat PTRSZ = po_size po - (nn - i) * of_nat PTRSZ" by (simp add: algebra_simps)
      with eq have "V8_OFF_HEAP D (po_size po + (i - nn) * of_nat PTRSZ) = a" by (simp add: a_def)
      with False neg assms(4,5) j show ?thesis by (auto simp: desc_place_def Let_def simp flip: nn_def)
    qed
    obtain bs where "mem_vread D (po_addr po + a) 8 = Some bs" "le_word bs = v" using v(2) by (auto simp: read_heap_ptr_def)
    then have "desc_read D po j (po_addr po + a) (- 1) = PR_VALUE v JPI_INOBJECT" for j
      using v(1) by (simp add: desc_read_def)
    then show ?thesis using place by blast
  next
    case False
    define p where "p = i - nn"
    have up: "unat p = unat i - unat nn" unfolding p_def using False by (simp add: unat_sub_le uptr_le_unat)
    have v: "unat p < length (po_props po)" "po_props po ! unat p = v"
      using assms(1,6-8) False by (simp_all add: field_value_def up nn)
    have sp: "sint p = int (unat p)" by (rule sint_of_unat) (use up assms(2) in simp)
    have place: "\<exists>j. desc_place D po content validx detidx = Some (Some (j, 0, p))"
    proof (cases ?modern)
      case True
      then have "i = V8_PROP_FIELDINDEX D (content ! unat detidx)" using assms(3) by (auto simp: field_number_def)
      moreover have "\<not> sint i < sint nn" using False unfolding i nn(2) by (simp only: of_nat_less_iff not_False_eq_True)
      ultimately show ?thesis using True by (simp add: desc_place_def Let_def p_def flip: nn_def)
    next
      case False
      then have "i = V8_SMI_VALUE_INTPTR D (content ! unat validx)" using assms(3) by (auto simp: field_number_def)
      with False sp assms(4,5) show ?thesis by (auto simp: desc_place_def Let_def p_def simp flip: nn_def)
    qed
    have "p < of_nat (length (po_props po))" using v(1) assms(9) by (simp add: uptr_less_unat unat_of_nat_lt)
    then have "desc_read D po j 0 p = PR_VALUE v JPI_PROPS" for j
      using sp v(2) by (simp add: desc_read_def)
    then show ?thesis using place by blast
  qed
qed

text \<open>The object the loop over the descriptors works with has the shape.\<close>

definition shape_of :: "propobj \<Rightarrow> fast_shape \<Rightarrow> bool" where
  "shape_of po fs \<longleftrightarrow> fs_props fs = po_props po \<and> fs_descs fs = po_descs po \<and> fs_size fs = po_size po \<and>
     fs_ninprops fs = po_ninprops po \<and> length (po_props po) < 2 ^ 32 \<and>
     (\<not> jl_haslayout (po_layout po) \<or> jl_alltagged (po_layout po))"

lemma desc_step_field:
  assumes "js_target D" "propobj_ok D po" "shape_of po fs" "k < nat (po_rndescs po)"
    and "fast_property D (po_addr po) fs k cv"
  shows "iterates [prop_visit cv] False func (desc_step D po (of_nat k) func)"
proof -
  have tgt: "target_ok D" "prop_constants_ok D" using assms(1) by (simp_all add: js_target_def)
  have len: "length (po_descs po) < 2 ^ 32" "po_content po = Some (po_descs po)" using assms(2) by (simp_all add: propobj_ok_def)
  have "nat (po_rndescs po) < 2 ^ 32" using assms(2) by (simp add: propobj_ok_def) linarith
  then have k: "unat (of_nat k :: uptr) = k" using assms(4) by (intro unat_of_nat_lt) simp
  obtain ki vi di where ix: "desc_indexes D (of_nat k) = (ki, vi, di)"
    "unat ki = unat (gv D V8_PROP_IDX_FIRST) + 3 * k" "unat vi = unat ki + 2" "unat di = unat ki + 1"
    "unat vi < length (po_descs po)"
    using desc_indexes_unat [OF tgt(2) assms(2), of "of_nat k"] assms(4) unfolding k by blast
  let ?key = "po_descs po ! unat ki" and ?det = "po_descs po ! unat di" and ?val = "po_descs po ! unat vi"
  have b: "\<not> of_nat (length (po_descs po)) \<le> di" "\<not> of_nat (length (po_descs po)) \<le> ki"
    using ix len by (simp_all add: uptr_le_unat unat_of_nat_lt)
  have fs: "fs_descs fs = po_descs po" "fs_props fs = po_props po" "fs_size fs = po_size po" "fs_ninprops fs = po_ninprops po"
    "length (po_props po) < 2 ^ 32" using assms(3) by (simp_all add: shape_of_def)
  have at: "unat (gv D V8_PROP_IDX_FIRST) + 3 * k = unat ki" "unat ki + 1 = unat di" "unat ki + 2 = unat vi"
    using ix by simp_all
  have fp: "\<exists>n \<le> 256. string_text D ?key (fst cv) n" "nbytes MSF_ASCIIONLY (fst cv) < 1024" "V8_DESC_ISFIELD D ?det"
    "V8_IS_SMI D ?val" "unat (field_number D ?det ?val) < 2 ^ 32"
    "field_value D (po_addr po) fs (unat (field_number D ?det ?val)) (snd cv)"
    using assms(5) unfolding fast_property_def Let_def at fs(1) by auto
  have name: "desc_name D ?key = Some (Inr (fst (prop_visit cv)))"
    using desc_name_text [OF assms(1)] fp(1,2) by (auto simp: prop_visit_def)
  obtain j a p fl where place: "desc_place D po (po_descs po) vi di = Some (Some (j, a, p))"
    "desc_read D po j a p = PR_VALUE (snd cv) fl"
    using field_place [OF fp(6,5) refl fp(4) ix(5) fs(2-5)] by blast
  have tagged: "jsobj_layout_untagged (po_layout po) j = Some False"
    using assms(3) by (auto simp: shape_of_def jsobj_layout_untagged_def)
  have v: "prop_visit cv = (fst (prop_visit cv), Some (jsobj_propvalue_addr (snd cv)))" by (simp add: prop_visit_def)
  show ?thesis
    by (subst v, rule iterates_one)
      (simp add: desc_step_def len ix(1) b fp(3) name desc_visit_def place tagged Let_def)
qed

lemma desc_loop_fields:
  assumes "js_target D" "propobj_ok D po" "shape_of po fs" "k + length props = nat (po_rndescs po)"
    and "\<forall>i < length props. fast_property D (po_addr po) fs (k + i) (props ! i)"
  shows "iterates (map prop_visit props) False func (desc_loop D po (length props) (of_nat k) func)"
  using assms(4,5)
proof (induction props arbitrary: k)
  case Nil
  then show ?case by (simp add: iterates_def)
next
  case (Cons cv props)
  have lt: "k < nat (po_rndescs po)" using Cons.prems(1) by simp
  have "fast_property D (po_addr po) fs k cv" using Cons.prems(2) by force
  note step = desc_step_field [OF assms(1-3) lt this, of func]
  have "iterates (map prop_visit props) False func (desc_loop D po (length props) (of_nat (Suc k)) func)"
    by (rule Cons.IH) (use Cons.prems in \<open>auto dest: spec [of _ "Suc _"]\<close>)
  then have rest: "iterates (map prop_visit props) False func (desc_loop D po (length props) (of_nat k + 1) func)"
    by (simp add: add.commute)
  show ?case
    using iterates_seq [OF step rest] unfolding list.size(4) One_nat_def add_Suc_right add_0_right desc_loop_Suc list.map
    by simp
qed

lemma fast_object_named:
  assumes "js_target D" and obj:
    "read_heap_array D ptr {UM_SLEEP} = Some (fs_props fs)"
    "read_heap_ptr D mapp (gv D V8_OFF_MAP_INSTANCE_DESCRIPTORS) = Some dptr"
    "read_heap_array D dptr {UM_SLEEP} = Some (fs_descs fs)"
    "length (fs_descs fs) = unat (gv D V8_PROP_IDX_FIRST) + 3 * length props"
    "read_size D addr = Some (fs_size fs)"
    "mem_vread D (mapp + gv D V8_OFF_MAP_INOBJECT_PROPERTIES) 1 = Some nin" "fs_ninprops fs = ucast (le_word nin)"
    "jsobj_layout_load D mapp = Some layout" "\<not> jl_haslayout layout \<or> jl_alltagged layout"
    "\<forall>k < length props. fast_property D addr fs k (props ! k)"
    and c: "cb_iter (visit func) (map prop_visit props) s = (rv, s')"
  shows "\<exists>p. jsobj_named D addr ptr mapp func s q propinfop = Some (if rv \<noteq> 0 then - 1 else 0, s', p)"
proof -
  have tgt: "target_ok D" "v8_tags_amd64 D" "prop_constants_ok D" using assms(1) by (simp_all add: js_target_def target_ok_def)
  define po where "po = \<lparr>po_addr = addr, po_props = fs_props fs, po_descs = fs_descs fs, po_content = Some (fs_descs fs),
    po_rndescs = int ((length (fs_descs fs) - unat (gv D V8_PROP_IDX_FIRST)) div 3), po_size = fs_size fs,
    po_ninprops = fs_ninprops fs, po_layout = layout\<rparr>"
  have len: "length (fs_descs fs) < 2 ^ 32" "length (fs_props fs) < 2 ^ 32"
    using read_heap_array_length [OF tgt(2) obj(3)] read_heap_array_length [OF tgt(2) obj(1)] by simp_all
  have desc: "gv D V8_OFF_MAP_INSTANCE_DESCRIPTORS \<noteq> - 1" using tgt(3) by (simp add: prop_constants_ok_def)
  obtain db where db: "mem_vread D (mapp + gv D V8_OFF_MAP_INSTANCE_DESCRIPTORS) 8 = Some db" "le_word db = dptr"
    using obj(2) by (auto simp: read_heap_ptr_def)
  have propobj: "jsobj_propobj D addr ptr mapp q = Some (Some (po, q))"
    using obj(1,3,5,6,8) db desc jsobj_content_descs [OF tgt(3) len(1)]
    by (simp add: jsobj_propobj_def jsobj_descriptors_ptr_def po_def obj(7))
  have n: "nat (po_rndescs po) = length props" using obj(4) by (simp add: po_def)
  have "propobj_ok D po" using len layout_load_ok [OF obj(8)] by (simp add: propobj_ok_def po_def)
  moreover have "shape_of po fs" using len obj(9) by (simp add: shape_of_def po_def)
  ultimately have "iterates (map prop_visit props) False func (desc_loop D po (length props) (of_nat 0) func)"
    by (rule desc_loop_fields [OF assms(1)]) (use n obj(10) in \<open>simp_all add: po_def\<close>)
  then obtain p where "desc_loop D po (length props) 0 func s q = Some (rv \<noteq> 0, s', p)"
    using iteratesD [OF _ c, of False _ q] by auto
  then show ?thesis using propobj n by (auto simp: jsobj_named_def)
qed

lemma fast_object_iteration:
  assumes "js_target D" and "fast_object D addr props"
  shows "\<exists>p. jsobj_properties D addr func s propinfop =
    Some (case cb_iter (visit func) (map prop_visit props) s of (rv, s') \<Rightarrow> (if rv \<noteq> 0 then - 1 else 0, s', p))"
proof -
  obtain ptr mapp dptr nin layout fs where
    f: "read_heap_ptr D addr (gv D V8_OFF_JSOBJECT_PROPERTIES) = Some ptr"
      "read_heap_ptr D addr (gv D V8_OFF_HEAPOBJECT_MAP) = Some mapp"
      "gv D V8_ELEMENTS_KIND_SHIFT = - 1 \<or> (\<exists>e. read_heap_ptr D addr (gv D V8_OFF_JSOBJECT_ELEMENTS) = Some e \<and>
         read_heap_array D e {UM_SLEEP} = Some [])"
      "jsobj_isdict D mapp = Some False" and
    o: "read_heap_array D ptr {UM_SLEEP} = Some (fs_props fs)"
      "read_heap_ptr D mapp (gv D V8_OFF_MAP_INSTANCE_DESCRIPTORS) = Some dptr"
      "read_heap_array D dptr {UM_SLEEP} = Some (fs_descs fs)"
      "length (fs_descs fs) = unat (gv D V8_PROP_IDX_FIRST) + 3 * length props"
      "read_size D addr = Some (fs_size fs)"
      "mem_vread D (mapp + gv D V8_OFF_MAP_INOBJECT_PROPERTIES) 1 = Some nin" "fs_ninprops fs = ucast (le_word nin)"
      "jsobj_layout_load D mapp = Some layout" "\<not> jl_haslayout layout \<or> jl_alltagged layout"
      "\<forall>k < length props. fast_property D addr fs k (props ! k)"
    using assms(2) unfolding fast_object_def by blast
  obtain type where type: "read_typebyte D ptr = Some type" "is_type D type V8_TYPE_FIXEDARRAY"
    using o(1) by (auto simp: read_heap_array_def split: if_splits Option.bind_splits)
  have elts: "jsobj_elements D addr mapp type func s JPI_NONE = Some (False, s, JPI_NONE)"
    using f(3) by (auto simp: jsobj_elements_def)
  obtain rv s' where c: "cb_iter (visit func) (map prop_visit props) s = (rv, s')" by fastforce
  from fast_object_named [OF assms(1) o c, of JPI_NONE propinfop] f(1,2,4) type elts c show ?thesis
    by (auto simp: jsobj_properties_def jsobj_nonnumeric_def read_heap_ptr_def)
qed

section \<open>Properties\<close>

text \<open>
  C8. For an object in fast mode, in the object layout of node 0.10 (field number in the value
  word) as in that of later versions (in the details), \<open>jsobj_properties\<close> hands the callback
  exactly the properties of the object, each with its name and the value in its slot, in the
  order of the descriptors, until the callback returns non-zero.
\<close>

theorem fast_object_properties:
  assumes "js_target D" and "fast_object D addr props"
  shows "\<exists>p. jsobj_properties D addr func s propinfop =
    Some (case cb_iter (visit func) (map prop_visit props) s of (rv, s') \<Rightarrow> (if rv \<noteq> 0 then - 1 else 0, s', p))"
  using fast_object_iteration [OF assms] .

text \<open>
  An object with two properties: \<open>hi\<close> in the object, a number, and \<open>hihi\<close>, whose name is a
  concatenation, in the properties array, a string.
\<close>

definition object_words :: "(uptr \<times> uptr) list" where
  "object_words =
     [(4096, 8193), (4104, 4353), (4120, push_bit 32 11), (8200, 172), (8224, 4609), (8240, 4), (8248, 1),
      (4352, 8449), (8456, 164), (4360, push_bit 32 1), (4368, 4161),
      (4608, 8449), (4616, push_bit 32 8), (4640, 4161), (4648, push_bit 32 1), (4656, 0),
      (4664, 5121), (4672, push_bit 32 1), (4680, push_bit 32 1),
      (4160, 9281), (9288, 4), (4168, push_bit 32 2), (4176, 0x6968),
      (5120, 9217), (9224, 5), (5128, push_bit 32 4), (5136, 4161), (5144, 4161)]"

definition object_props :: "(16 word list \<times> uptr) list" where
  "object_props = [([104, 105], push_bit 32 11), ([104, 105, 104, 105], 4161)]"

lemma object_keys:
  "string_text (sample_dbg object_words) 4161 [104, 105] 0"
  "string_text (sample_dbg object_words) 5121 [104, 105, 104, 105] 1"
proof -
  let ?D = "sample_dbg object_words"
  have so: "string_object ?D 5121 5 4" "string_object ?D 4161 4 2"
    by (simp_all add: string_object_def sample_typebyte sample_smi sample_values_def object_words_def
        V8_TYPE_STRING_def push_bit_eq_mult drop_bit_eq_div)
  have chars: "seq_chars ?D 4161 True (unat (2 :: uptr)) = Some [104, 105]"
    using sample_byte_aligned [of 4176 0 "words_at object_words"] sample_byte_aligned [of 4176 1 "words_at object_words"]
    by (simp add: seq_chars_def sample_values_def sample_vread_def upt_rec object_words_def drop_bit_eq_div)
  have ascii: "V8_STRENC_ASCII ?D 4" "V8_STRREP_SEQ ?D 4" "V8_STRREP_CONS ?D 5"
    by (simp_all add: V8_STRENC_ASCII_def V8_STRREP_SEQ_def V8_STRREP_CONS_def sample_values_def)
  show leaf: "string_text ?D 4161 [104, 105] 0" by (rule text_seq [OF so(2) ascii(2)]) (use chars ascii in simp)
  have ptrs: "read_heap_ptr ?D 5121 (gv ?D V8_OFF_CONSSTRING_FIRST) = Some 4161"
    "read_heap_ptr ?D 5121 (gv ?D V8_OFF_CONSSTRING_SECOND) = Some 4161"
    by (simp_all add: sample_ptr sample_values_def object_words_def)
  from text_cons [OF so(1) ascii(3) ptrs leaf leaf] show "string_text ?D 5121 [104, 105, 104, 105] 1" by simp
qed

lemma object_target: "js_target (sample_dbg object_words)"
  by (simp add: js_target_def strrep_tags_ok_def prop_constants_ok_def dict_constants_ok_def dict_start_def sample_values_def)

definition object_shape :: fast_shape where
  "object_shape = \<lparr>fs_props = [4161],
     fs_descs = [0, 0, 4161, push_bit 32 1, 0, 5121, push_bit 32 1, push_bit 32 1], fs_size = 32, fs_ninprops = 1\<rparr>"

lemma object_fields:
  "fast_property (sample_dbg object_words) 4097 object_shape 0 ([104, 105], push_bit 32 11)"
  "fast_property (sample_dbg object_words) 4097 object_shape 1 ([104, 105, 104, 105], 4161)"
proof -
  let ?D = "sample_dbg object_words"
  have ver: "v8_major ?D = 3" "v8_minor ?D = 14" by (simp_all add: sample_dbg_def)
  have smi: "V8_SMI_VALUE ?D (push_bit 32 1) = 1" "V8_SMI_VALUE ?D 0 = 0" "V8_IS_SMI ?D (push_bit 32 1)" "V8_IS_SMI ?D 0"
    using smi_shift_amd64 [OF sample_tags, of object_words]
    by (simp_all add: V8_SMI_VALUE_def V8_IS_SMI_def sample_values_def push_bit_eq_mult drop_bit_eq_div)
  have field: "V8_DESC_ISFIELD ?D (push_bit 32 1)"
    unfolding V8_DESC_ISFIELD_def smi by (simp add: sample_values_def)
  have bytes: "nbytes MSF_ASCIIONLY [104, 105] < 1024" "nbytes MSF_ASCIIONLY [104, 105, 104, 105] < 1024"
    by (simp_all add: mdbv8_strbuf_nbytesforchar_def MSF_ASCIIONLY_def MSF_JSON_def)
  have first: "unat (gv ?D V8_PROP_IDX_FIRST) = 2" by (simp add: sample_values_def)
  have num: "field_number ?D d (push_bit 32 1) = 1" "field_number ?D d 0 = 0" for d
    using smi_shift_amd64 [OF sample_tags, of object_words]
    by (simp_all add: field_number_def ver V8_SMI_VALUE_INTPTR_def push_bit_eq_mult)
  have val: "field_value ?D 4097 object_shape 0 (push_bit 32 11)" "field_value ?D 4097 object_shape 1 (4161)"
    by (simp_all add: field_value_def object_shape_def Let_def V8_OFF_HEAP_def sample_values_def sample_ptr object_words_def)
  have keys: "\<exists>n \<le> 256. string_text ?D 4161 [104, 105] n" "\<exists>n \<le> 256. string_text ?D 5121 [104, 105, 104, 105] n"
    using object_keys by (auto intro: exI [of _ 0] exI [of _ 1])
  show "fast_property ?D 4097 object_shape 0 ([104, 105], push_bit 32 11)"
    unfolding fast_property_def Let_def first using keys bytes field smi val num by (simp add: object_shape_def)
  show "fast_property ?D 4097 object_shape 1 ([104, 105, 104, 105], 4161)"
    unfolding fast_property_def Let_def first using keys bytes field smi val num by (simp add: object_shape_def)
qed

lemma object_fast: "fast_object (sample_dbg object_words) 4097 object_props"
proof -
  let ?D = "sample_dbg object_words"
  have ptr: "read_heap_ptr ?D 4097 (gv ?D V8_OFF_JSOBJECT_PROPERTIES) = Some 4353"
    "read_heap_ptr ?D 4097 (gv ?D V8_OFF_HEAPOBJECT_MAP) = Some 8193"
    "read_heap_ptr ?D 8193 (gv ?D V8_OFF_MAP_INSTANCE_DESCRIPTORS) = Some 4609"
    by (simp_all add: sample_ptr sample_values_def object_words_def)
  have arr: "read_heap_array ?D 4353 {UM_SLEEP} = Some (map (\<lambda>i. words_at object_words (4353 + 15 + 8 * of_nat i)) [0..<1])"
    "read_heap_array ?D 4609 {UM_SLEEP} = Some (map (\<lambda>i. words_at object_words (4609 + 15 + 8 * of_nat i)) [0..<8])"
    by (rule sample_heap_array; simp add: object_words_def push_bit_eq_mult)+
  have arr2: "read_heap_array ?D 4353 {UM_SLEEP} = Some (fs_props object_shape)"
    "read_heap_array ?D 4609 {UM_SLEEP} = Some (fs_descs object_shape)"
    unfolding arr by (simp_all add: object_shape_def object_words_def upt_rec)
  have byte: "mem_vread ?D 8240 1 = Some [4]" "mem_vread ?D 8248 1 = Some [1]"
    by (simp_all add: sample_vread_def sample_byte_def object_words_def)
  have size: "read_size ?D 4097 = Some (fs_size object_shape)"
    using ptr(2) byte(1) by (simp add: read_size_def sample_values_def V8_IS_HEAPOBJECT_def read_heap_byte_def object_shape_def)
  have dict: "jsobj_isdict ?D 8193 = Some False"
    by (simp add: jsobj_isdict_def sample_values_def sample_dbg_def conf_field_lookup_def sample_vread_def
        upt_rec sample_byte_def object_words_def)
  have layout: "jsobj_layout_load ?D 8193 = Some layout_zero" by (simp add: jsobj_layout_load_def sample_values_def)
  have props: "\<forall>k < length object_props. fast_property ?D 4097 object_shape k (object_props ! k)"
    using object_fields by (auto simp: object_props_def less_Suc_eq nth_Cons')
  show ?thesis
    unfolding fast_object_def
    by (rule exI [of _ 4353], rule exI [of _ 8193], rule exI [of _ 4609], rule exI [of _ "[1]"],
        rule exI [of _ layout_zero], rule exI [of _ object_shape])
      (use ptr arr2 size dict layout props byte in
        \<open>simp add: sample_values_def object_shape_def object_props_def layout_zero_def\<close>)
qed

lemma fast_object_properties_witness:
  "\<exists>p. jsobj_properties (sample_dbg object_words) 4097 record_prop [] None =
     Some (0, [(''hi'', Some (jsobj_propvalue_addr (push_bit 32 11))),
               (''hihi'', Some (jsobj_propvalue_addr (4161)))], p)"
proof -
  have "escaped 104 MSF_ASCIIONLY = ''h''" "escaped 105 MSF_ASCIIONLY = ''i''"
    by (simp_all add: escaped_ascii_plain char_of_def bit_simps)
  then have "map prop_visit object_props = [(''hi'', Some (jsobj_propvalue_addr (push_bit 32 11))),
      (''hihi'', Some (jsobj_propvalue_addr (4161)))]"
    by (simp add: object_props_def prop_visit_def NUL_def)
  with fast_object_properties [OF object_target object_fast, of record_prop "[]" None] show ?thesis
    unfolding cb_iter_record_prop by simp
qed

end
