(* ===== verification/Whatis.thy ===== *)
theory Whatis
  imports JsStr FixedArray
begin

text \<open>
  Which heap object contains an address (\<^verbatim>\<open>src/src/mdb_v8_whatis.c\<close> and \<open>v8contains\<close> of
  \<^verbatim>\<open>src/src/mdb_v8_subr.c\<close>): the memory before the address is searched for a word that
  points to a Map, and the size of the object that starts there is computed from its type.
\<close>

section \<open>The extent of an object\<close>

text \<open>\<open>None\<close> is the result \<open>-1\<close>: it cannot be told.\<close>

definition v8contains :: "v8dbg \<Rightarrow> uptr \<Rightarrow> byte \<Rightarrow> uptr \<Rightarrow> bool option" where
  "v8contains D addr type target =
     (if V8_TYPE_STRING D type \<and> V8_STRREP_SEQ D type then do {
        strp \<leftarrow> v8string_load D addr {UM_SLEEP};
        let len = v8string_length strp;
        let sz = (if V8_STRENC_ASCII D type then gv D V8_OFF_SEQASCIISTR_CHARS + len
                  else gv D V8_OFF_SEQTWOBYTESTR_CHARS + 2 * len);
        Some (target < addr + sz)
      }
      else if is_type D type V8_TYPE_FIXEDARRAY then do {
        arrayp \<leftarrow> v8fixedarray_load D addr {UM_SLEEP};
        Some (target < addr + (gv D V8_OFF_FIXEDARRAY_DATA + v8fixedarray_length arrayp * of_nat PTRSZ))
      }
      else do {
        objsize \<leftarrow> read_size D addr;
        sz \<leftarrow> (if is_type D type V8_TYPE_JSOBJECT then do {
                   bs \<leftarrow> mem_vread D (addr + gv D V8_OFF_HEAPOBJECT_MAP) 8;
                   nb \<leftarrow> mem_vread D (le_word bs + gv D V8_OFF_MAP_INOBJECT_PROPERTIES) 1;
                   Some (objsize + le_word nb * of_nat PTRSZ)
                 } else Some objsize);
        Some (target < addr + sz)
      })"

section \<open>The search\<close>

datatype v8whatis_error = V8W_OK | V8W_ERR_NOTFOUND | V8W_ERR_DOESNTCONTAIN

record v8whatis_t =
  v8w_addr :: uptr
  v8w_origaddr :: uptr
  v8w_baseaddr :: uptr
  v8w_basetype :: byte

text \<open>
  The body of the loop: the type byte of the object at \<open>curaddr\<close>, or \<open>None\<close> where the code
  continues with the next address.
\<close>

definition whatis_candidate :: "v8dbg \<Rightarrow> uptr \<Rightarrow> byte option" where
  "whatis_candidate D curaddr = do {
     curvalue \<leftarrow> read_heap_ptr D curaddr (gv D V8_OFF_HEAPOBJECT_MAP);
     typebyte \<leftarrow> read_typebyte D curvalue;
     if \<not> is_type D typebyte V8_TYPE_MAP then None else read_typebyte D curaddr
   }"

text \<open>
  The loop; the outer option is a failed assertion or a loop that does not end, the inner
  one whether the loop was left by \<open>break\<close>.
\<close>

partial_function (option) whatis_loop :: "v8dbg \<Rightarrow> uptr \<Rightarrow> uptr \<Rightarrow> uptr \<Rightarrow> (uptr \<times> byte) option option" where
  "whatis_loop D addr maxoffset curoffset =
     (if maxoffset \<le> curoffset then Some None
      else let curaddr = addr - curoffset in
        if \<not> V8_IS_HEAPOBJECT D curaddr then None
        else (case whatis_candidate D curaddr of
          None \<Rightarrow> whatis_loop D addr maxoffset (curoffset + of_nat PTRSZ)
        | Some typebyte \<Rightarrow> Some (Some (curaddr, typebyte))))"

definition v8whatis :: "v8dbg \<Rightarrow> uptr \<Rightarrow> uptr \<Rightarrow> v8whatis_t \<Rightarrow> (v8whatis_error \<times> v8whatis_t) option" where
  "v8whatis D origaddr maxoffset whatisp =
     (let ptrlowbits = of_nat PTRSZ - 1;
          addr = (origaddr AND NOT ptrlowbits) OR gv D V8_HeapObjectTag;
          whatisp = whatisp\<lparr>v8w_origaddr := origaddr, v8w_addr := addr\<rparr>
      in (case whatis_loop D addr maxoffset 0 of
            None \<Rightarrow> None
          | Some None \<Rightarrow> Some (V8W_ERR_NOTFOUND, whatisp)
          | Some (Some (curaddr, typebyte)) \<Rightarrow>
              let whatisp = whatisp\<lparr>v8w_baseaddr := curaddr, v8w_basetype := typebyte\<rparr> in
              if v8contains D curaddr typebyte addr = Some False
              then Some (V8W_ERR_DOESNTCONTAIN, whatisp)
              else Some (V8W_OK, whatisp)))"

section \<open>Lemmas\<close>

text \<open>The addresses looked at keep the tag.\<close>

lemma and_3_plus_8: "(v + 8) AND 3 = v AND (3 :: uptr)"
proof -
  have m: "unat (w AND 3) = unat w mod 4" for w :: uptr
  proof -
    have "w AND 3 = take_bit 2 w" by (simp add: take_bit_eq_mask mask_eq_exp_minus_1)
    then show ?thesis by (simp add: take_bit_eq_mod unat_mod)
  qed
  have "unat (v + 8) mod 4 = (unat v + 8) mod 2 ^ 64 mod 4" by (simp add: unat_word_ariths)
  also have "\<dots> = (unat v + 8) mod 4" by (rule mod_mod_cancel) simp
  also have "\<dots> = unat v mod 4" by presburger
  finally show ?thesis by (simp add: word_unat_eq_iff m)
qed

lemma tagged_and_3: "(((a :: uptr) AND NOT 7) OR 1) - 8 * of_nat k AND 3 = 1"
proof (induction k)
  case 0
  have "(a AND NOT 7) AND 3 = 0" "(1 :: uptr) AND 3 = 1"
    by (simp_all add: and.assoc)
  then show ?case by (simp add: bit.conj_disj_distrib2)
next
  case (Suc k)
  let ?w = "((a AND NOT 7) OR 1) - 8 * of_nat (Suc k)"
  have "?w + 8 = ((a AND NOT 7) OR 1) - 8 * of_nat k" by (simp add: algebra_simps)
  with Suc and_3_plus_8 [of ?w] show ?case by simp
qed

lemma whatis_loop_find:
  assumes "v8_tags_amd64 D" and "unat maxoffset \<le> 2 ^ 64 - 8"
    and "a = (origaddr AND NOT 7) OR 1" and "8 * k < unat maxoffset + 8"
  shows "whatis_loop D a maxoffset (8 * of_nat k) =
    Some (map_option (\<lambda>j. (a - 8 * of_nat j, the (whatis_candidate D (a - 8 * of_nat j))))
      (List.find (\<lambda>j. whatis_candidate D (a - 8 * of_nat j) \<noteq> None) [k..<(unat maxoffset + 7) div 8]))"
  using assms(4)
proof (induction "(unat maxoffset + 7) div 8 - k" arbitrary: k rule: less_induct)
  case less
  have lt: "8 * k < 2 ^ 64" using less.prems assms(2) by simp
  then have "unat (of_nat (8 * k) :: uptr) = 8 * k" by (rule unat_of_nat_lt)
  then have k8: "unat (8 * of_nat k :: uptr) = 8 * k" by simp
  have tag: "V8_IS_HEAPOBJECT D (a - 8 * of_nat k)"
    using assms(1) tagged_and_3 [of origaddr k] by (simp add: V8_IS_HEAPOBJECT_def v8_tags_amd64_def assms(3))
  show ?case
  proof (cases "unat maxoffset \<le> 8 * k")
    case True
    then have "[k..<(unat maxoffset + 7) div 8] = []" by simp
    with True k8 show ?thesis by (subst whatis_loop.simps) (simp add: uptr_le_unat)
  next
    case False
    then have upt: "[k..<(unat maxoffset + 7) div 8] = k # [Suc k..<(unat maxoffset + 7) div 8]"
      by (simp add: upt_conv_Cons)
    have nmax: "\<not> maxoffset \<le> 8 * of_nat k" using False k8 by (simp add: uptr_le_unat)
    have nxt: "8 * of_nat k + of_nat PTRSZ = (8 * of_nat (Suc k) :: uptr)" by (simp add: PTRSZ_def)
    have "(unat maxoffset + 7) div 8 - Suc k < (unat maxoffset + 7) div 8 - k" "8 * Suc k < unat maxoffset + 8"
      using False by auto
    note IH = less.hyps [OF this]
    show ?thesis
    proof (cases "whatis_candidate D (a - 8 * of_nat k)")
      case None
      have "whatis_loop D a maxoffset (8 * of_nat k) = whatis_loop D a maxoffset (8 * of_nat (Suc k))"
        using nmax tag None by (subst whatis_loop.simps) (simp only: Let_def if_False option.case nxt simp_thms)
      with IH None upt show ?thesis by simp
    next
      case (Some t)
      then show ?thesis using nmax tag upt by (subst whatis_loop.simps) simp
    qed
  qed
qed

section \<open>Properties\<close>

text \<open>
  C29. \<open>v8whatis\<close> looks at the aligned words at or before the address, nearest first, within
  \<open>maxoffset\<close> bytes, and reports the first one that starts an object with a readable Map; it
  reports that none was found exactly when there is no such word. The object reported is
  rejected exactly when its size is known and does not reach the address.
\<close>

theorem whatis_nearest:
  fixes origaddr :: uptr
  assumes "v8_tags_amd64 D" and "unat maxoffset \<le> 2 ^ 64 - 8"
  defines "a \<equiv> (origaddr AND NOT 7) OR 1"
  defines "at \<equiv> (\<lambda>k. a - 8 * of_nat k)"
  shows "\<exists>err w'. v8whatis D origaddr maxoffset w = Some (err, w') \<and> v8w_addr w' = a \<and>
    (err = V8W_ERR_NOTFOUND \<longleftrightarrow> (\<forall>k. 8 * k < unat maxoffset \<longrightarrow> whatis_candidate D (at k) = None)) \<and>
    (err \<noteq> V8W_ERR_NOTFOUND \<longrightarrow> (\<exists>k. 8 * k < unat maxoffset \<and> v8w_baseaddr w' = at k \<and>
       whatis_candidate D (at k) = Some (v8w_basetype w') \<and>
       (\<forall>j < k. whatis_candidate D (at j) = None) \<and>
       (err = V8W_ERR_DOESNTCONTAIN \<longleftrightarrow> v8contains D (at k) (v8w_basetype w') a = Some False)))"
proof -
  let ?n = "(unat maxoffset + 7) div 8"
  have n: "k < ?n \<longleftrightarrow> 8 * k < unat maxoffset" for k by linarith
  have addr: "(origaddr AND NOT (of_nat PTRSZ - 1)) OR gv D V8_HeapObjectTag = a"
    using assms(1) by (simp add: a_def PTRSZ_def v8_tags_amd64_def)
  have loop: "whatis_loop D a maxoffset 0 =
    Some (map_option (\<lambda>j. (at j, the (whatis_candidate D (at j))))
      (List.find (\<lambda>j. whatis_candidate D (at j) \<noteq> None) [0..<?n]))"
    using whatis_loop_find [OF assms(1,2) _, of a origaddr 0] a_def by (simp add: at_def)
  show ?thesis
  proof (cases "List.find (\<lambda>j. whatis_candidate D (at j) \<noteq> None) [0..<?n]")
    case None
    then have "\<forall>k. 8 * k < unat maxoffset \<longrightarrow> whatis_candidate D (at k) = None"
      using n by (auto simp: find_None_iff)
    with None loop show ?thesis by (simp add: v8whatis_def Let_def addr)
  next
    case (Some k)
    then have k: "k < ?n" "whatis_candidate D (at k) \<noteq> None" "\<forall>j < k. whatis_candidate D (at j) = None"
      by (auto simp: find_Some_iff)
    then obtain t where t: "whatis_candidate D (at k) = Some t" by blast
    define err where "err = (if v8contains D (at k) t a = Some False then V8W_ERR_DOESNTCONTAIN else V8W_OK)"
    define w' where "w' = w\<lparr>v8w_origaddr := origaddr, v8w_addr := a, v8w_baseaddr := at k, v8w_basetype := t\<rparr>"
    have "v8whatis D origaddr maxoffset w = Some (err, w')"
      using loop Some t by (simp add: v8whatis_def Let_def addr err_def w'_def)
    moreover have w': "v8w_addr w' = a" "v8w_baseaddr w' = at k" "v8w_basetype w' = t"
      by (simp_all add: w'_def)
    moreover have "err \<noteq> V8W_ERR_NOTFOUND" "\<not> (\<forall>k. 8 * k < unat maxoffset \<longrightarrow> whatis_candidate D (at k) = None)"
      using k n by (auto simp: err_def)
    moreover have "err = V8W_ERR_DOESNTCONTAIN \<longleftrightarrow> v8contains D (at k) (v8w_basetype w') a = Some False"
      by (simp add: err_def w')
    moreover have "whatis_candidate D (at k) = Some (v8w_basetype w')" using t w' by simp
    moreover have "8 * k < unat maxoffset" using k n by blast
    ultimately show ?thesis using k(3) by metis
  qed
qed

text \<open>An array at 4096, its Map at 8192 and the Map of Maps at 8256.\<close>

definition whatis_words :: "(uptr \<times> uptr) list" where
  "whatis_words = [(4096, 8193), (8192, 8257), (8200, 164), (8264, 129), (4104, push_bit 32 2)]"

lemma whatis_nearest_witness:
  "\<exists>w'. v8whatis (sample_dbg whatis_words) 4099 64
     \<lparr>v8w_addr = 0, v8w_origaddr = 0, v8w_baseaddr = 0, v8w_basetype = 0\<rparr> = Some (V8W_OK, w') \<and>
     v8w_baseaddr w' = 4097 \<and> v8w_basetype w' = 164"
proof -
  let ?D = "sample_dbg whatis_words"
  have cand: "whatis_candidate ?D 4097 = Some 164"
    by (simp add: whatis_candidate_def sample_ptr sample_typebyte is_type_def sample_values_def whatis_words_def)
  have cont: "v8contains ?D 4097 164 4097 = Some True"
    by (simp add: v8contains_def v8fixedarray_load_def sample_typebyte sample_smi is_type_def sample_values_def
        whatis_words_def V8_TYPE_STRING_def V8_IS_HEAPOBJECT_def v8fixedarray_length_def PTRSZ_def
        push_bit_eq_mult drop_bit_eq_div)
  have a: "(4099 AND NOT 7) OR 1 = (4097 :: uptr)" by simp
  have m: "unat (64 :: uptr) \<le> 2 ^ 64 - 8" by simp
  from whatis_nearest [OF sample_tags m, of whatis_words 4099, unfolded a] obtain err w' where
    w': "v8whatis ?D 4099 64 \<lparr>v8w_addr = 0, v8w_origaddr = 0, v8w_baseaddr = 0, v8w_basetype = 0\<rparr> = Some (err, w')"
    "err = V8W_ERR_NOTFOUND \<longleftrightarrow> (\<forall>k. 8 * k < unat (64 :: uptr) \<longrightarrow> whatis_candidate ?D (4097 - 8 * of_nat k) = None)"
    "err \<noteq> V8W_ERR_NOTFOUND \<Longrightarrow> \<exists>k. v8w_baseaddr w' = 4097 - 8 * of_nat k \<and>
       whatis_candidate ?D (4097 - 8 * of_nat k) = Some (v8w_basetype w') \<and>
       (\<forall>j < k. whatis_candidate ?D (4097 - 8 * of_nat j) = None) \<and>
       (err = V8W_ERR_DOESNTCONTAIN \<longleftrightarrow> v8contains ?D (4097 - 8 * of_nat k) (v8w_basetype w') 4097 = Some False)"
    by blast
  have "err \<noteq> V8W_ERR_NOTFOUND"
  proof
    assume "err = V8W_ERR_NOTFOUND"
    with w'(2) have "8 * 0 < unat (64 :: uptr) \<longrightarrow> whatis_candidate ?D (4097 - 8 * of_nat 0) = None" by blast
    with cand show False by simp
  qed
  then obtain k where k: "v8w_baseaddr w' = 4097 - 8 * of_nat k"
    "whatis_candidate ?D (4097 - 8 * of_nat k) = Some (v8w_basetype w')"
    "\<forall>j < k. whatis_candidate ?D (4097 - 8 * of_nat j) = None"
    "err = V8W_ERR_DOESNTCONTAIN \<longleftrightarrow> v8contains ?D (4097 - 8 * of_nat k) (v8w_basetype w') 4097 = Some False"
    using w'(3) by blast
  have "k = 0" using k(3) cand by (cases k) auto
  then have "v8w_baseaddr w' = 4097" "v8w_basetype w' = 164" "err = V8W_OK"
    using k cand cont \<open>err \<noteq> V8W_ERR_NOTFOUND\<close> by (auto intro: v8whatis_error.exhaust [of err])
  then show ?thesis using w'(1) by blast
qed

end
