(* ===== verification/Ugrep.thy ===== *)
theory Ugrep
  imports Sample
begin

text \<open>
  The search for references to an address (\<^verbatim>\<open>src/src/mdb_v8_dbi.c\<close>): every mapping of the
  target is read in chunks of 4096 bytes, and the callback is called with the address of each
  aligned word that holds the value. The mappings come from libproc, whose
  \<^verbatim>\<open>Pmapping_iter\<close> calls a function for each until it returns non-zero, and returns that
  value; they are a parameter here.
\<close>

record 's ugrep_op =
  ug_addr :: uptr
  ug_result :: int
  ug_callback :: "uptr \<Rightarrow> 's \<Rightarrow> int \<times> 's"
  ug_cbarg :: 's
  ug_bufsz :: uptr

record prmap =
  pr_vaddr :: uptr
  pr_size :: uptr

text \<open>The words of a chunk that was read.\<close>

fun ugrep_words :: "uptr \<Rightarrow> nat \<Rightarrow> uptr list \<Rightarrow> 's ugrep_op \<Rightarrow> int \<times> 's ugrep_op" where
  "ugrep_words chunkbase i [] ugrep = (0, ugrep)"
| "ugrep_words chunkbase i (w # ws) ugrep =
     (if w = ug_addr ugrep then
        (case ug_callback ugrep (chunkbase + of_nat i * of_nat PTRSZ) (ug_cbarg ugrep) of
           (rv, s) \<Rightarrow>
             let ugrep = ugrep\<lparr>ug_result := rv, ug_cbarg := s\<rparr> in
             if rv \<noteq> 0 then (- 1, ugrep) else ugrep_words chunkbase (i + 1) ws ugrep)
      else ugrep_words chunkbase (i + 1) ws ugrep)"

text \<open>The loop over the chunks of a mapping; \<open>None\<close> where it does not end.\<close>

partial_function (option) ugrep_chunks ::
    "v8dbg \<Rightarrow> prmap \<Rightarrow> uptr \<Rightarrow> 's ugrep_op \<Rightarrow> (int \<times> 's ugrep_op) option" where
  "ugrep_chunks D pmp chunkbase ugrep =
     (if \<not> chunkbase < pr_vaddr pmp + pr_size pmp then Some (0, ugrep)
      else let bufsz = ug_bufsz ugrep;
               ntoread = min bufsz (pr_size pmp - (chunkbase - pr_vaddr pmp))
        in (case mem_vread D chunkbase (unat ntoread) of
              None \<Rightarrow> ugrep_chunks D pmp (chunkbase + bufsz) ugrep
            | Some bs \<Rightarrow>
                (case ugrep_words chunkbase 0 (le_words (unat ntoread div PTRSZ) bs) ugrep of
                   (rv, ugrep) \<Rightarrow>
                     if rv \<noteq> 0 then Some (rv, ugrep)
                     else ugrep_chunks D pmp (chunkbase + bufsz) ugrep)))"

definition ugrep_mapping :: "v8dbg \<Rightarrow> 's ugrep_op \<Rightarrow> prmap \<Rightarrow> (int \<times> 's ugrep_op) option" where
  "ugrep_mapping D ugrep pmp = ugrep_chunks D pmp (pr_vaddr pmp) ugrep"

text \<open>
  \<open>piter\<close> is \<^verbatim>\<open>Pmapping_iter\<close> on the target's process handle, \<open>None\<close> when there is no
  handle.
\<close>

definition dbi_ugrep ::
    "v8dbg \<Rightarrow> (('s ugrep_op \<Rightarrow> prmap \<Rightarrow> (int \<times> 's ugrep_op) option) \<Rightarrow> 's ugrep_op \<Rightarrow> (int \<times> 's ugrep_op) option) option \<Rightarrow>
     uptr \<Rightarrow> (uptr \<Rightarrow> 's \<Rightarrow> int \<times> 's) \<Rightarrow> 's \<Rightarrow> (int \<times> 's) option" where
  "dbi_ugrep D pshandle addr callback cbarg =
     (case pshandle of
        None \<Rightarrow> Some (- 1, cbarg)
      | Some piter \<Rightarrow>
          (case piter (ugrep_mapping D)
                  \<lparr>ug_addr = addr, ug_result = 0, ug_callback = callback, ug_cbarg = cbarg,
                   ug_bufsz = 4096\<rparr> of
             None \<Rightarrow> None
           | Some (err, ugrep) \<Rightarrow> Some (if err \<noteq> 0 then - 1 else ug_result ugrep, ug_cbarg ugrep)))"

section \<open>What is found\<close>

text \<open>
  The documented behaviour of the iteration over the mappings, and the references of a
  mapping: its aligned words that hold the value, in the chunks that can be read.
\<close>

fun mappings_iter :: "'m list \<Rightarrow> ('u \<Rightarrow> 'm \<Rightarrow> (int \<times> 'u) option) \<Rightarrow> 'u \<Rightarrow> (int \<times> 'u) option" where
  "mappings_iter [] func u = Some (0, u)"
| "mappings_iter (pmp # pmps) func u =
     (case func u pmp of
        None \<Rightarrow> None
      | Some (rv, u') \<Rightarrow> if rv \<noteq> 0 then Some (rv, u') else mappings_iter pmps func u')"

definition chunk_readable :: "v8dbg \<Rightarrow> prmap \<Rightarrow> nat \<Rightarrow> bool" where
  "chunk_readable D pmp k \<longleftrightarrow>
     mem_vread D (pr_vaddr pmp + of_nat (4096 * k)) (min 4096 (unat (pr_size pmp) - 4096 * k)) \<noteq> None"

definition is_reference :: "v8dbg \<Rightarrow> uptr \<Rightarrow> prmap \<Rightarrow> nat \<Rightarrow> bool" where
  "is_reference D addr pmp i \<longleftrightarrow> chunk_readable D pmp (i div 512) \<and>
     read_heap_ptr D (pr_vaddr pmp) (of_nat (8 * i)) = Some addr"

definition mapping_refs :: "v8dbg \<Rightarrow> uptr \<Rightarrow> prmap \<Rightarrow> uptr list" where
  "mapping_refs D addr pmp =
     map (\<lambda>i. pr_vaddr pmp + of_nat (8 * i))
       (filter (is_reference D addr pmp) [0..<unat (pr_size pmp) div 8])"

text \<open>A mapping that ends well before the end of the address space.\<close>

definition mapping_ok :: "prmap \<Rightarrow> bool" where
  "mapping_ok pmp \<longleftrightarrow> unat (pr_vaddr pmp) + unat (pr_size pmp) + 4096 < 2 ^ 64"

text \<open>The search after the callback was called with some references.\<close>

definition ug_call :: "uptr list \<Rightarrow> 's ugrep_op \<Rightarrow> int \<times> 's ugrep_op" where
  "ug_call refs u =
     (case cb_iter (ug_callback u) refs (ug_cbarg u) of
        (rv, s) \<Rightarrow> (if rv \<noteq> 0 then - 1 else 0, u\<lparr>ug_result := rv, ug_cbarg := s\<rparr>))"

lemma ug_call_Nil: "ug_result u = 0 \<Longrightarrow> ug_call [] u = (0, u)"
  by (simp add: ug_call_def)

lemma ug_call_append:
  "ug_call (xs @ ys) u = (case ug_call xs u of (rv, u') \<Rightarrow> if rv \<noteq> 0 then (rv, u') else ug_call ys u')"
  by (auto simp: ug_call_def cb_iter_append split: prod.splits)

lemma ug_call_frame:
  assumes "ug_call refs u = (rv, u')"
  shows "ug_addr u' = ug_addr u" "ug_bufsz u' = ug_bufsz u" "ug_callback u' = ug_callback u"
    "rv = 0 \<Longrightarrow> ug_result u' = 0"
  using assms by (auto simp: ug_call_def split: prod.splits if_splits)

lemma ugrep_words_call:
  assumes "ug_result u = 0"
  shows "ugrep_words base i ws u =
    ug_call (map (\<lambda>j. base + of_nat (8 * j)) (filter (\<lambda>j. ws ! (j - i) = ug_addr u) [i..<i + length ws])) u"
  using assms
proof (induction ws arbitrary: i u)
  case Nil
  then show ?case by (simp add: ug_call_Nil)
next
  case (Cons w ws)
  have upt: "[i..<i + length (w # ws)] = i # [Suc i..<Suc i + length ws]" by (simp add: upt_rec)
  have flt: "filter (\<lambda>j. (w # ws) ! (j - i) = a) [Suc i..<Suc i + length ws] =
      filter (\<lambda>j. ws ! (j - Suc i) = a) [Suc i..<Suc i + length ws]" for a
    by (rule filter_cong) (auto simp: nth_Cons' Suc_diff_le)
  have ix: "base + of_nat i * of_nat PTRSZ = base + of_nat (8 * i)" by (simp add: PTRSZ_def mult.commute)
  show ?case
  proof (cases "w = ug_addr u")
    case True
    obtain rv s where cb: "ug_callback u (base + of_nat (8 * i)) (ug_cbarg u) = (rv, s)" by fastforce
    let ?u = "u\<lparr>ug_result := rv, ug_cbarg := s\<rparr>"
    have one: "ug_call [base + of_nat (8 * i)] u = (if rv \<noteq> 0 then - 1 else 0, ?u)"
      using cb by (simp add: ug_call_def)
    have "ugrep_words base i (w # ws) u = (if rv \<noteq> 0 then (- 1, ?u) else ugrep_words base (i + 1) ws ?u)"
      using True cb ix by (simp add: Let_def)
    also have "\<dots> = ug_call ([base + of_nat (8 * i)] @ map (\<lambda>j. base + of_nat (8 * j))
        (filter (\<lambda>j. ws ! (j - Suc i) = ug_addr u) [Suc i..<Suc i + length ws])) u"
      unfolding ug_call_append one using Cons.IH [of ?u "Suc i"] by simp
    finally show ?thesis using True upt flt [of "ug_addr u"] by simp
  next
    case False
    then show ?thesis using upt flt [of "ug_addr u"] Cons by simp
  qed
qed

lemma chunk_reference:
  assumes "vread_laws D" "4096 * k < unat (pr_size pmp)"
    and "mem_vread D (pr_vaddr pmp + of_nat (4096 * k)) m = Some bs"
    and "m = min 4096 (unat (pr_size pmp) - 4096 * k)" "j < m div 8"
  shows "is_reference D addr pmp (512 * k + j) \<longleftrightarrow> le_words (m div 8) bs ! j = addr"
proof -
  have j: "8 * j + 8 \<le> m" using assms(5) by linarith
  have "j < 512" using assms(4,5) by linarith
  then have "(512 * k + j) div 512 = k" by simp
  moreover have "chunk_readable D pmp k" using assms(3,4) by (simp add: chunk_readable_def)
  moreover have "read_heap_ptr D (pr_vaddr pmp) (of_nat (8 * (512 * k + j))) = Some (le_words (m div 8) bs ! j)"
  proof -
    have "pr_vaddr pmp + of_nat (8 * (512 * k + j)) = (pr_vaddr pmp + of_nat (4096 * k)) + of_nat (8 * j)"
      by (simp add: algebra_simps)
    then show ?thesis
      using vread_part [OF assms(1,3) j] nth_le_words [OF assms(5), of bs] by (simp only: read_heap_ptr_def option.map)
  qed
  ultimately show ?thesis by (simp add: is_reference_def)
qed

lemma ugrep_chunks_call:
  fixes u :: "'s ugrep_op"
  assumes "vread_laws D" "mapping_ok pmp" "ug_bufsz u = 4096" "ug_result u = 0"
    and "4096 * k < unat (pr_size pmp) + 4096"
  shows "ugrep_chunks D pmp (pr_vaddr pmp + of_nat (4096 * k)) u =
    Some (ug_call (map (\<lambda>i. pr_vaddr pmp + of_nat (8 * i))
      (filter (is_reference D (ug_addr u) pmp) [512 * k..<unat (pr_size pmp) div 8])) u)"
  using assms(3-5)
proof (induction "unat (pr_size pmp) div 4096 + 1 - k" arbitrary: k u rule: less_induct)
  case less
  let ?v = "pr_vaddr pmp" and ?n = "unat (pr_size pmp)"
  let ?base = "?v + of_nat (4096 * k)"
  let ?m = "min 4096 (?n - 4096 * k)"
  let ?refs = "\<lambda>is. map (\<lambda>i. ?v + of_nat (8 * i)) (filter (is_reference D (ug_addr u) pmp) is)"
  have ok: "unat ?v + ?n + 4096 < 2 ^ 64" using assms(2) by (simp add: mapping_ok_def)
  have k64: "unat (of_nat (4096 * k) :: uptr) = 4096 * k"
    by (rule unat_of_nat_lt) (use less.prems(3) ok in linarith)
  have base: "unat ?base = unat ?v + 4096 * k"
    using unat_add_lt [of ?v "of_nat (4096 * k)"] k64 less.prems(3) ok by linarith
  have "unat (?v + pr_size pmp) = unat ?v + ?n" by (rule unat_add_lt) (use ok in linarith)
  then have test: "?base < ?v + pr_size pmp \<longleftrightarrow> 4096 * k < ?n" unfolding uptr_less_unat base by simp
  show ?case
  proof (cases "4096 * k < ?n")
    case False
    then have "[512 * k..<?n div 8] = []" by (auto simp: less_eq_div_iff_mult_less_eq)
    with False test less.prems(2) show ?thesis by (subst ugrep_chunks.simps) (simp add: ug_call_Nil)
  next
    case True
    have nt: "unat (min (ug_bufsz u) (pr_size pmp - (?base - ?v))) = ?m"
    proof -
      have "of_nat (4096 * k) \<le> pr_size pmp" using True k64 by (simp add: uptr_le_unat)
      then have "unat (pr_size pmp - (?base - ?v)) = ?n - 4096 * k" using k64 by (simp add: unat_sub_le)
      then show ?thesis using less.prems(1) by (simp add: min_def uptr_le_unat)
    qed
    have nxt: "?base + ug_bufsz u = ?v + of_nat (4096 * Suc k)" using less.prems(1) by (simp add: algebra_simps)
    have dec: "?n div 4096 + 1 - Suc k < ?n div 4096 + 1 - k" "4096 * Suc k < ?n + 4096"
      using True by auto
    have IH: "ugrep_chunks D pmp (?v + of_nat (4096 * Suc k)) u' = Some (ug_call (?refs [512 * Suc k..<?n div 8]) u')"
      if "ug_bufsz u' = 4096" "ug_result u' = 0" "ug_addr u' = ug_addr u" for u' :: "'s ugrep_op"
      using less.hyps [OF dec(1) that(1,2) dec(2)] that(3) by simp
    have split: "[512 * k..<?n div 8] = map (\<lambda>j. 512 * k + j) [0..<?m div 8] @ [512 * Suc k..<?n div 8]"
    proof -
      have "?m div 8 = min 512 (?n div 8 - 512 * k)" using True by (simp add: min_def) linarith
      moreover have "map (\<lambda>j. 512 * k + j) [0..<c] = [512 * k..<512 * k + c]" for c
        by (rule nth_equalityI) auto
      moreover have "512 * k \<le> ?n div 8" using True by linarith
      moreover have "[512 * k..<?n div 8] = [512 * k..<512 * k + c] @ [512 * k + c..<?n div 8]"
        if "512 * k + c \<le> ?n div 8" for c
        using upt_add_eq_append [of "512 * k" "512 * k + c" "?n div 8 - (512 * k + c)"] that by simp
      ultimately show ?thesis
        by (cases "512 \<le> ?n div 8 - 512 * k") (simp_all add: min_def add.commute)
    qed
    show ?thesis
    proof (cases "mem_vread D ?base ?m")
      case None
      have "\<not> chunk_readable D pmp k" using None by (simp add: chunk_readable_def)
      moreover have "(512 * k + j) div 512 = k" if "j < ?m div 8" for j
      proof -
        have "j < 512" using that by linarith
        then show ?thesis by simp
      qed
      ultimately have "\<forall>j \<in> set [0..<?m div 8]. \<not> is_reference D (ug_addr u) pmp (512 * k + j)"
        by (simp add: is_reference_def)
      then have none: "filter (is_reference D (ug_addr u) pmp) (map (\<lambda>j. 512 * k + j) [0..<?m div 8]) = []"
        unfolding filter_empty_conv set_map ball_simps by blast
      have "ugrep_chunks D pmp ?base u = ugrep_chunks D pmp (?v + of_nat (4096 * Suc k)) u"
        using None True test nt nxt by (subst ugrep_chunks.simps) (simp add: Let_def add_ac)
      also have "\<dots> = Some (ug_call (?refs [512 * Suc k..<?n div 8]) u)" by (rule IH) (use less.prems in simp_all)
      finally show ?thesis unfolding split filter_append none by simp
    next
      case (Some bs)
      let ?c = "?m div 8"
      let ?ws = "le_words ?c bs"
      have words: "ugrep_words ?base 0 ?ws u = ug_call (?refs (map (\<lambda>j. 512 * k + j) [0..<?c])) u"
      proof -
        have "filter (\<lambda>j. ?ws ! (j - 0) = ug_addr u) [0..<0 + length ?ws] =
            filter (\<lambda>j. is_reference D (ug_addr u) pmp (512 * k + j)) [0..<?c]"
          using chunk_reference [OF assms(1) True Some refl] by (intro filter_cong) auto
        then show ?thesis
          unfolding ugrep_words_call [OF less.prems(2)] by (simp add: filter_map o_def algebra_simps)
      qed
      obtain rv u1 where u1: "ug_call (?refs (map (\<lambda>j. 512 * k + j) [0..<?c])) u = (rv, u1)" by fastforce
      have next_call: "rv = 0 \<Longrightarrow> ugrep_chunks D pmp (?v + of_nat (4096 * Suc k)) u1 =
          Some (ug_call (?refs [512 * Suc k..<?n div 8]) u1)"
        using IH [of u1] ug_call_frame [OF u1] less.prems(1) by simp
      have "ugrep_chunks D pmp ?base u =
        (if rv \<noteq> 0 then Some (rv, u1) else ugrep_chunks D pmp (?v + of_nat (4096 * Suc k)) u1)"
        using Some True test nt nxt words u1 ug_call_frame(2) [OF u1]
        by (subst ugrep_chunks.simps) (simp add: Let_def PTRSZ_def add_ac)
      then show ?thesis
        unfolding split filter_append map_append ug_call_append u1 using next_call by simp
    qed
  qed
qed

lemma ugrep_mapping_call:
  assumes "vread_laws D" "mapping_ok pmp" "ug_bufsz u = 4096" "ug_result u = 0"
  shows "ugrep_mapping D u pmp = Some (ug_call (mapping_refs D (ug_addr u) pmp) u)"
  using ugrep_chunks_call [OF assms, of 0] by (simp add: ugrep_mapping_def mapping_refs_def)

lemma mappings_iter_call:
  assumes "vread_laws D" "\<forall>pmp\<in>set pmps. mapping_ok pmp" "ug_bufsz u = 4096" "ug_result u = 0"
  shows "mappings_iter pmps (ugrep_mapping D) u = Some (ug_call (concat (map (mapping_refs D (ug_addr u)) pmps)) u)"
  using assms(2-4)
proof (induction pmps arbitrary: u)
  case Nil
  then show ?case by (simp add: ug_call_Nil)
next
  case (Cons pmp pmps)
  obtain rv u' where u': "ug_call (mapping_refs D (ug_addr u) pmp) u = (rv, u')" by fastforce
  have step: "ugrep_mapping D u pmp = Some (rv, u')"
    using ugrep_mapping_call [OF assms(1), of pmp u] Cons.prems u' by simp
  have "rv = 0 \<Longrightarrow> mappings_iter pmps (ugrep_mapping D) u' =
      Some (ug_call (concat (map (mapping_refs D (ug_addr u)) pmps)) u')"
    using Cons.IH [of u'] Cons.prems ug_call_frame [OF u'] by simp
  then show ?case using step u' by (simp add: ug_call_append)
qed

lemma dbi_ugrep_refs:
  assumes "vread_laws D" and "\<forall>pmp\<in>set pmps. mapping_ok pmp"
  shows "dbi_ugrep D (Some (mappings_iter pmps)) addr callback cbarg =
    Some (case cb_iter callback (concat (map (mapping_refs D addr) pmps)) cbarg of
            (rv, s) \<Rightarrow> (if rv \<noteq> 0 then - 1 else 0, s))"
  using mappings_iter_call [OF assms, of "\<lparr>ug_addr = addr, ug_result = 0, ug_callback = callback,
      ug_cbarg = cbarg, ug_bufsz = 4096\<rparr>"]
  by (simp add: dbi_ugrep_def ug_call_def split: prod.splits)

section \<open>Properties\<close>

text \<open>
  C30. The search calls the callback with exactly the aligned words of the mappings that hold
  the address, in order, until the callback returns non-zero. It returns 0 when no callback
  did and -1 otherwise: the value of the callback that stopped it does not reach the caller,
  although it was stored for that.
\<close>

theorem ugrep_exact:
  assumes "vread_laws D" and "\<forall>pmp\<in>set pmps. mapping_ok pmp"
  shows "dbi_ugrep D (Some (mappings_iter pmps)) addr callback cbarg =
    Some (case cb_iter callback (concat (map (mapping_refs D addr) pmps)) cbarg of
            (rv, s) \<Rightarrow> (if rv \<noteq> 0 then - 1 else 0, s))"
  using dbi_ugrep_refs [OF assms] .

text \<open>Two words of a mapping of four hold the address 77.\<close>

lemma ugrep_exact_witness:
  "dbi_ugrep (sample_dbg [(4096, 77), (4112, 77)])
     (Some (mappings_iter [\<lparr>pr_vaddr = 4096, pr_size = 32\<rparr>])) 77 record_cb [] = Some (0, [4096, 4112])"
proof -
  let ?D = "sample_dbg [(4096, 77), (4112, 77)]" and ?p = "\<lparr>pr_vaddr = 4096, pr_size = 32\<rparr>"
  have "\<forall>pmp\<in>set [?p]. mapping_ok pmp" by (simp add: mapping_ok_def)
  note eq = ugrep_exact [OF sample_laws this, of _ 77 record_cb "[]"]
  have "is_reference ?D 77 ?p i \<longleftrightarrow> i = 0 \<or> i = 2" if "i < 4" for i
  proof -
    have "i = 0 \<or> i = 1 \<or> i = 2 \<or> i = 3" using that by linarith
    then show ?thesis
      by (elim disjE) (simp_all add: is_reference_def chunk_readable_def sample_ptr, simp_all add: sample_vread_def)
  qed
  then have "filter (is_reference ?D 77 ?p) [0..<4] = filter (\<lambda>i. i = 0 \<or> i = 2) [0..<4]"
    by (intro filter_cong) auto
  then have "mapping_refs ?D 77 ?p = [4096, 4112]" by (simp add: mapping_refs_def upt_rec)
  with eq show ?thesis by (simp add: cb_simps)
qed

end
