(* ===== verification/JsPrint.thy ===== *)
theory JsPrint
  imports JsFunction JsObject JsArray
begin

text \<open>
  The printing of JavaScript values (\<^verbatim>\<open>src/src/mdb_v8.c\<close>, \<open>jsobj_print_value\<close> and the
  printers it dispatches to), and the command \<^verbatim>\<open>::jsprint\<close>. The structure
  \<open>jsobj_print_t\<close> is split into what a printer only passes down (\<open>jsobj_print_args\<close>: the
  member path, the depth, the indentation) and what it changes (\<open>jsobj_print_state\<close>: the
  buffer behind \<open>jsop_bufp\<close> and \<open>jsop_lenp\<close>, the counters and flags); a copy
  \<open>descend = *jsop\<close> shares the buffer and nothing else.
\<close>

section \<open>Numbers\<close>

text \<open>
  A double is its 64 bits. Its integral part is what the cast to \<open>long long\<close> gives: a value
  out of range, an infinity or a NaN gives the least \<open>long long\<close> on amd64.
\<close>

definition dbl_exp :: "uptr \<Rightarrow> nat" where
  "dbl_exp d = unat (drop_bit 52 d AND 0x7FF)"

definition dbl_mant :: "uptr \<Rightarrow> nat" where
  "dbl_mant d = unat (d AND 0xFFFFFFFFFFFFF) + (if dbl_exp d = 0 then 0 else 2 ^ 52)"

definition dbl_sign :: "uptr \<Rightarrow> int" where
  "dbl_sign d = (if bit d 63 then - 1 else 1)"

definition LLONG_MIN :: int where
  "LLONG_MIN = - (2 ^ 63)"

definition dbl_trunc :: "uptr \<Rightarrow> int" where
  "dbl_trunc d =
     (let e = (if dbl_exp d = 0 then 1 else dbl_exp d) in
      dbl_sign d * int (if 1075 \<le> e then dbl_mant d * 2 ^ (e - 1075) else dbl_mant d div 2 ^ (1075 - e)))"

definition dbl_to_ll :: "uptr \<Rightarrow> int" where
  "dbl_to_ll d =
     (if dbl_exp d = 0x7FF \<or> dbl_trunc d < LLONG_MIN \<or> - LLONG_MIN \<le> dbl_trunc d then LLONG_MIN else dbl_trunc d)"

text \<open>Whether the double is the whole number \<open>n\<close>.\<close>

definition dbl_is_int :: "uptr \<Rightarrow> int \<Rightarrow> bool" where
  "dbl_is_int d n \<longleftrightarrow> dbl_exp d \<noteq> 0x7FF \<and> dbl_trunc d = n \<and>
     (1075 \<le> dbl_exp d \<or> 2 ^ (1075 - (if dbl_exp d = 0 then 1 else dbl_exp d)) dvd dbl_mant d)"

definition jsobj_print_double :: "v8dbg \<Rightarrow> lbuf \<Rightarrow> uptr \<Rightarrow> lbuf" where
  "jsobj_print_double D b numval =
     (if dbl_is_int numval (dbl_to_ll numval) then bsnprintf b (show_int (dbl_to_ll numval))
      else bsnprintf b (fmt_e D numval))"

section \<open>The state of a printer\<close>

record jsobj_print_args =
  jsop_indent :: int
  jsop_depth :: uptr
  jsop_printaddr :: bool
  jsop_baseaddr :: uptr
  jsop_member :: "string option"
  jsop_maxstrlen :: uptr

record jsobj_print_state =
  jsop_buf :: lbuf
  jsop_nprops :: int
  jsop_found :: bool
  jsop_descended :: bool
  jsop_propinfo :: jspropinfo

type_synonym print_result = "(int \<times> jsobj_print_state) option"
type_synonym value_printer = "v8propvalue option \<Rightarrow> jsobj_print_args \<Rightarrow> jsobj_print_state \<Rightarrow> print_result"

definition jp_out :: "jsobj_print_state \<Rightarrow> string \<Rightarrow> jsobj_print_state" where
  "jp_out s str = s\<lparr>jsop_buf := bsnprintf (jsop_buf s) str\<rparr>"

text \<open>\<^verbatim>\<open>%*s\<close> with the empty string.\<close>

definition pad :: "int \<Rightarrow> string" where
  "pad w = replicate (nat \<bar>w\<bar>) CHR '' ''"

text \<open>A printer that only writes to the buffer.\<close>

definition jp_write :: "jsobj_print_state \<Rightarrow> (int \<times> lbuf) option \<Rightarrow> print_result" where
  "jp_write s r = map_option (\<lambda>(rv, b). (rv, s\<lparr>jsop_buf := b\<rparr>)) r"

section \<open>Values without parts\<close>

definition jsobj_print_number :: "v8dbg \<Rightarrow> uptr \<Rightarrow> lbuf \<Rightarrow> (int \<times> lbuf) option" where
  "jsobj_print_number D addr b =
     (case read_heap_double D addr (gv D V8_OFF_HEAPNUMBER_VALUE) of
        None \<Rightarrow> Some (- 1, b)
      | Some numval \<Rightarrow> Some (0, jsobj_print_double D b numval))"

definition jsobj_print_oddball :: "v8dbg \<Rightarrow> uptr \<Rightarrow> lbuf \<Rightarrow> (int \<times> lbuf) option" where
  "jsobj_print_oddball D addr b =
     (case read_heap_ptr D addr (gv D V8_OFF_ODDBALL_TO_STRING) of
        None \<Rightarrow> Some (- 1, b)
      | Some strptr \<Rightarrow> map_option (\<lambda>(rv, b, _). (rv, b)) (jsstr_print D strptr JSSTR_NUDE b))"

definition jsobj_print_jstyped_array :: "v8dbg \<Rightarrow> uptr \<Rightarrow> lbuf \<Rightarrow> (int \<times> lbuf) option" where
  "jsobj_print_jstyped_array D addr b =
     (case (if gv D V8_OFF_JSTYPEDARRAY_LENGTH = - 1 then None
            else read_heap_smi D addr (gv D V8_OFF_JSTYPEDARRAY_LENGTH)) of
        None \<Rightarrow> Some (- 1, bsnprintf b ''<array (failed to read jstypedarray length)>'')
      | Some len \<Rightarrow>
          let b = bsnprintf b ''<Typed array of length '' in
          Some (0, bsnprintf b (fmt_d len @ ''>'')))"

text \<open>The function returns the comparison with 0, so a failure is 1 here.\<close>

definition jsobj_print_jsfunction :: "v8dbg \<Rightarrow> uptr \<Rightarrow> lbuf \<Rightarrow> (int \<times> lbuf) option" where
  "jsobj_print_jsfunction D addr b =
     (case read_heap_ptr D addr (gv D V8_OFF_JSFUNCTION_SHARED) of
        None \<Rightarrow> Some (- 1, b)
      | Some shared \<Rightarrow> do {
          (rv, b, _) \<leftarrow> jsfunc_name D shared (bsnprintf b ''function '');
          Some (if rv \<noteq> 0 then 1 else 0, b)
        })"

definition jsobj_print_jsboundfunction :: "uptr \<Rightarrow> lbuf \<Rightarrow> (int \<times> lbuf) option" where
  "jsobj_print_jsboundfunction addr b = Some (0, bsnprintf b ''<bound function>'')"

text \<open>
  The number of a date: a small integer, read unsigned, or a heap number; \<open>Inr\<close> is the text
  of the failure. A small integer is below \<open>2 ^ 53\<close>, so its conversion to a double is exact.
\<close>

definition jsdate_value :: "v8dbg \<Rightarrow> uptr \<Rightarrow> (int + string) option" where
  "jsdate_value D value =
     (if V8_IS_SMI D value then Some (Inl (uint (V8_SMI_VALUE D value)))
      else (case read_typebyte D value of
         None \<Rightarrow> Some (Inr ''<JSDate (failed to read type)>'')
       | Some type \<Rightarrow> do {
           typename \<leftarrow> enum_lookup_str NTYPES (v8_types D) (ucast type) (Some []);
           Some (if strcmp (the typename) ''HeapNumber'' \<noteq> 0
             then Inr ''<JSDate (value has unexpected type)>''
             else (case read_heap_double D value (gv D V8_OFF_HEAPNUMBER_VALUE) of
                None \<Rightarrow> Inr ''<JSDate (failed to read num)>''
              | Some numval \<Rightarrow> Inl (dbl_to_ll numval)))
         }))"

definition MILLISEC :: int where "MILLISEC = 1000"

definition jsobj_print_jsdate :: "v8dbg \<Rightarrow> uptr \<Rightarrow> lbuf \<Rightarrow> (int \<times> lbuf) option" where
  "jsobj_print_jsdate D addr b =
     (if gv D V8_OFF_JSDATE_VALUE = - 1 then Some (0, bsnprintf b ''<JSDate>'')
      else (case read_heap_ptr D addr (gv D V8_OFF_JSDATE_VALUE) of
         None \<Rightarrow> Some (- 1, bsnprintf b ''<JSDate (failed to read value)>'')
       | Some value \<Rightarrow>
           (case jsdate_value D value of
              None \<Rightarrow> None
            | Some (Inr msg) \<Rightarrow> Some (- 1, bsnprintf b msg)
            | Some (Inl n) \<Rightarrow>
                let secs = sgn n * (\<bar>n\<bar> div MILLISEC);
                    buf = take 127 (fmt_Y D secs)
                in Some (0, bsnprintf b (show_int n @ '' ('' @ buf @ '')'')))))"

definition jsobj_print_jsregexp :: "v8dbg \<Rightarrow> uptr \<Rightarrow> lbuf \<Rightarrow> (int \<times> lbuf) option" where
  "jsobj_print_jsregexp D addr b =
     (if gv D V8_OFF_JSREGEXP_DATA = - 1 then Some (0, bsnprintf b ''<JSRegExp>'')
      else (case read_heap_ptr D addr (gv D V8_OFF_JSREGEXP_DATA) of
         None \<Rightarrow> Some (- 1, bsnprintf b ''<JSRegExp (failed to read data)>'')
       | Some datap \<Rightarrow>
           (case read_heap_array D datap {UM_SLEEP, UM_GC} of
              None \<Rightarrow> Some (- 1, bsnprintf b ''<JSRegExp (failed to read array)>'')
            | Some data \<Rightarrow>
                let source_index = 1 in
                if length data < source_index + 1 then Some (- 1, bsnprintf b ''<JSRegExp (array too small)>'')
                else do {
                  (_, b, _) \<leftarrow> jsstr_print D (data ! source_index) JSSTR_QUOTED (bsnprintf b ''JSRegExp: '');
                  Some (0, b)
                })))"

section \<open>Objects and arrays\<close>

text \<open>
  The callbacks of the iterations. \<open>pv\<close> is \<open>jsobj_print_value\<close>; the state is lost
  (\<open>None\<close>) when it is, and the iteration is stopped.
\<close>

definition prop_descend :: "jsobj_print_args \<Rightarrow> jsobj_print_args" where
  "prop_descend P = P\<lparr>jsop_depth := jsop_depth P - 1, jsop_indent := jsop_indent P + 4\<rparr>"

definition jsobj_print_prop :: "value_printer \<Rightarrow> jsobj_print_args \<Rightarrow> jsobj_print_state option prop_cb" where
  "jsobj_print_prop pv P = (\<lambda>desc val st.
     case st of
       None \<Rightarrow> (- 1, None)
     | Some s \<Rightarrow>
         let s = jp_out s ((if jsop_nprops s = 0 then ''{'' else []) @ NL @ pad (jsop_indent P + 4) @
                           [CHR 0x22] @ desc @ [CHR 0x22] @ '': '')
         in (case pv val (prop_descend P) s of
               None \<Rightarrow> (- 1, None)
             | Some (_, descend) \<Rightarrow>
                 let s = jp_out (s\<lparr>jsop_buf := jsop_buf descend\<rparr>) '',''
                 in (0, Some (s\<lparr>jsop_nprops := jsop_nprops s + 1\<rparr>))))"

text \<open>The index of the character at which a member's first name ends.\<close>

definition member_next :: "string \<Rightarrow> nat" where
  "member_next member = length (takeWhile (\<lambda>c. c \<noteq> CHR ''.'' \<and> c \<noteq> CHR ''['') member)"

definition member_descend :: "jsobj_print_args \<Rightarrow> string \<Rightarrow> nat \<Rightarrow> jsobj_print_args" where
  "member_descend P member nxt =
     (if nxt = length member then P\<lparr>jsop_member := None\<rparr>
      else P\<lparr>jsop_member := Some (if member ! nxt = CHR ''.'' then drop (nxt + 1) member else drop nxt member)\<rparr>)"

definition jsobj_print_prop_member ::
    "value_printer \<Rightarrow> jsobj_print_args \<Rightarrow> string \<Rightarrow> jsobj_print_state option prop_cb" where
  "jsobj_print_prop_member pv P member = (\<lambda>desc val st.
     case st of
       None \<Rightarrow> (- 1, None)
     | Some s \<Rightarrow>
         let nxt = member_next member in
         if member \<noteq> [] \<and> hd member = CHR ''['' then (- 1, st)
         else if take nxt member \<noteq> take nxt desc then (0, st)
         else if nxt < length desc then (0, st)
         else (case pv val (member_descend P member nxt)
                      (if nxt = length member then s\<lparr>jsop_found := True\<rparr> else s) of
             None \<Rightarrow> (- 1, None)
           | Some (rv, descend) \<Rightarrow>
               (rv, Some (s\<lparr>jsop_buf := jsop_buf descend, jsop_found := jsop_found descend\<rparr>))))"

definition jsobj_print_jsobject ::
    "value_printer \<Rightarrow> v8dbg \<Rightarrow> uptr \<Rightarrow> jsobj_print_args \<Rightarrow> jsobj_print_state \<Rightarrow> print_result" where
  "jsobj_print_jsobject pv D addr P s =
     (case jsop_member P of
        Some member \<Rightarrow> do {
          (rv, st, propinfo) \<leftarrow> jsobj_properties D addr (jsobj_print_prop_member pv P member) (Some s)
                                 (Some (jsop_propinfo s));
          s \<leftarrow> st;
          Some (rv, s\<lparr>jsop_propinfo := the propinfo\<rparr>)
        }
      | None \<Rightarrow>
          if jsop_depth P = 0 then Some (0, jp_out s ''[...]'')
          else do {
            (rv, st, propinfo) \<leftarrow> jsobj_properties D addr (jsobj_print_prop pv P) (Some (s\<lparr>jsop_nprops := 0\<rparr>))
                                   (Some (jsop_propinfo s));
            s \<leftarrow> map_option (\<lambda>s. s\<lparr>jsop_propinfo := the propinfo\<rparr>) st;
            if rv \<noteq> 0 then Some (- 1, s)
            else
              let s = (if 0 < jsop_nprops s then jp_out s (NL @ pad (jsop_indent P))
                       else if jsop_nprops s = 0 then jp_out s ''{''
                       else jp_out s ''{ /* unknown property */ '')
              in Some (0, jp_out s ''}'')
          })"

text \<open>The digits of an array index, last one first.\<close>

fun array_index :: "string \<Rightarrow> uptr \<Rightarrow> uptr \<Rightarrow> (uptr \<times> uptr) option" where
  "array_index [] elt place = Some (elt, place)"
| "array_index (p # ps) elt place =
     (if of_char p < (48 :: nat) \<or> 57 < (of_char p :: nat) then None
      else array_index ps (elt + word_of_nat (of_char p - 48) * place) (place * 10))"

definition array_member_descend :: "jsobj_print_args \<Rightarrow> string \<Rightarrow> jsobj_print_args option" where
  "array_member_descend P rest =
     (if rest = [] then Some (P\<lparr>jsop_member := None\<rparr>)
      else if hd rest = CHR ''.'' then Some (P\<lparr>jsop_member := Some (tl rest)\<rparr>)
      else if hd rest = CHR ''['' then Some (P\<lparr>jsop_member := Some rest\<rparr>)
      else None)"

definition jsobj_print_jsarray_member ::
    "value_printer \<Rightarrow> v8dbg \<Rightarrow> uptr \<Rightarrow> jsobj_print_args \<Rightarrow> string \<Rightarrow> jsobj_print_state \<Rightarrow> print_result" where
  "jsobj_print_jsarray_member pv D addr P member s =
     (case read_heap_ptr D addr (gv D V8_OFF_JSOBJECT_ELEMENTS) of
        None \<Rightarrow> Some (- 1, jp_out s ''<array member (failed to read elements)>'')
      | Some ptr \<Rightarrow>
          (case read_heap_array D ptr {UM_SLEEP, UM_GC} of
             None \<Rightarrow> Some (- 1, jp_out s ''<array member (failed to read array)>'')
           | Some elts \<Rightarrow>
               if member = [] \<or> hd member \<noteq> CHR ''['' then Some (- 1, s)
               else if CHR '']'' \<notin> set member then Some (- 1, s)
               else
                 let digits = takeWhile (\<lambda>c. c \<noteq> CHR '']'') (tl member);
                     rest = drop (length digits + 2) member
                 in (case array_index (rev digits) 0 1 of
                       None \<Rightarrow> Some (- 1, s)
                     | Some (elt, place) \<Rightarrow>
                         if place = 1 then Some (- 1, s)
                         else if of_nat (length elts) \<le> elt then Some (- 1, s)
                         else (case array_member_descend P rest of
                            None \<Rightarrow> Some (- 1, s)
                          | Some descend \<Rightarrow> do {
                              (rv, d) \<leftarrow> pv (Some (jsobj_propvalue_addr (elts ! unat elt))) descend
                                           (if rest = [] then s\<lparr>jsop_found := True\<rparr> else s);
                              Some (rv, s\<lparr>jsop_buf := jsop_buf d, jsop_found := jsop_found d\<rparr>)
                            }))))"

text \<open>The callback for the elements; its state is the copy made for all of them.\<close>

definition jsobj_print_jsarray_one ::
    "value_printer \<Rightarrow> jsobj_print_args \<Rightarrow> v8array \<Rightarrow> 32 word \<Rightarrow> uptr \<Rightarrow> jsobj_print_state option \<Rightarrow>
     int \<times> jsobj_print_state option" where
  "jsobj_print_jsarray_one pv P = (\<lambda>ap index val st.
     case st of
       None \<Rightarrow> (- 1, None)
     | Some s \<Rightarrow>
         if v8array_length ap = 1 then (0, map_option snd (pv (Some (jsobj_propvalue_addr val)) P s))
         else if lb_len (jsop_buf s) = 0 then (- 1, st)
         else (case pv (Some (jsobj_propvalue_addr val)) P (jp_out s (pad (jsop_indent P))) of
            None \<Rightarrow> (- 1, None)
          | Some (_, s) \<Rightarrow> (0, Some (jp_out s ('','' @ NL)))))"

definition jsobj_print_jsarray ::
    "value_printer \<Rightarrow> v8dbg \<Rightarrow> uptr \<Rightarrow> jsobj_print_args \<Rightarrow> jsobj_print_state \<Rightarrow> print_result" where
  "jsobj_print_jsarray pv D addr P s =
     (case jsop_member P of
        Some member \<Rightarrow> jsobj_print_jsarray_member pv D addr P member s
      | None \<Rightarrow>
          if jsop_depth P = 0 then Some (0, jp_out s ''[...]'')
          else (case v8array_load D addr {} of
             None \<Rightarrow> Some (- 1, s)
           | Some ap \<Rightarrow>
               if v8array_length ap = 0 then Some (0, jp_out s ''[]'')
               else do {
                 let one = (v8array_length ap = 1);
                 let s = jp_out s (if one then ''[ '' else ''['' @ NL);
                 (_, st) \<leftarrow> v8array_iter_elements D ap (jsobj_print_jsarray_one pv (prop_descend P)) (Some s);
                 descend \<leftarrow> st;
                 let s = s\<lparr>jsop_buf := jsop_buf descend\<rparr>;
                 Some (0, if one then jp_out s '' ]'' else jp_out (jp_out s (pad (jsop_indent P))) '']'')
               }))"

section \<open>Values\<close>

text \<open>The prefixes of a value: its own address and the address \<^verbatim>\<open>-b\<close> asks for.\<close>

definition print_prefix :: "v8dbg \<Rightarrow> v8propvalue option \<Rightarrow> jsobj_print_args \<Rightarrow> jsobj_print_state \<Rightarrow> jsobj_print_state" where
  "print_prefix D valp P s =
     (let s = (if jsop_baseaddr P \<noteq> 0 \<and> jsop_member P = None
               then jp_out s (fmt_p D (jsop_baseaddr P) @ '': '') else s)
      in if jsop_printaddr P \<and> jsop_member P = None
         then jp_out s (fmt_p D (case valp of None \<Rightarrow> 0 | Some v \<Rightarrow> v8v_u v) @ '': '') else s)"

definition print_string :: "v8dbg \<Rightarrow> uptr \<Rightarrow> uptr \<Rightarrow> lbuf \<Rightarrow> (int \<times> lbuf) option" where
  "print_string D addr limit b =
     (let len = lb_len b;
          omax = (if limit = 0 \<or> len \<le> unat limit then len else unat limit)
      in do {
        (rv, b', _) \<leftarrow> jsstr_print D addr JSSTR_QUOTED (b\<lparr>lb_len := omax\<rparr>);
        if lb_len b' \<le> omax then Some (rv, b'\<lparr>lb_len := len - (omax - lb_len b')\<rparr>) else None
      })"

text \<open>The class the value is printed as; the type byte of a mutable number is replaced.\<close>

definition print_klass :: "v8dbg \<Rightarrow> byte \<Rightarrow> string option" where
  "print_klass D type =
     (let type = (if is_type D type V8_TYPE_MUTABLEHEAPNUMBER then ucast (gv D V8_TYPE_HEAPNUMBER) else type)
      in map_option the (enum_lookup_str NTYPES (v8_types D) (ucast type) (Some ''<unknown>'')))"

definition print_by_klass ::
    "value_printer \<Rightarrow> v8dbg \<Rightarrow> string \<Rightarrow> uptr \<Rightarrow> jsobj_print_args \<Rightarrow> jsobj_print_state \<Rightarrow> print_result" where
  "print_by_klass pv D klass addr P s =
     (let s1 = s\<lparr>jsop_descended := True\<rparr>; b = jsop_buf s in
      if strcmp klass ''HeapNumber'' = 0 then jp_write s1 (jsobj_print_number D addr b)
      else if strcmp klass ''Oddball'' = 0 then jp_write s1 (jsobj_print_oddball D addr b)
      else if strcmp klass ''JSObject'' = 0 then jsobj_print_jsobject pv D addr P s1
      else if strcmp klass ''JSArray'' = 0 then jsobj_print_jsarray pv D addr P s1
      else if strcmp klass ''JSTypedArray'' = 0 then jp_write s1 (jsobj_print_jstyped_array D addr b)
      else if strcmp klass ''JSFunction'' = 0 then jp_write s1 (jsobj_print_jsfunction D addr b)
      else if strcmp klass ''JSBoundFunction'' = 0 then jp_write s1 (jsobj_print_jsboundfunction addr b)
      else if strcmp klass ''JSDate'' = 0 then jp_write s1 (jsobj_print_jsdate D addr b)
      else if strcmp klass ''JSRegExp'' = 0 then jp_write s1 (jsobj_print_jsregexp D addr b)
      else Some (- 1, jp_out s (''<unknown JavaScript object type '' @ [CHR 0x22] @ klass @ [CHR 0x22] @ ''>'')))"

text \<open>
  The recursion goes down in depth or along the member path: a property or element is printed
  with a smaller depth, and a step along the path shortens it.
\<close>

definition jp_measure :: "jsobj_print_args \<Rightarrow> nat" where
  "jp_measure P = unat (jsop_depth P) + (case jsop_member P of None \<Rightarrow> 0 | Some m \<Rightarrow> Suc (length m))"

lemma prop_descend_measure: "jsop_depth P \<noteq> 0 \<Longrightarrow> jsop_member P = None \<Longrightarrow> jp_measure (prop_descend P) < jp_measure P"
  by (simp add: jp_measure_def prop_descend_def unat_minus_one unat_gt_0)

lemma member_descend_measure:
  assumes "jsop_member P = Some m" "\<not> (m \<noteq> [] \<and> hd m = CHR ''['')"
  shows "jp_measure (member_descend P m (member_next m)) < jp_measure P"
proof (cases "member_next m = length m")
  case False
  have le: "member_next m \<le> length m" by (simp add: member_next_def length_takeWhile_le)
  have "0 < member_next m" if "m ! member_next m \<noteq> CHR ''.''"
  proof -
    have "m \<noteq> []" using False by (auto simp: member_next_def)
    moreover have "hd m \<noteq> CHR ''.''" using that \<open>m \<noteq> []\<close> by (cases m) (auto simp: member_next_def)
    ultimately show ?thesis using assms(2) by (cases m) (auto simp: member_next_def)
  qed
  then show ?thesis using False le assms(1) by (auto simp: jp_measure_def member_descend_def)
qed (simp add: jp_measure_def member_descend_def assms(1))

lemma array_member_descend_measure:
  assumes "jsop_member P = Some m" "array_member_descend P rest = Some Q" "length rest < length m"
  shows "jp_measure Q < jp_measure P"
  using assms by (auto simp: array_member_descend_def jp_measure_def split: if_splits)

lemma print_prop_cong [fundef_cong]:
  assumes "P = P'" "\<And>v s. pv v (prop_descend P') s = pv' v (prop_descend P') s"
  shows "jsobj_print_prop pv P = jsobj_print_prop pv' P'"
  unfolding jsobj_print_prop_def assms by simp

lemma print_jsobject_cong [fundef_cong]:
  assumes "D = D'" "addr = addr'" "P = P'" "s = s'"
    and "\<And>v Q s. jp_measure Q < jp_measure P' \<Longrightarrow> pv v Q s = pv' v Q s"
  shows "jsobj_print_jsobject pv D addr P s = jsobj_print_jsobject pv' D' addr' P' s'"
proof (cases "jsop_member P'")
  case None
  then have "jsobj_print_prop pv P' = jsobj_print_prop pv' P'" if "jsop_depth P' \<noteq> 0"
    using that by (intro print_prop_cong refl assms(5) prop_descend_measure)
  with None show ?thesis by (simp add: jsobj_print_jsobject_def assms(1-4) cong: if_cong)
next
  case (Some m)
  have "pv v (member_descend P' m (member_next m)) s = pv' v (member_descend P' m (member_next m)) s"
    if "\<not> (m \<noteq> [] \<and> hd m = CHR ''['')" for v s
    by (rule assms(5), rule member_descend_measure [OF Some that])
  then have "jsobj_print_prop_member pv P' m = jsobj_print_prop_member pv' P' m"
    unfolding jsobj_print_prop_member_def Let_def by (intro ext) (auto split: option.split)
  with Some show ?thesis by (simp add: jsobj_print_jsobject_def assms(1-4))
qed

lemma print_jsarray_cong [fundef_cong]:
  assumes "D = D'" "addr = addr'" "P = P'" "s = s'"
    and "\<And>v Q s. jp_measure Q < jp_measure P' \<Longrightarrow> pv v Q s = pv' v Q s"
  shows "jsobj_print_jsarray pv D addr P s = jsobj_print_jsarray pv' D' addr' P' s'"
proof (cases "jsop_member P'")
  case None
  then have "pv v (prop_descend P') s = pv' v (prop_descend P') s" if "jsop_depth P' \<noteq> 0" for v s
    using that by (intro assms(5) prop_descend_measure)
  then have "jsobj_print_jsarray_one pv (prop_descend P') = jsobj_print_jsarray_one pv' (prop_descend P')"
    if "jsop_depth P' \<noteq> 0" using that unfolding jsobj_print_jsarray_one_def
    by (simp cong: option.case_cong if_cong)
  with None show ?thesis by (cases "jsop_depth P' = 0") (simp_all add: jsobj_print_jsarray_def assms(1-4) split: option.split)
next
  case (Some m)
  let ?d = "takeWhile (\<lambda>c. c \<noteq> CHR '']'') (tl m)"
  have "pv v Q s = pv' v Q s"
    if "array_member_descend P' (drop (length ?d + 2) m) = Some Q" "m \<noteq> []" for v Q s
    using array_member_descend_measure [OF Some that(1)] that(2) by (intro assms(5)) (cases m, auto)
  then have "jsobj_print_jsarray_member pv D' addr' P' m s' = jsobj_print_jsarray_member pv' D' addr' P' m s'"
    unfolding jsobj_print_jsarray_member_def Let_def
    by (auto split: option.split simp del: drop_append)
  with Some show ?thesis by (simp add: jsobj_print_jsarray_def assms(1-4))
qed

lemma print_by_klass_cong [fundef_cong]:
  assumes "D = D'" "klass = klass'" "addr = addr'" "P = P'" "s = s'"
    and "\<And>v Q s. jp_measure Q < jp_measure P' \<Longrightarrow> pv v Q s = pv' v Q s"
  shows "print_by_klass pv D klass addr P s = print_by_klass pv' D' klass' addr' P' s'"
proof -
  have "jsobj_print_jsobject pv D addr P t = jsobj_print_jsobject pv' D' addr' P' t"
    "jsobj_print_jsarray pv D addr P t = jsobj_print_jsarray pv' D' addr' P' t" for t
    by (rule print_jsobject_cong print_jsarray_cong; use assms in auto)+
  then show ?thesis by (simp add: print_by_klass_def assms(1-5) Let_def)
qed

function jsobj_print_value ::
    "v8dbg \<Rightarrow> v8propvalue option \<Rightarrow> jsobj_print_args \<Rightarrow> jsobj_print_state \<Rightarrow> print_result" where
  "jsobj_print_value D valp P s =
     (let s = print_prefix D valp P s;
          b = jsop_buf s;
          addr = (case valp of None \<Rightarrow> 0 | Some v \<Rightarrow> v8v_u v)
      in if valp \<noteq> None \<and> v8v_isboxeddouble (the valp)
         then Some (0, s\<lparr>jsop_buf := jsobj_print_double D b (v8v_u (the valp))\<rparr>)
         else if V8_IS_SMI D addr then Some (0, jp_out s (fmt_d (V8_SMI_VALUE D addr)))
         else if \<not> V8_IS_HEAPOBJECT D addr then Some (- 1, jp_out s ''<not a heap object>'')
         else (case read_typebyte D addr of
            None \<Rightarrow> Some (- 1, jp_out s ''<couldn't read type>'')
          | Some type \<Rightarrow>
              if V8_TYPE_STRING D type then jp_write s (print_string D addr (jsop_maxstrlen P) b)
              else (case print_klass D type of
                 None \<Rightarrow> None
               | Some klass \<Rightarrow> print_by_klass (jsobj_print_value D) D klass addr P s)))"
  by pat_completeness auto

termination by (relation "measure (\<lambda>(_, _, P, _). jp_measure P)") auto

declare jsobj_print_value.simps [simp del]

definition jsobj_print :: "v8dbg \<Rightarrow> uptr \<Rightarrow> jsobj_print_args \<Rightarrow> jsobj_print_state \<Rightarrow> print_result" where
  "jsobj_print D addr P s = jsobj_print_value D (Some (jsobj_propvalue_addr addr)) P s"

section \<open>The command\<close>

definition jsobj_print_propinfo :: "jspropinfo \<Rightarrow> string list" where
  "jsobj_print_propinfo propinfo =
     (let has = (\<lambda>flag. propinfo AND flag \<noteq> 0); out = (\<lambda>flag str. if has flag then [str] else []) in
      if propinfo = JPI_NONE then []
      else [''property kind: ''] @
        out JPI_NUMERIC ''numeric-named '' @ out JPI_DICT ''dictionary '' @ out JPI_INOBJECT ''in-object '' @
        out JPI_PROPS (CHR 0x22 # ''properties'' @ CHR 0x22 # '' array '') @ [NL] @
        (if has (JPI_HASTRANSITIONS OR JPI_HASCONTENT)
         then [''fallbacks: ''] @ out JPI_HASTRANSITIONS ''transitions '' @ out JPI_HASCONTENT ''content '' @ [NL]
         else []) @
        out JPI_UNDEFPROPNAME (''some properties skipped due to undefined property name'' @ NL) @
        out JPI_SKIPPED (''some properties skipped due to unexpected layout'' @ NL) @
        out JPI_BADLAYOUT (''object has unexpected layout'' @ NL) @
        out JPI_BADPROPS (''object has invalid-looking property values'' @ NL))"

text \<open>
  What the loop over the buffer sizes ends with: the printed state, or the buffer that could
  not be allocated. \<open>len\<close> is the length the first attempt starts with, which is what the
  previous member left. The size is a \<open>size_t\<close>.
\<close>

partial_function (option) jsprint_attempts ::
    "v8dbg \<Rightarrow> uptr \<Rightarrow> jsobj_print_args \<Rightarrow> jsobj_print_state \<Rightarrow> uptr \<Rightarrow> uptr \<Rightarrow>
     (int \<times> jsobj_print_state \<times> uptr) option option" where
  "jsprint_attempts D addr P s bufsz len =
     (if \<not> zalloc_ok D (unat bufsz) {} then Some None
      else Option.bind (jsobj_print D addr P (s\<lparr>jsop_buf := \<lparr>lb_text = [], lb_len = unat len\<rparr>\<rparr>)) (\<lambda>(rv, s).
        if 0 < lb_len (jsop_buf s) then Some (Some (rv, s, bufsz))
        else jsprint_attempts D addr P s (push_bit 1 bufsz) (push_bit 1 bufsz)))"

definition isspace :: "char \<Rightarrow> bool" where
  "isspace c \<longleftrightarrow> c = CHR '' '' \<or> 9 \<le> (of_char c :: nat) \<and> (of_char c :: nat) \<le> 13"

text \<open>
  What is printed for one member: \<open>None\<close> where the character before an empty text is read.
\<close>

definition jsprint_output :: "v8dbg \<Rightarrow> jsobj_print_args \<Rightarrow> jsobj_print_state \<Rightarrow> bool \<Rightarrow> string list option" where
  "jsprint_output D P s again =
     (if jsop_member P \<noteq> None \<and> \<not> jsop_found s then
        Some ((if jsop_baseaddr P \<noteq> 0 then [fmt_p D (jsop_baseaddr P) @ '': ''] else []) @
              [''undefined'' @ (if again then '' '' else [])])
      else
        let buf = lbuf_cstr (jsop_buf s) in
        if again then (if buf = [] then None else Some [buf @ (if isspace (last buf) then [] else '' '')])
        else Some [buf])"

text \<open>One round of the loop over the member arguments; \<open>Inl\<close> is an early return.\<close>

definition jsprint_round ::
    "v8dbg \<Rightarrow> uptr \<Rightarrow> jsobj_print_args \<Rightarrow> jsobj_print_state \<Rightarrow> uptr \<Rightarrow> uptr \<Rightarrow> bool \<Rightarrow>
     (int + jsobj_print_state \<times> uptr \<times> string list) option" where
  "jsprint_round D addr P s bufsz len again = do {
     r \<leftarrow> jsprint_attempts D addr P s bufsz len;
     (case r of
        None \<Rightarrow> Some (Inl DCMD_ERR)
      | Some (rv, s, bufsz) \<Rightarrow>
          if jsop_member P = None \<and> rv \<noteq> 0 then Some (Inl DCMD_ERR)
          else do {
            out \<leftarrow> jsprint_output D P s again;
            Some (Inr (s\<lparr>jsop_found := False\<rparr>, bufsz, out))
          })
   }"

text \<open>
  The members are \<open>None\<close> where an argument is not a string; without any, one round prints the
  whole value.
\<close>

fun jsprint_members ::
    "v8dbg \<Rightarrow> uptr \<Rightarrow> string option list \<Rightarrow> jsobj_print_args \<Rightarrow> jsobj_print_state \<Rightarrow> uptr \<Rightarrow> uptr \<Rightarrow>
     (int \<times> jsobj_print_state \<times> string list) option" where
  "jsprint_members D addr [] P s bufsz len = do {
     r \<leftarrow> jsprint_round D addr P s bufsz len False;
     (case r of
        Inl rv \<Rightarrow> Some (rv, s, [])
      | Inr (s, _, out) \<Rightarrow> Some (DCMD_OK, s, out @ [NL]))
   }"
| "jsprint_members D addr (None # ms) P s bufsz len = Some (DCMD_USAGE, s, [])"
| "jsprint_members D addr (Some m # ms) P s bufsz len = do {
     r \<leftarrow> jsprint_round D addr (P\<lparr>jsop_member := Some m\<rparr>) s bufsz len (ms \<noteq> []);
     (case r of
        Inl rv \<Rightarrow> Some (rv, s, [])
      | Inr (s, bufsz, out) \<Rightarrow>
          if ms = [] then Some (DCMD_OK, s, out @ [NL])
          else do {
            (rv, s, out') \<leftarrow> jsprint_members D addr ms (P\<lparr>jsop_member := Some m, jsop_baseaddr := 0\<rparr>) s bufsz
                               (of_nat (lb_len (jsop_buf s)));
            Some (rv, s, out @ out')
          })
   }"

text \<open>
  The options as \<open>mdb_getopts\<close> parses them: \<open>printaddr\<close> for \<^verbatim>\<open>-a\<close>, \<open>opt_b\<close>, the depth, \<open>strlen\<close>
  for \<^verbatim>\<open>-N\<close>, \<open>opt_v\<close>.
\<close>

definition dcmd_jsprint ::
    "v8dbg \<Rightarrow> uptr \<Rightarrow> bool \<Rightarrow> bool \<Rightarrow> uptr option \<Rightarrow> uptr \<Rightarrow> bool \<Rightarrow> string option list \<Rightarrow> (int \<times> string list) option" where
  "dcmd_jsprint D addr printaddr opt_b depth strlen opt_v members = do {
     let P = \<lparr>jsop_indent = 0, jsop_depth = (case depth of None \<Rightarrow> 2 | Some d \<Rightarrow> d), jsop_printaddr = printaddr,
              jsop_baseaddr = (if opt_b then addr else 0), jsop_member = None,
              jsop_maxstrlen = scast (ucast strlen :: 32 word)\<rparr>;
     (rv, s, out) \<leftarrow> jsprint_members D addr members P
        \<lparr>jsop_buf = \<lparr>lb_text = [], lb_len = 0\<rparr>, jsop_nprops = 0, jsop_found = False, jsop_descended = False,
         jsop_propinfo = 0\<rparr> 262144 262144;
     Some (rv, out @ (if rv = DCMD_OK \<and> opt_v then jsobj_print_propinfo (jsop_propinfo s) else []))
   }"

end
