(* ===== verification/ObjType.thy ===== *)
theory ObjType
  imports JsPrint Context Conf "HOL-Library.Sublist"
begin

text \<open>
  Heap objects as instances of V8's C++ classes (\<^verbatim>\<open>src/src/mdb_v8.c\<close>): the description of a
  value's type, the constructor of an object, internal fields, and the printing of all fields
  of an object class by class; then the commands that show scope infos, contexts, classes and
  types. What is printed is a list of events: a text, or a change of the indentation.
\<close>

datatype mdb_out = OUT string | INDENT nat | DEDENT nat

section \<open>The type of a value\<close>

text \<open>A string used as the format of a \<open>printf\<close>: with a conversion in it, the call is undefined.\<close>

definition format_of :: "string \<Rightarrow> string option" where
  "format_of s = (if CHR ''%'' \<in> set s then None else Some s)"

definition obj_jsconstructor :: "v8dbg \<Rightarrow> uptr \<Rightarrow> lbuf \<Rightarrow> bool \<Rightarrow> (int \<times> lbuf) option" where
  "obj_jsconstructor D addr b verbose =
     (case (if V8_IS_HEAPOBJECT D addr then read_typebyte D addr else None) of
        None \<Rightarrow> Some (- 1, b)
      | Some type \<Rightarrow>
          if \<not> is_type D type V8_TYPE_JSOBJECT \<and> \<not> is_type D type V8_TYPE_JSARRAY \<and> \<not> is_type D type V8_TYPE_JSTYPEDARRAY
          then Some (- 1, b)
          else (case read_heap_ptr D addr (gv D V8_OFF_HEAPOBJECT_MAP) of
             None \<Rightarrow> Some (- 1, b)
           | Some mapp \<Rightarrow> do {
               cons \<leftarrow> get_map_constructor D mapp;
               (case cons of
                  None \<Rightarrow> Some (- 1, b)
                | Some consfunc \<Rightarrow>
                    (case read_typebyte D consfunc of
                       None \<Rightarrow> Some (- 1, b)
                     | Some ctype \<Rightarrow>
                         (case map_option the (enum_lookup_str NTYPES (v8_types D) (ucast ctype) (Some [])) of
                            None \<Rightarrow> None
                          | Some constype \<Rightarrow>
                              if strcmp constype ''Oddball'' = 0 then jsobj_print_oddball D consfunc b
                              else if strcmp constype ''JSFunction'' \<noteq> 0 then Some (- 1, b)
                              else (case read_heap_ptr D consfunc (gv D V8_OFF_JSFUNCTION_SHARED) of
                                 None \<Rightarrow> Some (- 1, b)
                               | Some funcinfop \<Rightarrow> do {
                                   (rv, b, _) \<leftarrow> jsfunc_name D funcinfop b;
                                   if rv \<noteq> 0 then Some (- 1, b)
                                   else Some (0, if verbose then bsnprintf b ('' (JSFunction: '' @ fmt_p D consfunc @ '')'') else b)
                                 }))))
             }))"

text \<open>
  The name of the class of a type byte, and what follows it. The type byte is \<open>None\<close> in the
  result where the code does not store one.
\<close>

definition jstype_name :: "v8dbg \<Rightarrow> byte \<Rightarrow> string option" where
  "jstype_name D typebyte = do {
     typename \<leftarrow> enum_lookup_str NTYPES (v8_types D) (ucast typebyte) None;
     Some (case typename of
        Some n \<Rightarrow> n
      | None \<Rightarrow> if V8_TYPE_STRING D typebyte then ''<unknown subclass>: String'' else ''<unknown>'')
   }"

definition jstype_oddball :: "v8dbg \<Rightarrow> uptr \<Rightarrow> lbuf \<Rightarrow> lbuf option" where
  "jstype_oddball D addr b =
     (case read_heap_ptr D addr (gv D V8_OFF_ODDBALL_TO_STRING) of
        None \<Rightarrow> Some b
      | Some strptr \<Rightarrow> do {
          (_, b, _) \<leftarrow> jsstr_print D strptr JSSTR_NUDE (bsnprintf b (CHR '':'' # CHR '' '' # [CHR 0x22]));
          Some (bsnprintf b [CHR 0x22])
        })"

definition jstype_constructor :: "v8dbg \<Rightarrow> uptr \<Rightarrow> lbuf \<Rightarrow> lbuf option" where
  "jstype_constructor D addr b =
     (case read_heap_ptr D addr (gv D V8_OFF_HEAPOBJECT_MAP) of
        None \<Rightarrow> Some b
      | Some mapp \<Rightarrow> do {
          cons \<leftarrow> get_map_constructor D mapp;
          (case cons of
             None \<Rightarrow> Some b
           | Some consfunc \<Rightarrow>
               (case read_typebyte D consfunc of
                  None \<Rightarrow> Some b
                | Some typebyte \<Rightarrow>
                    (case map_option the (enum_lookup_str NTYPES (v8_types D) (ucast typebyte) (Some [])) of
                       None \<Rightarrow> None
                     | Some constype \<Rightarrow>
                         if strcmp constype ''JSFunction'' \<noteq> 0 then Some b
                         else (case read_heap_ptr D consfunc (gv D V8_OFF_JSFUNCTION_SHARED) of
                            None \<Rightarrow> Some b
                          | Some funcinfop \<Rightarrow>
                              map_option (\<lambda>(_, b, _). b) (jsfunc_name D funcinfop (bsnprintf b '': ''))))))
        })"

definition obj_jstype :: "v8dbg \<Rightarrow> uptr \<Rightarrow> lbuf \<Rightarrow> (int \<times> lbuf \<times> byte option) option" where
  "obj_jstype D addr b =
     (if V8_IS_FAILURE D addr then Some (0, bsnprintf b (CHR 0x27 # ''Failure'' @ [CHR 0x27] @ '' object''), Some 0)
      else if V8_IS_SMI D addr then Some (0, bsnprintf b (''SMI: value = '' @ fmt_d (V8_SMI_VALUE D addr)), Some 0)
      else (case read_typebyte D addr of
         None \<Rightarrow> Some (- 1, b, None)
       | Some typebyte \<Rightarrow> do {
           typename \<leftarrow> jstype_name D typebyte;
           s \<leftarrow> format_of typename;
           let b = bsnprintf b s;
           b \<leftarrow> (if strcmp typename ''Oddball'' = 0 then jstype_oddball D addr b else Some b);
           b \<leftarrow> (if strcmp typename ''JSObject'' = 0 then jstype_constructor D addr b else Some b);
           Some (0, b, Some typebyte)
         }))"

section \<open>Internal fields\<close>

text \<open>\<open>Inl\<close> is the command's error code, \<open>Inr\<close> the value read.\<close>

definition obj_v8internal :: "v8dbg \<Rightarrow> uptr \<Rightarrow> 32 word \<Rightarrow> (int + uptr) option" where
  "obj_v8internal D addr idx =
     (case obj_jstype D addr \<lparr>lb_text = [], lb_len = 256\<rparr> of
        None \<Rightarrow> None
      | Some (rv, _, typ) \<Rightarrow>
          if rv \<noteq> 0 then Some (Inl DCMD_ERR)
          else (case typ of
             None \<Rightarrow> None
           | Some type \<Rightarrow>
               if type = 0 then Some (Inl DCMD_ERR)
               else (case enum_lookup_str NTYPES (v8_types D) (ucast type) None of
                  None \<Rightarrow> None
                | Some None \<Rightarrow> Some (Inl DCMD_ERR)
                | Some (Some rqclass) \<Rightarrow>
                    (case class_lookup (v8_classes D) rqclass of
                       None \<Rightarrow> Some (Inl DCMD_ERR)
                     | Some clp \<Rightarrow>
                         let off = v8c_end clp + ucast idx * of_nat PTRSZ - 1 in
                         (case read_heap_ptr D addr off of
                            None \<Rightarrow> Some (Inl DCMD_ERR)
                          | Some val \<Rightarrow> Some (Inr val))))))"

section \<open>Printing an object class by class\<close>

definition print_field :: "v8dbg \<Rightarrow> uptr \<Rightarrow> v8_field \<Rightarrow> mdb_out list option" where
  "print_field D baddr flp =
     (let addr = baddr + V8_OFF_HEAP D (v8f_offset flp);
          pre = fmt_p D addr @ '' '' @ v8f_name flp;
          unreadable = Some [OUT (pre @ '' (unreadable)'' @ NL)]
      in if v8f_isstr flp then
           (case mem_readstr D addr 256 of
              None \<Rightarrow> unreadable
            | Some s \<Rightarrow> Some [OUT (pre @ '' = '' @ [CHR 0x22] @ s @ [CHR 0x22] @ NL)])
         else if v8f_isbyte flp then
           (case mem_vread D addr 1 of
              None \<Rightarrow> unreadable
            | Some bs \<Rightarrow> Some [OUT (pre @ '' = 0x'' @ digits_of 16 (unat (ucast (le_word bs) :: byte)) @ NL)])
         else
           (case mem_vread D addr 8 of
              None \<Rightarrow> unreadable
            | Some bs \<Rightarrow>
                let value = le_word bs in do {
                  (rv, b, typ) \<leftarrow> obj_jstype D value \<lparr>lb_text = [], lb_len = 256\<rparr>;
                  if rv \<noteq> 0 then unreadable
                  else do {
                    type \<leftarrow> typ;
                    b \<leftarrow> (if type \<noteq> 0 \<and> V8_TYPE_STRING D type
                         then map_option (\<lambda>(_, b, _). b) (jsstr_print D value JSSTR_QUOTED (bsnprintf b '': ''))
                         else Some b);
                    Some [OUT (pre @ '' = '' @ fmt_p D value @ '' ('' @ lbuf_cstr b @ '')'' @ NL)]
                  }
                }))"

fun obj_print_fields_loop :: "v8dbg \<Rightarrow> uptr \<Rightarrow> v8_field list \<Rightarrow> mdb_out list option" where
  "obj_print_fields_loop D baddr [] = Some []"
| "obj_print_fields_loop D baddr (flp # flps) = do {
     o1 \<leftarrow> print_field D baddr flp;
     o2 \<leftarrow> obj_print_fields_loop D baddr flps;
     Some (o1 @ o2)
   }"

definition obj_print_fields :: "v8dbg \<Rightarrow> uptr \<Rightarrow> v8_class \<Rightarrow> (int \<times> mdb_out list) option" where
  "obj_print_fields D baddr clp = map_option (Pair DCMD_OK) (obj_print_fields_loop D baddr (v8c_fields clp))"

text \<open>
  The parent is a pointer; a pointer to no class of the list, and a chain of parents without
  end, give \<open>None\<close>.
\<close>

partial_function (option) obj_print_class :: "v8dbg \<Rightarrow> uptr \<Rightarrow> v8_class \<Rightarrow> (int \<times> mdb_out list) option" where
  "obj_print_class D addr clp =
     (if v8c_end clp = 0 then
        (case v8c_parent clp of
           None \<Rightarrow> Some (0, [OUT (v8c_name clp @ '' '')])
         | Some p \<Rightarrow>
             Option.bind (class_at D p) (\<lambda>pc.
             Option.bind (obj_print_class D addr pc) (\<lambda>(_, out).
             Some (0, OUT (v8c_name clp @ '' '') # OUT ''< '' # out))))
      else
        Option.bind
          (case v8c_parent clp of
             None \<Rightarrow> Some []
           | Some p \<Rightarrow>
               if v8c_start clp = 0 then
                 Option.bind (class_at D p) (\<lambda>pc.
                 Option.bind (obj_print_class D addr pc) (\<lambda>(_, out). Some (OUT '' < '' # out)))
               else Some [])
          (\<lambda>before.
        Option.bind
          (case v8c_parent clp of
             None \<Rightarrow> Some (0, [])
           | Some p \<Rightarrow>
               if 0 < v8c_start clp then
                 Option.bind (class_at D p) (\<lambda>pc. obj_print_class D addr pc)
               else Some (0, []))
          (\<lambda>(rv, parent).
        Option.bind (obj_print_fields D addr clp) (\<lambda>(rv2, fields).
          Some (rv OR rv2,
            OUT (fmt_p D addr @ '' '' @ v8c_name clp) # before @ OUT ('' {'' @ NL) # INDENT 4 #
            parent @ fields @ [DEDENT 4, OUT (''}'' @ NL)])))))"

section \<open>Commands\<close>

text \<open>Arguments of a command: \<open>None\<close> for one that is not a string.\<close>

type_synonym mdb_args = "string option list"

definition dcmd_v8classes :: "v8dbg \<Rightarrow> int \<times> mdb_out list" where
  "dcmd_v8classes D = (DCMD_OK, map (\<lambda>clp. OUT (v8c_name clp @ NL)) (v8_classes D))"

definition lpad0 :: "nat \<Rightarrow> string \<Rightarrow> string" where
  "lpad0 n s = replicate (n - length s) CHR ''0'' @ s"

definition enum_print :: "nat \<Rightarrow> v8_enum list \<Rightarrow> mdb_out list option" where
  "enum_print n enums =
     map_option (map (\<lambda>itp. OUT (rpad 30 (v8e_name itp) @ '' = 0x'' @
         lpad0 2 (digits_of 16 (unat (v8e_value itp))) @ NL)))
       (enum_entries n enums)"

definition dcmd_v8frametypes :: "v8dbg \<Rightarrow> (int \<times> mdb_out list) option" where
  "dcmd_v8frametypes D = map_option (Pair DCMD_OK) (enum_print NFRAMETYPES (v8_frametypes D))"

definition dcmd_v8types :: "v8dbg \<Rightarrow> (int \<times> mdb_out list) option" where
  "dcmd_v8types D = map_option (Pair DCMD_OK) (enum_print NTYPES (v8_types D))"

definition dcmd_v8type :: "v8dbg \<Rightarrow> uptr \<Rightarrow> (int \<times> mdb_out list) option" where
  "dcmd_v8type D addr = do {
     (rv, b, _) \<leftarrow> obj_jstype D addr \<lparr>lb_text = [], lb_len = 64\<rparr>;
     if rv \<noteq> 0 then Some (DCMD_ERR, [])
     else Some (DCMD_OK, [OUT (''0x'' @ fmt_p D addr @ '': '' @ lbuf_cstr b @ NL)])
   }"

text \<open>The index of \<^verbatim>\<open>::v8internal\<close>, as \<open>mdb_strtoull\<close> parses it, is cut to an \<open>unsigned int\<close>.\<close>

definition dcmd_v8internal :: "v8dbg \<Rightarrow> uptr \<Rightarrow> uptr \<Rightarrow> (int \<times> mdb_out list) option" where
  "dcmd_v8internal D addr idx =
     map_option (\<lambda>r. case r of Inl _ \<Rightarrow> (DCMD_ERR, []) | Inr fieldaddr \<Rightarrow> (DCMD_OK, [OUT (fmt_p D fieldaddr @ NL)]))
       (obj_v8internal D addr (ucast idx))"

definition print_as_class :: "v8dbg \<Rightarrow> uptr \<Rightarrow> string \<Rightarrow> (int \<times> mdb_out list) option" where
  "print_as_class D addr rqclass =
     (case class_lookup (v8_classes D) rqclass of
        None \<Rightarrow> Some (DCMD_USAGE, [])
      | Some clp \<Rightarrow> obj_print_class D addr clp)"

definition dcmd_v8print :: "v8dbg \<Rightarrow> uptr \<Rightarrow> mdb_args \<Rightarrow> (int \<times> mdb_out list) option" where
  "dcmd_v8print D addr argv =
     (case argv of
        [] \<Rightarrow> do {
          (rv, b, typ) \<leftarrow> obj_jstype D addr \<lparr>lb_text = [], lb_len = 256\<rparr>;
          if rv \<noteq> 0 then Some (DCMD_ERR, [])
          else do {
            type \<leftarrow> typ;
            if type = 0 then Some (DCMD_OK, [OUT (lbuf_cstr b @ NL)])
            else (case enum_lookup_str NTYPES (v8_types D) (ucast type) None of
               None \<Rightarrow> None
             | Some None \<Rightarrow> Some (DCMD_ERR, [])
             | Some (Some rqclass) \<Rightarrow> print_as_class D addr rqclass)
          }
        }
      | None # _ \<Rightarrow> Some (DCMD_USAGE, [])
      | Some rqclass # _ \<Rightarrow> print_as_class D addr rqclass)"

text \<open>The callbacks of the commands: their state is what has been printed, \<open>None\<close> once undefined.\<close>

definition do_v8scopeinfo_var_print ::
    "v8dbg \<Rightarrow> string \<Rightarrow> v8scopeinfo \<Rightarrow> v8scopeinfo_var \<Rightarrow> mdb_out list option \<Rightarrow> int \<times> mdb_out list option" where
  "do_v8scopeinfo_var_print D label sip sivp st = (0, do {
     out \<leftarrow> st;
     namestr \<leftarrow> v8scopeinfo_var_name sip sivp;
     (rv, b, _) \<leftarrow> jsstr_print D namestr JSSTR_QUOTED \<lparr>lb_text = [], lb_len = 64\<rparr>;
     Some (out @ [OUT (''    '' @ label @ '' '' @ fmt_d (v8scopeinfo_var_idx sip sivp) @ '': '' @ fmt_p D namestr),
                  OUT (if rv = 0 then '' ('' @ lbuf_cstr b @ '')'' @ NL else NL)])
   })"

definition do_v8scopeinfo_vartype_print ::
    "v8dbg \<Rightarrow> v8scopeinfo \<Rightarrow> v8scopeinfo_vartype \<Rightarrow> mdb_out list option \<Rightarrow> int \<times> mdb_out list option" where
  "do_v8scopeinfo_vartype_print D sip scopevartype st =
     (case do {
        out \<leftarrow> st;
        nvars \<leftarrow> v8scopeinfo_vartype_nvars D sip scopevartype;
        label \<leftarrow> v8scopeinfo_vartype_name scopevartype;
        v8scopeinfo_iter_vars D sip scopevartype (do_v8scopeinfo_var_print D label)
          (Some (out @ [OUT (fmt_d nvars @ '' '' @ label @ (if nvars = 1 then [] else ''s'') @ NL)]))
      } of
        None \<Rightarrow> (- 1, None)
      | Some r \<Rightarrow> r)"

definition dcmd_v8scopeinfo :: "v8dbg \<Rightarrow> uptr \<Rightarrow> (int \<times> mdb_out list) option" where
  "dcmd_v8scopeinfo D addr = do {
     si \<leftarrow> v8scopeinfo_load D addr {UM_SLEEP, UM_GC};
     (case si of
        None \<Rightarrow> Some (DCMD_ERR, [])
      | Some sip \<Rightarrow>
          let (rv, st) = v8scopeinfo_iter_vartypes sip (do_v8scopeinfo_vartype_print D) (Some [])
          in map_option (Pair (if rv \<noteq> 0 then DCMD_ERR else DCMD_OK)) st)
   }"

definition do_v8context_static_slot ::
    "v8dbg \<Rightarrow> v8context \<Rightarrow> string \<Rightarrow> uptr \<Rightarrow> mdb_out list option \<Rightarrow> int \<times> mdb_out list option" where
  "do_v8context_static_slot D ctxp label val st = (0, do {
     out \<leftarrow> st;
     (rv, b, _) \<leftarrow> obj_jstype D val \<lparr>lb_text = [], lb_len = 64\<rparr>;
     Some (out @ [OUT (label @ '': '' @ fmt_p D val),
                  OUT (if rv = 0 then '' ('' @ lbuf_cstr b @ '')'' @ NL else NL)])
   })"

definition do_v8context_dynamic_slot ::
    "v8dbg \<Rightarrow> v8context \<Rightarrow> 32 word \<Rightarrow> uptr \<Rightarrow> mdb_out list option \<Rightarrow> int \<times> mdb_out list option" where
  "do_v8context_dynamic_slot D ctxp which val st =
     do_v8context_static_slot D ctxp (take 15 (''    slot '' @ fmt_d (ucast which))) val st"

definition dcmd_v8context :: "v8dbg \<Rightarrow> uptr \<Rightarrow> (int \<times> mdb_out list) option" where
  "dcmd_v8context D addr =
     (case v8context_load D addr {UM_SLEEP, UM_GC} of
        None \<Rightarrow> Some (DCMD_ERR, [])
      | Some ctxp \<Rightarrow> do {
          (rv, st) \<leftarrow> v8context_iter_static_slots D ctxp (do_v8context_static_slot D) (Some []);
          if rv \<noteq> 0 then map_option (Pair DCMD_ERR) st
          else do {
            (rv, st) \<leftarrow> v8context_iter_dynamic_slots D ctxp (do_v8context_dynamic_slot D) st;
            map_option (Pair (if rv \<noteq> 0 then DCMD_ERR else DCMD_OK)) st
          }
        })"

section \<open>Lemmas\<close>

text \<open>The indentation after a sequence of events; \<open>None\<close> if it would become negative.\<close>

fun indent_after :: "nat \<Rightarrow> mdb_out list \<Rightarrow> nat option" where
  "indent_after k [] = Some k"
| "indent_after k (OUT s # out) = indent_after k out"
| "indent_after k (INDENT n # out) = indent_after (k + n) out"
| "indent_after k (DEDENT n # out) = (if n \<le> k then indent_after (k - n) out else None)"

lemma indent_after_append: "indent_after k (xs @ ys) = Option.bind (indent_after k xs) (\<lambda>k. indent_after k ys)"
  by (induction k xs rule: indent_after.induct) auto

definition balanced :: "mdb_out list \<Rightarrow> bool" where
  "balanced out \<longleftrightarrow> (\<forall>k. indent_after k out = Some k)"

lemma balanced_append: "balanced xs \<Longrightarrow> balanced ys \<Longrightarrow> balanced (xs @ ys)"
  by (simp add: balanced_def indent_after_append)

lemma balanced_braces: "balanced xs \<Longrightarrow> balanced (INDENT n # xs @ [DEDENT n, OUT t])"
  by (simp add: balanced_def indent_after_append)

lemma balanced_OUT [simp]: "balanced (OUT t # xs) \<longleftrightarrow> balanced xs" "balanced []"
  by (simp_all add: balanced_def)

lemma print_field_balanced: "print_field D addr flp = Some out \<Longrightarrow> balanced out"
  by (auto simp: print_field_def Let_def split: if_splits option.splits Option.bind_splits)

lemma print_fields_loop_balanced: "obj_print_fields_loop D addr flps = Some out \<Longrightarrow> balanced out"
  by (induction flps arbitrary: out)
    (auto split: Option.bind_splits intro!: balanced_append dest: print_field_balanced)

text \<open>A class with its ancestors, the root first.\<close>

inductive ancestry :: "v8dbg \<Rightarrow> v8_class \<Rightarrow> v8_class list \<Rightarrow> bool" for D where
  anc_root: "v8c_parent c = None \<Longrightarrow> ancestry D c [c]"
| anc_child: "v8c_parent c = Some p \<Longrightarrow> class_at D p = Some pc \<Longrightarrow> ancestry D pc cs \<Longrightarrow> ancestry D c (cs @ [c])"

text \<open>The extents of the classes are computed, and fields lie in the lower half.\<close>

definition classes_laid_out :: "v8dbg \<Rightarrow> bool" where
  "classes_laid_out D \<longleftrightarrow> extents_ok D \<and>
     (\<forall>a c. class_at D a = Some c \<longrightarrow> v8c_end c \<noteq> - 1 \<and> (\<forall>f\<in>set (v8c_fields c). v8f_offset f < 2 ^ 63))"

lemma laid_out_empty:
  assumes "classes_laid_out D" "class_at D a = Some c" "v8c_end c = 0"
  shows "v8c_fields c = []" "v8c_start c = 0"
proof -
  have "v8c_end c = class_end c (v8c_start c)" "\<forall>f\<in>set (v8c_fields c). v8f_offset f < 2 ^ 63"
    using assms by (auto simp: classes_laid_out_def extents_ok_def extent_ok_def split: if_splits)
  moreover have "v8f_offset f + of_nat PTRSZ \<noteq> 0" if "v8f_offset f < 2 ^ 63" for f :: v8_field
  proof
    assume z: "v8f_offset f + of_nat PTRSZ = 0"
    have "unat (v8f_offset f) < 2 ^ 63" using that by (simp add: word_less_nat_alt)
    then have "unat (v8f_offset f + of_nat 8) = unat (v8f_offset f) + 8"
      by (subst unat_add_lt) simp_all
    then show False using z by (simp add: PTRSZ_def)
  qed
  ultimately show "v8c_fields c = []" "v8c_start c = 0"
    using assms(3) by (auto simp: class_end_def split: if_splits)
qed

lemma laid_out_start:
  "classes_laid_out D \<Longrightarrow> class_at D a = Some c \<Longrightarrow> v8c_parent c = Some p \<Longrightarrow> class_at D p = Some pc \<Longrightarrow>
   v8c_start c = v8c_end pc"
proof -
  assume c: "classes_laid_out D" "class_at D a = Some c" "v8c_parent c = Some p" "class_at D p = Some pc"
  then have "extent_ok D c" "v8c_end c \<noteq> - 1" by (auto simp: classes_laid_out_def extents_ok_def)
  with c(3,4) show ?thesis by (auto simp: extent_ok_def)
qed

lemma ancestry_no_fields:
  assumes "ancestry D c cs" "classes_laid_out D" "class_at D a = Some c" "v8c_end c = 0"
  shows "\<forall>k\<in>set cs. v8c_fields k = []"
  using assms(1,3,4)
proof (induction arbitrary: a)
  case (anc_child c p pc cs)
  then show ?case using laid_out_empty [OF assms(2) anc_child.prems]
      laid_out_start [OF assms(2) anc_child.prems(1) anc_child.hyps(1,2)] by auto
qed (use laid_out_empty [OF assms(2)] in auto)

lemma subseq_inside: "subseq xs ys \<Longrightarrow> subseq xs (a @ ys @ b)"
  by (intro subseq_drop_many subseq_rev_drop_many)

lemma print_fields_balanced: "obj_print_fields D addr c = Some (0, out) \<Longrightarrow> balanced out"
  by (auto simp: obj_print_fields_def dest: print_fields_loop_balanced)

lemma print_fields_empty: "v8c_fields c = [] \<Longrightarrow> obj_print_fields D addr c = Some (0, out) \<Longrightarrow> out = []"
  by (auto simp: obj_print_fields_def)

text \<open>The body of a class that has an extent: the parent's part is printed before the brace or
  inside it.\<close>

lemma class_body:
  assumes "balanced before" "balanced par" "balanced flds"
  shows "\<exists>out. OUT h # before @ OUT b # INDENT 4 # par @ flds @ [DEDENT 4, OUT t] = out \<and> balanced out \<and>
    subseq (par @ flds) out \<and> subseq (before @ flds) out"
proof -
  have "balanced (INDENT 4 # (par @ flds) @ [DEDENT 4, OUT t])" using assms by (intro balanced_braces balanced_append)
  then have "balanced (OUT h # before @ OUT b # INDENT 4 # par @ flds @ [DEDENT 4, OUT t])"
    using assms(1) by (simp add: balanced_append)
  moreover have "subseq (par @ flds) (OUT h # before @ OUT b # INDENT 4 # par @ flds @ [DEDENT 4, OUT t])"
    using subseq_inside [of "par @ flds" "par @ flds" "OUT h # before @ [OUT b, INDENT 4]" "[DEDENT 4, OUT t]"] by simp
  moreover have "subseq (before @ flds) (OUT h # before @ OUT b # INDENT 4 # par @ flds @ [DEDENT 4, OUT t])"
    using list_emb_append_mono [of "(=)" before "OUT h # before" flds "OUT b # INDENT 4 # par @ flds @ [DEDENT 4, OUT t]"]
      subseq_inside [of flds flds "OUT b # INDENT 4 # par" "[DEDENT 4, OUT t]"]
      list_emb_Cons [of "(=)" before before "OUT h"] by simp
  ultimately show ?thesis by blast
qed

section \<open>Properties\<close>

text \<open>
  C31. Printing an object as an instance of a class whose ancestors end prints the fields of
  every ancestor and of the class in order, from the root down, inside nested braces: the
  indentation never becomes negative and ends where it began, and the command succeeds. The
  extents of the classes are as autoconfiguration computes them.
\<close>

theorem class_printed_root_first:
  assumes "classes_laid_out D" and "class_at D a = Some c" and "ancestry D c cs"
    and "\<forall>k\<in>set cs. obj_print_fields D addr k = Some (0, flds k)"
  shows "\<exists>out. obj_print_class D addr c = Some (0, out) \<and> subseq (concat (map flds cs)) out \<and> balanced out"
  using assms(3,2,4)
proof (induction arbitrary: a)
  case (anc_root c)
  then have f: "obj_print_fields D addr c = Some (0, flds c)" by simp
  show ?case
  proof (cases "v8c_end c = 0")
    case True
    with print_fields_empty [OF _ f] laid_out_empty [OF assms(1) anc_root.prems(1) True] anc_root.hyps show ?thesis
      by (subst obj_print_class.simps) simp
  next
    case False
    from class_body [of "[]" "[]" "flds c"] print_fields_balanced [OF f] f False anc_root.hyps show ?thesis
      by (subst obj_print_class.simps) auto
  qed
next
  case (anc_child c p pc cs)
  then have f: "obj_print_fields D addr c = Some (0, flds c)" by simp
  obtain out where out: "obj_print_class D addr pc = Some (0, out)" "subseq (concat (map flds cs)) out" "balanced out"
    using anc_child.IH [OF anc_child.hyps(2)] anc_child.prems(2) by auto
  have start: "v8c_start c = v8c_end pc"
    by (rule laid_out_start [OF assms(1) anc_child.prems(1) anc_child.hyps(1,2)])
  have none: "concat (map flds cs) = []" if "v8c_end pc = 0"
    using ancestry_no_fields [OF anc_child.hyps(3) assms(1) anc_child.hyps(2) that] anc_child.prems(2)
    by simp (blast intro: print_fields_empty)
  show ?case
  proof (cases "v8c_end c = 0")
    case True
    from laid_out_empty [OF assms(1) anc_child.prems(1) True] have "flds c = []" "v8c_end pc = 0"
      using print_fields_empty [OF _ f] start by auto
    then have eq: "concat (map flds (cs @ [c])) = []" using none by simp
    show ?thesis unfolding eq
      using True out(1,3) anc_child.hyps(1,2) by (subst obj_print_class.simps) simp
  next
    case False
    show ?thesis
    proof (cases "v8c_start c = 0")
      case True
      have eq: "concat (map flds (cs @ [c])) = flds c" using none True start by simp
      from class_body [of "OUT '' < '' # out" "[]" "flds c"] print_fields_balanced [OF f] out(3) f False True
        anc_child.hyps(1,2) out(1) show ?thesis unfolding eq
        by (subst obj_print_class.simps) auto
    next
      case start0: False
      have le: "subseq (concat (map flds cs) @ flds c) (out @ flds c)" by (rule list_emb_append_mono [OF out(2)]) simp
      from class_body [of "[]" out "flds c"] print_fields_balanced [OF f] out(3) f False start0
        anc_child.hyps(1,2) out(1) show ?thesis
        by (subst obj_print_class.simps) (auto simp: word_gt_0 intro: subseq_order.trans [OF le])
    qed
  qed
qed

text \<open>A class with one field below a class with one.\<close>

definition base_class :: v8_class where
  "base_class = \<lparr>v8c_addr = 0, v8c_name = ''Base'', v8c_parent = None,
     v8c_fields = [\<lparr>v8f_name = ''map'', v8f_offset = 0, v8f_isbyte = False, v8f_isstr = False\<rparr>], v8c_start = 0, v8c_end = 8\<rparr>"

definition sub_class :: v8_class where
  "sub_class = \<lparr>v8c_addr = 1, v8c_name = ''Sub'', v8c_parent = Some 0,
     v8c_fields = [\<lparr>v8f_name = ''kind'', v8f_offset = 8, v8f_isbyte = True, v8f_isstr = False\<rparr>], v8c_start = 8, v8c_end = 16\<rparr>"

definition class_dbg :: v8dbg where
  "class_dbg = smi_sample\<lparr>v8_classes := [base_class, sub_class]\<rparr>"

lemma class_printed_root_first_witness:
  "\<exists>out. obj_print_class class_dbg 4096 sub_class = Some (0, out) \<and>
     subseq [OUT ('' map (unreadable)'' @ NL), OUT ('' kind (unreadable)'' @ NL)] out \<and> balanced out"
proof -
  have at: "class_at class_dbg a = (if a = 0 then Some base_class else if a = 1 then Some sub_class else None)" for a
    by (simp add: class_at_def class_dbg_def base_class_def sub_class_def)
  have "classes_laid_out class_dbg"
    unfolding classes_laid_out_def extents_ok_def extent_ok_def at
    by (auto simp: class_end_def base_class_def sub_class_def PTRSZ_def split: if_splits)
  moreover have "class_at class_dbg 1 = Some sub_class" by (simp add: at)
  moreover have "ancestry class_dbg sub_class ([base_class] @ [sub_class])"
    by (rule anc_child [of _ 0 _ base_class]) (simp_all add: at anc_root base_class_def sub_class_def)
  moreover let ?f = "\<lambda>k. if v8c_addr k = 0 then [OUT ('' map (unreadable)'' @ NL)] else [OUT ('' kind (unreadable)'' @ NL)]"
  have "\<forall>k\<in>set ([base_class] @ [sub_class]). obj_print_fields class_dbg 4096 k = Some (0, ?f k)"
    by (simp add: obj_print_fields_def print_field_def base_class_def sub_class_def class_dbg_def smi_sample_def DCMD_OK_def)
  ultimately show ?thesis
    using class_printed_root_first [of class_dbg 1 sub_class "[base_class] @ [sub_class]" 4096 ?f]
    by (simp add: base_class_def sub_class_def)
qed

end
