(* ===== verification/PrintValue.thy ===== *)
theory PrintValue
  imports FastObject JsPrint
begin

text \<open>
  What \<^verbatim>\<open>::jsprint\<close> is to print: JavaScript values as finite trees, cut at the depth that is
  printed; when a word of the target is such a value, defined by what the heap holds; and the
  text of a tree. The printer of values is proved to write that text.
\<close>

section \<open>Values and their text\<close>

datatype jsval =
    JSInt int
  | JSNum uptr
  | JSStr "16 word list"
  | JSOdd "16 word list"
  | JSTyped int
  | JSBound
  | JSRegExp "16 word list"
  | JSCut
  | JSObj "(16 word list \<times> jsval) list"
  | JSArr "jsval list"

definition quoted :: "string \<Rightarrow> string" where
  "quoted s = [CHR 0x22] @ s @ [CHR 0x22]"

definition js_name :: "16 word list \<Rightarrow> string" where
  "js_name cs = takeWhile (\<lambda>c. c \<noteq> NUL) (escaped_all MSF_ASCIIONLY cs)"

definition double_text :: "v8dbg \<Rightarrow> uptr \<Rightarrow> string" where
  "double_text D d = (if dbl_is_int d (dbl_to_ll d) then show_int (dbl_to_ll d) else fmt_e D d)"

fun js_pretty :: "v8dbg \<Rightarrow> int \<Rightarrow> jsval \<Rightarrow> string" where
  "js_pretty D i (JSInt n) = show_int n"
| "js_pretty D i (JSNum d) = double_text D d"
| "js_pretty D i (JSStr cs) = quoted (escaped_all MSF_ASCIIONLY cs)"
| "js_pretty D i (JSOdd cs) = escaped_all MSF_ASCIIONLY cs"
| "js_pretty D i (JSTyped n) = ''<Typed array of length '' @ show_int n @ ''>''"
| "js_pretty D i JSBound = ''<bound function>''"
| "js_pretty D i (JSRegExp cs) = ''JSRegExp: '' @ quoted (escaped_all MSF_ASCIIONLY cs)"
| "js_pretty D i JSCut = ''[...]''"
| "js_pretty D i (JSObj ps) =
     (if ps = [] then ''{}''
      else ''{'' @ concat (map (\<lambda>(n, x). NL @ pad (i + 4) @ quoted (js_name n) @ '': '' @ js_pretty D (i + 4) x @ '','') ps) @
           NL @ pad i @ ''}'')"
| "js_pretty D i (JSArr xs) =
     (if xs = [] then ''[]''
      else if length xs = 1 then ''[ '' @ concat (map (js_pretty D (i + 4)) xs) @ '' ]''
      else ''['' @ NL @ concat (map (\<lambda>x. pad (i + 4) @ js_pretty D (i + 4) x @ '','' @ NL) xs) @ pad i @ '']'')"

text \<open>An object of a class, told apart by its type byte, that is not a string.\<close>

definition object_of :: "v8dbg \<Rightarrow> uptr \<Rightarrow> string \<Rightarrow> bool" where
  "object_of D v klass \<longleftrightarrow> V8_IS_HEAPOBJECT D v \<and>
     (\<exists>type. read_typebyte D v = Some type \<and> \<not> V8_TYPE_STRING D type \<and>
        \<not> is_type D type V8_TYPE_MUTABLEHEAPNUMBER \<and>
        enum_lookup_str NTYPES (v8_types D) (ucast type) (Some ''<unknown>'') = Some (Some klass))"

text \<open>
  The elements of an array: the first words of its backing store, as many as it is long. The
  last word of a store whose length is 1 modulo 1024 is never visited.
\<close>

definition array_of :: "v8dbg \<Rightarrow> uptr \<Rightarrow> uptr list \<Rightarrow> bool" where
  "array_of D v ws \<longleftrightarrow>
     (\<exists>type len e. read_typebyte D v = Some type \<and> is_type D type V8_TYPE_JSARRAY \<and>
        read_heap_smi D v (gv D V8_OFF_JSARRAY_LENGTH) = Some len \<and> unat len = length ws \<and>
        read_heap_ptr D v (gv D V8_OFF_JSOBJECT_ELEMENTS) = Some e \<and>
        (ws \<noteq> [] \<longrightarrow> (\<exists>etype n xs. V8_IS_HEAPOBJECT D e \<and> read_typebyte D e = Some etype \<and>
            is_type D etype V8_TYPE_FIXEDARRAY \<and> read_heap_smi D e (gv D V8_OFF_FIXEDARRAY_LENGTH) = Some n \<and>
            elements_at D (e + gv D V8_OFF_FIXEDARRAY_DATA) (unat n) = Some xs \<and>
            length ws \<le> length xs \<and> \<not> (length xs = length ws \<and> 1 < length xs \<and> length xs mod 1024 = 1) \<and>
            ws = take (length ws) xs)))"

text \<open>\<open>d\<close> is the depth to which the value is followed; a value may contain itself.\<close>

inductive js_value :: "v8dbg \<Rightarrow> nat \<Rightarrow> uptr \<Rightarrow> jsval \<Rightarrow> bool" for D where
  js_int: "V8_IS_SMI D v \<Longrightarrow> js_value D d v (JSInt (sint (ucast (V8_SMI_VALUE D v) :: 32 word)))"
| js_str: "V8_IS_HEAPOBJECT D v \<Longrightarrow> string_text D v cs n \<Longrightarrow> n \<le> 255 \<Longrightarrow> js_value D d v (JSStr cs)"
| js_num: "object_of D v ''HeapNumber'' \<Longrightarrow> read_heap_double D v (gv D V8_OFF_HEAPNUMBER_VALUE) = Some b \<Longrightarrow>
    js_value D d v (JSNum b)"
| js_odd: "object_of D v ''Oddball'' \<Longrightarrow> read_heap_ptr D v (gv D V8_OFF_ODDBALL_TO_STRING) = Some p \<Longrightarrow>
    string_text D p cs n \<Longrightarrow> n \<le> 255 \<Longrightarrow> js_value D d v (JSOdd cs)"
| js_typed: "object_of D v ''JSTypedArray'' \<Longrightarrow> gv D V8_OFF_JSTYPEDARRAY_LENGTH \<noteq> - 1 \<Longrightarrow>
    read_heap_smi D v (gv D V8_OFF_JSTYPEDARRAY_LENGTH) = Some w \<Longrightarrow>
    js_value D d v (JSTyped (sint (ucast w :: 32 word)))"
| js_bound: "object_of D v ''JSBoundFunction'' \<Longrightarrow> js_value D d v JSBound"
| js_regexp: "object_of D v ''JSRegExp'' \<Longrightarrow> gv D V8_OFF_JSREGEXP_DATA \<noteq> - 1 \<Longrightarrow>
    read_heap_ptr D v (gv D V8_OFF_JSREGEXP_DATA) = Some p \<Longrightarrow>
    read_heap_array D p {UM_SLEEP, UM_GC} = Some (w0 # w1 # ws) \<Longrightarrow>
    string_text D w1 cs n \<Longrightarrow> n \<le> 255 \<Longrightarrow> js_value D d v (JSRegExp cs)"
| js_cut: "object_of D v klass \<Longrightarrow> klass = ''JSObject'' \<or> klass = ''JSArray'' \<Longrightarrow> js_value D 0 v JSCut"
| js_obj: "object_of D v ''JSObject'' \<Longrightarrow> fast_object D v props \<Longrightarrow>
    list_all2 (\<lambda>nw nx. fst nx = fst nw \<and> js_value D d (snd nw) (snd nx)) props ps \<Longrightarrow>
    js_value D (Suc d) v (JSObj ps)"
| js_arr: "object_of D v ''JSArray'' \<Longrightarrow> array_of D v ws \<Longrightarrow> list_all2 (js_value D d) ws xs \<Longrightarrow>
    js_value D (Suc d) v (JSArr xs)"

section \<open>Lemmas: strings\<close>

lemma escaped_quote: "escaped 34 MSF_ASCIIONLY = [CHR 0x22]"
  by (simp add: escaped_def MSF_ASCIIONLY_def MSF_JSON_def isascii_def iscntrl_def char_of_34)

lemma write_subflags_quoted: "write_subflags D type (f AND NOT JSSTR_QUOTED) = write_subflags D type f"
proof -
  have "write_type_flags D type (f AND NOT JSSTR_QUOTED) AND NOT JSSTR_QUOTED = write_type_flags D type f AND NOT JSSTR_QUOTED"
    by (rule bit_word_eqI) (auto simp: write_type_flags_def jsstr_bits bit_simps)
  then show ?thesis by (simp add: write_subflags_def)
qed
lemma write_quoted:
  assumes w: "writes_str D strp cs n" and b: "strbuf_wf b" "ms_reservesz b = 0"
    and fits: "nbytes MSF_ASCIIONLY cs + 2 \<le> strbuf_left b" and n: "2 * n \<le> 512"
  shows "\<exists>b' out. v8string_write D strp b MSF_ASCIIONLY JSSTR_QUOTED = Some (0, b', out) \<and> strbuf_grown b b' \<and>
    strbuf_text b' = strbuf_text b @ quoted (escaped_all MSF_ASCIIONLY cs)"
proof -
  obtain b1 where b1: "mdbv8_strbuf_appendc b 34 MSF_ASCIIONLY = Some b1" "strbuf_wf b1"
    "strbuf_text b1 = strbuf_text b @ [CHR 0x22]" "strbuf_left b1 = strbuf_left b - 1" "strbuf_grown b b1"
    using appendc_spec [OF b(1), of 34 MSF_ASCIIONLY] appendc_grown [OF b(1), of 34 MSF_ASCIIONLY] fits
    by (auto simp: escaped_quote)
  let ?r = "mdbv8_strbuf_reserve b1 1"
  have r: "strbuf_wf ?r" "strbuf_left ?r = strbuf_left b - 2" "strbuf_text ?r = strbuf_text b1"
    using reserve_wf [OF b1(2)] reserve_left [OF b1(2), of 1] b1(4,5) b(2)
    by (simp_all add: strbuf_grown_def strbuf_text_def mdbv8_strbuf_reserve_def)
  have c: "nbytes MSF_ASCIIONLY cs \<le> strbuf_left ?r" "depth_of 0 + 2 * n \<le> 512" "\<not> bit (0 :: 32 word) 17"
    using fits r(2) n by (simp_all add: depth_of_mod)
  have "\<exists>b2 out. v8string_write D strp ?r MSF_ASCIIONLY 0 = Some (0, b2, out) \<and> strbuf_grown ?r b2 \<and>
      strbuf_text b2 = strbuf_text ?r @ escaped_all MSF_ASCIIONLY cs"
    using w r(1) c unfolding writes_str_def by blast
  then obtain b2 out where b2: "v8string_write D strp ?r MSF_ASCIIONLY 0 = Some (0, b2, out)" "strbuf_grown ?r b2"
      "strbuf_text b2 = strbuf_text ?r @ escaped_all MSF_ASCIIONLY cs" by blast
  let ?u = "mdbv8_strbuf_reserve b2 (- 1)"
  have u: "strbuf_grown b1 ?u" by (rule reserve_grown [OF b2(2)])
  have ut: "strbuf_text ?u = strbuf_text b @ [CHR 0x22] @ escaped_all MSF_ASCIIONLY cs"
    using b2(3) r(3) b1(3) by (simp add: strbuf_text_def mdbv8_strbuf_reserve_def)
  have ul: "strbuf_left ?u = strbuf_left b1 - length (escaped_all MSF_ASCIIONLY cs)"
    by (rule grown_left [OF b1(2) u]) (simp add: ut b1(3))
  have room: "1 \<le> strbuf_left ?u" using fits escaped_all_le [of MSF_ASCIIONLY cs] by (simp add: ul b1(4))
  obtain b3 where b3: "mdbv8_strbuf_appendc ?u 34 MSF_ASCIIONLY = Some b3" "strbuf_grown ?u b3"
    "strbuf_text b3 = strbuf_text ?u @ [CHR 0x22]"
    using appendc_spec [OF strbuf_grown_wf [OF u], of 34 MSF_ASCIIONLY]
      appendc_grown [OF strbuf_grown_wf [OF u], of 34 MSF_ASCIIONLY] room by (auto simp: escaped_quote)
  have body: "(if V8_STRREP_SEQ D t then v8string_write_seq D strp ?r MSF_ASCIIONLY (write_subflags D t JSSTR_QUOTED) 0 (- 1)
     else if V8_STRREP_CONS D t then v8string_write_cons D strp ?r MSF_ASCIIONLY (write_subflags D t JSSTR_QUOTED)
     else if V8_STRREP_EXT D t then v8string_write_ext D strp ?r MSF_ASCIIONLY (write_subflags D t JSSTR_QUOTED)
     else if V8_STRREP_SLICED D t then v8string_write_sliced D strp ?r MSF_ASCIIONLY (write_subflags D t JSSTR_QUOTED)
     else None) = Some (0, b2, out)" if "t = v8s_type strp" for t
  proof -
    have eq: "write_subflags D t JSSTR_QUOTED = write_subflags D t 0"
      using write_subflags_quoted [of D t JSSTR_QUOTED] by simp
    have "depth_of 0 \<le> 512" by (simp add: depth_of_mod)
    from b2(1) [unfolded write_unquoted [OF this c(3)] Let_def] show ?thesis unfolding that eq [unfolded that] .
  qed
  have depth: "(JSSTR_MAXDEPTH < JSSTR_DEPTH JSSTR_QUOTED) = False"
    by (simp add: depth_guard depth_of_mod JSSTR_QUOTED_def JSSTR_FLAGSHIFT_def)
  have quot: "(JSSTR_QUOTED AND JSSTR_QUOTED \<noteq> 0) = True" by (simp add: jsstr_bits)
  have "v8string_write D strp b MSF_ASCIIONLY JSSTR_QUOTED = Some (0, b3, out)"
    by (subst v8string_write.simps)
      (simp only: depth quot Let_def if_False if_True b1(1) option.map bind.simps body [OF refl] prod.case b3(1))
  then show ?thesis using b3 ut strbuf_grown_trans [OF b1(5) strbuf_grown_trans [OF u b3(2)]]
    by (auto simp: quoted_def)
qed

lemma bsnprintf_append: "bsnprintf (bsnprintf b s) t = bsnprintf b (s @ t)"
proof (rule lbuf.equality)
  show "lb_text (bsnprintf (bsnprintf b s) t) = lb_text (bsnprintf b (s @ t))"
    by (simp add: bsnprintf_content bsnprintf_room)
qed (simp_all add: bsnprintf_room)

lemma bsnprintf_Nil: "bsnprintf b [] = b"
  by (rule lbuf.equality) (simp_all add: bsnprintf_content bsnprintf_room)

lemma nbytes_ascii: "nbytes MSF_ASCIIONLY cs = length (escaped_all MSF_ASCIIONLY cs)"
proof (induction cs)
  case (Cons c cs)
  have "MSF_ASCIIONLY AND MSF_JSON \<noteq> MSF_JSON" by (simp add: MSF_ASCIIONLY_def MSF_JSON_def)
  then have "length (escaped c MSF_ASCIIONLY) = mdbv8_strbuf_nbytesforchar c MSF_ASCIIONLY"
    by (intro escaped_eq_nbytes disjI2)
  with Cons show ?case by (simp add: escaped_all_def)
qed (simp add: escaped_all_def)

text \<open>What a call leaves in the buffer when it grows it by a text that fits.\<close>

lemma grown_bsnprintf:
  assumes "lbuf_grown b b'" "lb_text b' = lb_text b @ y"
  shows "b' = bsnprintf b y"
proof (rule lbuf.equality)
  from assms have l: "length y + lb_len b' = lb_len b" "0 < lb_len b'" by (auto simp: lbuf_grown_def)
  then show "lb_text b' = lb_text (bsnprintf b y)" "lb_len b' = lb_len (bsnprintf b y)"
    using assms(2) by (auto simp: bsnprintf_content bsnprintf_room)
qed simp

lemma js_targetD:
  assumes "js_target D"
  shows "target_ok D" "strrep_tags_ok D" "zalloc_ok D 48 {UM_SLEEP}" "vread_laws D" "v8_tags_amd64 D"
  using assms by (auto simp: js_target_def target_ok_def)

lemma jsstr_print_nude:
  assumes "js_target D" "string_text D addr cs n" "n \<le> 255" "length (escaped_all MSF_ASCIIONLY cs) < lb_len b"
    and "lb_len b < 2 ^ 64"
  shows "\<exists>out. jsstr_print D addr JSSTR_NUDE b = Some (0, bsnprintf b (escaped_all MSF_ASCIIONLY cs), out)"
proof -
  have "\<not> bit JSSTR_NUDE 17" "depth_of JSSTR_NUDE + 2 * n \<le> 512" "lbuf_ok b" "nbytes MSF_ASCIIONLY cs < lb_len b"
    using assms(3-5) by (simp_all add: JSSTR_NUDE_def JSSTR_NONE_def depth_of_mod nbytes_ascii lbuf_ok_def)
  from jsstr_print_text [OF js_targetD(1-3) [OF assms(1)] assms(2) this] grown_bsnprintf show ?thesis by blast
qed

lemma jsstr_print_quoted:
  assumes "js_target D" "string_text D addr cs n" "n \<le> 255"
    and "length (quoted (escaped_all MSF_ASCIIONLY cs)) < lb_len b" "lb_len b < 2 ^ 64"
  shows "\<exists>out. jsstr_print D addr JSSTR_QUOTED b = Some (0, bsnprintf b (quoted (escaped_all MSF_ASCIIONLY cs)), out)"
proof -
  let ?q = "quoted (escaped_all MSF_ASCIIONLY cs)"
  have ok: "lbuf_ok b" using assms(4,5) by (simp add: lbuf_ok_def)
  obtain strb where init: "legacy_init b = Some strb" "strbuf_wf strb" "strbuf_text strb = []"
    "ms_bufsz strb = of_nat (lb_len b)" "ms_reservesz strb = 0" using legacy_init_ok [OF ok] by blast
  obtain strp where strp: "v8string_load D addr {UM_SLEEP} = Some strp" "writes_str D strp cs n"
    using text_written [OF js_targetD(1-3) [OF assms(1)] assms(2)] by blast
  have "nbytes MSF_ASCIIONLY cs + 2 \<le> strbuf_left strb"
    using legacy_init_left [OF ok init(1)] assms(4) by (simp add: nbytes_ascii quoted_def)
  from write_quoted [OF strp(2) init(2,5) this] assms(3) obtain strb' out where
    w: "v8string_write D strp strb MSF_ASCIIONLY JSSTR_QUOTED = Some (0, strb', out)" "strbuf_grown strb strb'"
    "strbuf_text strb' = strbuf_text strb @ ?q" by auto
  have "lb_text (legacy_lbuf b strb') = lb_text b @ ?q"
    using legacy_lbuf_grown [OF ok, of strb'] w(2,3) init(3,4) by (simp add: strbuf_grown_def)
  with strbuf_grown_legacy [OF ok init(1) w(2)] have "legacy_lbuf b strb' = bsnprintf b ?q" by (rule grown_bsnprintf)
  then show ?thesis using strp(1) init(1) w(1) by (simp add: jsstr_print_def)
qed

section \<open>Lemmas: arrays and objects\<close>

lemma array_iteration:
  assumes "js_target D" "zalloc_ok D 32 {}" "V8_IS_HEAPOBJECT D v" "array_of D v ws"
  shows "\<exists>ap. v8array_load D v {} = Some ap \<and> unat (v8array_length ap) = length ws \<and>
    (ws \<noteq> [] \<longrightarrow> (\<forall>func (s :: 's). v8array_iter_elements D ap func s = Some (cb_iter (on_element func ap) (enumerate 0 ws) s)))"
proof -
  obtain type len e where t: "read_typebyte D v = Some type" "is_type D type V8_TYPE_JSARRAY"
    "read_heap_smi D v (gv D V8_OFF_JSARRAY_LENGTH) = Some len" "unat len = length ws"
    "read_heap_ptr D v (gv D V8_OFF_JSOBJECT_ELEMENTS) = Some e" and
    store: "ws \<noteq> [] \<Longrightarrow> \<exists>etype n xs. V8_IS_HEAPOBJECT D e \<and> read_typebyte D e = Some etype \<and>
            is_type D etype V8_TYPE_FIXEDARRAY \<and> read_heap_smi D e (gv D V8_OFF_FIXEDARRAY_LENGTH) = Some n \<and>
            elements_at D (e + gv D V8_OFF_FIXEDARRAY_DATA) (unat n) = Some xs \<and>
            length ws \<le> length xs \<and> \<not> (length xs = length ws \<and> 1 < length xs \<and> length xs mod 1024 = 1) \<and>
            ws = take (length ws) xs"
    using assms(4) unfolding array_of_def by blast
  show ?thesis
  proof (cases "ws = []")
    case True
    then have "len = 0" using t(4) by (simp add: unat_eq_0)
    with True t assms(2,3) show ?thesis by (simp add: v8array_load_def v8array_length_def)
  next
    case False
    then have pos: "0 < len" using t(4) by (metis length_0_conv unat_0 word_gt_0)
    from store [OF False] obtain etype n xs where x: "V8_IS_HEAPOBJECT D e" "read_typebyte D e = Some etype"
      "is_type D etype V8_TYPE_FIXEDARRAY" "read_heap_smi D e (gv D V8_OFF_FIXEDARRAY_LENGTH) = Some n"
      "elements_at D (e + gv D V8_OFF_FIXEDARRAY_DATA) (unat n) = Some xs"
      "length ws \<le> length xs" "\<not> (length xs = length ws \<and> 1 < length xs \<and> length xs mod 1024 = 1)"
      "ws = take (length ws) xs" by blast
    have n: "unat n < 2 ^ 32" using read_heap_smi_bound [OF js_targetD(5) [OF assms(1)] x(4)] .
    define fa where "fa = \<lparr>v8fa_addr = e, v8fa_memflags = {}, v8fa_nelts = n, v8fa_elements = 0\<rparr>"
    define ap where "ap = \<lparr>v8array_addr = v, v8array_memflags = {}, v8array_elements = Some fa, v8array_len = len\<rparr>"
    have "v8array_load D v {} = Some ap"
      using t x pos assms(2,3) by (simp add: v8array_load_def v8fixedarray_load_def ap_def fa_def)
    moreover have "length ws \<le> iter_visits (length xs)"
      using x(6,7) by (cases "length ws = length xs") (auto simp: iter_visits_def MAXNPGELTS_def)
    then have "take (length ws) (take (iter_visits (length xs)) xs) = ws" using x(8) by (simp add: min_absorb1)
    then have "v8array_iter_elements D ap func s = Some (cb_iter (on_element func ap) (enumerate 0 ws) s)"
      for func and s :: 's
      using array_iter_visits [of D ap fa xs func s] js_targetD(4) [OF assms(1)] x(5) n t(4)
      by (simp add: ap_def fa_def v8array_length_def)
    ultimately show ?thesis using t(4) by (auto simp: ap_def v8array_length_def)
  qed
qed

text \<open>A printer of values that writes the text of one value.\<close>

definition plain_args :: "nat \<Rightarrow> jsobj_print_args \<Rightarrow> bool" where
  "plain_args d P \<longleftrightarrow> unat (jsop_depth P) = d \<and> \<not> jsop_printaddr P \<and> jsop_baseaddr P = 0 \<and>
     jsop_member P = None \<and> jsop_maxstrlen P = 0"

definition writes_text :: "value_printer \<Rightarrow> v8propvalue option \<Rightarrow> jsobj_print_args \<Rightarrow> string \<Rightarrow> bool" where
  "writes_text pv valp P y \<longleftrightarrow>
     (\<forall>s. length y < lb_len (jsop_buf s) \<longrightarrow> lb_len (jsop_buf s) < 2 ^ 64 \<longrightarrow>
        (\<exists>s'. pv valp P s = Some (0, s') \<and> jsop_buf s' = bsnprintf (jsop_buf s) y))"

lemma writes_textD:
  assumes "writes_text pv valp P y" "length y < lb_len (jsop_buf s)" "lb_len (jsop_buf s) < 2 ^ 64"
  obtains s' where "pv valp P s = Some (0, s')" "jsop_buf s' = bsnprintf (jsop_buf s) y"
  using assms unfolding writes_text_def by blast

lemma plain_descend: "plain_args (Suc d) P \<Longrightarrow> plain_args d (prop_descend P) \<and> jsop_indent (prop_descend P) = jsop_indent P + 4"
proof -
  assume P: "plain_args (Suc d) P"
  then have "jsop_depth P \<noteq> 0" by (auto simp: plain_args_def)
  from unat_minus_one [OF this] P show ?thesis by (simp add: plain_args_def prop_descend_def)
qed

definition prop_text :: "v8dbg \<Rightarrow> int \<Rightarrow> 16 word list \<times> jsval \<Rightarrow> string" where
  "prop_text D i nx = NL @ pad (i + 4) @ quoted (js_name (fst nx)) @ '': '' @ js_pretty D (i + 4) (snd nx) @ '',''"

definition elem_text :: "v8dbg \<Rightarrow> int \<Rightarrow> jsval \<Rightarrow> string" where
  "elem_text D i x = pad (i + 4) @ js_pretty D (i + 4) x @ '','' @ NL"

lemma props_written:
  assumes "list_all2 (\<lambda>nw nx. fst nx = fst nw \<and>
      writes_text pv (Some (jsobj_propvalue_addr (snd nw))) (prop_descend P) (js_pretty D (jsop_indent P + 4) (snd nx))) props ps"
    and "0 \<le> jsop_nprops s" "lb_len (jsop_buf s) < 2 ^ 64"
    and "length ((if jsop_nprops s = 0 \<and> ps \<noteq> [] then ''{'' else []) @ concat (map (prop_text D (jsop_indent P)) ps)) < lb_len (jsop_buf s)"
  shows "\<exists>s'. cb_iter (visit (jsobj_print_prop pv P)) (map prop_visit props) (Some s) = (0, Some s') \<and>
    jsop_nprops s' = jsop_nprops s + int (length ps) \<and>
    jsop_buf s' = bsnprintf (jsop_buf s)
      ((if jsop_nprops s = 0 \<and> ps \<noteq> [] then ''{'' else []) @ concat (map (prop_text D (jsop_indent P)) ps))"
  using assms
proof (induction arbitrary: s rule: list_all2_induct)
  case (Cons nw props nx ps)
  let ?open = "if jsop_nprops s = 0 then ''{'' else []"
  let ?i = "jsop_indent P" and ?v = "Some (jsobj_propvalue_addr (snd nw))"
  define pre where "pre = ?open @ NL @ pad (?i + 4) @ quoted (js_name (fst nw)) @ '': ''"
  define s1 where "s1 = jp_out s pre"
  have b1: "jsop_buf s1 = bsnprintf (jsop_buf s) pre" by (simp add: s1_def jp_out_def)
  have len: "length pre + length (js_pretty D (?i + 4) (snd nx)) + 1 + length (concat (map (prop_text D ?i) ps)) < lb_len (jsop_buf s)"
    using Cons.prems(3) Cons.hyps(1) by (simp add: pre_def prop_text_def [of D _ nx])
  have w: "writes_text pv ?v (prop_descend P) (js_pretty D (?i + 4) (snd nx))" using Cons.hyps(1) by simp
  obtain s2 where s2: "pv ?v (prop_descend P) s1 = Some (0, s2)"
    "jsop_buf s2 = bsnprintf (jsop_buf s1) (js_pretty D (?i + 4) (snd nx))"
    by (rule writes_textD [OF w, of s1]) (use len Cons.prems(2) in \<open>auto simp: b1 bsnprintf_room\<close>)
  define s3 where "s3 = (jp_out (s1\<lparr>jsop_buf := jsop_buf s2\<rparr>) '','')\<lparr>jsop_nprops := jsop_nprops s + 1\<rparr>"
  have b3: "jsop_buf s3 = bsnprintf (jsop_buf s) (?open @ prop_text D ?i nx)" "jsop_nprops s3 = jsop_nprops s + 1"
    using s2(2) Cons.hyps(1) by (simp_all add: s3_def jp_out_def b1 bsnprintf_append pre_def prop_text_def)
  have step: "visit (jsobj_print_prop pv P) (prop_visit nw) (Some s) = (0, Some s3)"
    using s2(1) by (simp add: visit_def prop_visit_def jsobj_print_prop_def s3_def s1_def pre_def quoted_def js_name_def jp_out_def)
  have "\<exists>s'. cb_iter (visit (jsobj_print_prop pv P)) (map prop_visit props) (Some s3) = (0, Some s') \<and>
    jsop_nprops s' = jsop_nprops s3 + int (length ps) \<and>
    jsop_buf s' = bsnprintf (jsop_buf s3) ((if jsop_nprops s3 = 0 \<and> ps \<noteq> [] then ''{'' else []) @ concat (map (prop_text D ?i) ps))"
    by (rule Cons.IH) (use len Cons.prems(1,2) Cons.hyps(1) in \<open>auto simp: b3 bsnprintf_room pre_def prop_text_def [of D _ nx]\<close>)
  then show ?case using step b3 Cons.prems(1) by (auto simp: bsnprintf_append)
qed (simp add: bsnprintf_Nil)

lemma elems_written:
  assumes "list_all2 (\<lambda>w x. writes_text pv (Some (jsobj_propvalue_addr w)) (prop_descend P) (js_pretty D (jsop_indent P + 4) x)) ws xs"
    and "v8array_length ap \<noteq> 1" "lb_len (jsop_buf s) < 2 ^ 64"
    and "length (concat (map (elem_text D (jsop_indent P)) xs)) < lb_len (jsop_buf s)"
  shows "\<exists>s'. cb_iter (on_element (jsobj_print_jsarray_one pv (prop_descend P)) ap) (enumerate k ws) (Some s) = (0, Some s') \<and>
    jsop_buf s' = bsnprintf (jsop_buf s) (concat (map (elem_text D (jsop_indent P)) xs))"
  using assms(1,3,4)
proof (induction arbitrary: s k rule: list_all2_induct)
  case (Cons w ws x xs)
  let ?i = "jsop_indent P" and ?v = "Some (jsobj_propvalue_addr w)"
  define s1 where "s1 = jp_out s (pad (?i + 4))"
  have i: "jsop_indent (prop_descend P) = ?i + 4" by (simp add: prop_descend_def)
  have b1: "jsop_buf s1 = bsnprintf (jsop_buf s) (pad (?i + 4))" by (simp add: s1_def jp_out_def)
  have len: "length (elem_text D ?i x) + length (concat (map (elem_text D ?i) xs)) < lb_len (jsop_buf s)"
    using Cons.prems(2) by simp
  then have "length (js_pretty D (?i + 4) x) < lb_len (jsop_buf s1)" by (simp add: b1 bsnprintf_room elem_text_def [of D _ x])
  moreover have "lb_len (jsop_buf s1) < 2 ^ 64" using Cons.prems(1) by (simp add: b1 bsnprintf_room)
  ultimately obtain s2 where s2: "pv ?v (prop_descend P) s1 = Some (0, s2)"
    "jsop_buf s2 = bsnprintf (jsop_buf s1) (js_pretty D (?i + 4) x)"
    by (rule writes_textD [OF Cons.hyps(1)])
  define s3 where "s3 = jp_out s2 ('','' @ NL)"
  have b3: "jsop_buf s3 = bsnprintf (jsop_buf s) (elem_text D ?i x)"
    by (simp add: s3_def jp_out_def s2(2) b1 bsnprintf_append elem_text_def)
  have step: "on_element (jsobj_print_jsarray_one pv (prop_descend P)) ap (k, w) (Some s) = (0, Some s3)"
    using s2(1) assms(2) len by (simp add: on_element_def jsobj_print_jsarray_one_def i s3_def flip: s1_def)
  have "lb_len (jsop_buf s3) < 2 ^ 64" "length (concat (map (elem_text D ?i) xs)) < lb_len (jsop_buf s3)"
    using Cons.prems(1) len by (simp_all add: b3 bsnprintf_room)
  from Cons.IH [OF this, of "Suc k"] step show ?case by (auto simp: b3 bsnprintf_append)
qed (simp add: bsnprintf_Nil)

lemma values_descend:
  assumes "plain_args (Suc d) P" "list_all2 R ws xs"
    and "\<And>w x P. R w x \<Longrightarrow> plain_args d P \<Longrightarrow> Q w x \<and> writes_text pv (f w) P (js_pretty D (jsop_indent P) (g x))"
  shows "list_all2 (\<lambda>w x. Q w x \<and> writes_text pv (f w) (prop_descend P) (js_pretty D (jsop_indent P + 4) (g x))) ws xs"
proof (rule list_all2_mono [OF assms(2)])
  fix w x assume "R w x"
  from assms(3) [OF this, of "prop_descend P"] plain_descend [OF assms(1)]
  show "Q w x \<and> writes_text pv (f w) (prop_descend P) (js_pretty D (jsop_indent P + 4) (g x))" by simp
qed

lemma object_written:
  assumes "js_target D" "plain_args (Suc d) P" "fast_object D v props"
    and "list_all2 (\<lambda>nw nx. fst nx = fst nw \<and>
      writes_text pv (Some (jsobj_propvalue_addr (snd nw))) (prop_descend P) (js_pretty D (jsop_indent P + 4) (snd nx))) props ps"
    and "lb_len (jsop_buf s) < 2 ^ 64" "length (js_pretty D (jsop_indent P) (JSObj ps)) < lb_len (jsop_buf s)"
  shows "\<exists>s'. jsobj_print_jsobject pv D v P s = Some (0, s') \<and>
    jsop_buf s' = bsnprintf (jsop_buf s) (js_pretty D (jsop_indent P) (JSObj ps))"
proof -
  let ?s = "s\<lparr>jsop_nprops := 0\<rparr>" and ?i = "jsop_indent P"
  let ?t = "(if ps \<noteq> [] then ''{'' else []) @ concat (map (prop_text D ?i) ps)"
  have P: "jsop_member P = None" "jsop_depth P \<noteq> 0" using assms(2) by (auto simp: plain_args_def)
  have pretty: "js_pretty D ?i (JSObj ps) = (if ps = [] then ''{}'' else ?t @ NL @ pad ?i @ ''}'')"
    by (simp add: prop_text_def [abs_def] case_prod_unfold)
  have "length ((if jsop_nprops ?s = 0 \<and> ps \<noteq> [] then ''{'' else []) @ concat (map (prop_text D ?i) ps)) < lb_len (jsop_buf ?s)"
    using assms(6) unfolding pretty by (auto split: if_splits)
  from props_written [OF assms(4) _ _ this] assms(5) obtain s1 where
    s1: "cb_iter (visit (jsobj_print_prop pv P)) (map prop_visit props) (Some ?s) = (0, Some s1)"
      "jsop_nprops s1 = int (length ps)" "jsop_buf s1 = bsnprintf (jsop_buf s) ?t"
    by auto
  obtain p where "jsobj_properties D v (jsobj_print_prop pv P) (Some ?s) (Some (jsop_propinfo s)) = Some (0, Some s1, p)"
    using fast_object_iteration [OF assms(1,3), of "jsobj_print_prop pv P" "Some ?s" "Some (jsop_propinfo s)"] s1(1) by auto
  then show ?thesis unfolding pretty
    using P s1(2,3) by (simp add: jsobj_print_jsobject_def jp_out_def Let_def bsnprintf_append bsnprintf_Nil)
qed

lemma array_written:
  assumes "js_target D" "zalloc_ok D 32 {}" "V8_IS_HEAPOBJECT D v" "plain_args (Suc d) P" "array_of D v ws"
    and "list_all2 (\<lambda>w x. writes_text pv (Some (jsobj_propvalue_addr w)) (prop_descend P) (js_pretty D (jsop_indent P + 4) x)) ws xs"
    and "lb_len (jsop_buf s) < 2 ^ 64" "length (js_pretty D (jsop_indent P) (JSArr xs)) < lb_len (jsop_buf s)"
  shows "\<exists>s'. jsobj_print_jsarray pv D v P s = Some (0, s') \<and>
    jsop_buf s' = bsnprintf (jsop_buf s) (js_pretty D (jsop_indent P) (JSArr xs))"
proof -
  let ?i = "jsop_indent P"
  have P: "jsop_member P = None" "jsop_depth P \<noteq> 0" using assms(4) by (auto simp: plain_args_def)
  have l: "length xs = length ws" using assms(6) by (simp add: list_all2_lengthD)
  obtain ap where ap: "v8array_load D v {} = Some ap" "unat (v8array_length ap) = length ws"
    and it: "ws \<noteq> [] \<longrightarrow> (\<forall>func (st :: jsobj_print_state option). v8array_iter_elements D ap func st =
       Some (cb_iter (on_element func ap) (enumerate 0 ws) st))"
    using array_iteration [where ?'s = "jsobj_print_state option", OF assms(1,2,3,5)] by blast
  note iter = it [rule_format]
  have z: "v8array_length ap = 0 \<longleftrightarrow> ws = []" "v8array_length ap = 1 \<longleftrightarrow> length ws = 1"
    by (simp_all add: word_unat_eq_iff ap(2))
  consider "ws = []" | w x where "ws = [w]" "xs = [x]" | "1 < length ws"
    using l by (cases ws; cases "tl ws"; cases xs) auto
  then show ?thesis
  proof cases
    case 1
    then show ?thesis using P ap(1) z(1) l by (simp add: jsobj_print_jsarray_def jp_out_def)
  next
    case 2
    define s1 where "s1 = jp_out s ''[ ''"
    have w: "writes_text pv (Some (jsobj_propvalue_addr w)) (prop_descend P) (js_pretty D (?i + 4) x)"
      using assms(6) 2 by simp
    obtain s2 where s2: "pv (Some (jsobj_propvalue_addr w)) (prop_descend P) s1 = Some (0, s2)"
      "jsop_buf s2 = bsnprintf (jsop_buf s1) (js_pretty D (?i + 4) x)"
      by (rule writes_textD [OF w, of s1]) (use assms(7,8) 2 in \<open>auto simp: s1_def jp_out_def bsnprintf_room\<close>)
    then show ?thesis using P ap(1) z 2 iter
      by (simp add: jsobj_print_jsarray_def Let_def on_element_def jsobj_print_jsarray_one_def bsnprintf_append
          flip: s1_def) (simp add: s1_def jp_out_def bsnprintf_append)
  next
    case 3
    let ?t = "concat (map (elem_text D ?i) xs)"
    have pretty: "js_pretty D ?i (JSArr xs) = ''['' @ NL @ ?t @ pad ?i @ '']''" using 3 l by (auto simp: elem_text_def [abs_def])
    define s1 where "s1 = jp_out s (''['' @ NL)"
    have b1: "jsop_buf s1 = bsnprintf (jsop_buf s) (''['' @ NL)" by (simp add: s1_def jp_out_def)
    have "lb_len (jsop_buf s1) < 2 ^ 64" "length ?t < lb_len (jsop_buf s1)"
      using assms(7,8) unfolding pretty by (simp_all add: b1 bsnprintf_room)
    from elems_written [OF assms(6) _ this, of ap 0] z(2) 3 obtain s2 where
      "cb_iter (on_element (jsobj_print_jsarray_one pv (prop_descend P)) ap) (enumerate 0 ws) (Some s1) = (0, Some s2)"
      "jsop_buf s2 = bsnprintf (jsop_buf s1) ?t" by auto
    then show ?thesis using P ap(1) z 3 iter unfolding pretty
      by (auto simp: jsobj_print_jsarray_def Let_def s1_def jp_out_def bsnprintf_append)
  qed
qed

text \<open>The dispatch on the class of an object.\<close>

lemma object_dispatch:
  assumes "js_target D" "object_of D v klass" "plain_args d P"
  shows "jsobj_print_value D (Some (jsobj_propvalue_addr v)) P s = print_by_klass (jsobj_print_value D) D klass v P s"
proof -
  from assms(2) obtain type where t: "V8_IS_HEAPOBJECT D v" "read_typebyte D v = Some type"
    "\<not> V8_TYPE_STRING D type" "\<not> is_type D type V8_TYPE_MUTABLEHEAPNUMBER"
    "enum_lookup_str NTYPES (v8_types D) (ucast type) (Some ''<unknown>'') = Some (Some klass)"
    unfolding object_of_def by blast
  have "\<not> V8_IS_SMI D v" using smi_not_heapobject [OF js_targetD(5) [OF assms(1)]] t(1) by blast
  then show ?thesis using assms(3) t
    by (subst jsobj_print_value.simps)
      (simp add: plain_args_def print_prefix_def jsobj_propvalue_addr_def print_klass_def Let_def)
qed

lemma string_dispatch:
  assumes "js_target D" "V8_IS_HEAPOBJECT D v" "string_text D v cs n" "plain_args d P"
  shows "jsobj_print_value D (Some (jsobj_propvalue_addr v)) P s = jp_write s (print_string D v 0 (jsop_buf s))"
proof -
  obtain type where t: "read_typebyte D v = Some type" "V8_TYPE_STRING D type"
    using assms(3) by cases (auto simp: string_object_def)
  have "\<not> V8_IS_SMI D v" using smi_not_heapobject [OF js_targetD(5) [OF assms(1)]] assms(2) by blast
  then show ?thesis using assms(2,4) t
    by (subst jsobj_print_value.simps)
      (simp add: plain_args_def print_prefix_def jsobj_propvalue_addr_def Let_def)
qed

lemma print_string_whole:
  assumes "jsstr_print D v JSSTR_QUOTED b = Some (rv, bsnprintf b y, out)"
  shows "print_string D v 0 b = Some (rv, bsnprintf b y)"
  using assms by (simp add: print_string_def bsnprintf_room Let_def)

lemma value_written:
  assumes "js_target D" "zalloc_ok D 32 {}" "js_value D d v x" "plain_args d P"
  shows "writes_text (jsobj_print_value D) (Some (jsobj_propvalue_addr v)) P (js_pretty D (jsop_indent P) x)"
  using assms(3,4)
proof (induction arbitrary: P)
  case (js_int v d)
  then show ?case
    by (auto simp: writes_text_def plain_args_def jsobj_print_value.simps print_prefix_def Let_def jp_out_def fmt_d_def
        jsobj_propvalue_addr_def)
next
  case (js_str v cs n d)
  show ?case unfolding writes_text_def
  proof (intro allI impI)
    fix s :: jsobj_print_state
    assume b: "length (js_pretty D (jsop_indent P) (JSStr cs)) < lb_len (jsop_buf s)" "lb_len (jsop_buf s) < 2 ^ 64"
    then obtain out where
      "jsstr_print D v JSSTR_QUOTED (jsop_buf s) = Some (0, bsnprintf (jsop_buf s) (quoted (escaped_all MSF_ASCIIONLY cs)), out)"
      using jsstr_print_quoted [OF assms(1) js_str.hyps(2,3)] by auto
    from print_string_whole [OF this] string_dispatch [OF assms(1) js_str.hyps(1,2) js_str.prems]
    show "\<exists>s'. jsobj_print_value D (Some (jsobj_propvalue_addr v)) P s = Some (0, s') \<and>
        jsop_buf s' = bsnprintf (jsop_buf s) (js_pretty D (jsop_indent P) (JSStr cs))"
      by (simp add: jp_write_def)
  qed
next
  case (js_num v b d)
  then show ?case using object_dispatch [OF assms(1)]
    by (auto simp: writes_text_def print_by_klass_def jp_write_def jsobj_print_number_def jsobj_print_double_def double_text_def)
next
  case (js_odd v p cs n d)
  show ?case unfolding writes_text_def
  proof (intro allI impI)
    fix s :: jsobj_print_state
    assume b: "length (js_pretty D (jsop_indent P) (JSOdd cs)) < lb_len (jsop_buf s)" "lb_len (jsop_buf s) < 2 ^ 64"
    then obtain out where
      "jsstr_print D p JSSTR_NUDE (jsop_buf s) = Some (0, bsnprintf (jsop_buf s) (escaped_all MSF_ASCIIONLY cs), out)"
      using jsstr_print_nude [OF assms(1) js_odd.hyps(3,4)] by auto
    with js_odd.hyps(2) object_dispatch [OF assms(1) js_odd.hyps(1) js_odd.prems]
    show "\<exists>s'. jsobj_print_value D (Some (jsobj_propvalue_addr v)) P s = Some (0, s') \<and>
        jsop_buf s' = bsnprintf (jsop_buf s) (js_pretty D (jsop_indent P) (JSOdd cs))"
      by (simp add: jp_write_def print_by_klass_def jsobj_print_oddball_def)
  qed
next
  case (js_typed v w d)
  then show ?case using object_dispatch [OF assms(1)]
    by (auto simp: writes_text_def print_by_klass_def jp_write_def jsobj_print_jstyped_array_def bsnprintf_append fmt_d_def)
next
  case (js_bound v d)
  then show ?case using object_dispatch [OF assms(1)]
    by (auto simp: writes_text_def print_by_klass_def jp_write_def jsobj_print_jsboundfunction_def)
next
  case (js_regexp v p w0 w1 ws cs n d)
  show ?case unfolding writes_text_def
  proof (intro allI impI)
    fix s :: jsobj_print_state
    let ?b = "bsnprintf (jsop_buf s) ''JSRegExp: ''"
    assume b: "length (js_pretty D (jsop_indent P) (JSRegExp cs)) < lb_len (jsop_buf s)" "lb_len (jsop_buf s) < 2 ^ 64"
    then have "length (quoted (escaped_all MSF_ASCIIONLY cs)) < lb_len ?b" "lb_len ?b < 2 ^ 64"
      by (simp_all add: bsnprintf_room less_diff_conv)
    from jsstr_print_quoted [OF assms(1) js_regexp.hyps(5,6) this] obtain out where
      "jsstr_print D w1 JSSTR_QUOTED ?b = Some (0, bsnprintf ?b (quoted (escaped_all MSF_ASCIIONLY cs)), out)" by blast
    with js_regexp.hyps(2-4) object_dispatch [OF assms(1) js_regexp.hyps(1) js_regexp.prems]
    show "\<exists>s'. jsobj_print_value D (Some (jsobj_propvalue_addr v)) P s = Some (0, s') \<and>
        jsop_buf s' = bsnprintf (jsop_buf s) (js_pretty D (jsop_indent P) (JSRegExp cs))"
      by (simp add: jp_write_def print_by_klass_def jsobj_print_jsregexp_def bsnprintf_append)
  qed
next
  case (js_cut v klass)
  then show ?case using object_dispatch [OF assms(1)]
    by (auto simp: writes_text_def print_by_klass_def jsobj_print_jsobject_def jsobj_print_jsarray_def plain_args_def
        unat_eq_0 jp_out_def)
next
  case (js_obj v props d ps)
  have parts: "list_all2 (\<lambda>nw nx. fst nx = fst nw \<and> writes_text (jsobj_print_value D) (Some (jsobj_propvalue_addr (snd nw)))
      (prop_descend P) (js_pretty D (jsop_indent P + 4) (snd nx))) props ps"
    by (rule values_descend [OF js_obj.prems js_obj.IH]) blast
  show ?case unfolding writes_text_def
  proof (intro allI impI)
    fix s :: jsobj_print_state
    assume b: "length (js_pretty D (jsop_indent P) (JSObj ps)) < lb_len (jsop_buf s)" "lb_len (jsop_buf s) < 2 ^ 64"
    let ?s = "s\<lparr>jsop_descended := True\<rparr>"
    have "\<exists>s'. jsobj_print_jsobject (jsobj_print_value D) D v P ?s = Some (0, s') \<and>
        jsop_buf s' = bsnprintf (jsop_buf ?s) (js_pretty D (jsop_indent P) (JSObj ps))"
      by (rule object_written [OF assms(1) js_obj.prems js_obj.hyps(2) parts]) (use b in simp_all)
    then show "\<exists>s'. jsobj_print_value D (Some (jsobj_propvalue_addr v)) P s = Some (0, s') \<and>
        jsop_buf s' = bsnprintf (jsop_buf s) (js_pretty D (jsop_indent P) (JSObj ps))"
      using object_dispatch [OF assms(1) js_obj.hyps(1) js_obj.prems] by (simp add: print_by_klass_def Let_def)
  qed
next
  case (js_arr v ws d xs)
  have parts: "list_all2 (\<lambda>w x. writes_text (jsobj_print_value D) (Some (jsobj_propvalue_addr w))
      (prop_descend P) (js_pretty D (jsop_indent P + 4) x)) ws xs"
    using values_descend [OF js_arr.prems js_arr.IH, of "\<lambda>_ _. True"] by simp
  have h: "V8_IS_HEAPOBJECT D v" using js_arr.hyps(1) by (simp add: object_of_def)
  show ?case unfolding writes_text_def
  proof (intro allI impI)
    fix s :: jsobj_print_state
    assume b: "length (js_pretty D (jsop_indent P) (JSArr xs)) < lb_len (jsop_buf s)" "lb_len (jsop_buf s) < 2 ^ 64"
    let ?s = "s\<lparr>jsop_descended := True\<rparr>"
    have "\<exists>s'. jsobj_print_jsarray (jsobj_print_value D) D v P ?s = Some (0, s') \<and>
        jsop_buf s' = bsnprintf (jsop_buf ?s) (js_pretty D (jsop_indent P) (JSArr xs))"
      by (rule array_written [OF assms(1,2) h js_arr.prems js_arr.hyps(2) parts]) (use b in simp_all)
    then show "\<exists>s'. jsobj_print_value D (Some (jsobj_propvalue_addr v)) P s = Some (0, s') \<and>
        jsop_buf s' = bsnprintf (jsop_buf s) (js_pretty D (jsop_indent P) (JSArr xs))"
      using object_dispatch [OF assms(1) js_arr.hyps(1) js_arr.prems] by (simp add: print_by_klass_def Let_def)
  qed
qed

text \<open>Numbers are printed into any buffer; what does not fit is cut off.\<close>

definition int_prop_text :: "v8dbg \<Rightarrow> int \<Rightarrow> 16 word list \<times> uptr \<Rightarrow> string" where
  "int_prop_text D i p = NL @ pad (i + 4) @ quoted (js_name (fst p)) @ '': '' @
     show_int (sint (ucast (V8_SMI_VALUE D (snd p)) :: 32 word)) @ '',''"

lemma int_props_written:
  assumes "plain_args (Suc d) P" "\<forall>p\<in>set props. V8_IS_SMI D (snd p)" "0 \<le> jsop_nprops s"
  shows "\<exists>s'. cb_iter (visit (jsobj_print_prop (jsobj_print_value D) P)) (map prop_visit props) (Some s) = (0, Some s') \<and>
    jsop_nprops s' = jsop_nprops s + int (length props) \<and>
    jsop_buf s' = bsnprintf (jsop_buf s)
      ((if jsop_nprops s = 0 \<and> props \<noteq> [] then ''{'' else []) @ concat (map (int_prop_text D (jsop_indent P)) props))"
  using assms(2,3)
proof (induction props arbitrary: s)
  case (Cons p props)
  let ?i = "jsop_indent P"
  have Q: "plain_args d (prop_descend P)" using plain_descend [OF assms(1)] by blast
  let ?open = "if jsop_nprops s = 0 then ''{'' else []"
  define s3 where "s3 = s\<lparr>jsop_buf := bsnprintf (jsop_buf s) (?open @ int_prop_text D ?i p), jsop_nprops := jsop_nprops s + 1\<rparr>"
  have "jsobj_print_value D (Some (jsobj_propvalue_addr (snd p))) (prop_descend P) t =
      Some (0, jp_out t (show_int (sint (ucast (V8_SMI_VALUE D (snd p)) :: 32 word))))" for t
    using Cons.prems(1) Q
    by (simp add: jsobj_print_value.simps plain_args_def print_prefix_def jsobj_propvalue_addr_def fmt_d_def Let_def)
  then have "visit (jsobj_print_prop (jsobj_print_value D) P) (prop_visit p) (Some s) = (0, Some s3)"
    by (simp add: visit_def prop_visit_def jsobj_print_prop_def jp_out_def bsnprintf_append s3_def int_prop_text_def
        quoted_def js_name_def)
  moreover have "0 \<le> jsop_nprops s3" "jsop_nprops s3 \<noteq> 0" using Cons.prems(2) by (simp_all add: s3_def)
  ultimately show ?case
    using Cons.IH [of s3] Cons.prems by (auto simp: s3_def bsnprintf_append)
qed (simp add: bsnprintf_Nil)

section \<open>Properties\<close>

text \<open>
  C1. \<^verbatim>\<open>::jsprint\<close> prints JavaScript values. Where a word of the target is a value with the tree
  \<open>x\<close> down to the depth that is asked for (2 without \<^verbatim>\<open>-d\<close>), and the text of the tree fits the
  first buffer, the command succeeds and prints exactly that text and a newline: numbers,
  strings, objects with their properties indented by their nesting, arrays, and \<open>[...]\<close> for
  what lies deeper. A value that contains itself is a value to every depth.
\<close>

theorem jsprint_prints_value:
  assumes "js_target D" and "zalloc_ok D 32 {}" and "zalloc_ok D 262144 {}"
    and "js_value D (unat (case depth of None \<Rightarrow> 2 | Some w \<Rightarrow> w)) v x"
    and "length (js_pretty D 0 x) < 262144"
  shows "dcmd_jsprint D v False False depth 0 False [] =
    Some (DCMD_OK, [takeWhile (\<lambda>c. c \<noteq> NUL) (js_pretty D 0 x), NL])"
proof -
  define P where "P = \<lparr>jsop_indent = 0, jsop_depth = (case depth of None \<Rightarrow> 2 | Some w \<Rightarrow> w), jsop_printaddr = False,
    jsop_baseaddr = 0, jsop_member = None, jsop_maxstrlen = 0\<rparr>"
  define s0 where "s0 = \<lparr>jsop_buf = \<lparr>lb_text = [], lb_len = 0\<rparr>, jsop_nprops = 0, jsop_found = False,
    jsop_descended = False, jsop_propinfo = 0\<rparr>"
  let ?s = "s0\<lparr>jsop_buf := \<lparr>lb_text = [], lb_len = 262144\<rparr>\<rparr>"
  have P: "plain_args (unat (case depth of None \<Rightarrow> 2 | Some w \<Rightarrow> w)) P" by (simp add: plain_args_def P_def)
  have ind: "jsop_indent P = 0" by (simp add: P_def)
  have fits: "length (js_pretty D 0 x) < lb_len (jsop_buf ?s)" "lb_len (jsop_buf ?s) < 2 ^ 64" using assms(5) by simp_all
  obtain s' where s': "jsobj_print_value D (Some (jsobj_propvalue_addr v)) P ?s = Some (0, s')"
    "jsop_buf s' = bsnprintf (jsop_buf ?s) (js_pretty D 0 x)"
    by (rule writes_textD [OF value_written [OF assms(1,2,4) P, unfolded ind] fits])
  then have len: "0 < lb_len (jsop_buf s')" and cstr: "lbuf_cstr (jsop_buf s') = takeWhile (\<lambda>c. c \<noteq> NUL) (js_pretty D 0 x)"
    using assms(5) by (simp_all add: bsnprintf_room bsnprintf_content lbuf_cstr_def)
  have "jsprint_attempts D v P s0 262144 262144 = Some (Some (0, s', 262144))"
    using s'(1) len assms(3) by (subst jsprint_attempts.simps) (simp add: jsobj_print_def)
  then have "jsprint_members D v [] P s0 262144 262144 = Some (DCMD_OK, s'\<lparr>jsop_found := False\<rparr>,
      [takeWhile (\<lambda>c. c \<noteq> NUL) (js_pretty D 0 x), NL])"
    by (simp add: jsprint_round_def jsprint_output_def P_def cstr)
  then show ?thesis by (simp add: dcmd_jsprint_def P_def s0_def del: jsprint_members.simps)
qed

text \<open>The object with two properties, printed.\<close>

lemma object_class: "object_of (sample_dbg object_words) 4097 ''JSObject''"
  unfolding object_of_def
  by (simp add: V8_IS_HEAPOBJECT_def sample_typebyte sample_values_def object_words_def V8_TYPE_STRING_def is_type_def
      sample_types NTYPES_def)

lemma object_int: "V8_IS_SMI (sample_dbg object_words) (push_bit 32 11)"
    "V8_SMI_VALUE (sample_dbg object_words) (push_bit 32 11) = 11"
  using smi_shift_amd64 [OF sample_tags, of object_words]
  by (simp_all add: V8_SMI_VALUE_def V8_IS_SMI_def sample_values_def push_bit_eq_mult drop_bit_eq_div)

lemma object_string: "V8_IS_HEAPOBJECT (sample_dbg object_words) 4161"
  by (simp add: V8_IS_HEAPOBJECT_def sample_values_def)

lemma hi_text: "escaped 104 MSF_ASCIIONLY = ''h''" "escaped 105 MSF_ASCIIONLY = ''i''"
  by (simp_all add: escaped_ascii_plain char_of_def bit_simps)

lemma jsprint_prints_value_witness:
  "dcmd_jsprint (sample_dbg object_words) 4097 False False None 0 False [] =
     Some (0, [''{'' @ NL @ ''    '' @ quoted ''hi'' @ '': 11,'' @ NL @ ''    '' @ quoted ''hihi'' @ '': '' @
       quoted ''hi'' @ '','' @ NL @ ''}'', NL])"
proof -
  let ?D = "sample_dbg object_words" and ?x = "JSObj [([104, 105], JSInt 11), ([104, 105, 104, 105], JSStr [104, 105])]"
  have vals: "js_value ?D 1 (push_bit 32 11) (JSInt 11)" "js_value ?D 1 4161 (JSStr [104, 105])"
    using js_int [OF object_int(1), of 1] object_int(2) js_str [OF object_string object_keys(1), of 1] by simp_all
  have two: "unat (case None of None \<Rightarrow> 2 | Some w \<Rightarrow> (w :: uptr)) = Suc 1" by simp
  have val: "js_value ?D (unat (case None of None \<Rightarrow> 2 | Some w \<Rightarrow> (w :: uptr))) 4097 ?x"
    unfolding two by (rule js_obj [OF object_class object_fast]) (use vals in \<open>simp add: object_props_def\<close>)
  have "pad 4 = ''    ''" by (simp add: pad_def numeral_eq_Suc)
  moreover have "show_int 11 = ''11''" by (simp add: show_int_def digits_of.simps digit_char_def char_of_def bit_simps)
  ultimately have pretty: "js_pretty ?D 0 ?x = ''{'' @ NL @ ''    '' @ quoted ''hi'' @ '': 11,'' @ NL @ ''    '' @
      quoted ''hihi'' @ '': '' @ quoted ''hi'' @ '','' @ NL @ ''}''"
    by (simp add: js_name_def pad_def [of 0] NUL_def escaped_all_def hi_text)
  show ?thesis
    using jsprint_prints_value [OF object_target _ _ val] unfolding pretty by (simp add: quoted_def NL_def NUL_def DCMD_OK_def)
qed

text \<open>
  C15. When the buffer is used up, printing a string writes past its end. For an object in fast
  mode whose first properties are numbers and the next a string, printed with a buffer that
  the text before the string fills, the printer has no defined result: \<open>bsnprintf\<close> leaves a
  length of 0, and the string printer then terminates the empty buffer behind its last byte.
  \<^verbatim>\<open>::jsprint\<close> retries with a larger buffer only after that.
\<close>

theorem string_past_full_buffer:
  assumes "js_target D" and "object_of D v ''JSObject''" and "fast_object D v (pre @ (name, w) # post)"
    and "\<forall>p\<in>set pre. V8_IS_SMI D (snd p)" and "V8_IS_HEAPOBJECT D w" and "string_text D w cs n"
    and "plain_args (Suc d) P"
    and "lb_len (jsop_buf s) \<le> length (''{'' @ concat (map (int_prop_text D (jsop_indent P)) pre) @
           NL @ pad (jsop_indent P + 4) @ quoted (js_name name) @ '': '')"
  shows "jsobj_print_value D (Some (jsobj_propvalue_addr v)) P s = None"
proof -
  let ?i = "jsop_indent P" and ?pv = "jsobj_print_value D"
  let ?s = "s\<lparr>jsop_descended := True, jsop_nprops := 0\<rparr>"
  have P: "jsop_member P = None" "jsop_depth P \<noteq> 0" using assms(7) by (auto simp: plain_args_def)
  have Q: "plain_args d (prop_descend P)" using plain_descend [OF assms(7)] by blast
  obtain s1 where s1: "cb_iter (visit (jsobj_print_prop ?pv P)) (map prop_visit pre) (Some ?s) = (0, Some s1)"
    "jsop_nprops s1 = int (length pre)"
    "jsop_buf s1 = bsnprintf (jsop_buf s) ((if pre = [] then [] else ''{'') @ concat (map (int_prop_text D ?i) pre))"
    using int_props_written [OF assms(7,4), of ?s] by auto
  define s2 where "s2 = jp_out s1 ((if jsop_nprops s1 = 0 then ''{'' else []) @ NL @ pad (?i + 4) @
    [CHR 0x22] @ js_name name @ [CHR 0x22] @ '': '')"
  have "lb_len (jsop_buf s2) = 0"
    using assms(8) s1(2) by (cases "pre = []") (simp_all add: s2_def jp_out_def s1(3) bsnprintf_room quoted_def)
  then have "print_string D w 0 (jsop_buf s2) = None"
    by (simp add: print_string_def jsstr_print_def legacy_init_empty)
  then have "?pv (Some (jsobj_propvalue_addr w)) (prop_descend P) s2 = None"
    by (simp add: string_dispatch [OF assms(1,5,6) Q] jp_write_def)
  then have "visit (jsobj_print_prop ?pv P) (prop_visit (name, w)) (Some s1) = (- 1, None)"
    by (cases "jsop_nprops s1 = 0")
      (simp_all add: visit_def prop_visit_def jsobj_print_prop_def s2_def Let_def flip: js_name_def)
  then have "cb_iter (visit (jsobj_print_prop ?pv P)) (map prop_visit (pre @ (name, w) # post)) (Some ?s) = (- 1, None)"
    using s1(1) by (simp add: cb_iter_append)
  then obtain p where "jsobj_properties D v (jsobj_print_prop ?pv P) (Some ?s) (Some (jsop_propinfo s)) = Some (- 1, None, p)"
    using fast_object_iteration [OF assms(1,3), of "jsobj_print_prop ?pv P" "Some ?s" "Some (jsop_propinfo s)"] by auto
  then show ?thesis
    using P by (simp add: object_dispatch [OF assms(1,2,7)] print_by_klass_def jsobj_print_jsobject_def)
qed

lemma string_past_full_buffer_witness:
  "jsobj_print_value (sample_dbg object_words) (Some (jsobj_propvalue_addr 4097))
     \<lparr>jsop_indent = 0, jsop_depth = 2, jsop_printaddr = False, jsop_baseaddr = 0, jsop_member = None, jsop_maxstrlen = 0\<rparr>
     \<lparr>jsop_buf = \<lparr>lb_text = [], lb_len = 16\<rparr>, jsop_nprops = 0, jsop_found = False, jsop_descended = False,
      jsop_propinfo = 0\<rparr> = None"
proof -
  have quot: "length (quoted s) = length s + 2" for s by (simp add: quoted_def)
  have digits: "show_int 11 = ''11''" by (simp add: show_int_def digits_of.simps digit_char_def char_of_def bit_simps)
  show ?thesis
    by (rule string_past_full_buffer [OF object_target object_class, where d = 1 and pre = "[([104, 105], push_bit 32 11)]"
          and name = "[104, 105, 104, 105]" and w = 4161 and post = "[]", OF _ _ object_string object_keys(1)])
      (use object_fast object_int in
        \<open>simp_all add: object_props_def plain_args_def quot digits js_name_def hi_text escaped_all_def NUL_def int_prop_text_def\<close>)
qed

end
