(* ===== verification/FindObjects.thy ===== *)
theory FindObjects
  imports Ugrep JsPrint
begin

text \<open>
  The heap scan of \<^verbatim>\<open>::findjsobjects\<close> (\<^verbatim>\<open>src/src/mdb_v8.c\<close>): every address of
  every anonymous mapping that is tagged as a heap object is looked at, and what turns out to
  be an object or an array is grouped with the objects that have the same property names,
  number of properties and constructor; functions are grouped by the code they share.

  An AVL tree of libavl is given by the list of its nodes, newest first; \<^verbatim>\<open>avl_find\<close> on
  it, \<^verbatim>\<open>qsort\<close> and the bytes that follow the scan's buffer in the debugger's own memory
  are parameters. The lists chained through \<^verbatim>\<open>fjso_next\<close>, \<^verbatim>\<open>fjsp_next\<close>,
  \<^verbatim>\<open>fjsi_next\<close>, \<^verbatim>\<open>fjsr_next\<close> and \<^verbatim>\<open>fjsrf_next\<close> are lists. The counters
  of type \<open>int\<close> count what fits in the target's memory and are not wrapped.
\<close>

section \<open>State\<close>

record findjsobjects_instance =
  fjsi_addr :: uptr
  fjsi_next :: "uptr list"

text \<open>The address of an instance and those of the ones chained behind it.\<close>

definition instance_list :: "findjsobjects_instance \<Rightarrow> uptr list" where
  "instance_list inst = fjsi_addr inst # fjsi_next inst"

definition instance_add :: "uptr \<Rightarrow> findjsobjects_instance \<Rightarrow> findjsobjects_instance" where
  "instance_add addr inst = inst\<lparr>fjsi_next := addr # fjsi_next inst\<rparr>"

record findjsobjects_obj =
  fjso_props :: "string list"
  fjso_propinfo :: jspropinfo
  fjso_nprops :: uptr
  fjso_instances :: findjsobjects_instance
  fjso_ninstances :: int
  fjso_malformed :: bool
  fjso_constructor :: string

record findjsobjects_func =
  fjsf_instances :: findjsobjects_instance
  fjsf_ninstances :: int
  fjsf_shared :: uptr
  fjsf_funcname :: string
  fjsf_scriptname :: string
  fjsf_location :: string

record findjsobjects_stats =
  fjss_heapobjs :: int
  fjss_cached :: int
  fjss_typereads :: int
  fjss_jsobjs :: int
  fjss_objects :: int
  fjss_garbage :: int
  fjss_arrays :: int
  fjss_uniques :: int
  fjss_funcs :: int
  fjss_funcs_skipped :: int
  fjss_funcs_unique :: int

record findjsobjects_reference =
  fjsrf_addr :: uptr
  fjsrf_desc :: "string option"
  fjsrf_index :: uptr

record findjsobjects_referent =
  fjsr_addr :: uptr
  fjsr_refs :: "findjsobjects_reference list"

text \<open>The trees hold what the lists of objects, functions and referents hold.\<close>

record findjsobjects_state =
  fjs_addr :: uptr
  fjs_verbose :: bool
  fjs_brk :: bool
  fjs_allobjs :: bool
  fjs_initialized :: bool
  fjs_marking :: bool
  fjs_finished :: bool
  fjs_referents :: "findjsobjects_referent list"
  fjs_objects :: "findjsobjects_obj list"
  fjs_funcs :: "findjsobjects_func list"
  fjs_stats :: findjsobjects_stats

definition stats_zero :: findjsobjects_stats where
  "stats_zero = \<lparr>fjss_heapobjs = 0, fjss_cached = 0, fjss_typereads = 0, fjss_jsobjs = 0, fjss_objects = 0,
     fjss_garbage = 0, fjss_arrays = 0, fjss_uniques = 0, fjss_funcs = 0, fjss_funcs_skipped = 0,
     fjss_funcs_unique = 0\<rparr>"

text \<open>The state before the first run: a static variable.\<close>

definition findjsobjects_state :: findjsobjects_state where
  "findjsobjects_state = \<lparr>fjs_addr = 0, fjs_verbose = False, fjs_brk = False, fjs_allobjs = False,
     fjs_initialized = False, fjs_marking = False, fjs_finished = False, fjs_referents = [],
     fjs_objects = [], fjs_funcs = [], fjs_stats = stats_zero\<rparr>"

text \<open>The libraries, and the time a run takes.\<close>

record fjs_env =
  avl_find_obj :: "(findjsobjects_obj \<Rightarrow> findjsobjects_obj \<Rightarrow> int) \<Rightarrow> findjsobjects_obj list \<Rightarrow> findjsobjects_obj \<Rightarrow> nat option"
  avl_find_func :: "(findjsobjects_func \<Rightarrow> findjsobjects_func \<Rightarrow> int) \<Rightarrow> findjsobjects_func list \<Rightarrow> findjsobjects_func \<Rightarrow> nat option"
  avl_find_referent :: "(findjsobjects_referent \<Rightarrow> findjsobjects_referent \<Rightarrow> int) \<Rightarrow> findjsobjects_referent list \<Rightarrow> findjsobjects_referent \<Rightarrow> nat option"
  qsort_objs :: "(findjsobjects_obj \<Rightarrow> findjsobjects_obj \<Rightarrow> int) \<Rightarrow> findjsobjects_obj list \<Rightarrow> findjsobjects_obj list"
  after_range :: "uptr \<Rightarrow> byte list"
  run_elapsed :: int

section \<open>Comparisons\<close>

fun props_cmp :: "string list \<Rightarrow> string list \<Rightarrow> int" where
  "props_cmp (l # ls) (r # rs) =
     (let rv = strcmp l r in
      if rv \<noteq> 0 then (if rv > 0 then 1 else - 1) else props_cmp ls rs)"
| "props_cmp (l # ls) [] = 1"
| "props_cmp [] (r # rs) = - 1"
| "props_cmp [] [] = 0"

definition findjsobjects_cmp :: "findjsobjects_obj \<Rightarrow> findjsobjects_obj \<Rightarrow> int" where
  "findjsobjects_cmp lhs rhs =
     (if fjso_malformed lhs \<noteq> fjso_malformed rhs then (if fjso_malformed lhs then - 1 else 1)
      else let pc = props_cmp (fjso_props lhs) (fjso_props rhs) in
        if pc \<noteq> 0 then pc
        else if fjso_nprops lhs > fjso_nprops rhs then 1
        else if fjso_nprops lhs < fjso_nprops rhs then - 1
        else let rv = strcmp (fjso_constructor lhs) (fjso_constructor rhs) in
          if rv < 0 then - 1 else if rv > 0 then 1 else 0)"

definition findjsobjects_cmp_funcinfo :: "findjsobjects_func \<Rightarrow> findjsobjects_func \<Rightarrow> int" where
  "findjsobjects_cmp_funcinfo lhs rhs =
     (let diff = sint (ucast (fjsf_shared lhs - fjsf_shared rhs) :: 32 word) in
      if diff < 0 then - 1 else if diff > 0 then 1 else 0)"

definition findjsobjects_cmp_referents :: "findjsobjects_referent \<Rightarrow> findjsobjects_referent \<Rightarrow> int" where
  "findjsobjects_cmp_referents lhs rhs =
     (if fjsr_addr lhs < fjsr_addr rhs then - 1
      else if fjsr_addr lhs > fjsr_addr rhs then 1 else 0)"

definition findjsobjects_cmp_ninstances :: "findjsobjects_obj \<Rightarrow> findjsobjects_obj \<Rightarrow> int" where
  "findjsobjects_cmp_ninstances lhs rhs =
     (let lprod = of_int (fjso_ninstances lhs) * fjso_nprops lhs;
          rprod = of_int (fjso_ninstances rhs) * fjso_nprops rhs
      in if lprod < rprod then - 1
         else if lprod > rprod then 1
         else if fjso_ninstances lhs < fjso_ninstances rhs then - 1
         else if fjso_ninstances lhs > fjso_ninstances rhs then 1
         else if fjso_nprops lhs < fjso_nprops rhs then - 1
         else if fjso_nprops lhs > fjso_nprops rhs then 1
         else 0)"

section \<open>Objects\<close>

definition findjsobjects_alloc :: "uptr \<Rightarrow> findjsobjects_obj" where
  "findjsobjects_alloc addr =
     \<lparr>fjso_props = [], fjso_propinfo = 0, fjso_nprops = 0,
      fjso_instances = \<lparr>fjsi_addr = addr, fjsi_next = []\<rparr>, fjso_ninstances = 1,
      fjso_malformed = False, fjso_constructor = []\<rparr>"

text \<open>The callback for each property; its state is \<open>fjs_current\<close>.\<close>

definition findjsobjects_prop ::
    "string option \<Rightarrow> v8propvalue option \<Rightarrow> findjsobjects_obj \<Rightarrow> int \<times> findjsobjects_obj" where
  "findjsobjects_prop descp val current =
     (let desc = (case descp of None \<Rightarrow> ''<unknown>'' | Some desc \<Rightarrow> desc);
          nprops = fjso_nprops current + 1
      in (0, current\<lparr>fjso_props := fjso_props current @ [desc], fjso_nprops := nprops,
                     fjso_malformed := (val = None \<and> nprops = 1 \<and> has_prefix ''<'' desc)\<rparr>))"

definition findjsobjects_constructor :: "v8dbg \<Rightarrow> findjsobjects_obj \<Rightarrow> findjsobjects_obj option" where
  "findjsobjects_constructor D obj =
     (case read_heap_ptr D (fjsi_addr (fjso_instances obj)) (gv D V8_OFF_HEAPOBJECT_MAP) of
        None \<Rightarrow> Some obj
      | Some mapp \<Rightarrow>
          (case get_map_constructor D mapp of
             None \<Rightarrow> None
           | Some None \<Rightarrow> Some obj
           | Some (Some addr) \<Rightarrow>
               (case read_typebyte D addr of
                  None \<Rightarrow> Some obj
                | Some type \<Rightarrow>
                    if \<not> is_type D type V8_TYPE_JSFUNCTION then Some obj
                    else (case read_heap_ptr D addr (gv D V8_OFF_JSFUNCTION_SHARED) of
                       None \<Rightarrow> Some obj
                     | Some funcinfop \<Rightarrow> do {
                         (_, b, _) \<leftarrow> jsfunc_name D funcinfop \<lparr>lb_text = [], lb_len = 80\<rparr>;
                         Some (obj\<lparr>fjso_constructor := lbuf_cstr b\<rparr>)
                       }))))"

text \<open>\<open>Some None\<close>: the object is freed and skipped.\<close>

definition findjsobjects_object ::
    "v8dbg \<Rightarrow> findjsobjects_obj \<Rightarrow> findjsobjects_stats \<Rightarrow> (findjsobjects_obj option \<times> findjsobjects_stats) option" where
  "findjsobjects_object D obj stats = do {
     (rv, obj, propinfo) \<leftarrow> jsobj_properties D (fjsi_addr (fjso_instances obj))
        (\<lambda>desc. findjsobjects_prop (Some desc)) obj (Some (fjso_propinfo obj));
     let obj = obj\<lparr>fjso_propinfo := the propinfo\<rparr>;
     if rv \<noteq> 0 then Some (None, stats)
     else do {
       let (obj, stats) =
         (if fjso_propinfo obj AND JPI_MAYBE_GARBAGE \<noteq> 0
          then (obj\<lparr>fjso_malformed := True\<rparr>, stats\<lparr>fjss_garbage := fjss_garbage stats + 1\<rparr>)
          else (obj, stats));
       obj \<leftarrow> findjsobjects_constructor D obj;
       Some (Some obj, stats\<lparr>fjss_objects := fjss_objects stats + 1\<rparr>)
     }
   }"

definition findjsobjects_array :: "v8dbg \<Rightarrow> uptr \<Rightarrow> findjsobjects_obj \<Rightarrow> findjsobjects_obj option" where
  "findjsobjects_array D addr obj = do {
     nprops \<leftarrow> read_heap_smi D addr (gv D V8_OFF_JSARRAY_LENGTH);
     ptr \<leftarrow> read_heap_ptr D addr (gv D V8_OFF_JSOBJECT_ELEMENTS);
     if \<not> V8_IS_HEAPOBJECT D ptr then None
     else do {
       t \<leftarrow> read_typebyte D ptr;
       if \<not> is_type D t V8_TYPE_FIXEDARRAY then None
       else do {
         nelems \<leftarrow> read_heap_smi D ptr (gv D V8_OFF_FIXEDARRAY_LENGTH);
         if nelems < nprops then None
         else Some (obj\<lparr>fjso_nprops := nprops, fjso_constructor := ''Array''\<rparr>)
       }
     }
   }"

section \<open>Functions\<close>

text \<open>The function at an address; \<open>Some None\<close> where it is skipped.\<close>

definition findjsobjects_jsfunc_load :: "v8dbg \<Rightarrow> uptr \<Rightarrow> findjsobjects_func option option" where
  "findjsobjects_jsfunc_load D addr =
     (case (do {
        funcinfo \<leftarrow> read_heap_ptr D addr (gv D V8_OFF_JSFUNCTION_SHARED);
        script \<leftarrow> read_heap_ptr D funcinfo (gv D V8_OFF_SHAREDFUNCTIONINFO_SCRIPT);
        name \<leftarrow> read_heap_ptr D script (gv D V8_OFF_SCRIPT_NAME);
        Some (funcinfo, name) }) of
        None \<Rightarrow> Some None
      | Some (funcinfo, name) \<Rightarrow> do {
          (err, funcname, _) \<leftarrow> jsfunc_name D funcinfo \<lparr>lb_text = [], lb_len = 40\<rparr>;
          (err', scriptname, _) \<leftarrow> jsstr_print D name JSSTR_NUDE \<lparr>lb_text = [], lb_len = 80\<rparr>;
          Some (if err \<noteq> 0 \<or> err' \<noteq> 0 then None
            else Some \<lparr>fjsf_instances = \<lparr>fjsi_addr = addr, fjsi_next = []\<rparr>, fjsf_ninstances = 1,
              fjsf_shared = funcinfo, fjsf_funcname = lbuf_cstr funcname,
              fjsf_scriptname = lbuf_cstr scriptname, fjsf_location = []\<rparr>)
        })"

definition findjsobjects_jsfunc ::
    "fjs_env \<Rightarrow> v8dbg \<Rightarrow> findjsobjects_state \<Rightarrow> uptr \<Rightarrow> findjsobjects_state option" where
  "findjsobjects_jsfunc E D fjs addr = do {
     let stats = fjs_stats fjs;
     r \<leftarrow> findjsobjects_jsfunc_load D addr;
     Some (case r of
        None \<Rightarrow> fjs\<lparr>fjs_stats := stats\<lparr>fjss_funcs_skipped := fjss_funcs_skipped stats + 1\<rparr>\<rparr>
      | Some func \<Rightarrow>
          let stats = stats\<lparr>fjss_funcs := fjss_funcs stats + 1\<rparr>; funcs = fjs_funcs fjs in
          (case avl_find_func E findjsobjects_cmp_funcinfo funcs func of
             None \<Rightarrow> fjs\<lparr>fjs_funcs := func # funcs,
                         fjs_stats := stats\<lparr>fjss_funcs_unique := fjss_funcs_unique stats + 1\<rparr>\<rparr>
           | Some i \<Rightarrow>
               let ofunc = funcs ! i in
               fjs\<lparr>fjs_funcs := funcs[i := ofunc\<lparr>
                     fjsf_instances := instance_add addr (fjsf_instances ofunc),
                     fjsf_ninstances := fjsf_ninstances ofunc + 1\<rparr>],
                   fjs_stats := stats\<rparr>))
   }"

section \<open>The scan\<close>

text \<open>
  \<open>buf\<close> is the buffer the mapping was read to. The word at an address is fetched from it
  through a pointer; a pointer outside the buffer reads the bytes of \<open>after_range\<close>, and
  \<open>None\<close> is a read behind those.
\<close>

definition range_word :: "byte list \<Rightarrow> uptr \<Rightarrow> uptr option" where
  "range_word buf off =
     (if unat off + 8 \<le> length buf then Some (le_word (take 8 (drop (unat off) buf))) else None)"

text \<open>The type byte of the object at an address, or \<open>None\<close> inside where the loop goes on.\<close>

definition findjsobjects_type ::
    "fjs_env \<Rightarrow> v8dbg \<Rightarrow> byte list \<Rightarrow> uptr \<Rightarrow> uptr \<Rightarrow> uptr \<Rightarrow> findjsobjects_stats \<Rightarrow>
     (byte option \<times> findjsobjects_stats) option" where
  "findjsobjects_type E D buf base sz addr stats =
     (if V8_IS_SMI D addr then Some (None, stats)
      else if \<not> V8_IS_HEAPOBJECT D addr then Some (None, stats)
      else do {
        let stats = stats\<lparr>fjss_heapobjs := fjss_heapobjs stats + 1\<rparr>;
        mapaddr \<leftarrow> range_word (buf @ after_range E base) ((addr - base) + gv D V8_OFF_HEAPOBJECT_MAP);
        if \<not> V8_IS_HEAPOBJECT D mapaddr then Some (None, stats)
        else
          let mapaddr = mapaddr + gv D V8_OFF_MAP_INSTANCE_ATTRIBUTES;
              stats = stats\<lparr>fjss_typereads := fjss_typereads stats + 1\<rparr>
          in if base \<le> mapaddr \<and> mapaddr < base + sz then
               Some (Some (buf ! unat (mapaddr - base)), stats\<lparr>fjss_cached := fjss_cached stats + 1\<rparr>)
             else Some (map_option (\<lambda>bs. ucast (le_word bs)) (mem_vread D mapaddr 1), stats)
      })"

text \<open>The type constants are copied to variables of type \<open>int\<close>.\<close>

definition is_int_type :: "v8dbg \<Rightarrow> byte \<Rightarrow> v8_global \<Rightarrow> bool" where
  "is_int_type D type g \<longleftrightarrow> (ucast type :: 32 word) = ucast (gv D g)"

text \<open>The object at an address of one of the types looked for, with the statistics.\<close>

definition findjsobjects_current ::
    "v8dbg \<Rightarrow> byte \<Rightarrow> uptr \<Rightarrow> findjsobjects_stats \<Rightarrow> (findjsobjects_obj option \<times> findjsobjects_stats) option" where
  "findjsobjects_current D type addr stats =
     (if \<not> is_int_type D type V8_TYPE_JSOBJECT \<and> \<not> is_int_type D type V8_TYPE_JSARRAY \<and>
         \<not> is_int_type D type V8_TYPE_JSTYPEDARRAY
      then Some (None, stats)
      else
        let stats = stats\<lparr>fjss_jsobjs := fjss_jsobjs stats + 1\<rparr>; current = findjsobjects_alloc addr in
        if is_int_type D type V8_TYPE_JSOBJECT \<or> is_int_type D type V8_TYPE_JSTYPEDARRAY
        then findjsobjects_object D current stats
        else Some (case findjsobjects_array D addr current of
           None \<Rightarrow> (None, stats)
         | Some obj \<Rightarrow> (Some obj, stats\<lparr>fjss_arrays := fjss_arrays stats + 1\<rparr>)))"

definition obj_add :: "uptr \<Rightarrow> findjsobjects_obj \<Rightarrow> findjsobjects_obj" where
  "obj_add addr obj = obj\<lparr>fjso_instances := instance_add addr (fjso_instances obj),
     fjso_ninstances := fjso_ninstances obj + 1\<rparr>"

text \<open>An object becomes a new group, or an instance of the group the tree has for it.\<close>

definition objs_enter ::
    "fjs_env \<Rightarrow> uptr \<Rightarrow> findjsobjects_obj \<Rightarrow> findjsobjects_obj list \<Rightarrow> findjsobjects_obj list" where
  "objs_enter E addr current objs =
     (case avl_find_obj E findjsobjects_cmp objs current of
        None \<Rightarrow> current # objs
      | Some i \<Rightarrow> objs[i := obj_add addr (objs ! i)])"

definition findjsobjects_enter ::
    "fjs_env \<Rightarrow> findjsobjects_state \<Rightarrow> uptr \<Rightarrow> findjsobjects_obj \<Rightarrow> findjsobjects_state" where
  "findjsobjects_enter E fjs addr current =
     fjs\<lparr>fjs_objects := objs_enter E addr current (fjs_objects fjs),
         fjs_stats := (case avl_find_obj E findjsobjects_cmp (fjs_objects fjs) current of
            None \<Rightarrow> (fjs_stats fjs)\<lparr>fjss_uniques := fjss_uniques (fjs_stats fjs) + 1\<rparr>
          | Some _ \<Rightarrow> fjs_stats fjs)\<rparr>"

definition findjsobjects_visit ::
    "fjs_env \<Rightarrow> v8dbg \<Rightarrow> byte list \<Rightarrow> uptr \<Rightarrow> uptr \<Rightarrow> uptr \<Rightarrow> findjsobjects_state \<Rightarrow> findjsobjects_state option" where
  "findjsobjects_visit E D buf base sz addr fjs = do {
     (type, stats) \<leftarrow> findjsobjects_type E D buf base sz addr (fjs_stats fjs);
     let fjs = fjs\<lparr>fjs_stats := stats\<rparr>;
     case type of
       None \<Rightarrow> Some fjs
     | Some type \<Rightarrow>
         if is_int_type D type V8_TYPE_JSFUNCTION then findjsobjects_jsfunc E D fjs addr
         else do {
           (current, stats) \<leftarrow> findjsobjects_current D type addr (fjs_stats fjs);
           let fjs = fjs\<lparr>fjs_stats := stats\<rparr>;
           Some (case current of None \<Rightarrow> fjs | Some current \<Rightarrow> findjsobjects_enter E fjs addr current)
         }
   }"

text \<open>The loop over \<open>n\<close> addresses.\<close>

fun findjsobjects_scan ::
    "fjs_env \<Rightarrow> v8dbg \<Rightarrow> byte list \<Rightarrow> uptr \<Rightarrow> uptr \<Rightarrow> nat \<Rightarrow> uptr \<Rightarrow> findjsobjects_state \<Rightarrow> findjsobjects_state option" where
  "findjsobjects_scan E D buf base sz 0 addr fjs = Some fjs"
| "findjsobjects_scan E D buf base sz (Suc n) addr fjs = do {
     fjs \<leftarrow> findjsobjects_visit E D buf base sz addr fjs;
     findjsobjects_scan E D buf base sz n (addr + 1) fjs
   }"

text \<open>The loop runs while \<open>addr < limit\<close>, not at all where the limit wrapped.\<close>

definition findjsobjects_range ::
    "fjs_env \<Rightarrow> v8dbg \<Rightarrow> findjsobjects_state \<Rightarrow> uptr \<Rightarrow> uptr \<Rightarrow> (int \<times> findjsobjects_state) option" where
  "findjsobjects_range E D fjs addr sz =
     (case mem_vread D addr (unat sz) of
        None \<Rightarrow> Some (0, fjs)
      | Some buf \<Rightarrow>
          let limit = addr + sz; n = (if addr < limit then unat (limit - addr) else 0)
          in map_option (Pair 0) (findjsobjects_scan E D buf addr sz n addr fjs))"

text \<open>
  A mapping with \<open>pr_mflags & MA_BREAK\<close>, and the name of the file behind it, if any.
\<close>

record fjs_map = prmap +
  pr_brk :: bool

definition findjsobjects_mapping ::
    "fjs_env \<Rightarrow> v8dbg \<Rightarrow> findjsobjects_state \<Rightarrow> fjs_map \<times> string option \<Rightarrow> (int \<times> findjsobjects_state) option" where
  "findjsobjects_mapping E D fjs pmpn =
     (case pmpn of (pmp, name) \<Rightarrow>
        if name \<noteq> None \<and> \<not> (fjs_brk fjs \<and> pr_brk pmp) then Some (0, fjs)
        else if fjs_addr fjs \<noteq> 0 \<and>
          (fjs_addr fjs < pr_vaddr pmp \<or> pr_vaddr pmp + pr_size pmp \<le> fjs_addr fjs) then Some (0, fjs)
        else findjsobjects_range E D fjs (pr_vaddr pmp) (pr_size pmp))"

definition stats_line :: "string \<Rightarrow> int \<Rightarrow> string" where
  "stats_line s n = ''findjsobjects: '' @ lpad 30 s @ '' => '' @ show_int n @ NL"

definition stats_print :: "fjs_env \<Rightarrow> findjsobjects_stats \<Rightarrow> string list" where
  "stats_print E stats =
     [stats_line ''elapsed time (seconds)'' (run_elapsed E),
      stats_line ''heap objects'' (fjss_heapobjs stats),
      stats_line ''type reads'' (fjss_typereads stats),
      stats_line ''cached reads'' (fjss_cached stats),
      stats_line ''JavaScript objects'' (fjss_jsobjs stats),
      stats_line ''processed objects'' (fjss_objects stats),
      stats_line ''possible garbage'' (fjss_garbage stats),
      stats_line ''processed arrays'' (fjss_arrays stats),
      stats_line ''unique objects'' (fjss_uniques stats),
      stats_line ''functions found'' (fjss_funcs stats),
      stats_line ''unique functions'' (fjss_funcs_unique stats),
      stats_line ''functions skipped'' (fjss_funcs_skipped stats)]"

text \<open>
  \<open>piter\<close> is \<^verbatim>\<open>Pmapping_iter\<close> on the target's process handle, \<open>None\<close> when there is no
  handle. The result, the state and what is printed.
\<close>

type_synonym pmapping_iter =
  "((findjsobjects_state \<Rightarrow> fjs_map \<times> string option \<Rightarrow> (int \<times> findjsobjects_state) option) \<Rightarrow>
    findjsobjects_state \<Rightarrow> (int \<times> findjsobjects_state) option) option"

definition findjsobjects_run ::
    "fjs_env \<Rightarrow> v8dbg \<Rightarrow> pmapping_iter \<Rightarrow> findjsobjects_state \<Rightarrow> (int \<times> findjsobjects_state \<times> string list) option" where
  "findjsobjects_run E D pshandle fjs =
     (let fjs = (if \<not> fjs_initialized fjs
                 then fjs\<lparr>fjs_objects := [], fjs_referents := [], fjs_funcs := [], fjs_initialized := True\<rparr>
                 else fjs)
      in if fjs_objects fjs \<noteq> [] then Some (0, fjs, [])
         else (case pshandle of
            None \<Rightarrow> Some (- 1, fjs, [])
          | Some piter \<Rightarrow> do {
              (rv, fjs) \<leftarrow> piter (findjsobjects_mapping E D) fjs;
              if rv \<noteq> 0 then Some (- 1, fjs, [])
              else
                let fjs = (if fjs_objects fjs \<noteq> []
                           then fjs\<lparr>fjs_objects := qsort_objs E findjsobjects_cmp_ninstances (fjs_objects fjs)\<rparr>
                           else fjs);
                    fjs = fjs\<lparr>fjs_finished := True\<rparr>
                in Some (0, fjs, if fjs_verbose fjs then stats_print E (fjs_stats fjs) else [])
            }))"

end
