(* ===== verification/FindGroups.thy ===== *)
theory FindGroups
  imports FindObjects PropIter "HOL-Library.Multiset"
begin

text \<open>
  What the heap scan of \<^verbatim>\<open>::findjsobjects\<close> leaves behind. The comparisons it hands to
  libavl and \<^verbatim>\<open>qsort\<close> are shown to be orders; then the objects are grouped by their
  signature: the malformed flag, the property names, their number and the constructor.
\<close>

section \<open>Three-way comparisons\<close>

text \<open>
  What libavl and \<^verbatim>\<open>qsort\<close> require of a comparison function: it compares a key of its
  arguments, 0 means the keys are equal, and the sign is that of a strict order.
\<close>

locale three_way =
  fixes cmp :: "'a \<Rightarrow> 'a \<Rightarrow> int" and key :: "'a \<Rightarrow> 'k"
  assumes cmp_zero: "cmp x y = 0 \<longleftrightarrow> key x = key y"
    and cmp_swap: "cmp y x = - cmp x y"
    and cmp_trans: "cmp x y \<le> 0 \<Longrightarrow> cmp y z \<le> 0 \<Longrightarrow> cmp x z \<le> 0"

text \<open>
  The documented behaviour of \<^verbatim>\<open>avl_find\<close>: on a tree whose nodes differ it returns the
  node equal to the one searched for, if there is one; and of \<^verbatim>\<open>qsort\<close>.
\<close>

definition avl_ok :: "('a \<Rightarrow> 'a \<Rightarrow> int) \<Rightarrow> ('a list \<Rightarrow> 'a \<Rightarrow> nat option) \<Rightarrow> bool" where
  "avl_ok cmp avl \<longleftrightarrow>
     (\<forall>nodes x. (\<forall>i<length nodes. \<forall>j<length nodes. i \<noteq> j \<longrightarrow> cmp (nodes ! i) (nodes ! j) \<noteq> 0) \<longrightarrow>
        (case avl nodes x of
           Some i \<Rightarrow> i < length nodes \<and> cmp x (nodes ! i) = 0
         | None \<Rightarrow> \<forall>y\<in>set nodes. cmp x y \<noteq> 0))"

definition qsort_ok :: "('a \<Rightarrow> 'a \<Rightarrow> int) \<Rightarrow> ('a list \<Rightarrow> 'a list) \<Rightarrow> bool" where
  "qsort_ok cmp qs \<longleftrightarrow> (\<forall>xs. mset (qs xs) = mset xs \<and> sorted_wrt (\<lambda>x y. cmp x y \<le> 0) (qs xs))"

context three_way begin

lemma cmp_refl: "cmp x x = 0"
  by (simp add: cmp_zero)

lemma cmp_total: "cmp x y \<le> 0 \<or> cmp y x \<le> 0"
  using cmp_swap [of x y] by linarith

lemma distinct_nodes:
  "(\<forall>i<length xs. \<forall>j<length xs. i \<noteq> j \<longrightarrow> cmp (xs ! i) (xs ! j) \<noteq> 0) \<longleftrightarrow> distinct (map key xs)"
  by (auto simp: cmp_zero distinct_conv_nth)

text \<open>Search in a tree of distinct nodes is search for the key.\<close>

lemma avl_find_cases:
  assumes "avl_ok cmp avl" "distinct (map key xs)"
  shows "avl xs x = None \<Longrightarrow> key x \<notin> key ` set xs"
    and "avl xs x = Some i \<Longrightarrow> i < length xs \<and> key (xs ! i) = key x"
proof -
  have "case avl xs x of Some i \<Rightarrow> i < length xs \<and> cmp x (xs ! i) = 0 | None \<Rightarrow> \<forall>y\<in>set xs. cmp x y \<noteq> 0"
    using assms unfolding avl_ok_def distinct_nodes by blast
  then show "avl xs x = None \<Longrightarrow> key x \<notin> key ` set xs"
    and "avl xs x = Some i \<Longrightarrow> i < length xs \<and> key (xs ! i) = key x"
    by (auto simp: cmp_zero)
qed

end

lemmas three_way_laws = three_way.cmp_zero three_way.cmp_swap three_way.cmp_trans

text \<open>Comparing by one key, by a function of it, and by one key after the other.\<close>

definition order_cmp :: "'k::linorder \<Rightarrow> 'k \<Rightarrow> int" where
  "order_cmp l r = (if l < r then - 1 else if r < l then 1 else 0)"

definition then_cmp :: "int \<Rightarrow> int \<Rightarrow> int" where
  "then_cmp c d = (if c \<noteq> 0 then c else d)"

lemma three_way_order: "three_way order_cmp (\<lambda>x. x)"
  by unfold_locales (auto simp: order_cmp_def split: if_splits)

lemma strcmp_le_trans: "strcmp s t \<le> 0 \<Longrightarrow> strcmp t u \<le> 0 \<Longrightarrow> strcmp s u \<le> 0"
  using strcmp_trans [of s t u] strcmp_zero_iff [of s t] strcmp_zero_iff [of t u]
  by (cases "s = t"; cases "t = u") (auto simp: order_le_less)

lemma three_way_strcmp: "three_way strcmp (\<lambda>x. x)"
  by unfold_locales (rule strcmp_zero_iff, rule strcmp_swap, rule strcmp_le_trans)

lemma three_way_image:
  assumes "three_way cmp key"
  shows "three_way (\<lambda>x y. cmp (f x) (f y)) (\<lambda>x. key (f x))"
  using assms unfolding three_way_def by blast

lemma then_cmp_trans:
  assumes "three_way cmp key" and xy: "then_cmp (cmp x y) b \<le> 0" and yz: "then_cmp (cmp y z) c \<le> 0"
    and inner: "cmp x y = 0 \<Longrightarrow> b \<le> 0 \<Longrightarrow> c \<le> 0 \<Longrightarrow> d \<le> 0"
  shows "then_cmp (cmp x z) d \<le> 0"
proof -
  note laws = three_way_laws [OF assms(1)]
  have le: "cmp x y \<le> 0" "cmp y z \<le> 0" using xy yz by (auto simp: then_cmp_def split: if_splits)
  then have xz: "cmp x z \<le> 0" by (rule laws(3))
  show ?thesis
  proof (cases "cmp x z = 0")
    case True
    then have zx: "cmp z x = 0" using laws(2) [of x z] by simp
    have "cmp x y = 0" using laws(3) [of y z x] le zx laws(2) [of x y] by simp
    moreover have "cmp y z = 0" using laws(3) [of z x y] le zx laws(2) [of y z] by simp
    ultimately show ?thesis using xy yz inner True by (simp add: then_cmp_def)
  qed (simp add: then_cmp_def xz)
qed

lemma three_way_then:
  assumes "three_way cmp key" "three_way cmp' key'"
  shows "three_way (\<lambda>x y. then_cmp (cmp x y) (cmp' x y)) (\<lambda>x. (key x, key' x))"
proof
  note laws = three_way_laws [OF assms(1)] and laws' = three_way_laws [OF assms(2)]
  fix x y z
  show "then_cmp (cmp x y) (cmp' x y) = 0 \<longleftrightarrow> (key x, key' x) = (key y, key' y)"
    using laws(1) [of x y] laws'(1) [of x y] by (auto simp: then_cmp_def)
  show "then_cmp (cmp y x) (cmp' y x) = - then_cmp (cmp x y) (cmp' x y)"
    using laws(2) [of x y] laws'(2) [of x y] by (simp add: then_cmp_def)
  show "then_cmp (cmp x y) (cmp' x y) \<le> 0 \<Longrightarrow> then_cmp (cmp y z) (cmp' y z) \<le> 0 \<Longrightarrow>
      then_cmp (cmp x z) (cmp' x z) \<le> 0"
    using then_cmp_trans [OF assms(1)] laws'(3) by blast
qed

text \<open>The comparisons of the module are of this form.\<close>

lemma props_cmp_then: "props_cmp (l # ls) (r # rs) = then_cmp (strcmp l r) (props_cmp ls rs)"
  using strcmp_range [of l r] by (auto simp: then_cmp_def Let_def)

lemma three_way_props: "three_way props_cmp (\<lambda>x. x)"
proof
  note laws = three_way_laws [OF three_way_strcmp]
  fix xs ys zs
  show "props_cmp xs ys = 0 \<longleftrightarrow> xs = ys"
    by (induction xs ys rule: props_cmp.induct) (auto simp: Let_def strcmp_zero_iff)
  show "props_cmp ys xs = - props_cmp xs ys"
  proof (induction xs ys rule: props_cmp.induct)
    case (1 x xs y ys)
    then show ?case using laws(2) [of x y] unfolding props_cmp_then by (simp add: then_cmp_def)
  qed simp_all
  show "props_cmp xs ys \<le> 0 \<Longrightarrow> props_cmp ys zs \<le> 0 \<Longrightarrow> props_cmp xs zs \<le> 0"
  proof (induction xs ys arbitrary: zs rule: props_cmp.induct)
    case (1 x xs y ys)
    then obtain z zs' where "zs = z # zs'" by (cases zs) auto
    have IH: "strcmp x y = 0 \<Longrightarrow> props_cmp xs ys \<le> 0 \<Longrightarrow> props_cmp ys zs' \<le> 0 \<Longrightarrow> props_cmp xs zs' \<le> 0"
      using "1.IH" [OF refl] by (simp only: not_not)
    show ?case
      using "1.prems" unfolding \<open>zs = z # zs'\<close> props_cmp_then
      by (rule then_cmp_trans [OF three_way_strcmp]) (rule IH)
  next
    case (3 r rs)
    then show ?case by (cases zs) auto
  next
    case 4
    then show ?case by (cases zs) auto
  qed simp
qed

definition signature :: "findjsobjects_obj \<Rightarrow> bool \<times> string list \<times> uptr \<times> string" where
  "signature obj = (\<not> fjso_malformed obj, fjso_props obj, fjso_nprops obj, fjso_constructor obj)"

lemma findjsobjects_cmp_then:
  "findjsobjects_cmp l r =
     then_cmp (order_cmp (\<not> fjso_malformed l) (\<not> fjso_malformed r))
       (then_cmp (props_cmp (fjso_props l) (fjso_props r))
         (then_cmp (order_cmp (fjso_nprops l) (fjso_nprops r))
           (strcmp (fjso_constructor l) (fjso_constructor r))))"
  using strcmp_range [of "fjso_constructor l" "fjso_constructor r"]
  by (auto simp: findjsobjects_cmp_def then_cmp_def order_cmp_def Let_def)

interpretation grouping: three_way findjsobjects_cmp signature
  unfolding findjsobjects_cmp_then [abs_def] signature_def [abs_def]
  by (intro three_way_then three_way_image [OF three_way_order] three_way_image [OF three_way_props]
      three_way_image [OF three_way_strcmp])

interpretation marked: three_way findjsobjects_cmp_referents fjsr_addr
  by unfold_locales (auto simp: findjsobjects_cmp_referents_def not_less split: if_splits)

lemma findjsobjects_cmp_ninstances_then:
  "findjsobjects_cmp_ninstances l r =
     then_cmp (order_cmp (of_int (fjso_ninstances l) * fjso_nprops l) (of_int (fjso_ninstances r) * fjso_nprops r))
       (then_cmp (order_cmp (fjso_ninstances l) (fjso_ninstances r)) (order_cmp (fjso_nprops l) (fjso_nprops r)))"
  by (auto simp: findjsobjects_cmp_ninstances_def then_cmp_def order_cmp_def Let_def)

interpretation bysize: three_way findjsobjects_cmp_ninstances
    "\<lambda>obj. (of_int (fjso_ninstances obj) * fjso_nprops obj, fjso_ninstances obj, fjso_nprops obj)"
  unfolding findjsobjects_cmp_ninstances_then [abs_def]
  by (intro three_way_then three_way_image [OF three_way_order])

text \<open>Functions a multiple of 4 GiB apart are not told from one another.\<close>

lemma funcinfo_truncated:
  "findjsobjects_cmp_funcinfo f (f\<lparr>fjsf_shared := fjsf_shared f + 2 ^ 32\<rparr>) = 0"
  by (simp add: findjsobjects_cmp_funcinfo_def)

section \<open>Grouping\<close>

text \<open>
  The groups of the objects found so far, given as addresses with signatures in the order of
  the scan: one group for each signature, whose instances are the addresses with that
  signature, the first in front and the others newest first.
\<close>

type_synonym found_objects = "(uptr \<times> (bool \<times> string list \<times> uptr \<times> string)) list"

definition with_signature :: "found_objects \<Rightarrow> (bool \<times> string list \<times> uptr \<times> string) \<Rightarrow> uptr list" where
  "with_signature found sig = map fst (filter (\<lambda>f. snd f = sig) found)"

definition group_ok :: "found_objects \<Rightarrow> findjsobjects_obj \<Rightarrow> bool" where
  "group_ok found obj \<longleftrightarrow>
     (let addrs = with_signature found (signature obj) in
      addrs \<noteq> [] \<and> instance_list (fjso_instances obj) = hd addrs # rev (tl addrs) \<and>
      fjso_ninstances obj = int (length addrs))"

definition grouped :: "found_objects \<Rightarrow> findjsobjects_obj list \<Rightarrow> bool" where
  "grouped found objs \<longleftrightarrow> distinct (map signature objs) \<and> signature ` set objs = snd ` set found \<and>
     (\<forall>obj\<in>set objs. group_ok found obj)"

lemma grouped_Nil [simp]: "grouped [] []"
  by (simp add: grouped_def)

lemma signature_obj_add [simp]: "signature (obj_add addr obj) = signature obj"
  by (simp add: signature_def obj_add_def)

lemma with_signature_snoc:
  "with_signature (found @ [(addr, sig)]) sig' =
     with_signature found sig' @ (if sig = sig' then [addr] else [])"
  by (simp add: with_signature_def)

lemma group_ok_other:
  "sig \<noteq> signature obj \<Longrightarrow> group_ok (found @ [(addr, sig)]) obj = group_ok found obj"
  by (simp add: group_ok_def with_signature_snoc)

lemma group_ok_add:
  assumes "group_ok found obj"
  shows "group_ok (found @ [(addr, signature obj)]) (obj_add addr obj)"
  using assms
  by (auto simp: group_ok_def Let_def with_signature_snoc obj_add_def instance_list_def instance_add_def
      signature_def)

lemma group_ok_new:
  assumes "signature obj \<notin> snd ` set found" "fjso_instances obj = \<lparr>fjsi_addr = addr, fjsi_next = []\<rparr>"
    "fjso_ninstances obj = 1"
  shows "group_ok (found @ [(addr, signature obj)]) obj"
proof -
  have "with_signature found (signature obj) = []"
    using assms(1) unfolding with_signature_def map_is_Nil_conv filter_empty_conv by (metis imageI)
  then show ?thesis using assms by (simp add: group_ok_def with_signature_snoc instance_list_def)
qed

text \<open>Entering an object keeps the groups.\<close>

lemma objs_enter_grouped:
  assumes avl: "avl_ok findjsobjects_cmp (avl_find_obj E findjsobjects_cmp)" and grp: "grouped found objs"
    and new: "fjso_instances obj = \<lparr>fjsi_addr = addr, fjsi_next = []\<rparr>" "fjso_ninstances obj = 1"
  shows "grouped (found @ [(addr, signature obj)]) (objs_enter E addr obj objs)"
proof -
  have dist: "distinct (map signature objs)" and sigs: "signature ` set objs = snd ` set found"
    and ok: "\<And>o'. o' \<in> set objs \<Longrightarrow> group_ok found o'"
    using grp by (auto simp: grouped_def)
  show ?thesis
  proof (cases "avl_find_obj E findjsobjects_cmp objs obj")
    case None
    have fresh: "signature obj \<notin> signature ` set objs" by (rule grouping.avl_find_cases(1) [OF avl dist None])
    then have "group_ok (found @ [(addr, signature obj)]) o'" if "o' \<in> set objs" for o'
      using ok [OF that] that by (subst group_ok_other) auto
    with fresh None dist sigs group_ok_new [OF _ new] show ?thesis
      by (auto simp: grouped_def objs_enter_def)
  next
    case (Some i)
    let ?o = "objs ! i" and ?new = "objs[i := obj_add addr (objs ! i)]"
    have i: "i < length objs" and sig: "signature ?o = signature obj"
      using grouping.avl_find_cases(2) [OF avl dist Some] by auto
    have same: "map signature ?new = map signature objs"
      by (simp add: map_update list_update_same_conv i)
    have "group_ok (found @ [(addr, signature obj)]) (?new ! j)" if j: "j < length objs" for j
    proof (cases "j = i")
      case True
      then show ?thesis using group_ok_add [OF ok [OF nth_mem [OF i]], of addr] i sig by simp
    next
      case False
      then have "signature (objs ! j) \<noteq> signature obj"
        using dist i j sig nth_eq_iff_index_eq [OF dist, of j i] by simp
      with False ok [OF nth_mem [OF j]] show ?thesis by (subst group_ok_other) auto
    qed
    then have "\<forall>o'\<in>set ?new. group_ok (found @ [(addr, signature obj)]) o'"
      by (auto simp: set_conv_nth)
    moreover have "signature ` set ?new = signature ` set objs"
      using same by (metis set_map)
    moreover have "signature obj \<in> signature ` set objs" using i sig by (metis imageI nth_mem)
    then have "snd ` set (found @ [(addr, signature obj)]) = signature ` set objs"
      unfolding sigs
      by (simp only: set_append image_Un list.set image_insert image_empty snd_conv Un_insert_right sup_bot_right insert_absorb)
    ultimately show ?thesis
      unfolding grouped_def using Some same dist by (simp add: objs_enter_def)
  qed
qed

lemma grouped_mset: "mset objs' = mset objs \<Longrightarrow> grouped found objs \<Longrightarrow> grouped found objs'"
  unfolding grouped_def by (metis distinct_map mset_eq_imp_distinct_iff mset_eq_setD)

text \<open>In a grouping, the group of an address holds all objects with its signature.\<close>

lemma instance_set: "group_ok found obj \<Longrightarrow> set (instance_list (fjso_instances obj)) = set (with_signature found (signature obj))"
  by (cases "with_signature found (signature obj)") (auto simp: group_ok_def Let_def)

lemma with_signature_iff: "b \<in> set (with_signature found sig) \<longleftrightarrow> (b, sig) \<in> set found"
  by (force simp: with_signature_def)

section \<open>What the scan finds\<close>

text \<open>
  The object at an address, with its signature, as it is without the groups of the others:
  \<open>None\<close> where looking at the address has no defined outcome.
\<close>

definition object_at ::
    "fjs_env \<Rightarrow> v8dbg \<Rightarrow> byte list \<Rightarrow> uptr \<Rightarrow> uptr \<Rightarrow> uptr \<Rightarrow> found_objects option" where
  "object_at E D buf base sz addr = do {
     (type, stats) \<leftarrow> findjsobjects_type E D buf base sz addr stats_zero;
     case type of
       None \<Rightarrow> Some []
     | Some type \<Rightarrow>
         if is_int_type D type V8_TYPE_JSFUNCTION
         then map_option (\<lambda>_. []) (findjsobjects_jsfunc_load D addr)
         else do {
           (current, stats) \<leftarrow> findjsobjects_current D type addr stats_zero;
           Some (case current of None \<Rightarrow> [] | Some obj \<Rightarrow> [(addr, signature obj)])
         }
   }"

fun objects_in ::
    "fjs_env \<Rightarrow> v8dbg \<Rightarrow> byte list \<Rightarrow> uptr \<Rightarrow> uptr \<Rightarrow> nat \<Rightarrow> uptr \<Rightarrow> found_objects option" where
  "objects_in E D buf base sz 0 addr = Some []"
| "objects_in E D buf base sz (Suc n) addr = do {
     found \<leftarrow> object_at E D buf base sz addr;
     rest \<leftarrow> objects_in E D buf base sz n (addr + 1);
     Some (found @ rest)
   }"

text \<open>A mapping is scanned when it is anonymous, or the heap when that was asked for.\<close>

definition map_objects ::
    "fjs_env \<Rightarrow> v8dbg \<Rightarrow> bool \<Rightarrow> fjs_map \<times> string option \<Rightarrow> found_objects option" where
  "map_objects E D brk pmpn =
     (let base = pr_vaddr (fst pmpn); sz = pr_size (fst pmpn) in
      if snd pmpn \<noteq> None \<and> \<not> (brk \<and> pr_brk (fst pmpn)) then Some []
      else (case mem_vread D base (unat sz) of
         None \<Rightarrow> Some []
       | Some buf \<Rightarrow> objects_in E D buf base sz (if base < base + sz then unat sz else 0) base))"

fun heap_objects ::
    "fjs_env \<Rightarrow> v8dbg \<Rightarrow> bool \<Rightarrow> (fjs_map \<times> string option) list \<Rightarrow> found_objects option" where
  "heap_objects E D brk [] = Some []"
| "heap_objects E D brk (pmpn # pmpns) = do {
     found \<leftarrow> map_objects E D brk pmpn;
     rest \<leftarrow> heap_objects E D brk pmpns;
     Some (found @ rest)
   }"

text \<open>The statistics have no influence.\<close>

lemma type_stats:
  "findjsobjects_type E D buf base sz addr stats_zero = Some (t, st) \<Longrightarrow>
     \<exists>st'. findjsobjects_type E D buf base sz addr stats = Some (t, st')"
  by (auto simp: findjsobjects_type_def Let_def split: if_splits Option.bind_splits)

lemma object_stats:
  "findjsobjects_object D obj stats0 = Some (r, st) \<Longrightarrow> \<exists>st'. findjsobjects_object D obj stats = Some (r, st')"
  by (auto simp: findjsobjects_object_def Let_def split: if_splits Option.bind_splits)

lemma current_stats:
  "findjsobjects_current D type addr stats0 = Some (r, st) \<Longrightarrow>
     \<exists>st'. findjsobjects_current D type addr stats = Some (r, st')"
  by (auto simp: findjsobjects_current_def Let_def dest: object_stats split: if_splits option.splits)

text \<open>What the property callback and the constructor leave of an object.\<close>

lemma findjsobjects_prop_go: "stop_or_go (\<lambda>desc. findjsobjects_prop (Some desc))"
  by (simp add: stop_or_go_def findjsobjects_prop_def Let_def)

lemma findjsobjects_prop_visits:
  "\<exists>obj'. cb_iter (visit (\<lambda>desc. findjsobjects_prop (Some desc))) vs obj = (0, obj') \<and>
     fjso_instances obj' = fjso_instances obj \<and> fjso_ninstances obj' = fjso_ninstances obj \<and>
     fjso_props obj' = fjso_props obj @ map fst vs \<and> fjso_nprops obj' = fjso_nprops obj + of_nat (length vs) \<and>
     fjso_constructor obj' = fjso_constructor obj"
proof (induction vs arbitrary: obj)
  case (Cons v vs)
  let ?obj = "snd (findjsobjects_prop (Some (fst v)) (snd v) obj)"
  from Cons.IH [of ?obj] show ?case
    by (auto simp: visit_def findjsobjects_prop_def Let_def)
qed simp

lemma constructor_frame:
  "findjsobjects_constructor D obj = Some obj' \<Longrightarrow>
     fjso_instances obj' = fjso_instances obj \<and> fjso_ninstances obj' = fjso_ninstances obj \<and>
     fjso_props obj' = fjso_props obj \<and> fjso_nprops obj' = fjso_nprops obj"
  by (auto simp: findjsobjects_constructor_def split: option.splits if_splits Option.bind_splits)

lemma object_props:
  assumes "target_ok D" "prop_constants_ok D" and obj: "findjsobjects_object D (findjsobjects_alloc addr) stats = Some (Some obj, st)"
  shows "\<exists>visits p0. jsobj_properties D addr record_prop [] None = Some (0, visits, p0) \<and>
    fjso_instances obj = \<lparr>fjsi_addr = addr, fjsi_next = []\<rparr> \<and> fjso_ninstances obj = 1 \<and>
    fjso_props obj = map fst visits \<and> fjso_nprops obj = of_nat (length visits)"
proof -
  let ?cb = "\<lambda>desc. findjsobjects_prop (Some desc)" and ?a = "findjsobjects_alloc addr"
  have "stop_or_go record_prop" by (simp add: stop_or_go_def record_prop_def)
  from jsobj_properties_returns [OF assms(1,2) this findjsobjects_prop_go, of addr] obtain vs rv0 where
    vs: "returns vs rv0 record_prop (jsobj_properties D addr record_prop)"
      "returns vs rv0 ?cb (jsobj_properties D addr ?cb)" by blast
  obtain p0 where p0: "jsobj_properties D addr record_prop [] None = Some (rv0, vs, p0)"
    using returnsD [OF vs(1) cb_iter_record_prop, of "[]" None] by auto
  obtain o1 where o1: "cb_iter (visit ?cb) vs ?a = (0, o1)" "fjso_instances o1 = fjso_instances ?a"
    "fjso_ninstances o1 = fjso_ninstances ?a" "fjso_props o1 = map fst vs" "fjso_nprops o1 = of_nat (length vs)"
    using findjsobjects_prop_visits [of vs ?a] by (auto simp: findjsobjects_alloc_def)
  obtain p where "jsobj_properties D addr ?cb ?a (Some (fjso_propinfo ?a)) = Some (rv0, o1, p)"
    using returnsD [OF vs(2) o1(1), of "Some (fjso_propinfo ?a)"] by auto
  then have "rv0 = 0 \<and> fjso_instances obj = fjso_instances o1 \<and> fjso_ninstances obj = fjso_ninstances o1 \<and>
      fjso_props obj = fjso_props o1 \<and> fjso_nprops obj = fjso_nprops o1"
    using obj by (auto simp: findjsobjects_object_def findjsobjects_alloc_def Let_def
        dest!: constructor_frame split: if_splits Option.bind_splits)
  then show ?thesis using p0 o1 by (simp add: findjsobjects_alloc_def)
qed

lemma current_new:
  assumes "target_ok D" "prop_constants_ok D" "findjsobjects_current D type addr stats = Some (Some obj, st)"
  shows "fjso_instances obj = \<lparr>fjsi_addr = addr, fjsi_next = []\<rparr>" "fjso_ninstances obj = 1"
  using assms(3) object_props [OF assms(1,2)]
  by (auto simp: findjsobjects_current_def findjsobjects_array_def findjsobjects_alloc_def Let_def
      split: if_splits option.splits Option.bind_splits)

text \<open>What the scan leaves as it is.\<close>

definition fjs_same :: "findjsobjects_state \<Rightarrow> findjsobjects_state \<Rightarrow> bool" where
  "fjs_same fjs fjs' \<longleftrightarrow> fjs_addr fjs' = fjs_addr fjs \<and> fjs_brk fjs' = fjs_brk fjs \<and>
     fjs_verbose fjs' = fjs_verbose fjs \<and> fjs_allobjs fjs' = fjs_allobjs fjs \<and>
     fjs_marking fjs' = fjs_marking fjs \<and> fjs_referents fjs' = fjs_referents fjs \<and>
     fjs_initialized fjs' = fjs_initialized fjs"

lemma fjs_same_refl [simp]: "fjs_same fjs fjs"
  by (simp add: fjs_same_def)

lemma fjs_same_trans: "fjs_same a b \<Longrightarrow> fjs_same b c \<Longrightarrow> fjs_same a c"
  by (simp add: fjs_same_def)

lemma fjs_same_updates [simp]:
  "fjs_same a (b\<lparr>fjs_stats := st\<rparr>) = fjs_same a b"
  "fjs_same a (b\<lparr>fjs_funcs := fs\<rparr>) = fjs_same a b"
  "fjs_same a (b\<lparr>fjs_objects := os\<rparr>) = fjs_same a b"
  "fjs_same a (b\<lparr>fjs_finished := c\<rparr>) = fjs_same a b"
  by (simp_all add: fjs_same_def)

lemma jsfunc_same:
  "findjsobjects_jsfunc_load D addr = Some r \<Longrightarrow>
     \<exists>fjs'. findjsobjects_jsfunc E D fjs addr = Some fjs' \<and> fjs_same fjs fjs' \<and> fjs_objects fjs' = fjs_objects fjs"
  by (auto simp: findjsobjects_jsfunc_def Let_def split: option.splits)

lemma enter_same [simp]:
  "fjs_same fjs (findjsobjects_enter E fjs' addr obj) = fjs_same fjs fjs'"
  "fjs_objects (findjsobjects_enter E fjs' addr obj) = objs_enter E addr obj (fjs_objects fjs')"
  by (simp_all add: findjsobjects_enter_def)

text \<open>One address.\<close>

lemma visit_grouped:
  assumes "target_ok D" "prop_constants_ok D" "avl_ok findjsobjects_cmp (avl_find_obj E findjsobjects_cmp)"
    and "object_at E D buf base sz addr = Some new" "grouped found (fjs_objects fjs)"
  shows "\<exists>fjs'. findjsobjects_visit E D buf base sz addr fjs = Some fjs' \<and> fjs_same fjs fjs' \<and>
    grouped (found @ new) (fjs_objects fjs')"
proof -
  obtain t st where t: "findjsobjects_type E D buf base sz addr stats_zero = Some (t, st)"
    using assms(4) by (auto simp: object_at_def split: Option.bind_splits)
  obtain st1 where st1: "findjsobjects_type E D buf base sz addr (fjs_stats fjs) = Some (t, st1)"
    using type_stats [OF t] by blast
  show ?thesis
  proof (cases t)
    case None
    then show ?thesis using assms(4,5) t st1 by (simp add: object_at_def findjsobjects_visit_def)
  next
    case (Some type)
    show ?thesis
    proof (cases "is_int_type D type V8_TYPE_JSFUNCTION")
      case True
      then obtain r where r: "findjsobjects_jsfunc_load D addr = Some r" "new = []"
        using assms(4) t Some by (auto simp: object_at_def)
      then show ?thesis
        using jsfunc_same [OF r(1), of E "fjs\<lparr>fjs_stats := st1\<rparr>"] assms(5) Some True st1
        by (auto simp: findjsobjects_visit_def fjs_same_def)
    next
      case False
      then obtain c st2 where c: "findjsobjects_current D type addr stats_zero = Some (c, st2)"
        "new = (case c of None \<Rightarrow> [] | Some obj \<Rightarrow> [(addr, signature obj)])"
        using assms(4) t Some by (auto simp: object_at_def split: Option.bind_splits)
      obtain st3 where st3: "findjsobjects_current D type addr st1 = Some (c, st3)"
        using current_stats [OF c(1)] by blast
      show ?thesis
      proof (cases c)
        case None
        then show ?thesis using assms(5) Some False st1 st3 c(2) by (simp add: findjsobjects_visit_def)
      next
        case (Some obj)
        note new = current_new [OF assms(1,2) c(1) [unfolded Some]]
        show ?thesis
          using objs_enter_grouped [OF assms(3,5) new] False st1 st3 c(2) \<open>t = Some type\<close> Some
          by (simp add: findjsobjects_visit_def)
      qed
    qed
  qed
qed

text \<open>A mapping, and all of them.\<close>

lemma scan_grouped:
  assumes "target_ok D" "prop_constants_ok D" "avl_ok findjsobjects_cmp (avl_find_obj E findjsobjects_cmp)"
    and "objects_in E D buf base sz n addr = Some new" "grouped found (fjs_objects fjs)"
  shows "\<exists>fjs'. findjsobjects_scan E D buf base sz n addr fjs = Some fjs' \<and> fjs_same fjs fjs' \<and>
    grouped (found @ new) (fjs_objects fjs')"
  using assms(4,5)
proof (induction n arbitrary: addr new found fjs)
  case (Suc n)
  from Suc.prems(1) obtain one rest where one: "object_at E D buf base sz addr = Some one"
    and rest: "objects_in E D buf base sz n (addr + 1) = Some rest" and new: "new = one @ rest"
    by (auto split: Option.bind_splits)
  obtain fjs1 where fjs1: "findjsobjects_visit E D buf base sz addr fjs = Some fjs1" "fjs_same fjs fjs1"
    "grouped (found @ one) (fjs_objects fjs1)"
    using visit_grouped [OF assms(1-3) one Suc.prems(2)] by blast
  with Suc.IH [OF rest fjs1(3)] new show ?case by (auto intro: fjs_same_trans)
qed simp

lemma mapping_grouped:
  assumes "target_ok D" "prop_constants_ok D" "avl_ok findjsobjects_cmp (avl_find_obj E findjsobjects_cmp)"
    and "map_objects E D (fjs_brk fjs) pmpn = Some new" "grouped found (fjs_objects fjs)" "fjs_addr fjs = 0"
  shows "\<exists>fjs'. findjsobjects_mapping E D fjs pmpn = Some (0, fjs') \<and> fjs_same fjs fjs' \<and>
    grouped (found @ new) (fjs_objects fjs')"
proof -
  obtain pmp name where pmpn: "pmpn = (pmp, name)" by fastforce
  let ?b = "pr_vaddr pmp" and ?s = "pr_size pmp"
  show ?thesis
  proof (cases "name \<noteq> None \<and> \<not> (fjs_brk fjs \<and> pr_brk pmp)")
    case True
    then show ?thesis using assms(4,5) pmpn by (simp add: map_objects_def findjsobjects_mapping_def)
  next
    case scanned: False
    show ?thesis
    proof (cases "mem_vread D ?b (unat ?s)")
      case None
      then show ?thesis using scanned assms(4-6) pmpn
        by (auto simp: map_objects_def findjsobjects_mapping_def findjsobjects_range_def)
    next
      case (Some buf)
      let ?n = "if ?b < ?b + ?s then unat ?s else 0"
      have "objects_in E D buf ?b ?s ?n ?b = Some new"
        using scanned assms(4) pmpn Some by (auto simp: map_objects_def Let_def)
      from scan_grouped [OF assms(1-3) this assms(5)] scanned assms(6) pmpn Some show ?thesis
        by (auto simp: findjsobjects_mapping_def findjsobjects_range_def Let_def)
    qed
  qed
qed

lemma mappings_grouped:
  assumes "target_ok D" "prop_constants_ok D" "avl_ok findjsobjects_cmp (avl_find_obj E findjsobjects_cmp)"
    and "heap_objects E D (fjs_brk fjs) pmpns = Some new" "grouped found (fjs_objects fjs)" "fjs_addr fjs = 0"
  shows "\<exists>fjs'. mappings_iter pmpns (findjsobjects_mapping E D) fjs = Some (0, fjs') \<and> fjs_same fjs fjs' \<and>
    grouped (found @ new) (fjs_objects fjs')"
  using assms(4-6)
proof (induction pmpns arbitrary: new found fjs)
  case (Cons pmpn pmpns)
  from Cons.prems(1) obtain one rest where one: "map_objects E D (fjs_brk fjs) pmpn = Some one"
    and rest: "heap_objects E D (fjs_brk fjs) pmpns = Some rest" and new: "new = one @ rest"
    by (auto split: Option.bind_splits)
  obtain fjs1 where fjs1: "findjsobjects_mapping E D fjs pmpn = Some (0, fjs1)" "fjs_same fjs fjs1"
    "grouped (found @ one) (fjs_objects fjs1)"
    using mapping_grouped [OF assms(1-3) one Cons.prems(2,3)] by blast
  then have "heap_objects E D (fjs_brk fjs1) pmpns = Some rest" "fjs_addr fjs1 = 0"
    using rest Cons.prems(3) by (simp_all add: fjs_same_def)
  from Cons.IH [OF this(1) fjs1(3) this(2)] fjs1(1,2) new show ?case by (auto intro: fjs_same_trans)
qed simp

text \<open>A state in which nothing was scanned yet.\<close>

definition fjs_fresh :: "findjsobjects_state \<Rightarrow> bool" where
  "fjs_fresh fjs \<longleftrightarrow> fjs_addr fjs = 0 \<and> fjs_objects fjs = [] \<and> fjs_referents fjs = [] \<and> fjs_funcs fjs = []"

definition libs_ok :: "fjs_env \<Rightarrow> bool" where
  "libs_ok E \<longleftrightarrow> avl_ok findjsobjects_cmp (avl_find_obj E findjsobjects_cmp) \<and>
     avl_ok findjsobjects_cmp_referents (avl_find_referent E findjsobjects_cmp_referents) \<and>
     qsort_ok findjsobjects_cmp_ninstances (qsort_objs E findjsobjects_cmp_ninstances)"

lemma run_grouped:
  assumes "target_ok D" "prop_constants_ok D" "libs_ok E" "fjs_fresh fjs"
    and "heap_objects E D (fjs_brk fjs) pmpns = Some found"
  shows "\<exists>fjs' out. findjsobjects_run E D (Some (mappings_iter pmpns)) fjs = Some (0, fjs', out) \<and>
    (\<not> fjs_verbose fjs \<longrightarrow> out = []) \<and>
    fjs_finished fjs' \<and> fjs_same (fjs\<lparr>fjs_initialized := True\<rparr>) fjs' \<and> grouped found (fjs_objects fjs') \<and>
    sorted_wrt (\<lambda>x y. findjsobjects_cmp_ninstances x y \<le> 0) (fjs_objects fjs')"
proof -
  let ?fjs = "fjs\<lparr>fjs_objects := [], fjs_referents := [], fjs_funcs := [], fjs_initialized := True\<rparr>"
  have init: "(if \<not> fjs_initialized fjs then ?fjs else fjs) = ?fjs"
    using assms(4) by (cases fjs) (auto simp: fjs_fresh_def)
  have libs: "avl_ok findjsobjects_cmp (avl_find_obj E findjsobjects_cmp)"
    "qsort_ok findjsobjects_cmp_ninstances (qsort_objs E findjsobjects_cmp_ninstances)"
    using assms(3) by (simp_all add: libs_ok_def)
  obtain fjs1 where fjs1: "mappings_iter pmpns (findjsobjects_mapping E D) ?fjs = Some (0, fjs1)"
    "fjs_same ?fjs fjs1" "grouped found (fjs_objects fjs1)"
    using mappings_grouped [OF assms(1,2) libs(1), of ?fjs pmpns found "[]"] assms(4,5)
    by (auto simp: fjs_fresh_def)
  have "fjs_same (fjs\<lparr>fjs_initialized := True\<rparr>) fjs1"
    using fjs1(2) assms(4) by (simp add: fjs_same_def fjs_fresh_def)
  moreover have "fjs_verbose fjs1 = fjs_verbose fjs" using fjs1(2) by (simp add: fjs_same_def)
  moreover have "grouped found (qsort_objs E findjsobjects_cmp_ninstances (fjs_objects fjs1))"
    "sorted_wrt (\<lambda>x y. findjsobjects_cmp_ninstances x y \<le> 0) (qsort_objs E findjsobjects_cmp_ninstances (fjs_objects fjs1))"
    using libs(2) grouped_mset [OF _ fjs1(3)] by (simp_all add: qsort_ok_def)
  ultimately show ?thesis
    unfolding findjsobjects_run_def init using fjs1
    by (cases "fjs_objects fjs1 = []") (simp_all add: Let_def)
qed

section \<open>The buffer of the scan\<close>

text \<open>
  The last tagged address of a mapping is three bytes before its end; the word fetched for it
  begins four bytes before the end of the buffer.
\<close>

lemma scan_undefined:
  assumes "\<And>st. findjsobjects_type E D buf base sz (addr + of_nat k) st = None" "k < n"
  shows "findjsobjects_scan E D buf base sz n addr fjs = None"
  using assms
proof (induction n arbitrary: addr k fjs)
  case (Suc n)
  show ?case
  proof (cases k)
    case 0
    then show ?thesis using Suc.prems(1) by (simp add: findjsobjects_visit_def)
  next
    case (Suc j)
    then have "findjsobjects_scan E D buf base sz n (addr + 1) fjs' = None" for fjs'
      using Suc.IH [of "addr + 1" j] Suc.prems by (simp add: add_ac)
    then show ?thesis by (simp split: Option.bind_split)
  qed
qed simp

lemma and_low_unat: "unat (a AND 3 :: uptr) = unat a mod 4" "unat (a AND 1 :: uptr) = unat a mod 2"
proof -
  have "a AND 3 = take_bit 2 a" "a AND 1 = take_bit 1 a" by (simp_all add: take_bit_eq_mask mask_eq_exp_minus_1)
  then show "unat (a AND 3) = unat a mod 4" "unat (a AND 1) = unat a mod 2"
    by (simp_all only: unsigned_take_bit_eq) (simp_all add: take_bit_eq_mod)
qed

lemma type_past_buffer:
  assumes "V8_IS_HEAPOBJECT D a" "\<not> V8_IS_SMI D a"
    and "length buf < unat (a - base + gv D V8_OFF_HEAPOBJECT_MAP) + 8" "after_range E base = []"
  shows "findjsobjects_type E D buf base sz a st = None"
  using assms by (simp add: findjsobjects_type_def range_word_def)

section \<open>A sample heap\<close>

text \<open>Linear search and insertion sort are as good as a tree and quicksort.\<close>

fun linear_find :: "('a \<Rightarrow> 'a \<Rightarrow> int) \<Rightarrow> 'a list \<Rightarrow> 'a \<Rightarrow> nat option" where
  "linear_find cmp [] x = None"
| "linear_find cmp (y # ys) x = (if cmp x y = 0 then Some 0 else map_option Suc (linear_find cmp ys x))"

fun insert_by :: "('a \<Rightarrow> 'a \<Rightarrow> int) \<Rightarrow> 'a \<Rightarrow> 'a list \<Rightarrow> 'a list" where
  "insert_by cmp x [] = [x]"
| "insert_by cmp x (y # ys) = (if cmp x y \<le> 0 then x # y # ys else y # insert_by cmp x ys)"

definition sort_by :: "('a \<Rightarrow> 'a \<Rightarrow> int) \<Rightarrow> 'a list \<Rightarrow> 'a list" where
  "sort_by cmp xs = foldr (insert_by cmp) xs []"

lemma linear_find_ok: "avl_ok cmp (linear_find cmp)"
proof -
  have "case linear_find cmp xs x of Some i \<Rightarrow> i < length xs \<and> cmp x (xs ! i) = 0 | None \<Rightarrow> \<forall>y\<in>set xs. cmp x y \<noteq> 0"
    for xs x by (induction xs) (auto split: option.splits)
  then show ?thesis by (simp add: avl_ok_def)
qed

lemma mset_insert_by [simp]: "mset (insert_by cmp x xs) = add_mset x (mset xs)"
  by (induction xs) auto

context three_way begin

lemma sorted_insert_by:
  "sorted_wrt (\<lambda>x y. cmp x y \<le> 0) xs \<Longrightarrow> sorted_wrt (\<lambda>x y. cmp x y \<le> 0) (insert_by cmp x xs)"
proof (induction xs)
  case (Cons y ys)
  have set_ins: "set (insert_by cmp x ys) = insert x (set ys)"
    using mset_insert_by [of cmp x ys] by (metis set_mset_add_mset_insert set_mset_mset)
  show ?case
    using Cons cmp_total [of x y] by (auto simp: set_ins intro: cmp_trans)
qed simp

lemma sort_by_ok: "qsort_ok cmp (sort_by cmp)"
proof -
  have "mset (sort_by cmp xs) = mset xs \<and> sorted_wrt (\<lambda>x y. cmp x y \<le> 0) (sort_by cmp xs)" for xs
    by (induction xs) (simp_all add: sort_by_def sorted_insert_by)
  then show ?thesis by (simp add: qsort_ok_def)
qed

end

definition sample_env :: fjs_env where
  "sample_env = \<lparr>avl_find_obj = linear_find, avl_find_func = linear_find, avl_find_referent = linear_find,
     qsort_objs = sort_by, after_range = (\<lambda>_. [0, 0, 0, 0]), run_elapsed = 0\<rparr>"

lemma sample_libs: "libs_ok sample_env"
  by (simp add: libs_ok_def sample_env_def linear_find_ok bysize.sort_by_ok)

text \<open>
  Two arrays of two elements, each at the start of a mapping of eight bytes. They share their
  elements, of which the first is the second array.
\<close>

definition arrays_words :: "(uptr \<times> uptr) list" where
  "arrays_words =
     [(4096, 8193), (4112, 4225), (4120, push_bit 32 2), (4224, 8257), (4232, push_bit 32 2), (4240, 4353),
      (4352, 8193), (4368, 4225), (4376, push_bit 32 2), (8200, 170), (8264, 164)]"

definition arrays_maps :: "(fjs_map \<times> string option) list" where
  "arrays_maps = [(\<lparr>pr_vaddr = 4096, pr_size = 8, pr_brk = False\<rparr>, None),
     (\<lparr>pr_vaddr = 4352, pr_size = 8, pr_brk = False\<rparr>, None)]"

definition pair_signature :: "bool \<times> string list \<times> uptr \<times> string" where
  "pair_signature = (True, [], 2, ''Array'')"

lemma arrays_globals:
  "values_at sample_values V8_HeapObjectTag = 1" "values_at sample_values V8_HeapObjectTagMask = 3"
  "values_at sample_values V8_SmiTag = 0" "values_at sample_values V8_SmiTagMask = 1"
  "values_at sample_values V8_OFF_HEAPOBJECT_MAP = - 1" "values_at sample_values V8_OFF_MAP_INSTANCE_ATTRIBUTES = 7"
  "values_at sample_values V8_TYPE_JSOBJECT = 172" "values_at sample_values V8_TYPE_JSARRAY = 170"
  "values_at sample_values V8_TYPE_JSTYPEDARRAY = - 1" "values_at sample_values V8_TYPE_JSFUNCTION = 175"
  "values_at sample_values V8_TYPE_FIXEDARRAY = 164" "values_at sample_values V8_OFF_JSARRAY_LENGTH = 23"
  "values_at sample_values V8_OFF_JSOBJECT_ELEMENTS = 15" "values_at sample_values V8_OFF_FIXEDARRAY_LENGTH = 7"
  by (simp_all add: sample_values_def)

lemma arrays_buf:
  "base = 4096 \<or> base = 4352 \<Longrightarrow>
     mem_vread (sample_dbg arrays_words) base 8 = Some [1, 32, 0, 0, 0, 0, 0, 0]"
  using sample_word [of base "words_at arrays_words"]
  by (auto simp: arrays_words_def upt_rec)

lemma arrays_type:
  "V8_IS_HEAPOBJECT (sample_dbg arrays_words) 8193"
  "sample_vread (words_at arrays_words) 8200 1 = Some [170]"
  using sample_byte_aligned [of 8200 0 "words_at arrays_words"]
  by (simp_all add: V8_IS_HEAPOBJECT_def arrays_globals sample_vread_def arrays_words_def)

lemma arrays_item:
  assumes "base = 4096 \<or> base = 4352"
  shows "object_at sample_env (sample_dbg arrays_words) [1, 32, 0, 0, 0, 0, 0, 0] base 8 (base + 1) =
    Some [(base + 1, pair_signature)]"
proof -
  let ?D = "sample_dbg arrays_words"
  have "read_heap_smi ?D (base + 1) 23 = Some 2" "read_heap_ptr ?D (base + 1) 15 = Some 4225"
    "read_typebyte ?D 4225 = Some 164" "read_heap_smi ?D 4225 7 = Some 2"
    using assms by (auto simp: sample_smi sample_ptr sample_typebyte arrays_words_def push_bit_eq_mult drop_bit_eq_div)
  then have arr: "findjsobjects_array ?D (base + 1) obj = Some (obj\<lparr>fjso_nprops := 2, fjso_constructor := ''Array''\<rparr>)" for obj
    by (simp add: findjsobjects_array_def arrays_globals V8_IS_HEAPOBJECT_def is_type_def)
  have "\<exists>st. findjsobjects_type sample_env ?D [1, 32, 0, 0, 0, 0, 0, 0] base 8 (base + 1) stats_zero = Some (Some 170, st)"
    using assms arrays_type
    by (auto simp: findjsobjects_type_def V8_IS_SMI_def V8_IS_HEAPOBJECT_def arrays_globals range_word_def Let_def)
  moreover have "(ucast (- 1 :: uptr) :: 32 word) = - 1" by (rule bit_word_eqI) (simp add: bit_simps)
  ultimately show ?thesis
    using arr
    by (auto simp: object_at_def findjsobjects_current_def is_int_type_def arrays_globals Let_def
        findjsobjects_alloc_def signature_def pair_signature_def)
qed

lemma arrays_rest:
  assumes "base = 4096 \<or> base = 4352" "i = 0 \<or> i = 2 \<or> i = 3 \<or> i = 4 \<or> i = 5 \<or> i = 6 \<or> i = (7 :: uptr)"
  shows "object_at sample_env (sample_dbg arrays_words) [1, 32, 0, 0, 0, 0, 0, 0] base 8 (base + i) = Some []"
proof -
  let ?D = "sample_dbg arrays_words" and ?buf = "[1, 32, 0, 0, 0, 0, 0, 0] :: byte list"
  have "\<exists>st. findjsobjects_type sample_env ?D ?buf base 8 (base + i) stats_zero = Some (None, st)"
    using assms
    by (auto simp: findjsobjects_type_def V8_IS_SMI_def V8_IS_HEAPOBJECT_def arrays_globals range_word_def
        sample_env_def Let_def)
  then show ?thesis by (auto simp: object_at_def)
qed

lemma arrays_objects:
  "heap_objects sample_env (sample_dbg arrays_words) False arrays_maps =
     Some [(4097, pair_signature), (4353, pair_signature)]"
proof -
  let ?D = "sample_dbg arrays_words" and ?buf = "[1, 32, 0, 0, 0, 0, 0, 0] :: byte list"
  have "objects_in sample_env ?D ?buf 4096 8 8 4096 = Some [(4097, pair_signature)]"
    using arrays_item [of 4096] arrays_rest [of 4096 0] arrays_rest [of 4096 2] arrays_rest [of 4096 3]
      arrays_rest [of 4096 4] arrays_rest [of 4096 5] arrays_rest [of 4096 6] arrays_rest [of 4096 7]
    by (simp add: eval_nat_numeral)
  moreover have "objects_in sample_env ?D ?buf 4352 8 8 4352 = Some [(4353, pair_signature)]"
    using arrays_item [of 4352] arrays_rest [of 4352 0] arrays_rest [of 4352 2] arrays_rest [of 4352 3]
      arrays_rest [of 4352 4] arrays_rest [of 4352 5] arrays_rest [of 4352 6] arrays_rest [of 4352 7]
    by (simp add: eval_nat_numeral)
  ultimately show ?thesis
    using arrays_buf [of 4096] arrays_buf [of 4352]
    by (simp add: arrays_maps_def map_objects_def Let_def)
qed

lemma arrays_prop_constants: "prop_constants_ok (sample_dbg ws)"
  by (simp add: prop_constants_ok_def dict_constants_ok_def dict_start_def sample_values_def)

lemma arrays_fresh: "fjs_fresh findjsobjects_state" "fjs_brk findjsobjects_state = False"
  by (simp_all add: fjs_fresh_def findjsobjects_state_def)

lemma arrays_groups:
  assumes "grouped [(4097, pair_signature), (4353, pair_signature)] objs"
  shows "\<exists>obj. objs = [obj] \<and> instance_list (fjso_instances obj) = [4097, 4353] \<and> signature obj = pair_signature"
proof -
  have sigs: "set (map signature objs) = {pair_signature}" "distinct (map signature objs)"
    using assms by (auto simp: grouped_def)
  then have "length (map signature objs) = 1" using distinct_card [OF sigs(2)] by simp
  then obtain obj where "objs = [obj]" by (auto simp: length_Suc_conv)
  then show ?thesis using assms sigs(1) by (auto simp: grouped_def group_ok_def with_signature_def)
qed

section \<open>Properties\<close>

text \<open>
  C2. A run of the heap scan over the mappings of the target finishes, and leaves exactly one
  group for each signature (malformed flag, property names, number of properties,
  constructor) of the objects found in the mappings: the group's instances are the addresses
  of the objects with that signature, the first found in front, and their number is right.
  The groups are sorted by the number of instances and properties.
\<close>

theorem findjsobjects_groups:
  assumes "target_ok D" and "prop_constants_ok D" and "libs_ok E" and "fjs_fresh fjs"
    and "heap_objects E D (fjs_brk fjs) pmpns = Some found"
  shows "\<exists>fjs' out. findjsobjects_run E D (Some (mappings_iter pmpns)) fjs = Some (0, fjs', out) \<and>
    fjs_finished fjs' \<and> grouped found (fjs_objects fjs') \<and>
    sorted_wrt (\<lambda>x y. findjsobjects_cmp_ninstances x y \<le> 0) (fjs_objects fjs')"
  using run_grouped [OF assms] by blast

text \<open>Two arrays of the same length form one group.\<close>

lemma findjsobjects_groups_witness:
  "\<exists>fjs' out obj. findjsobjects_run sample_env (sample_dbg arrays_words) (Some (mappings_iter arrays_maps))
       findjsobjects_state = Some (0, fjs', out) \<and>
     fjs_objects fjs' = [obj] \<and> instance_list (fjso_instances obj) = [4097, 4353]"
  using findjsobjects_groups [OF sample_target_ok arrays_prop_constants sample_libs arrays_fresh(1),
      unfolded arrays_fresh(2), OF arrays_objects] arrays_groups by blast

text \<open>
  C18. The scan reads behind the buffer it read a mapping to. On amd64 the last tagged
  address of every mapping of a multiple of four bytes is three bytes before its end, and the
  word fetched for it starts four bytes before the end: without readable bytes after the
  buffer the scan has no defined outcome, whatever the mapping holds.
\<close>

theorem scan_past_buffer:
  assumes "v8_tags_amd64 D" and "vread_laws D" and "gv D V8_OFF_HEAPOBJECT_MAP = - 1"
    and "mem_vread D base (unat sz) = Some buf" and "after_range E base = []"
    and "unat base mod 4 = 0" and "unat sz mod 4 = 0" and "0 < unat sz" and "unat base + unat sz < 2 ^ 64"
  shows "findjsobjects_range E D fjs base sz = None"
proof -
  have "3 < unat sz" using assms(7,8) by presburger
  then obtain k where sz: "unat sz = k + 3" "0 < k" using less_imp_add_positive [of 3 "unat sz"] by (metis add.commute)
  let ?a = "base + of_nat k :: uptr"
  have k: "unat (of_nat k :: uptr) = k" by (rule unat_of_nat_lt) (use assms(9) sz(1) in linarith)
  have a: "unat ?a = unat base + k"
    using unat_add_lt [of base "of_nat k"] assms(9) sz(1) unfolding k by linarith
  have "unat ?a mod 4 = 1" unfolding a using assms(6,7) sz by presburger
  then have "unat (?a AND 3) = 1" "unat (?a AND 1) = 1"
    using and_low_unat [of ?a] by simp_all presburger
  then have "?a AND 3 = 1" "?a AND 1 = 1" by (simp_all only: word_unat_eq_iff unat_1)
  then have tag: "V8_IS_HEAPOBJECT D ?a" "\<not> V8_IS_SMI D ?a"
    using assms(1) by (simp_all add: v8_tags_amd64_def V8_IS_HEAPOBJECT_def V8_IS_SMI_def)
  have len: "length buf = unat sz" using vread_length [OF assms(2,4)] .
  have "unat (?a - base + gv D V8_OFF_HEAPOBJECT_MAP) = k - 1"
    using unat_sub_le [of 1 "of_nat k"] k sz by (simp add: assms(3) uptr_le_unat)
  then have "findjsobjects_type E D buf base sz ?a st = None" for st
    using tag sz len assms(5) by (intro type_past_buffer) auto
  moreover have "base < base + sz"
    using unat_add_lt [OF assms(9)] assms(8) by (simp add: uptr_less_unat)
  ultimately show ?thesis
    using scan_undefined [of E D buf base sz base k "unat sz" fjs] assms(4) sz
    by (simp add: findjsobjects_range_def Let_def)
qed

text \<open>The mapping of the first array, with no bytes after the buffer.\<close>

lemma scan_past_buffer_witness:
  "findjsobjects_range (sample_env\<lparr>after_range := \<lambda>_. []\<rparr>) (sample_dbg arrays_words) findjsobjects_state 4096 8 = None"
  using scan_past_buffer [OF sample_tags sample_laws _ , of arrays_words 4096 8 "[1, 32, 0, 0, 0, 0, 0, 0]"
      "sample_env\<lparr>after_range := \<lambda>_. []\<rparr>"] arrays_buf [of 4096]
  by (simp add: arrays_globals)

end
