(* ===== verification/FindCommand.thy ===== *)
theory FindCommand
  imports FindGroups
begin

text \<open>
  The command \<^verbatim>\<open>::findjsobjects\<close> (\<^verbatim>\<open>src/src/mdb_v8.c\<close>) on the groups the heap
  scan left: printing them, choosing those with a property, a constructor or a kind of
  properties, listing the instances of a group, and finding the references to marked
  objects. What is printed is a list of strings.
\<close>

section \<open>References\<close>

definition findjsobjects_references_add ::
    "fjs_env \<Rightarrow> findjsobjects_state \<Rightarrow> v8propvalue \<Rightarrow> string option \<Rightarrow> uptr \<Rightarrow> findjsobjects_state" where
  "findjsobjects_references_add E fjs valp desc index =
     (if v8v_isboxeddouble valp then fjs
      else
        let referents = fjs_referents fjs; search = \<lparr>fjsr_addr = v8v_u valp, fjsr_refs = []\<rparr> in
        (case avl_find_referent E findjsobjects_cmp_referents referents search of
           None \<Rightarrow> fjs
         | Some i \<Rightarrow>
             let reference = \<lparr>fjsrf_addr = fjs_addr fjs, fjsrf_desc = desc,
                              fjsrf_index = (if desc = None then index else 0)\<rparr>;
                 referent = referents ! i
             in fjs\<lparr>fjs_referents := referents[i := referent\<lparr>fjsr_refs := fjsr_refs referent @ [reference]\<rparr>]\<rparr>))"

definition findjsobjects_references_prop ::
    "fjs_env \<Rightarrow> string \<Rightarrow> v8propvalue option \<Rightarrow> findjsobjects_state \<Rightarrow> int \<times> findjsobjects_state" where
  "findjsobjects_references_prop E desc val fjs =
     (0, case val of None \<Rightarrow> fjs | Some valp \<Rightarrow> findjsobjects_references_add E fjs valp (Some desc) (- 1))"

fun references_elts :: "fjs_env \<Rightarrow> nat \<Rightarrow> uptr list \<Rightarrow> findjsobjects_state \<Rightarrow> findjsobjects_state" where
  "references_elts E i [] fjs = fjs"
| "references_elts E i (elt # elts) fjs =
     references_elts E (i + 1) elts
       (findjsobjects_references_add E fjs (jsobj_propvalue_addr elt) None (of_nat i))"

fun findjsobjects_references_array ::
    "fjs_env \<Rightarrow> v8dbg \<Rightarrow> uptr list \<Rightarrow> findjsobjects_state \<Rightarrow> findjsobjects_state" where
  "findjsobjects_references_array E D [] fjs = fjs"
| "findjsobjects_references_array E D (addr # insts) fjs =
     findjsobjects_references_array E D insts
       (case (do {
          ptr \<leftarrow> read_heap_ptr D addr (gv D V8_OFF_JSOBJECT_ELEMENTS);
          read_heap_array D ptr {UM_SLEEP} }) of
          None \<Rightarrow> fjs
        | Some elts \<Rightarrow> references_elts E 0 elts (fjs\<lparr>fjs_addr := addr\<rparr>))"

fun references_insts ::
    "fjs_env \<Rightarrow> v8dbg \<Rightarrow> uptr list \<Rightarrow> findjsobjects_state \<Rightarrow> findjsobjects_state option" where
  "references_insts E D [] fjs = Some fjs"
| "references_insts E D (addr # insts) fjs = do {
     (_, fjs, _) \<leftarrow> jsobj_properties D addr (findjsobjects_references_prop E) (fjs\<lparr>fjs_addr := addr\<rparr>) None;
     references_insts E D insts fjs
   }"

fun references_objs ::
    "fjs_env \<Rightarrow> v8dbg \<Rightarrow> findjsobjects_obj list \<Rightarrow> findjsobjects_state \<Rightarrow> findjsobjects_state option" where
  "references_objs E D [] fjs = Some fjs"
| "references_objs E D (obj # objs) fjs =
     (let insts = instance_list (fjso_instances obj) in
      if fjso_nprops obj \<noteq> 0 \<and> fjso_props obj = []
      then references_objs E D objs (findjsobjects_references_array E D insts fjs)
      else do {
        fjs \<leftarrow> references_insts E D insts fjs;
        references_objs E D objs fjs
      })"

definition reference_print :: "v8dbg \<Rightarrow> uptr \<Rightarrow> findjsobjects_reference \<Rightarrow> string" where
  "reference_print D addr reference =
     fmt_p D addr @ '' referred to by '' @ fmt_p D (fjsrf_addr reference) @
     (case fjsrf_desc reference of
        None \<Rightarrow> ''['' @ fmt_d (fjsrf_index reference) @ '']'' @ NL
      | Some desc \<Rightarrow> ''.'' @ desc @ NL)"

definition referent_print :: "v8dbg \<Rightarrow> findjsobjects_referent \<Rightarrow> string list" where
  "referent_print D referent =
     (if fjsr_refs referent = []
      then [fmt_p D (fjsr_addr referent) @ '' is not referred to by a known object.'' @ NL]
      else map (reference_print D (fjsr_addr referent)) (fjsr_refs referent))"

definition findjsobjects_references ::
    "fjs_env \<Rightarrow> v8dbg \<Rightarrow> findjsobjects_state \<Rightarrow> (findjsobjects_state \<times> string list) option" where
  "findjsobjects_references E D fjs = do {
     fjs \<leftarrow> references_objs E D (fjs_objects fjs) fjs;
     Some (fjs\<lparr>fjs_addr := 0, fjs_referents := []\<rparr>, concat (map (referent_print D) (fjs_referents fjs)))
   }"

text \<open>Marking an object; \<open>None\<close> is the failed assertion that an object is marked twice only by \<open>-m\<close>.\<close>

definition findjsobjects_referent ::
    "fjs_env \<Rightarrow> v8dbg \<Rightarrow> findjsobjects_state \<Rightarrow> uptr \<Rightarrow> (findjsobjects_state \<times> string list) option" where
  "findjsobjects_referent E D fjs addr =
     (let referents = fjs_referents fjs; referent = \<lparr>fjsr_addr = addr, fjsr_refs = []\<rparr> in
      if avl_find_referent E findjsobjects_cmp_referents referents referent \<noteq> None
      then (if fjs_marking fjs then Some (fjs, []) else None)
      else Some (fjs\<lparr>fjs_referents := referents @ [referent]\<rparr>,
                 if fjs_marking fjs then [''findjsobjects: marked '' @ fmt_p D addr @ NL] else []))"

fun referents_add ::
    "fjs_env \<Rightarrow> v8dbg \<Rightarrow> findjsobjects_state \<Rightarrow> uptr list \<Rightarrow> (findjsobjects_state \<times> string list) option" where
  "referents_add E D fjs [] = Some (fjs, [])"
| "referents_add E D fjs (addr # addrs) = do {
     (fjs, out) \<leftarrow> findjsobjects_referent E D fjs addr;
     (fjs, rest) \<leftarrow> referents_add E D fjs addrs;
     Some (fjs, out @ rest)
   }"

section \<open>Choosing objects\<close>

text \<open>The instance at an address and the list of instances it is in.\<close>

fun findjsobjects_instance :: "findjsobjects_obj list \<Rightarrow> uptr \<Rightarrow> (uptr \<times> uptr list) option" where
  "findjsobjects_instance [] addr = None"
| "findjsobjects_instance (obj # objs) addr =
     (if addr \<in> set (instance_list (fjso_instances obj))
      then Some (addr, instance_list (fjso_instances obj))
      else findjsobjects_instance objs addr)"

type_synonym match_func = "v8dbg \<Rightarrow> findjsobjects_obj \<Rightarrow> string \<Rightarrow> string list"

definition print_head :: "v8dbg \<Rightarrow> findjsobjects_obj \<Rightarrow> string list" where
  "print_head D obj = [fmt_p D (fjsi_addr (fjso_instances obj)) @ NL]"

definition findjsobjects_match_all :: match_func where
  "findjsobjects_match_all D obj ignored = print_head D obj"

definition findjsobjects_match_propname :: match_func where
  "findjsobjects_match_propname D obj propname =
     (if \<exists>desc\<in>set (fjso_props obj). strcmp desc propname = 0 then print_head D obj else [])"

definition findjsobjects_match_constructor :: match_func where
  "findjsobjects_match_constructor D obj constructor =
     (if strcmp constructor (fjso_constructor obj) = 0 then print_head D obj else [])"

definition findjsobjects_match_kind :: match_func where
  "findjsobjects_match_kind D obj propkind =
     (let p = fjso_propinfo obj; kind = (\<lambda>flag name. p AND flag \<noteq> 0 \<and> strstr propkind name \<noteq> None) in
      if kind JPI_NUMERIC ''numeric'' \<or> kind JPI_DICT ''dict'' \<or> kind JPI_INOBJECT ''inobject'' \<or>
         kind JPI_PROPS ''props'' \<or> kind JPI_HASTRANSITIONS ''transitions'' \<or>
         kind JPI_HASCONTENT ''content'' \<or> kind JPI_SKIPPED ''skipped'' \<or>
         kind JPI_UNDEFPROPNAME ''undefpropname'' \<or> kind JPI_BADPROPS ''badprop'' \<or>
         kind JPI_BADLAYOUT ''badlayout''
      then print_head D obj else [])"

text \<open>The first object with a property, as the loops over \<open>fjs_objects\<close> find it.\<close>

definition findjsobjects_match ::
    "v8dbg \<Rightarrow> findjsobjects_state \<Rightarrow> uptr \<Rightarrow> bool \<Rightarrow> match_func \<Rightarrow> string \<Rightarrow> int \<times> string list" where
  "findjsobjects_match D fjs addr addrspec func match =
     (if \<not> addrspec
      then (DCMD_OK, concat (map (\<lambda>obj. func D obj match)
              (filter (\<lambda>obj. \<not> (fjso_malformed obj \<and> \<not> fjs_allobjs fjs)) (fjs_objects fjs))))
      else (case List.find (\<lambda>obj. fjsi_addr (fjso_instances obj) = addr) (fjs_objects fjs) of
         Some obj \<Rightarrow> (DCMD_OK, func D obj match)
       | None \<Rightarrow>
           (case List.find (\<lambda>obj. addr \<in> set (instance_list (fjso_instances obj))) (fjs_objects fjs) of
              Some obj \<Rightarrow> (DCMD_OK, func D obj match)
            | None \<Rightarrow> (DCMD_ERR, []))))"

section \<open>Printing\<close>

fun findjsobjects_print_props :: "int \<Rightarrow> string list \<Rightarrow> string list" where
  "findjsobjects_print_props col [] = []"
| "findjsobjects_print_props col (desc # props) =
     (let len = int (length desc) + 2 in
      if col + len < 80
      then (desc @ (if props \<noteq> [] then '', '' else [])) # findjsobjects_print_props (col + len) props
      else [''...''])"

definition findjsobjects_print :: "v8dbg \<Rightarrow> findjsobjects_obj \<Rightarrow> string list" where
  "findjsobjects_print D obj =
     (let col = 19 + int PTRSZ * 2 + 3; cons = fjso_constructor obj in
      [lpad 16 (fmt_p D (fjsi_addr (fjso_instances obj))) @ '' '' @
         lpad 8 (show_int (fjso_ninstances obj)) @ '' '' @ lpad 8 (fmt_d (fjso_nprops obj)) @ '' ''] @
      (if cons \<noteq> [] then [cons @ (if fjso_props obj \<noteq> [] then '': '' else [])] else []) @
      findjsobjects_print_props (if cons \<noteq> [] then col + int (length cons) + 2 else col) (fjso_props obj) @
      [NL])"

section \<open>The command\<close>

text \<open>The options, as \<^verbatim>\<open>mdb_getopts\<close> parses them.\<close>

record fjs_opts =
  fo_allobjs :: bool
  fo_brk :: bool
  fo_constructor :: "string option"
  fo_propkind :: "string option"
  fo_listlike :: bool
  fo_marking :: bool
  fo_propname :: "string option"
  fo_references :: bool
  fo_verbose :: bool

type_synonym fjs_result = "(int \<times> findjsobjects_state \<times> string list) option"

text \<open>With an address and none of the options that choose objects.\<close>

definition findjsobjects_at ::
    "fjs_env \<Rightarrow> v8dbg \<Rightarrow> findjsobjects_state \<Rightarrow> uptr \<Rightarrow> fjs_opts \<Rightarrow>
     (int + findjsobjects_state \<times> string list) option \<times> string list" where
  "findjsobjects_at E D fjs addr P =
     (case findjsobjects_instance (fjs_objects fjs) addr of
        None \<Rightarrow> (Some (Inl DCMD_ERR), [])
      | Some (inst, head) \<Rightarrow>
          if \<not> fo_references P \<and> \<not> fjs_marking fjs
          then (Some (Inl DCMD_OK), map (\<lambda>a. fmt_p D a @ NL) head)
          else (map_option Inr (if \<not> fo_listlike P then findjsobjects_referent E D fjs inst
                                else referents_add E D fjs head), []))"

text \<open>The end of the command: references, or the table of objects.\<close>

definition findjsobjects_report ::
    "fjs_env \<Rightarrow> v8dbg \<Rightarrow> findjsobjects_state \<Rightarrow> fjs_opts \<Rightarrow> fjs_result" where
  "findjsobjects_report E D fjs P = do {
     (fjs, out) \<leftarrow> (if fo_references P then findjsobjects_references E D fjs else Some (fjs, []));
     if fo_references P \<or> fjs_marking fjs then Some (DCMD_OK, fjs, out)
     else Some (DCMD_OK, fjs,
       [lpad 16 ''OBJECT'' @ '' '' @ lpad 8 ''#OBJECTS'' @ '' '' @ lpad 8 ''#PROPS'' @ '' CONSTRUCTOR: PROPS'' @ NL] @
       concat (map (findjsobjects_print D)
         (filter (\<lambda>obj. \<not> (fjso_malformed obj \<and> \<not> fjs_allobjs fjs)) (fjs_objects fjs))))
   }"

text \<open>After the run: the choices among the options, and the conflicts between them.\<close>

definition findjsobjects_select ::
    "fjs_env \<Rightarrow> v8dbg \<Rightarrow> findjsobjects_state \<Rightarrow> uptr \<Rightarrow> bool \<Rightarrow> fjs_opts \<Rightarrow> fjs_result" where
  "findjsobjects_select E D fjs addr addrspec P =
     (let ret = (\<lambda>r. case r of (rv, out) \<Rightarrow> Some (rv, fjs, out)); err = Some (DCMD_ERR, fjs, []);
          match = findjsobjects_match D fjs addr addrspec
      in if fo_listlike P \<and> \<not> addrspec then
           (if fo_propname P \<noteq> None \<or> fo_constructor P \<noteq> None \<or> fo_propkind P \<noteq> None then err
            else ret (match findjsobjects_match_all []))
         else (case (fo_propname P, fo_constructor P, fo_propkind P) of
            (Some propname, cons, propkind) \<Rightarrow>
              if cons \<noteq> None \<or> propkind \<noteq> None then err
              else ret (match findjsobjects_match_propname propname)
          | (None, Some cons, propkind) \<Rightarrow>
              if propkind \<noteq> None then err else ret (match findjsobjects_match_constructor cons)
          | (None, None, Some propkind) \<Rightarrow> ret (match findjsobjects_match_kind propkind)
          | (None, None, None) \<Rightarrow>
              if fo_references P \<and> \<not> addrspec \<and> fjs_referents fjs = [] then err
              else if fjs_marking fjs \<and> \<not> addrspec then err
              else if fo_references P \<and> fjs_marking fjs then err
              else if addrspec then
                (case findjsobjects_at E D fjs addr P of
                   (None, _) \<Rightarrow> None
                 | (Some (Inl rv), out) \<Rightarrow> Some (rv, fjs, out)
                 | (Some (Inr (fjs, out)), _) \<Rightarrow>
                     map_option (\<lambda>(rv, fjs, rest). (rv, fjs, out @ rest)) (findjsobjects_report E D fjs P))
              else findjsobjects_report E D fjs P))"

text \<open>\<open>optsp\<close> is \<open>None\<close> where an argument is not understood.\<close>

definition dcmd_findjsobjects ::
    "fjs_env \<Rightarrow> v8dbg \<Rightarrow> pmapping_iter \<Rightarrow> findjsobjects_state \<Rightarrow> uptr \<Rightarrow> bool \<Rightarrow> fjs_opts option \<Rightarrow> fjs_result" where
  "dcmd_findjsobjects E D pshandle fjs addr addrspec optsp =
     (let fjs = fjs\<lparr>fjs_verbose := False, fjs_brk := False, fjs_marking := False, fjs_allobjs := False\<rparr> in
      case optsp of
        None \<Rightarrow> Some (DCMD_USAGE, fjs, [])
      | Some P \<Rightarrow>
          let fjs = fjs\<lparr>fjs_verbose := fo_verbose P, fjs_brk := fo_brk P, fjs_marking := fo_marking P,
                        fjs_allobjs := fo_allobjs P\<rparr>
          in do {
            (rv, fjs, out) \<leftarrow> findjsobjects_run E D pshandle fjs;
            if rv \<noteq> 0 then Some (DCMD_ERR, fjs, out)
            else if \<not> fjs_finished fjs then Some (DCMD_ERR, fjs, out)
            else map_option (\<lambda>(rv, fjs, rest). (rv, fjs, out @ rest)) (findjsobjects_select E D fjs addr addrspec P)
          })"

section \<open>Lemmas: instances\<close>

lemma findjsobjects_instance_first:
  assumes "\<forall>obj\<in>set objs. addr \<in> set (instance_list (fjso_instances obj)) \<longrightarrow> P obj"
    and "\<exists>obj\<in>set objs. addr \<in> set (instance_list (fjso_instances obj))"
  shows "\<exists>obj\<in>set objs. P obj \<and> findjsobjects_instance objs addr = Some (addr, instance_list (fjso_instances obj))"
  using assms by (induction objs) auto

lemma grouped_instance:
  assumes "grouped found objs" "distinct (map fst found)" "(addr, sig) \<in> set found"
  shows "\<exists>head. findjsobjects_instance objs addr = Some (addr, head) \<and>
    head = hd (with_signature found sig) # rev (tl (with_signature found sig))"
proof -
  have iff: "addr \<in> set (instance_list (fjso_instances obj)) \<longleftrightarrow> (addr, signature obj) \<in> set found"
    if "obj \<in> set objs" for obj
  proof -
    have "group_ok found obj" using assms(1) that by (simp add: grouped_def)
    then show ?thesis by (simp only: instance_set with_signature_iff)
  qed
  have "\<forall>obj\<in>set objs. addr \<in> set (instance_list (fjso_instances obj)) \<longrightarrow> signature obj = sig"
    using iff assms(2,3) by (metis eq_key_imp_eq_value)
  moreover have "\<exists>obj\<in>set objs. addr \<in> set (instance_list (fjso_instances obj))"
  proof -
    have "sig \<in> signature ` set objs" using assms(1,3) by (force simp: grouped_def)
    then show ?thesis using iff assms(3) by auto
  qed
  ultimately obtain obj where "obj \<in> set objs" "signature obj = sig"
    "findjsobjects_instance objs addr = Some (addr, instance_list (fjso_instances obj))"
    using findjsobjects_instance_first [of objs addr "\<lambda>obj. signature obj = sig"] by blast
  then show ?thesis using assms(1) by (auto simp: grouped_def group_ok_def Let_def)
qed

definition list_opts :: fjs_opts where
  "list_opts = \<lparr>fo_allobjs = False, fo_brk = False, fo_constructor = None, fo_propkind = None,
     fo_listlike = False, fo_marking = False, fo_propname = None, fo_references = False, fo_verbose = False\<rparr>"

lemma findjsobjects_lists:
  assumes "target_ok D" "prop_constants_ok D" "libs_ok E" "fjs_fresh fjs"
    and "heap_objects E D False pmpns = Some found" "distinct (map fst found)" "(addr, sig) \<in> set found"
  shows "\<exists>fjs'. dcmd_findjsobjects E D (Some (mappings_iter pmpns)) fjs addr True (Some list_opts) =
    Some (DCMD_OK, fjs', map (\<lambda>a. fmt_p D a @ NL) (hd (with_signature found sig) # rev (tl (with_signature found sig))))"
proof -
  let ?fjs = "fjs\<lparr>fjs_verbose := False, fjs_brk := False, fjs_marking := False, fjs_allobjs := False\<rparr>"
  have fresh: "fjs_fresh ?fjs" using assms(4) by (simp add: fjs_fresh_def)
  obtain fjs1 out where run: "findjsobjects_run E D (Some (mappings_iter pmpns)) ?fjs = Some (0, fjs1, out)"
    and fjs1: "out = []" "fjs_finished fjs1" "fjs_marking fjs1 = False" "grouped found (fjs_objects fjs1)"
    using run_grouped [OF assms(1-3) fresh] assms(5) by (fastforce simp: fjs_same_def)
  from grouped_instance [OF fjs1(4) assms(6,7)] show ?thesis
    using run fjs1
    by (auto simp: dcmd_findjsobjects_def findjsobjects_select_def findjsobjects_at_def list_opts_def)
qed

section \<open>Lemmas: references\<close>

text \<open>
  The references to an address that a traversal of the objects comes by: the properties of an
  object as a recording callback sees them, and the elements of an array.
\<close>

definition props_refs :: "uptr \<Rightarrow> uptr \<Rightarrow> (string \<times> v8propvalue option) list \<Rightarrow> findjsobjects_reference list" where
  "props_refs target addr visits =
     map (\<lambda>v. \<lparr>fjsrf_addr = addr, fjsrf_desc = Some (fst v), fjsrf_index = 0\<rparr>)
       (filter (\<lambda>v. snd v = Some (jsobj_propvalue_addr target)) visits)"

definition object_refs :: "v8dbg \<Rightarrow> uptr \<Rightarrow> uptr \<Rightarrow> findjsobjects_reference list" where
  "object_refs D target addr =
     (case jsobj_properties D addr record_prop [] None of
        None \<Rightarrow> []
      | Some (_, visits, _) \<Rightarrow> props_refs target addr visits)"

definition elts_refs :: "uptr \<Rightarrow> uptr \<Rightarrow> nat \<Rightarrow> uptr list \<Rightarrow> findjsobjects_reference list" where
  "elts_refs target addr i elts =
     map (\<lambda>e. \<lparr>fjsrf_addr = addr, fjsrf_desc = None, fjsrf_index = of_nat (fst e)\<rparr>)
       (filter (\<lambda>e. snd e = target) (zip [i..<i + length elts] elts))"

definition array_refs :: "v8dbg \<Rightarrow> uptr \<Rightarrow> uptr \<Rightarrow> findjsobjects_reference list" where
  "array_refs D target addr =
     (case (do {
        ptr \<leftarrow> read_heap_ptr D addr (gv D V8_OFF_JSOBJECT_ELEMENTS);
        read_heap_array D ptr {UM_SLEEP} }) of
        None \<Rightarrow> []
      | Some elts \<Rightarrow> elts_refs target addr 0 elts)"

definition group_refs :: "v8dbg \<Rightarrow> uptr \<Rightarrow> findjsobjects_obj \<Rightarrow> findjsobjects_reference list" where
  "group_refs D target obj =
     concat (map (if fjso_nprops obj \<noteq> 0 \<and> fjso_props obj = [] then array_refs D target else object_refs D target)
       (instance_list (fjso_instances obj)))"

text \<open>Every referent has gained the references \<open>refs\<close> of its address.\<close>

definition gains ::
    "(uptr \<Rightarrow> findjsobjects_reference list) \<Rightarrow> findjsobjects_state \<Rightarrow> findjsobjects_state \<Rightarrow> bool" where
  "gains refs fjs fjs' \<longleftrightarrow>
     fjs_referents fjs' = map (\<lambda>r. r\<lparr>fjsr_refs := fjsr_refs r @ refs (fjsr_addr r)\<rparr>) (fjs_referents fjs) \<and>
     fjs_objects fjs' = fjs_objects fjs \<and> fjs_finished fjs' = fjs_finished fjs \<and> fjs_marking fjs' = fjs_marking fjs"

definition marked_ok :: "findjsobjects_state \<Rightarrow> bool" where
  "marked_ok fjs \<longleftrightarrow> distinct (map fjsr_addr (fjs_referents fjs))"

lemma gains_marked_ok: "gains refs fjs fjs' \<Longrightarrow> marked_ok fjs' = marked_ok fjs"
  by (simp add: gains_def marked_ok_def o_def)

lemma gains_addr [simp]: "gains refs (fjs\<lparr>fjs_addr := a\<rparr>) fjs' = gains refs fjs fjs'"
  by (simp add: gains_def)

lemma gains_none: "gains (\<lambda>_. []) fjs fjs"
  by (simp add: gains_def)

lemma gains_trans: "gains f a b \<Longrightarrow> gains g b c \<Longrightarrow> gains (\<lambda>t. f t @ g t) a c"
  by (simp add: gains_def o_def)

lemma references_add_gains:
  assumes avl: "avl_ok findjsobjects_cmp_referents (avl_find_referent E findjsobjects_cmp_referents)" and "marked_ok fjs"
  shows "gains (\<lambda>t. if valp = jsobj_propvalue_addr t
      then [\<lparr>fjsrf_addr = fjs_addr fjs, fjsrf_desc = desc, fjsrf_index = (if desc = None then index else 0)\<rparr>] else [])
    fjs (findjsobjects_references_add E fjs valp desc index)"
proof -
  let ?rs = "fjs_referents fjs"
  let ?search = "\<lparr>fjsr_addr = v8v_u valp, fjsr_refs = []\<rparr>"
  have dist: "distinct (map fjsr_addr ?rs)" using assms(2) by (simp add: marked_ok_def)
  have val: "valp = jsobj_propvalue_addr t \<longleftrightarrow> \<not> v8v_isboxeddouble valp \<and> t = v8v_u valp" for t
    by (cases valp) (auto simp: jsobj_propvalue_addr_def)
  show ?thesis
  proof (cases "avl_find_referent E findjsobjects_cmp_referents ?rs ?search")
    case None
    have "v8v_u valp \<notin> fjsr_addr ` set ?rs"
      using marked.avl_find_cases(1) [OF avl dist None] by simp
    then have "valp \<noteq> jsobj_propvalue_addr (fjsr_addr r)" if "r \<in> set ?rs" for r
      using that by (metis val imageI)
    then have "map (\<lambda>r. r\<lparr>fjsr_refs := fjsr_refs r @ (if valp = jsobj_propvalue_addr (fjsr_addr r) then [x] else [])\<rparr>) ?rs = ?rs" for x
      by (intro map_idI) simp
    with None show ?thesis by (simp add: gains_def findjsobjects_references_add_def Let_def)
  next
    case (Some i)
    have i: "i < length ?rs" "fjsr_addr (?rs ! i) = v8v_u valp"
      using marked.avl_find_cases(2) [OF avl dist Some] by auto
    have same: "fjsr_addr (?rs ! j) = v8v_u valp \<longleftrightarrow> j = i" if "j < length ?rs" for j
      using i that nth_eq_iff_index_eq [OF dist, of j i] by auto
    show ?thesis
      using Some i same
      by (auto simp: gains_def findjsobjects_references_add_def Let_def val intro!: nth_equalityI)
  qed
qed

lemma references_add_addr [simp]: "fjs_addr (findjsobjects_references_add E fjs valp desc index) = fjs_addr fjs"
  by (simp add: findjsobjects_references_add_def Let_def split: option.split)

text \<open>The properties of an object, and the elements of an array.\<close>

lemma props_gains:
  assumes avl: "avl_ok findjsobjects_cmp_referents (avl_find_referent E findjsobjects_cmp_referents)" and "marked_ok fjs"
  shows "\<exists>fjs'. cb_iter (visit (findjsobjects_references_prop E)) vs fjs = (0, fjs') \<and>
    gains (\<lambda>t. props_refs t (fjs_addr fjs) vs) fjs fjs'"
  using assms(2)
proof (induction vs arbitrary: fjs)
  case Nil
  then show ?case by (simp add: gains_none props_refs_def)
next
  case (Cons v vs)
  obtain n val where v: "v = (n, val)" by fastforce
  show ?case
  proof (cases val)
    case None
    then show ?thesis using Cons v by (simp add: visit_def findjsobjects_references_prop_def props_refs_def)
  next
    case (Some valp)
    let ?fjs = "findjsobjects_references_add E fjs valp (Some n) (- 1)"
    note one = references_add_gains [OF avl Cons.prems, of valp "Some n" "- 1"]
    obtain fjs' where "cb_iter (visit (findjsobjects_references_prop E)) vs ?fjs = (0, fjs')"
      "gains (\<lambda>t. props_refs t (fjs_addr fjs) vs) ?fjs fjs'"
      using Cons.IH [of ?fjs] gains_marked_ok [OF one] Cons.prems by auto
    note rest = this
    have split: "props_refs t a (v # vs) = (if valp = jsobj_propvalue_addr t
        then [\<lparr>fjsrf_addr = a, fjsrf_desc = Some n, fjsrf_index = (if Some n = None then - 1 else 0)\<rparr>] else []) @
        props_refs t a vs" for t a
      by (simp add: props_refs_def v Some)
    have "visit (findjsobjects_references_prop E) v fjs = (0, ?fjs)"
      by (simp add: visit_def findjsobjects_references_prop_def v Some)
    then show ?thesis
      unfolding split using rest(1) gains_trans [OF one rest(2)] by (intro exI [of _ fjs'] conjI) simp_all
  qed
qed

lemma elts_gains:
  assumes avl: "avl_ok findjsobjects_cmp_referents (avl_find_referent E findjsobjects_cmp_referents)" and "marked_ok fjs"
  shows "gains (\<lambda>t. elts_refs t (fjs_addr fjs) i elts) fjs (references_elts E i elts fjs)"
  using assms(2)
proof (induction elts arbitrary: i fjs)
  case Nil
  then show ?case by (simp add: gains_none elts_refs_def)
next
  case (Cons elt elts)
  let ?fjs = "findjsobjects_references_add E fjs (jsobj_propvalue_addr elt) None (of_nat i)"
  note one = references_add_gains [OF avl Cons.prems, of "jsobj_propvalue_addr elt" None "of_nat i"]
  have "gains (\<lambda>t. elts_refs t (fjs_addr fjs) (i + 1) elts) ?fjs (references_elts E (i + 1) elts ?fjs)"
    using Cons.IH [of ?fjs "i + 1"] gains_marked_ok [OF one] Cons.prems by simp
  note both = gains_trans [OF one this]
  have "[i..<i + length (elt # elts)] = i # [i + 1..<i + 1 + length elts]" by (simp add: upt_rec)
  with both show ?case
    by (simp add: elts_refs_def gains_def o_def jsobj_propvalue_addr_def cong: if_cong)
qed

lemma array_gains:
  assumes avl: "avl_ok findjsobjects_cmp_referents (avl_find_referent E findjsobjects_cmp_referents)" and "marked_ok fjs"
  shows "gains (\<lambda>t. concat (map (array_refs D t) insts)) fjs (findjsobjects_references_array E D insts fjs)"
  using assms(2)
proof (induction insts arbitrary: fjs)
  case Nil
  then show ?case by (simp add: gains_none)
next
  case (Cons addr insts)
  let ?read = "do { ptr \<leftarrow> read_heap_ptr D addr (gv D V8_OFF_JSOBJECT_ELEMENTS); read_heap_array D ptr {UM_SLEEP} }"
  let ?fjs = "case ?read of None \<Rightarrow> fjs | Some elts \<Rightarrow> references_elts E 0 elts (fjs\<lparr>fjs_addr := addr\<rparr>)"
  have "marked_ok (fjs\<lparr>fjs_addr := addr\<rparr>)" using Cons.prems by (simp add: marked_ok_def)
  then have one: "gains (\<lambda>t. array_refs D t addr) fjs ?fjs"
    using elts_gains [OF avl, of "fjs\<lparr>fjs_addr := addr\<rparr>"]
    by (auto simp: array_refs_def gains_none split: option.split)
  then have "gains (\<lambda>t. concat (map (array_refs D t) insts)) ?fjs (findjsobjects_references_array E D insts ?fjs)"
    using Cons.IH gains_marked_ok Cons.prems by blast
  from gains_trans [OF one this] show ?case by simp
qed

lemma insts_gains:
  assumes "target_ok D" "prop_constants_ok D"
    and avl: "avl_ok findjsobjects_cmp_referents (avl_find_referent E findjsobjects_cmp_referents)" and "marked_ok fjs"
  shows "\<exists>fjs'. references_insts E D insts fjs = Some fjs' \<and>
    gains (\<lambda>t. concat (map (object_refs D t) insts)) fjs fjs'"
  using assms(4)
proof (induction insts arbitrary: fjs)
  case Nil
  then show ?case by (simp add: gains_none)
next
  case (Cons addr insts)
  let ?cb = "findjsobjects_references_prop E" and ?fjs = "fjs\<lparr>fjs_addr := addr\<rparr>"
  have "stop_or_go record_prop" "stop_or_go ?cb"
    by (simp_all add: stop_or_go_def record_prop_def findjsobjects_references_prop_def)
  from jsobj_properties_returns [OF assms(1,2) this, of addr] obtain vs rv0 where
    vs: "returns vs rv0 record_prop (jsobj_properties D addr record_prop)"
      "returns vs rv0 ?cb (jsobj_properties D addr ?cb)" by blast
  have refs: "object_refs D t addr = props_refs t addr vs" for t
    using returnsD [OF vs(1) cb_iter_record_prop, of "[]" None] by (auto simp: object_refs_def)
  have "marked_ok ?fjs" using Cons.prems by (simp add: marked_ok_def)
  from props_gains [OF avl this, of vs] obtain fjs1 where
    fjs1: "cb_iter (visit ?cb) vs ?fjs = (0, fjs1)" "gains (\<lambda>t. object_refs D t addr) fjs fjs1"
    by (auto simp: refs)
  obtain p where p: "jsobj_properties D addr ?cb ?fjs None = Some (rv0, fjs1, p)"
    using returnsD [OF vs(2) fjs1(1), of None] by auto
  obtain fjs' where "references_insts E D insts fjs1 = Some fjs'"
    "gains (\<lambda>t. concat (map (object_refs D t) insts)) fjs1 fjs'"
    using Cons.IH gains_marked_ok [OF fjs1(2)] Cons.prems by blast
  with p gains_trans [OF fjs1(2)] show ?case by simp
qed

lemma objs_gains:
  assumes "target_ok D" "prop_constants_ok D"
    and avl: "avl_ok findjsobjects_cmp_referents (avl_find_referent E findjsobjects_cmp_referents)" and "marked_ok fjs"
  shows "\<exists>fjs'. references_objs E D objs fjs = Some fjs' \<and>
    gains (\<lambda>t. concat (map (group_refs D t) objs)) fjs fjs'"
  using assms(4)
proof (induction objs arbitrary: fjs)
  case Nil
  then show ?case by (simp add: gains_none)
next
  case (Cons obj objs)
  let ?insts = "instance_list (fjso_instances obj)"
  let ?array = "fjso_nprops obj \<noteq> 0 \<and> fjso_props obj = []"
  obtain fjs1 where fjs1: "gains (\<lambda>t. group_refs D t obj) fjs fjs1"
    "references_objs E D (obj # objs) fjs = references_objs E D objs fjs1"
  proof (cases ?array)
    case True
    then show ?thesis
      using array_gains [OF avl Cons.prems, of D ?insts] that by (simp add: group_refs_def Let_def)
  next
    case False
    then show ?thesis
      using insts_gains [OF assms(1,2) avl Cons.prems, of ?insts] that
      by (auto simp: group_refs_def Let_def simp del: references_insts.simps)
  qed
  obtain fjs' where "references_objs E D objs fjs1 = Some fjs'"
    "gains (\<lambda>t. concat (map (group_refs D t) objs)) fjs1 fjs'"
    using Cons.IH gains_marked_ok [OF fjs1(1)] Cons.prems by blast
  with fjs1 gains_trans [OF fjs1(1)] show ?case by simp
qed

section \<open>Properties\<close>

text \<open>
  C10. Given the address of an object and no option, the command prints the addresses of
  exactly the objects in the target's mappings that have the signature of that object, the
  first found in front.
\<close>

theorem findjsobjects_like_objects:
  assumes "target_ok D" and "prop_constants_ok D" and "libs_ok E" and "fjs_fresh fjs"
    and "heap_objects E D False pmpns = Some found" and "distinct (map fst found)" and "(addr, sig) \<in> set found"
  shows "\<exists>fjs' first others. dcmd_findjsobjects E D (Some (mappings_iter pmpns)) fjs addr True (Some list_opts) =
      Some (DCMD_OK, fjs', map (\<lambda>a. fmt_p D a @ NL) (first # rev others)) \<and>
    first # others = map fst (filter (\<lambda>f. snd f = sig) found)"
proof -
  have "with_signature found sig \<noteq> []"
    using assms(7) with_signature_iff [of addr found sig] by (metis empty_iff empty_set)
  then have "hd (with_signature found sig) # tl (with_signature found sig) = map fst (filter (\<lambda>f. snd f = sig) found)"
    by (simp add: with_signature_def)
  with findjsobjects_lists [OF assms] show ?thesis
    by (elim exE, intro exI conjI)
qed

text \<open>The first array of the sample heap.\<close>

lemma findjsobjects_like_objects_witness:
  "\<exists>fjs'. dcmd_findjsobjects sample_env (sample_dbg arrays_words) (Some (mappings_iter arrays_maps))
      findjsobjects_state 4353 True (Some list_opts) =
    Some (DCMD_OK, fjs', map (\<lambda>a. fmt_p (sample_dbg arrays_words) a @ NL) [4097, 4353])"
  using findjsobjects_like_objects [OF sample_target_ok arrays_prop_constants sample_libs arrays_fresh(1) arrays_objects,
      of 4353 pair_signature] by auto

text \<open>
  C16. The command finds every reference: for each marked address it prints the references to
  it from all known objects, in the order of the objects and their instances: the properties
  whose value is that address, by name, and the elements of arrays, by index. Then nothing is
  marked any more.
\<close>

theorem findjsobjects_references_complete:
  assumes "target_ok D" and "prop_constants_ok D" and "libs_ok E" and "marked_ok fjs"
    and "\<forall>r\<in>set (fjs_referents fjs). fjsr_refs r = []"
  shows "\<exists>fjs'. findjsobjects_references E D fjs = Some (fjs',
      concat (map (\<lambda>target. referent_print D \<lparr>fjsr_addr = target,
          fjsr_refs = concat (map (group_refs D target) (fjs_objects fjs))\<rparr>)
        (map fjsr_addr (fjs_referents fjs)))) \<and>
    fjs_referents fjs' = [] \<and> fjs_objects fjs' = fjs_objects fjs"
proof -
  have "avl_ok findjsobjects_cmp_referents (avl_find_referent E findjsobjects_cmp_referents)"
    using assms(3) by (simp add: libs_ok_def)
  from objs_gains [OF assms(1,2) this assms(4)] obtain fjs' where
    fjs': "references_objs E D (fjs_objects fjs) fjs = Some fjs'"
      "gains (\<lambda>t. concat (map (group_refs D t) (fjs_objects fjs))) fjs fjs'" by blast
  let ?refs = "\<lambda>t. concat (map (group_refs D t) (fjs_objects fjs))"
  have "fjs_referents fjs' = map (\<lambda>r. \<lparr>fjsr_addr = fjsr_addr r, fjsr_refs = ?refs (fjsr_addr r)\<rparr>) (fjs_referents fjs)"
    using fjs'(2) assms(5) by (simp add: gains_def)
  then show ?thesis
    using fjs' by (simp add: findjsobjects_references_def gains_def o_def)
qed

text \<open>The second array of the sample heap is the first element of both.\<close>

definition pair_obj :: findjsobjects_obj where
  "pair_obj = \<lparr>fjso_props = [], fjso_propinfo = 0, fjso_nprops = 2,
     fjso_instances = \<lparr>fjsi_addr = 4097, fjsi_next = [4353]\<rparr>, fjso_ninstances = 2,
     fjso_malformed = False, fjso_constructor = ''Array''\<rparr>"

definition pair_state :: findjsobjects_state where
  "pair_state = findjsobjects_state\<lparr>fjs_initialized := True, fjs_finished := True, fjs_objects := [pair_obj]\<rparr>"

lemma arrays_elements:
  "read_heap_array (sample_dbg arrays_words) 4225 {UM_SLEEP} = Some [4353, 0]"
  using sample_heap_array [of 4225 arrays_words 2 "{UM_SLEEP}"]
  by (simp add: arrays_words_def upt_rec)

lemma findjsobjects_references_complete_witness:
  "\<exists>fjs'. findjsobjects_references sample_env (sample_dbg arrays_words)
      (pair_state\<lparr>fjs_referents := [\<lparr>fjsr_addr = 4353, fjsr_refs = []\<rparr>]\<rparr>) =
    Some (fjs', map (reference_print (sample_dbg arrays_words) 4353)
      [\<lparr>fjsrf_addr = 4097, fjsrf_desc = None, fjsrf_index = 0\<rparr>,
       \<lparr>fjsrf_addr = 4353, fjsrf_desc = None, fjsrf_index = 0\<rparr>])"
proof -
  let ?D = "sample_dbg arrays_words"
  have "read_heap_ptr ?D a 15 = Some 4225" if "a = 4097 \<or> a = 4353" for a
    using that by (auto simp: sample_ptr arrays_words_def)
  then have "array_refs ?D 4353 a = [\<lparr>fjsrf_addr = a, fjsrf_desc = None, fjsrf_index = 0\<rparr>]" if "a = 4097 \<or> a = 4353" for a
    using that arrays_elements by (simp add: array_refs_def arrays_globals elts_refs_def upt_rec)
  then have "group_refs ?D 4353 pair_obj =
      [\<lparr>fjsrf_addr = 4097, fjsrf_desc = None, fjsrf_index = 0\<rparr>, \<lparr>fjsrf_addr = 4353, fjsrf_desc = None, fjsrf_index = 0\<rparr>]"
    by (simp add: group_refs_def pair_obj_def instance_list_def)
  then show ?thesis
    using findjsobjects_references_complete [OF sample_target_ok arrays_prop_constants sample_libs,
        of "pair_state\<lparr>fjs_referents := [\<lparr>fjsr_addr = 4353, fjsr_refs = []\<rparr>]\<rparr>" arrays_words]
    by (auto simp: marked_ok_def pair_state_def referent_print_def)
qed

definition mark_opts :: fjs_opts where
  "mark_opts = list_opts\<lparr>fo_marking := True\<rparr>"

definition refs_opts :: fjs_opts where
  "refs_opts = list_opts\<lparr>fo_references := True\<rparr>"

text \<open>
  C26. An object that was marked with \<open>-m\<close> cannot be given to \<open>-r\<close> by its address: the
  second command fails the assertion that only marking finds a marked object.
\<close>

theorem mark_then_references_fails:
  assumes "libs_ok E" and "fjs_initialized fjs" and "fjs_finished fjs" and "fjs_referents fjs = []"
    and "findjsobjects_instance (fjs_objects fjs) addr = Some (addr, head)"
  shows "\<exists>fjs' out. dcmd_findjsobjects E D pshandle fjs addr True (Some mark_opts) = Some (DCMD_OK, fjs', out) \<and>
    dcmd_findjsobjects E D pshandle' fjs' addr True (Some refs_opts) = None"
proof -
  have avl: "avl_ok findjsobjects_cmp_referents (avl_find_referent E findjsobjects_cmp_referents)"
    using assms(1) by (simp add: libs_ok_def)
  let ?r = "\<lparr>fjsr_addr = addr, fjsr_refs = []\<rparr>"
  have none: "avl_find_referent E findjsobjects_cmp_referents [] ?r = None"
    using marked.avl_find_cases(2) [OF avl, of "[]" ?r] by (cases "avl_find_referent E findjsobjects_cmp_referents [] ?r") auto
  have some: "avl_find_referent E findjsobjects_cmp_referents [?r] ?r \<noteq> None"
    using marked.avl_find_cases(1) [OF avl, of "[?r]" ?r] by auto
  have "fjs_objects fjs \<noteq> []" using assms(5) by auto
  then show ?thesis
    using assms(2-5) none some
    by (auto simp: dcmd_findjsobjects_def findjsobjects_run_def findjsobjects_select_def findjsobjects_at_def
        findjsobjects_report_def findjsobjects_referent_def mark_opts_def refs_opts_def list_opts_def Let_def)
qed

lemma mark_then_references_fails_witness:
  "\<exists>fjs' out. dcmd_findjsobjects sample_env (sample_dbg arrays_words) None pair_state 4097 True (Some mark_opts) =
      Some (DCMD_OK, fjs', out) \<and>
    dcmd_findjsobjects sample_env (sample_dbg arrays_words) None fjs' 4097 True (Some refs_opts) = None"
  by (rule mark_then_references_fails [OF sample_libs, where head = "[4097, 4353]"])
    (simp_all add: pair_state_def pair_obj_def instance_list_def findjsobjects_state_def)

end
