(* ===== verification/Walkers.thy ===== *)
theory Walkers
  imports JsArray FastObject
begin

text \<open>
  The walkers of the module (\<^verbatim>\<open>src/src/mdb_v8.c\<close>): the elements of a JavaScript array, the
  stack frames from a frame pointer on, and the property values of an object. MDB calls a
  walker's step function as long as it returns \<open>WALK_NEXT\<close>; a step hands one item to
  the callback of the walk and returns what the callback returned, or that the walk is done.
\<close>

section \<open>Walks\<close>

definition WALK_ERR :: int where "WALK_ERR = - 1"
definition WALK_NEXT :: int where "WALK_NEXT = 0"
definition WALK_DONE :: int where "WALK_DONE = 1"

lemmas WALK_defs = WALK_ERR_def WALK_NEXT_def WALK_DONE_def

text \<open>The callback of a walk, and the state of one: where it is and what the callback keeps.\<close>

type_synonym 's walk_cb = "uptr \<Rightarrow> 's \<Rightarrow> int \<times> 's"

record ('d, 's) mdb_walk_state =
  walk_addr :: uptr
  walk_data :: 'd
  walk_cbdata :: 's

text \<open>A walk from a state ends with a result other than \<open>WALK_NEXT\<close>.\<close>

inductive walked :: "('w \<Rightarrow> (int \<times> 'w) option) \<Rightarrow> 'w \<Rightarrow> int \<times> 'w \<Rightarrow> bool" for step where
  walk_stop: "step w = Some (rv, w') \<Longrightarrow> rv \<noteq> WALK_NEXT \<Longrightarrow> walked step w (rv, w')"
| walk_more: "step w = Some (WALK_NEXT, w') \<Longrightarrow> walked step w' r \<Longrightarrow> walked step w r"

inductive_simps walked_step: "walked step w r"

section \<open>The elements of an array\<close>

record jselement_walk_data =
  jsew_memflags :: memflags
  jsew_last :: int
  jsew_array :: v8array

text \<open>\<open>None\<close> is the failed assertion that an allocation that may sleep succeeds.\<close>

definition walk_jselement_init :: "v8dbg \<Rightarrow> uptr \<Rightarrow> (int \<times> jselement_walk_data option) option" where
  "walk_jselement_init D addr =
     (let memflags = {UM_GC, UM_SLEEP} in
      if addr = 0 then Some (WALK_ERR, None)
      else if \<not> zalloc_ok D 32 memflags then None
      else (case v8array_load D addr memflags of
         None \<Rightarrow> Some (WALK_ERR, None)
       | Some ap \<Rightarrow> Some (WALK_NEXT, Some \<lparr>jsew_memflags = memflags, jsew_last = WALK_DONE, jsew_array = ap\<rparr>)))"

definition walk_jsarray_iter_one ::
    "'s walk_cb \<Rightarrow> v8array \<Rightarrow> 32 word \<Rightarrow> uptr \<Rightarrow> int \<times> 's \<Rightarrow> int \<times> int \<times> 's" where
  "walk_jsarray_iter_one cb ap index val st =
     (case cb val (snd st) of (ret, s) \<Rightarrow> (if ret = WALK_NEXT then 0 else - 1, ret, s))"

definition walk_jselement_step ::
    "v8dbg \<Rightarrow> 's walk_cb \<Rightarrow> (jselement_walk_data, 's) mdb_walk_state \<Rightarrow>
     (int \<times> (jselement_walk_data, 's) mdb_walk_state) option" where
  "walk_jselement_step D cb wsp = do {
     let jsew = walk_data wsp;
     (rv, ret, s) \<leftarrow> v8array_iter_elements D (jsew_array jsew) (walk_jsarray_iter_one cb)
        (jsew_last jsew, walk_cbdata wsp);
     Some (if rv = 0 then WALK_DONE else ret,
           wsp\<lparr>walk_data := jsew\<lparr>jsew_last := ret\<rparr>, walk_cbdata := s\<rparr>)
   }"

text \<open>Which blocks are handed back: those of the array, and the walk's own.\<close>

definition walk_jselement_fini :: "jselement_walk_data \<Rightarrow> (bool \<times> bool) \<times> bool" where
  "walk_jselement_fini jsew = (v8array_free (Some (jsew_array jsew)), maybefree (jsew_memflags jsew))"

section \<open>Stack frames\<close>

text \<open>The registers \<^verbatim>\<open>rbp\<close> and \<^verbatim>\<open>rip\<close> of the current thread, if they can be read.\<close>

definition load_current_context :: "(uptr \<times> uptr) option \<Rightarrow> (uptr \<times> uptr) option" where
  "load_current_context regs = regs"

definition walk_jsframes_init :: "(uptr \<times> uptr) option \<Rightarrow> uptr \<Rightarrow> int \<times> uptr" where
  "walk_jsframes_init regs addr =
     (if addr \<noteq> 0 then (WALK_NEXT, addr)
      else (case load_current_context regs of
         None \<Rightarrow> (WALK_ERR, addr)
       | Some (fp, raddr) \<Rightarrow> (WALK_NEXT, fp)))"

definition walk_jsframes_step ::
    "v8dbg \<Rightarrow> 's walk_cb \<Rightarrow> (unit, 's) mdb_walk_state \<Rightarrow> (int \<times> (unit, 's) mdb_walk_state) option" where
  "walk_jsframes_step D cb wsp =
     (case cb (walk_addr wsp) (walk_cbdata wsp) of
        (rv, s) \<Rightarrow>
          let wsp = wsp\<lparr>walk_cbdata := s\<rparr> in
          Some (if rv \<noteq> WALK_NEXT then (rv, wsp)
            else (case mem_vread D (walk_addr wsp) 8 of
              None \<Rightarrow> (WALK_ERR, wsp)
            | Some bs \<Rightarrow>
                let next_fp = le_word bs in
                if next_fp = 0 then (WALK_DONE, wsp) else (WALK_NEXT, wsp\<lparr>walk_addr := next_fp\<rparr>))))"

section \<open>Property values\<close>

text \<open>
  The callbacks that count and collect the values; their state is \<open>None\<close> once the \<open>NULL\<close>
  they are given for an object with an unknown layout was dereferenced.
\<close>

record jsprop_walk_data =
  jspw_nprops :: nat
  jspw_current :: nat
  jspw_props :: "uptr list"

definition walk_jsprop_nprops :: "jsprop_walk_data option prop_cb" where
  "walk_jsprop_nprops desc valp st = (0, do {
     jspw \<leftarrow> st;
     val \<leftarrow> valp;
     Some (if v8v_isboxeddouble val then jspw else jspw\<lparr>jspw_nprops := jspw_nprops jspw + 1\<rparr>)
   })"

definition walk_jsprop_props :: "jsprop_walk_data option prop_cb" where
  "walk_jsprop_props desc valp st = (0, do {
     jspw \<leftarrow> st;
     val \<leftarrow> valp;
     if v8v_isboxeddouble val then Some jspw
     else if \<not> jspw_current jspw < length (jspw_props jspw) then None
     else Some (jspw\<lparr>jspw_props := (jspw_props jspw)[jspw_current jspw := v8v_u val],
                     jspw_current := jspw_current jspw + 1\<rparr>)
   })"

definition walk_jsprop_init :: "v8dbg \<Rightarrow> uptr \<Rightarrow> (int \<times> jsprop_walk_data option) option" where
  "walk_jsprop_init D addr =
     (if addr = 0 then Some (WALK_ERR, None)
      else (case (if V8_IS_HEAPOBJECT D addr then read_typebyte D addr else None) of
         None \<Rightarrow> Some (WALK_ERR, None)
       | Some type \<Rightarrow>
           if \<not> is_type D type V8_TYPE_JSOBJECT then Some (WALK_ERR, None)
           else do {
             (rv, st, _) \<leftarrow> jsobj_properties D addr walk_jsprop_nprops
                (Some \<lparr>jspw_nprops = 0, jspw_current = 0, jspw_props = []\<rparr>) None;
             jspw \<leftarrow> st;
             if rv = - 1 then Some (WALK_ERR, None)
             else do {
               (rv, st, _) \<leftarrow> jsobj_properties D addr walk_jsprop_props
                  (Some (jspw\<lparr>jspw_props := replicate (jspw_nprops jspw) 0\<rparr>)) None;
               jspw \<leftarrow> st;
               if rv = - 1 then Some (WALK_ERR, None)
               else Some (WALK_NEXT, Some (jspw\<lparr>jspw_current := 0\<rparr>))
             }
           }))"

definition walk_jsprop_step ::
    "'s walk_cb \<Rightarrow> (jsprop_walk_data, 's) mdb_walk_state \<Rightarrow> (int \<times> (jsprop_walk_data, 's) mdb_walk_state) option" where
  "walk_jsprop_step cb wsp =
     (let jspw = walk_data wsp in
      if jspw_nprops jspw \<le> jspw_current jspw then Some (WALK_DONE, wsp)
      else if \<not> jspw_current jspw < length (jspw_props jspw) then None
      else (case cb (jspw_props jspw ! jspw_current jspw) (walk_cbdata wsp) of
         (rv, s) \<Rightarrow> Some (if rv \<noteq> WALK_NEXT then rv else WALK_NEXT,
           wsp\<lparr>walk_data := jspw\<lparr>jspw_current := jspw_current jspw + 1\<rparr>, walk_cbdata := s\<rparr>)))"

section \<open>The contract of a walker\<close>

text \<open>
  \<open>todo w xs\<close>: the walk still has the items \<open>xs\<close> before it. A step hands the first of
  them to the callback.
\<close>

locale walker =
  fixes step :: "'w \<Rightarrow> (int \<times> 'w) option" and todo :: "'w \<Rightarrow> uptr list \<Rightarrow> bool"
    and cbdata :: "'w \<Rightarrow> 's" and cb :: "'s walk_cb"
  assumes step_none: "todo w [] \<Longrightarrow> \<exists>w'. step w = Some (WALK_DONE, w') \<and> cbdata w' = cbdata w"
    and step_item: "todo w (x # xs) \<Longrightarrow> cb x (cbdata w) = (rv, s) \<Longrightarrow>
      \<exists>r w'. step w = Some (r, w') \<and> cbdata w' = s \<and>
        (if rv \<noteq> WALK_NEXT then r = rv else r = WALK_NEXT \<and> todo w' xs \<or> r = WALK_DONE \<and> xs = [])"
begin

text \<open>The walk ends, after the callback was called with the items until it returned non-zero.\<close>

lemma walk_visits:
  "todo w xs \<Longrightarrow> cb_iter cb xs (cbdata w) = (rv, s) \<Longrightarrow>
     \<exists>w'. walked step w (if rv = 0 then WALK_DONE else rv, w') \<and> cbdata w' = s"
proof (induction xs arbitrary: w)
  case Nil
  then show ?case using step_none [OF Nil.prems(1)] by (auto intro!: walk_stop simp: WALK_defs)
next
  case (Cons x xs)
  obtain rv1 s1 where cb: "cb x (cbdata w) = (rv1, s1)" by fastforce
  obtain r w1 where w1: "step w = Some (r, w1)" "cbdata w1 = s1"
    and r: "if rv1 \<noteq> WALK_NEXT then r = rv1 else r = WALK_NEXT \<and> todo w1 xs \<or> r = WALK_DONE \<and> xs = []"
    using step_item [OF Cons.prems(1) cb] by blast
  show ?case
  proof (cases "rv1 = 0 \<and> r = WALK_NEXT")
    case True
    then have "todo w1 xs" using r by (auto simp: WALK_defs)
    then obtain w' where "walked step w1 (if rv = 0 then WALK_DONE else rv, w')" "cbdata w' = s"
      using Cons.IH [of w1] Cons.prems(2) cb w1 True by auto
    then show ?thesis using walk_more [of step w w1] w1(1) True by blast
  next
    case False
    then have "walked step w (r, w1)" using w1 r by (auto intro!: walk_stop simp: WALK_defs split: if_splits)
    then show ?thesis using False r cb w1(2) Cons.prems(2) by (auto simp: WALK_defs split: if_splits)
  qed
qed

end

text \<open>Frames: each frame pointer points to the next one, the last to a null pointer.\<close>

fun frame_chain :: "v8dbg \<Rightarrow> uptr list \<Rightarrow> bool" where
  "frame_chain D [] \<longleftrightarrow> False"
| "frame_chain D [fp] \<longleftrightarrow> read_heap_ptr D fp 0 = Some 0"
| "frame_chain D (fp # fp' # fps) \<longleftrightarrow> read_heap_ptr D fp 0 = Some fp' \<and> fp' \<noteq> 0 \<and> frame_chain D (fp' # fps)"

definition frames_todo :: "v8dbg \<Rightarrow> (unit, 's) mdb_walk_state \<Rightarrow> uptr list \<Rightarrow> bool" where
  "frames_todo D wsp fps \<longleftrightarrow> frame_chain D fps \<and> walk_addr wsp = hd fps"

interpretation frames: walker "walk_jsframes_step D cb" "frames_todo D" walk_cbdata cb for D cb
proof
  fix w x xs rv s
  show "frames_todo D w [] \<Longrightarrow> \<exists>w'. walk_jsframes_step D cb w = Some (WALK_DONE, w') \<and> walk_cbdata w' = walk_cbdata w"
    by (simp add: frames_todo_def)
  assume todo: "frames_todo D w (x # xs)" and cb: "cb x (walk_cbdata w) = (rv, s)"
  obtain bs where bs: "mem_vread D x 8 = Some bs" "le_word bs = (case xs of [] \<Rightarrow> 0 | fp # _ \<Rightarrow> fp)"
    using todo by (cases xs) (auto simp: frames_todo_def read_heap_ptr_def)
  show "\<exists>r w'. walk_jsframes_step D cb w = Some (r, w') \<and> walk_cbdata w' = s \<and>
      (if rv \<noteq> WALK_NEXT then r = rv else r = WALK_NEXT \<and> frames_todo D w' xs \<or> r = WALK_DONE \<and> xs = [])"
    using todo cb bs by (cases xs) (auto simp: frames_todo_def walk_jsframes_step_def Let_def)
qed

text \<open>Property values: those from the current index on.\<close>

definition props_todo :: "(jsprop_walk_data, 's) mdb_walk_state \<Rightarrow> uptr list \<Rightarrow> bool" where
  "props_todo wsp vals \<longleftrightarrow>
     (let jspw = walk_data wsp in
      length (jspw_props jspw) = jspw_nprops jspw \<and> vals = drop (jspw_current jspw) (jspw_props jspw))"

interpretation props: walker "walk_jsprop_step cb" props_todo walk_cbdata cb for cb
proof
  fix w :: "(jsprop_walk_data, 'a) mdb_walk_state" and x xs rv s
  let ?d = "walk_data w"
  show "props_todo w [] \<Longrightarrow> \<exists>w'. walk_jsprop_step cb w = Some (WALK_DONE, w') \<and> walk_cbdata w' = walk_cbdata w"
    by (auto simp: props_todo_def walk_jsprop_step_def Let_def)
  assume todo: "props_todo w (x # xs)" and cb: "cb x (walk_cbdata w) = (rv, s)"
  then have "jspw_current ?d < length (jspw_props ?d)"
    by (auto simp: props_todo_def Let_def) (metis drop_all list.distinct(1) not_le)
  moreover from this have "x = jspw_props ?d ! jspw_current ?d" "xs = drop (jspw_current ?d + 1) (jspw_props ?d)"
    using todo by (auto simp: props_todo_def Let_def Cons_nth_drop_Suc [symmetric])
  ultimately show "\<exists>r w'. walk_jsprop_step cb w = Some (r, w') \<and> walk_cbdata w' = s \<and>
      (if rv \<noteq> WALK_NEXT then r = rv else r = WALK_NEXT \<and> props_todo w' xs \<or> r = WALK_DONE \<and> xs = [])"
    using todo cb by (auto simp: props_todo_def walk_jsprop_step_def Let_def)
qed

section \<open>Lemmas: property walks\<close>

text \<open>The values a property walk visits; \<open>None\<close> where a callback is given \<open>NULL\<close>.\<close>

definition boxed_vals :: "(string \<times> v8propvalue option) list \<Rightarrow> uptr list" where
  "boxed_vals visits = map (\<lambda>v. v8v_u (the (snd v)))
     (filter (\<lambda>v. \<not> v8v_isboxeddouble (the (snd v))) visits)"

definition null_visit :: "(string \<times> v8propvalue option) list \<Rightarrow> bool" where
  "null_visit visits \<longleftrightarrow> (\<exists>v\<in>set visits. snd v = None)"

lemma nprops_None: "cb_iter (visit walk_jsprop_nprops) vs None = (0, None)"
  by (induction vs) (simp_all add: visit_def walk_jsprop_nprops_def)

lemma nprops_count:
  "cb_iter (visit walk_jsprop_nprops) vs (Some w) =
     (0, if null_visit vs then None else Some (w\<lparr>jspw_nprops := jspw_nprops w + length (boxed_vals vs)\<rparr>))"
proof (induction vs arbitrary: w)
  case (Cons v vs)
  show ?case
  proof (cases "snd v")
    case None
    then have "visit walk_jsprop_nprops v (Some w) = (0, None)" by (simp add: visit_def walk_jsprop_nprops_def)
    then show ?thesis using None by (simp add: nprops_None null_visit_def)
  next
    case (Some val)
    then have "visit walk_jsprop_nprops v (Some w) =
        (0, Some (if v8v_isboxeddouble val then w else w\<lparr>jspw_nprops := jspw_nprops w + 1\<rparr>))"
      by (simp add: visit_def walk_jsprop_nprops_def)
    then show ?thesis using Some Cons.IH by (simp add: null_visit_def boxed_vals_def)
  qed
qed (simp add: null_visit_def boxed_vals_def)

lemma props_collect:
  assumes "\<not> null_visit vs" "jspw_current w + length (boxed_vals vs) \<le> length (jspw_props w)"
  shows "cb_iter (visit walk_jsprop_props) vs (Some w) =
    (0, Some (w\<lparr>jspw_props := take (jspw_current w) (jspw_props w) @ boxed_vals vs @
                  drop (jspw_current w + length (boxed_vals vs)) (jspw_props w),
                jspw_current := jspw_current w + length (boxed_vals vs)\<rparr>))"
  using assms
proof (induction vs arbitrary: w)
  case Nil
  then show ?case by (simp add: boxed_vals_def)
next
  case (Cons v vs)
  from Cons.prems(1) obtain val where val: "snd v = Some val" and rest: "\<not> null_visit vs"
    by (auto simp: null_visit_def)
  show ?case
  proof (cases "v8v_isboxeddouble val")
    case True
    then have "visit walk_jsprop_props v (Some w) = (0, Some w)"
      by (simp add: visit_def walk_jsprop_props_def val)
    then show ?thesis using Cons.IH [OF rest, of w] Cons.prems(2) True val by (simp add: boxed_vals_def)
  next
    case False
    let ?c = "jspw_current w" and ?p = "jspw_props w"
    let ?w = "w\<lparr>jspw_props := ?p[?c := v8v_u val], jspw_current := ?c + 1\<rparr>"
    have bv: "boxed_vals (v # vs) = v8v_u val # boxed_vals vs" using False val by (simp add: boxed_vals_def)
    have c: "?c < length ?p" using Cons.prems(2) bv by simp
    have "visit walk_jsprop_props v (Some w) = (0, Some ?w)"
      using False c by (simp add: visit_def walk_jsprop_props_def val)
    moreover have "take (?c + 1) (?p[?c := v8v_u val]) = take ?c ?p @ [v8v_u val]"
      using c by (simp add: take_Suc_conv_app_nth)
    ultimately show ?thesis using Cons.IH [OF rest, of ?w] Cons.prems(2) bv by simp
  qed
qed

lemma jsprop_cb_go: "stop_or_go walk_jsprop_nprops" "stop_or_go walk_jsprop_props"
  by (simp_all add: stop_or_go_def walk_jsprop_nprops_def walk_jsprop_props_def)

lemma jsprop_visits:
  assumes "target_ok D" "prop_constants_ok D" "jsobj_properties D addr record_prop [] None = Some (rv0, visits, p0)"
    and "stop_or_go func" "cb_iter (visit func) visits s = (0, s')"
  shows "rv0 \<in> {0, - 1}" "\<exists>p. jsobj_properties D addr func s None = Some (rv0, s', p)"
proof -
  have "stop_or_go record_prop" by (simp add: stop_or_go_def record_prop_def)
  from jsobj_properties_returns [OF assms(1,2) this assms(4), of addr] obtain vs rv1 where
    vs: "returns vs rv1 record_prop (jsobj_properties D addr record_prop)"
      "returns vs rv1 func (jsobj_properties D addr func)" by blast
  have "rv1 = rv0" "vs = visits"
    using returnsD [OF vs(1) cb_iter_record_prop, of "[]" None] assms(3) by auto
  then show "rv0 \<in> {0, - 1}" "\<exists>p. jsobj_properties D addr func s None = Some (rv0, s', p)"
    using vs returnsD [OF vs(2), of s 0 s' None] assms(5) by (auto simp: returns_def)
qed

text \<open>A frame pointer that points to itself is walked forever.\<close>

lemma walked_forever:
  assumes "walked step w r" "\<And>w. P w \<Longrightarrow> \<exists>w'. step w = Some (WALK_NEXT, w') \<and> P w'" "P w"
  shows False
  using assms by (induction rule: walked.induct) fastforce+

lemma frames_walk_cycle:
  assumes "read_heap_ptr D fp 0 = Some fp" "fp \<noteq> 0" "\<And>s. fst (cb fp s) = WALK_NEXT"
  shows "\<not> walked (walk_jsframes_step D cb) \<lparr>walk_addr = fp, walk_data = (), walk_cbdata = s\<rparr> r"
proof
  let ?P = "\<lambda>w. walk_addr w = fp"
  obtain bs where bs: "mem_vread D fp 8 = Some bs" "le_word bs = fp"
    using assms(1) by (auto simp: read_heap_ptr_def)
  have step: "\<exists>w'. walk_jsframes_step D cb w = Some (WALK_NEXT, w') \<and> ?P w'" if "?P w" for w
    using that bs assms(2) assms(3) [of "walk_cbdata w"]
    by (auto simp: walk_jsframes_step_def Let_def split: prod.splits)
  assume "walked (walk_jsframes_step D cb) \<lparr>walk_addr = fp, walk_data = (), walk_cbdata = s\<rparr> r"
  then show False by (rule walked_forever [where P = ?P]) (use step in auto)
qed

section \<open>Properties\<close>

text \<open>
  C24. A walk of the stack frames from the innermost one ends: the callback is called with each
  frame pointer of the chain in order, until it returns something other than \<open>WALK_NEXT\<close>,
  which is then the result of the walk; otherwise the walk is done after the last frame.
\<close>

theorem frames_walk_ends:
  assumes "frame_chain D fps" and "cb_iter cb fps s = (rv, s')"
  shows "\<exists>wsp. walked (walk_jsframes_step D cb) \<lparr>walk_addr = hd fps, walk_data = (), walk_cbdata = s\<rparr>
      (if rv = 0 then WALK_DONE else rv, wsp) \<and> walk_cbdata wsp = s'"
  using frames.walk_visits [of D "\<lparr>walk_addr = hd fps, walk_data = (), walk_cbdata = s\<rparr>" fps cb] assms
  by (simp add: frames_todo_def)

text \<open>Two frames.\<close>

lemma frames_walk_ends_witness:
  "\<exists>wsp. walked (walk_jsframes_step (sample_dbg [(4096, 4128), (4128, 0)]) record_cb)
      \<lparr>walk_addr = 4096, walk_data = (), walk_cbdata = []\<rparr> (WALK_DONE, wsp) \<and> walk_cbdata wsp = [4096, 4128]"
proof -
  have "frame_chain (sample_dbg [(4096, 4128), (4128, 0)]) [4096, 4128]"
    by (simp add: sample_ptr)
  from frames_walk_ends [OF this cb_iter_record [of _ "[]"]] show ?thesis by simp
qed

text \<open>
  C25. Whether the walk of an object's properties can start, and what it visits: for an object
  one of whose properties has no value (the layout is not understood), the walker reads through
  a null pointer; otherwise, when the properties can be iterated, the walk visits exactly their
  values that are not unboxed doubles, in order.
\<close>

theorem jsprop_walk_values:
  assumes "target_ok D" and "prop_constants_ok D"
    and "jsobj_properties D addr record_prop [] None = Some (rv0, visits, p0)"
    and "addr \<noteq> 0" and "V8_IS_HEAPOBJECT D addr" and "read_typebyte D addr = Some type"
    and "is_type D type V8_TYPE_JSOBJECT"
  shows "if null_visit visits then walk_jsprop_init D addr = None
    else if rv0 = - 1 then walk_jsprop_init D addr = Some (WALK_ERR, None)
    else \<exists>jspw. walk_jsprop_init D addr = Some (WALK_NEXT, Some jspw) \<and>
      (\<forall>(cb :: 's walk_cb) s rv s'. cb_iter cb (boxed_vals visits) s = (rv, s') \<longrightarrow>
        (\<exists>wsp. walked (walk_jsprop_step cb) \<lparr>walk_addr = addr, walk_data = jspw, walk_cbdata = s\<rparr>
           (if rv = 0 then WALK_DONE else rv, wsp) \<and> walk_cbdata wsp = s'))"
proof -
  let ?vals = "boxed_vals visits"
  let ?wa = "\<lparr>jspw_nprops = 0, jspw_current = 0, jspw_props = []\<rparr>"
  let ?wb = "\<lparr>jspw_nprops = length ?vals, jspw_current = 0, jspw_props = replicate (length ?vals) 0\<rparr>"
  let ?wc = "\<lparr>jspw_nprops = length ?vals, jspw_current = length ?vals, jspw_props = ?vals\<rparr>"
  note counted = nprops_count [of visits ?wa]
  obtain p where p: "jsobj_properties D addr walk_jsprop_nprops (Some ?wa) None =
      Some (rv0, if null_visit visits then None else Some (?wa\<lparr>jspw_nprops := length ?vals\<rparr>), p)"
    using jsprop_visits(2) [OF assms(1-3) jsprop_cb_go(1) counted] by auto
  show ?thesis
  proof (cases "null_visit visits \<or> rv0 = - 1")
    case True
    then show ?thesis using p assms(4-7) by (auto simp: walk_jsprop_init_def)
  next
    case False
    have rv0: "rv0 = 0" using jsprop_visits(1) [OF assms(1-3) jsprop_cb_go(1) counted] False by simp
    have "cb_iter (visit walk_jsprop_props) visits (Some ?wb) = (0, Some ?wc)"
      using props_collect [of visits ?wb] False by simp
    from jsprop_visits(2) [OF assms(1-3) jsprop_cb_go(2) this] obtain p' where
      "jsobj_properties D addr walk_jsprop_props (Some ?wb) None = Some (0, Some ?wc, p')" using rv0 by auto
    then have init: "walk_jsprop_init D addr = Some (WALK_NEXT, Some (?wc\<lparr>jspw_current := 0\<rparr>))"
      using p assms(4-7) False rv0 by (simp add: walk_jsprop_init_def)
    have "props_todo \<lparr>walk_addr = addr, walk_data = ?wc\<lparr>jspw_current := 0\<rparr>, walk_cbdata = s\<rparr> ?vals" for s :: 's
      by (simp add: props_todo_def)
    note walk = props.walk_visits [OF this]
    have "\<forall>(cb :: 's walk_cb) s rv s'. cb_iter cb ?vals s = (rv, s') \<longrightarrow>
        (\<exists>wsp. walked (walk_jsprop_step cb) \<lparr>walk_addr = addr, walk_data = ?wc\<lparr>jspw_current := 0\<rparr>, walk_cbdata = s\<rparr>
           (if rv = 0 then WALK_DONE else rv, wsp) \<and> walk_cbdata wsp = s')"
      by (intro allI impI walk) simp
    moreover have "\<not> null_visit visits" "rv0 \<noteq> - 1" using False by simp_all
    ultimately show ?thesis using init by auto
  qed
qed

text \<open>The two property values of the sample object.\<close>

lemma jsprop_walk_values_witness:
  "\<exists>jspw wsp. walk_jsprop_init (sample_dbg object_words) 4097 = Some (WALK_NEXT, Some jspw) \<and>
     walked (walk_jsprop_step record_cb) \<lparr>walk_addr = 4097, walk_data = jspw, walk_cbdata = []\<rparr> (WALK_DONE, wsp) \<and>
     walk_cbdata wsp = [push_bit 32 11, 4161]"
proof -
  let ?D = "sample_dbg object_words" and ?visits = "map prop_visit object_props"
  have target: "target_ok ?D" "prop_constants_ok ?D" using object_target by (simp_all add: js_target_def)
  obtain p where p: "jsobj_properties ?D 4097 record_prop [] None = Some (0, ?visits, p)"
    using fast_object_iteration [OF object_target object_fast, of record_prop "[]" None]
    unfolding cb_iter_record_prop by auto
  have type: "read_typebyte ?D 4097 = Some 172" by (simp add: sample_typebyte object_words_def)
  have vals: "boxed_vals ?visits = [push_bit 32 11, 4161]" "\<not> null_visit ?visits"
    by (simp_all add: boxed_vals_def null_visit_def object_props_def prop_visit_def jsobj_propvalue_addr_def)
  have obj: "(4097 :: uptr) \<noteq> 0" "V8_IS_HEAPOBJECT ?D 4097" "is_type ?D 172 V8_TYPE_JSOBJECT"
    by (simp_all add: is_type_def V8_IS_HEAPOBJECT_def sample_values_def)
  obtain jspw where "walk_jsprop_init ?D 4097 = Some (WALK_NEXT, Some jspw)"
    and walk: "\<And>rv s'. cb_iter record_cb (boxed_vals ?visits) [] = (rv, s') \<Longrightarrow>
        \<exists>wsp. walked (walk_jsprop_step record_cb) \<lparr>walk_addr = 4097, walk_data = jspw, walk_cbdata = []\<rparr>
           (if rv = 0 then WALK_DONE else rv, wsp) \<and> walk_cbdata wsp = s'"
    using jsprop_walk_values [where 's = "uptr list", OF target p obj(1,2) type obj(3)] vals(2) by auto
  then show ?thesis using walk [OF cb_iter_record] vals(1) by auto
qed

end
