(* ===== verification/FindRefs.thy ===== *)
theory FindRefs
  imports Ugrep Whatis JsPrint PropIter
begin

text \<open>
  The command \<^verbatim>\<open>::jsfindrefs\<close> (\<^verbatim>\<open>src/src/mdb_v8.c\<close>): which JavaScript values refer
  to a value. Every word of the target that holds the value's address is taken to be inside
  a heap object; where that is an array that V8 keeps for itself, the search goes on with
  the address of the array, up to a maximal depth. The recursion through the search is given
  a number of levels; \<open>None\<close> is a run that needs more, or is undefined.
\<close>

record jsfindrefs_t =
  jsfr_addr :: uptr
  jsfr_origaddr :: uptr
  jsfr_maxoffset :: uptr
  jsfr_curdepth :: "16 word"
  jsfr_maxdepth :: "16 word"
  jsfr_verbose :: bool
  jsfr_debug :: bool

text \<open>The types of JavaScript values that are reported.\<close>

definition js_value_type :: "v8dbg \<Rightarrow> byte \<Rightarrow> bool" where
  "js_value_type D type \<longleftrightarrow>
     is_type D type V8_TYPE_HEAPNUMBER \<or> is_type D type V8_TYPE_MUTABLEHEAPNUMBER \<or>
     is_type D type V8_TYPE_ODDBALL \<or> is_type D type V8_TYPE_JSOBJECT \<or> is_type D type V8_TYPE_JSARRAY \<or>
     is_type D type V8_TYPE_JSFUNCTION \<or> is_type D type V8_TYPE_JSDATE \<or> is_type D type V8_TYPE_JSREGEXP \<or>
     is_type D type V8_TYPE_JSTYPEDARRAY \<or> is_type D type V8_TYPE_JSBOUNDFUNCTION \<or>
     V8_TYPE_STRING D type \<and> (V8_STRREP_CONS D type \<or> V8_STRREP_SLICED D type)"

definition type_or_unknown :: "v8dbg \<Rightarrow> byte \<Rightarrow> string option" where
  "type_or_unknown D type = map_option the (enum_lookup_str NTYPES (v8_types D) (ucast type) (Some ''(unknown)''))"

text \<open>What is printed only with \<^verbatim>\<open>-d\<close>.\<close>

definition findrefs_debug :: "jsfindrefs_t \<Rightarrow> string list \<Rightarrow> string \<Rightarrow> string list" where
  "findrefs_debug jsfr out s = (if jsfr_debug jsfr then out @ [s] else out)"

definition fmt_depth :: "16 word \<Rightarrow> string" where
  "fmt_depth d = show_int (uint d)"

text \<open>The properties of an object that may be garbage: the result of the check, and the flags.\<close>

definition garbage_object :: "v8dbg \<Rightarrow> uptr \<Rightarrow> (bool \<times> jspropinfo) option" where
  "garbage_object D addr = do {
     (rv, _, propinfo) \<leftarrow> jsobj_properties D addr jsobj_noop () (Some JPI_NONE);
     Some (rv \<noteq> 0 \<or> the propinfo AND JPI_MAYBE_GARBAGE \<noteq> 0, the propinfo)
   }"

text \<open>An object that was found; \<open>rec\<close> is the search for the references to another address.\<close>

definition jsfindrefs_object ::
    "v8dbg \<Rightarrow> (jsfindrefs_t \<Rightarrow> string list \<Rightarrow> (int \<times> string list) option) \<Rightarrow> jsfindrefs_t \<Rightarrow> v8whatis_t \<Rightarrow>
     string list \<Rightarrow> (int \<times> string list) option" where
  "jsfindrefs_object D rec jsfr whatis out =
     (let base = v8w_baseaddr whatis; type = v8w_basetype whatis; debug = findrefs_debug jsfr in
      if js_value_type D type then
        (if jsfr_debug jsfr \<or> jsfr_verbose jsfr
         then map_option (\<lambda>t. (0, out @ [fmt_p D base @ '' (type: '' @ t @ '')'' @ NL])) (type_or_unknown D type)
         else Some (0, out @ [fmt_p D base @ NL]))
      else if is_type D type V8_TYPE_FIXEDARRAY then
        (let out = debug out (''internal V8 intermediate object'' @ NL) in
         if uint (jsfr_curdepth jsfr) = uint (jsfr_maxdepth jsfr) - 1 then Some (0, out)
         else rec (jsfr\<lparr>jsfr_addr := base, jsfr_curdepth := jsfr_curdepth jsfr + 1\<rparr>) out)
      else if jsfr_debug jsfr
      then map_option (\<lambda>t. (0, out @ [''giving up search at instance of '' @ t @ NL])) (type_or_unknown D type)
      else Some (0, out))"

definition jsfindrefs_reference ::
    "v8dbg \<Rightarrow> (jsfindrefs_t \<Rightarrow> string list \<Rightarrow> (int \<times> string list) option) \<Rightarrow> jsfindrefs_t \<Rightarrow> uptr \<Rightarrow>
     string list \<Rightarrow> (int \<times> string list) option" where
  "jsfindrefs_reference D rec jsfr refaddr out =
     (let debug = findrefs_debug jsfr;
          out = debug out (''depth '' @ fmt_depth (jsfr_curdepth jsfr) @ '': '' @ fmt_p D (jsfr_addr jsfr) @
                  '': found reference at '' @ fmt_p D refaddr @ '': '')
      in (case v8whatis D refaddr (jsfr_maxoffset jsfr)
                 \<lparr>v8w_addr = 0, v8w_origaddr = 0, v8w_baseaddr = 0, v8w_basetype = 0\<rparr> of
            None \<Rightarrow> None
          | Some (V8W_ERR_NOTFOUND, _) \<Rightarrow>
              Some (0, debug out (''no heap object found within '' @ fmt_d (jsfr_maxoffset jsfr) @ '' bytes'' @ NL))
          | Some (V8W_ERR_DOESNTCONTAIN, _) \<Rightarrow>
              Some (0, debug out (''does not appear to be contained in a heap object'' @ NL))
          | Some (V8W_OK, whatis) \<Rightarrow>
              let type = v8w_basetype whatis; base = v8w_baseaddr whatis in do {
                (garbage, propinfo) \<leftarrow>
                  (if is_type D type V8_TYPE_JSOBJECT then garbage_object D base else Some (False, JPI_NONE));
                if garbage then
                  Some (0, debug out (''skipping apparent garbage object: '' @ fmt_p D base @ '' ('' @
                    digits_of 16 (unat propinfo) @ '')'' @ NL))
                else if is_type D type V8_TYPE_JSFUNCTION \<and> 1 < jsfr_curdepth jsfr then
                  Some (0, debug out (''skipping JSFunction reference '' @ fmt_p D base @ '' at depth '' @
                    fmt_depth (jsfr_curdepth jsfr) @ NL))
                else jsfindrefs_object D rec jsfr whatis out
              }))"

text \<open>A callback whose run may be undefined, on states that are \<open>None\<close> from then on.\<close>

definition partial_cb :: "('x \<Rightarrow> 's \<Rightarrow> (int \<times> 's) option) \<Rightarrow> 'x \<Rightarrow> 's option \<Rightarrow> int \<times> 's option" where
  "partial_cb f x st =
     (case (case st of None \<Rightarrow> None | Some s \<Rightarrow> f x s) of
        None \<Rightarrow> (- 1, None)
      | Some (rv, s) \<Rightarrow> (rv, Some s))"

type_synonym findrefs_iter =
  "((string list option ugrep_op \<Rightarrow> prmap \<Rightarrow> (int \<times> string list option ugrep_op) option) \<Rightarrow>
    string list option ugrep_op \<Rightarrow> (int \<times> string list option ugrep_op) option) option"

fun jsfindrefs :: "nat \<Rightarrow> v8dbg \<Rightarrow> findrefs_iter \<Rightarrow> jsfindrefs_t \<Rightarrow> string list \<Rightarrow> (int \<times> string list) option" where
  "jsfindrefs 0 D pshandle jsfr out = None"
| "jsfindrefs (Suc n) D pshandle jsfr out =
     (case dbi_ugrep D pshandle (jsfr_addr jsfr)
             (partial_cb (jsfindrefs_reference D (jsfindrefs n D pshandle) jsfr)) (Some out) of
        Some (rv, Some out) \<Rightarrow> Some (rv, out)
      | _ \<Rightarrow> None)"

text \<open>
  The options in the order in which they are given. \<^verbatim>\<open>-l\<close> is stored as a \<open>uintptr_t\<close>, eight
  bytes, at the two bytes of the depth: the rest goes to the four bytes of the verbose flag
  and the lower half of the debug flag.
\<close>

datatype findrefs_opt = OPT_V | OPT_D | OPT_L uptr

fun findrefs_getopt :: "findrefs_opt \<Rightarrow> jsfindrefs_t \<Rightarrow> jsfindrefs_t" where
  "findrefs_getopt OPT_V jsfr = jsfr\<lparr>jsfr_verbose := True\<rparr>"
| "findrefs_getopt OPT_D jsfr = jsfr\<lparr>jsfr_debug := True\<rparr>"
| "findrefs_getopt (OPT_L v) jsfr =
     jsfr\<lparr>jsfr_maxdepth := ucast v, jsfr_verbose := (ucast (drop_bit 16 v) :: 32 word) \<noteq> 0,
          jsfr_debug := (ucast (drop_bit 48 v) :: 16 word) \<noteq> 0\<rparr>"

definition findrefs_init :: "uptr \<Rightarrow> jsfindrefs_t" where
  "findrefs_init addr = \<lparr>jsfr_addr = addr, jsfr_origaddr = addr, jsfr_maxoffset = 16384, jsfr_curdepth = 0,
     jsfr_maxdepth = 5, jsfr_verbose = False, jsfr_debug = False\<rparr>"

text \<open>
  \<open>opts\<close> is \<open>None\<close> where an argument is not understood. With \<open>2 ^ 16\<close> levels every depth of
  16 bits that is not zero is reached.
\<close>

definition dcmd_jsfindrefs ::
    "v8dbg \<Rightarrow> findrefs_iter \<Rightarrow> uptr \<Rightarrow> bool \<Rightarrow> findrefs_opt list option \<Rightarrow> (int \<times> string list) option" where
  "dcmd_jsfindrefs D pshandle addr addrspec opts =
     (if \<not> addrspec then Some (DCMD_USAGE, [])
      else (case opts of
         None \<Rightarrow> Some (DCMD_USAGE, [])
       | Some os \<Rightarrow> do {
           (err, out) \<leftarrow> jsfindrefs (2 ^ 16) D pshandle (fold findrefs_getopt os (findrefs_init addr)) [];
           Some (if err = 0 then DCMD_OK else DCMD_ERR, out)
         }))"

section \<open>What is a reference\<close>

text \<open>
  The object a word is in, if it is one that counts: not garbage, and no function more than one
  level up.
\<close>

definition holder :: "v8dbg \<Rightarrow> uptr \<Rightarrow> nat \<Rightarrow> uptr \<Rightarrow> (uptr \<times> byte) option" where
  "holder D maxoffset depth refaddr =
     (case v8whatis D refaddr maxoffset \<lparr>v8w_addr = 0, v8w_origaddr = 0, v8w_baseaddr = 0, v8w_basetype = 0\<rparr> of
        Some (V8W_OK, whatis) \<Rightarrow>
          let type = v8w_basetype whatis; base = v8w_baseaddr whatis in
          if is_type D type V8_TYPE_JSOBJECT \<and> fst (the (garbage_object D base)) then None
          else if is_type D type V8_TYPE_JSFUNCTION \<and> 1 < depth then None
          else Some (base, type)
      | _ \<Rightarrow> None)"

text \<open>The JavaScript values that refer to an address, through at most \<open>maxdepth\<close> levels.\<close>

inductive js_referrer :: "v8dbg \<Rightarrow> prmap list \<Rightarrow> uptr \<Rightarrow> nat \<Rightarrow> nat \<Rightarrow> uptr \<Rightarrow> uptr \<Rightarrow> bool"
  for D pmps maxoffset maxdepth where
  value_refers: "pmp \<in> set pmps \<Longrightarrow> refaddr \<in> set (mapping_refs D addr pmp) \<Longrightarrow>
     holder D maxoffset depth refaddr = Some (base, type) \<Longrightarrow> js_value_type D type \<Longrightarrow>
     js_referrer D pmps maxoffset maxdepth depth addr base"
| array_refers: "pmp \<in> set pmps \<Longrightarrow> refaddr \<in> set (mapping_refs D addr pmp) \<Longrightarrow>
     holder D maxoffset depth refaddr = Some (base, type) \<Longrightarrow> \<not> js_value_type D type \<Longrightarrow>
     is_type D type V8_TYPE_FIXEDARRAY \<Longrightarrow> Suc depth < maxdepth \<Longrightarrow>
     js_referrer D pmps maxoffset maxdepth (Suc depth) base val \<Longrightarrow>
     js_referrer D pmps maxoffset maxdepth depth addr val"

inductive_simps js_referrer_cases: "js_referrer D pmps maxoffset maxdepth depth addr val"

section \<open>Lemmas\<close>

lemma v8whatis_total:
  assumes "v8_tags_amd64 D" "unat maxoffset \<le> 2 ^ 64 - 8"
  shows "\<exists>err w'. v8whatis D origaddr maxoffset w = Some (err, w')"
proof -
  let ?a = "(origaddr AND NOT 7) OR 1"
  have addr: "(origaddr AND NOT (of_nat PTRSZ - 1)) OR gv D V8_HeapObjectTag = ?a"
    using assms(1) by (simp add: PTRSZ_def v8_tags_amd64_def)
  obtain r where "whatis_loop D ?a maxoffset 0 = Some r"
    using whatis_loop_find [OF assms refl, of 0] by simp
  then show ?thesis by (cases r) (auto simp: v8whatis_def Let_def addr)
qed

lemma garbage_object_total:
  assumes "target_ok D" "prop_constants_ok D"
  shows "\<exists>g. garbage_object D addr = Some g"
proof -
  have "stop_or_go (jsobj_noop :: unit prop_cb)" by (simp add: stop_or_go_def jsobj_noop_def)
  from jsobj_properties_returns [OF assms this this, of addr] obtain vs rv0
    where "returns vs rv0 jsobj_noop (jsobj_properties D addr (jsobj_noop :: unit prop_cb))" by blast
  from returnsD [OF this, of "()" _ "()" "Some JPI_NONE"] show ?thesis
    by (cases "cb_iter (visit (jsobj_noop :: unit prop_cb)) vs ()") (auto simp: garbage_object_def)
qed

text \<open>What one word contributes.\<close>

definition refs_via :: "v8dbg \<Rightarrow> prmap list \<Rightarrow> uptr \<Rightarrow> nat \<Rightarrow> nat \<Rightarrow> uptr \<Rightarrow> uptr set" where
  "refs_via D pmps maxoffset maxdepth depth refaddr =
     {val. \<exists>base type. holder D maxoffset depth refaddr = Some (base, type) \<and>
        (js_value_type D type \<and> val = base \<or>
         \<not> js_value_type D type \<and> is_type D type V8_TYPE_FIXEDARRAY \<and> Suc depth < maxdepth \<and>
         js_referrer D pmps maxoffset maxdepth (Suc depth) base val)}"

lemma js_referrer_via:
  "{val. js_referrer D pmps maxoffset maxdepth depth addr val} =
     (\<Union>refaddr \<in> set (concat (map (mapping_refs D addr) pmps)). refs_via D pmps maxoffset maxdepth depth refaddr)"
  by (subst js_referrer_cases) (auto simp: refs_via_def; blast)

definition addr_lines :: "v8dbg \<Rightarrow> uptr list \<Rightarrow> string list" where
  "addr_lines D bs = map (\<lambda>b. fmt_p D b @ NL) bs"

text \<open>A search that prints the addresses of a set.\<close>

definition prints :: "v8dbg \<Rightarrow> (string list \<Rightarrow> (int \<times> string list) option) \<Rightarrow> uptr set \<Rightarrow> bool" where
  "prints D f S \<longleftrightarrow> (\<forall>out. \<exists>bs. f out = Some (0, out @ addr_lines D bs) \<and> set bs = S)"

lemma prints_nothing: "(\<And>out. f out = Some (0, out)) \<Longrightarrow> prints D f {}"
  by (auto simp: prints_def addr_lines_def)

lemma prints_one: "(\<And>out. f out = Some (0, out @ [fmt_p D b @ NL])) \<Longrightarrow> prints D f {b}"
  unfolding prints_def addr_lines_def by (rule allI, rule exI [of _ "[b]"]) simp

lemma cb_iter_prints:
  assumes "\<forall>r\<in>set refs. prints D (f r) (S r)"
  shows "\<exists>bs. cb_iter (partial_cb f) refs (Some out) = (0, Some (out @ addr_lines D bs)) \<and> set bs = (\<Union>r\<in>set refs. S r)"
  using assms
proof (induction refs arbitrary: out)
  case Nil
  then show ?case by (simp add: addr_lines_def)
next
  case (Cons r refs)
  obtain bs where bs: "f r out = Some (0, out @ addr_lines D bs)" "set bs = S r"
    using Cons.prems unfolding prints_def by (meson list.set_intros(1))
  obtain cs where cs: "cb_iter (partial_cb f) refs (Some (out @ addr_lines D bs)) =
      (0, Some ((out @ addr_lines D bs) @ addr_lines D cs))" "set cs = (\<Union>r\<in>set refs. S r)"
    using Cons.IH [of "out @ addr_lines D bs"] Cons.prems by auto
  have "partial_cb f r (Some out) = (0, Some (out @ addr_lines D bs))" by (simp add: partial_cb_def bs(1))
  then show ?case
    by (intro exI [of _ "bs @ cs"]) (use bs cs in \<open>simp add: addr_lines_def\<close>)
qed

lemma reference_prints:
  assumes tags: "v8_tags_amd64 D" and target: "target_ok D" "prop_constants_ok D"
    and off: "unat (jsfr_maxoffset jsfr) \<le> 2 ^ 64 - 8" and quiet: "\<not> jsfr_verbose jsfr" "\<not> jsfr_debug jsfr"
    and depth: "unat (jsfr_curdepth jsfr) < unat (jsfr_maxdepth jsfr)"
    and rec: "\<And>base. Suc (unat (jsfr_curdepth jsfr)) < unat (jsfr_maxdepth jsfr) \<Longrightarrow>
      prints D (rec (jsfr\<lparr>jsfr_addr := base, jsfr_curdepth := jsfr_curdepth jsfr + 1\<rparr>))
        {val. js_referrer D pmps (jsfr_maxoffset jsfr) (unat (jsfr_maxdepth jsfr)) (Suc (unat (jsfr_curdepth jsfr))) base val}"
  shows "prints D (jsfindrefs_reference D rec jsfr refaddr)
    (refs_via D pmps (jsfr_maxoffset jsfr) (unat (jsfr_maxdepth jsfr)) (unat (jsfr_curdepth jsfr)) refaddr)"
proof -
  let ?w0 = "\<lparr>v8w_addr = 0, v8w_origaddr = 0, v8w_baseaddr = 0, v8w_basetype = 0\<rparr>"
  let ?d = "unat (jsfr_curdepth jsfr)" and ?m = "unat (jsfr_maxdepth jsfr)"
  obtain err w where w: "v8whatis D refaddr (jsfr_maxoffset jsfr) ?w0 = Some (err, w)"
    using v8whatis_total [OF tags off] by blast
  obtain g p where g: "garbage_object D (v8w_baseaddr w) = Some (g, p)"
    using garbage_object_total [OF target] by fastforce
  have one: "1 < jsfr_curdepth jsfr \<longleftrightarrow> 1 < ?d" by (simp add: word_less_nat_alt)
  have bottom: "uint (jsfr_curdepth jsfr) = uint (jsfr_maxdepth jsfr) - 1 \<longleftrightarrow> Suc ?d = ?m"
    unfolding uint_nat by linarith
  note defs = jsfindrefs_reference_def findrefs_debug_def quiet w
  show ?thesis
  proof (cases "holder D (jsfr_maxoffset jsfr) ?d refaddr")
    case None
    then have "refs_via D pmps (jsfr_maxoffset jsfr) ?m ?d refaddr = {}" by (simp add: refs_via_def)
    moreover have "jsfindrefs_reference D rec jsfr refaddr out = Some (0, out)" for out
      using None g by (cases err) (auto simp: defs holder_def Let_def one split: if_splits)
    ultimately show ?thesis by (simp add: prints_nothing)
  next
    case (Some bt)
    then have err: "err = V8W_OK" by (cases err) (auto simp: holder_def w)
    let ?t = "v8w_basetype w" and ?b = "v8w_baseaddr w"
    have bt: "bt = (?b, ?t)" and ok: "\<not> (is_type D ?t V8_TYPE_JSOBJECT \<and> g)" "\<not> (is_type D ?t V8_TYPE_JSFUNCTION \<and> 1 < ?d)"
      using Some g by (auto simp: holder_def w err Let_def split: if_splits)
    have obj: "jsfindrefs_reference D rec jsfr refaddr out = jsfindrefs_object D rec jsfr w out" for out
      using ok g by (auto simp: defs err Let_def one)
    have via: "refs_via D pmps (jsfr_maxoffset jsfr) ?m ?d refaddr =
      (if js_value_type D ?t then {?b}
       else if is_type D ?t V8_TYPE_FIXEDARRAY \<and> Suc ?d < ?m
         then {val. js_referrer D pmps (jsfr_maxoffset jsfr) ?m (Suc ?d) ?b val} else {})"
      by (auto simp: refs_via_def Some bt)
    have lt: "Suc ?d = ?m \<or> Suc ?d < ?m" using depth by linarith
    consider "js_value_type D ?t" | "\<not> js_value_type D ?t" "is_type D ?t V8_TYPE_FIXEDARRAY" "Suc ?d < ?m"
      | "\<not> js_value_type D ?t" "\<not> (is_type D ?t V8_TYPE_FIXEDARRAY \<and> Suc ?d < ?m)" by blast
    then show ?thesis
    proof cases
      case 1
      then show ?thesis
        unfolding via prints_def by (auto simp: obj jsfindrefs_object_def Let_def quiet addr_lines_def intro!: exI [of _ "[?b]"])
    next
      case 2
      then have "jsfindrefs_reference D rec jsfr refaddr =
          rec (jsfr\<lparr>jsfr_addr := ?b, jsfr_curdepth := jsfr_curdepth jsfr + 1\<rparr>)"
        by (intro ext) (simp add: obj jsfindrefs_object_def Let_def findrefs_debug_def quiet bottom)
      with 2 rec [of ?b] show ?thesis unfolding via by simp
    next
      case 3
      then have "jsfindrefs_reference D rec jsfr refaddr out = Some (0, out)" for out
        using lt by (auto simp: obj jsfindrefs_object_def Let_def findrefs_debug_def quiet bottom)
      with 3 show ?thesis unfolding via by (auto intro: prints_nothing)
    qed
  qed
qed

lemma jsfindrefs_prints:
  assumes tags: "v8_tags_amd64 D" and laws: "vread_laws D" and target: "target_ok D" "prop_constants_ok D"
    and maps: "\<forall>pmp\<in>set pmps. mapping_ok pmp"
    and off: "unat (jsfr_maxoffset jsfr) \<le> 2 ^ 64 - 8" and quiet: "\<not> jsfr_verbose jsfr" "\<not> jsfr_debug jsfr"
    and depth: "unat (jsfr_curdepth jsfr) < unat (jsfr_maxdepth jsfr)"
    and fuel: "unat (jsfr_maxdepth jsfr) \<le> unat (jsfr_curdepth jsfr) + n"
  shows "prints D (jsfindrefs n D (Some (mappings_iter pmps)) jsfr)
    {val. js_referrer D pmps (jsfr_maxoffset jsfr) (unat (jsfr_maxdepth jsfr)) (unat (jsfr_curdepth jsfr)) (jsfr_addr jsfr) val}"
  using off quiet depth fuel
proof (induction n arbitrary: jsfr)
  case (Suc n)
  let ?d = "unat (jsfr_curdepth jsfr)" and ?m = "unat (jsfr_maxdepth jsfr)"
  let ?rec = "jsfindrefs n D (Some (mappings_iter pmps))"
  have rec: "prints D (?rec (jsfr\<lparr>jsfr_addr := base, jsfr_curdepth := jsfr_curdepth jsfr + 1\<rparr>))
      {val. js_referrer D pmps (jsfr_maxoffset jsfr) ?m (Suc ?d) base val}" if lt: "Suc ?d < ?m" for base
  proof -
    have "?m < 2 ^ 16" using unsigned_less [of "jsfr_maxdepth jsfr"] by simp
    then have "unat (jsfr_curdepth jsfr + 1) = Suc ?d" using lt by (simp add: unat_word_ariths)
    then show ?thesis
      using Suc.IH [of "jsfr\<lparr>jsfr_addr := base, jsfr_curdepth := jsfr_curdepth jsfr + 1\<rparr>"] Suc.prems lt by simp
  qed
  let ?refs = "concat (map (mapping_refs D (jsfr_addr jsfr)) pmps)"
  let ?f = "jsfindrefs_reference D ?rec jsfr"
  have "\<forall>r\<in>set ?refs. prints D (?f r) (refs_via D pmps (jsfr_maxoffset jsfr) ?m ?d r)"
    using reference_prints [OF tags target Suc.prems(1-4) rec] by blast
  note found = cb_iter_prints [OF this]
  show ?case
    unfolding prints_def js_referrer_via
  proof
    fix out
    obtain bs where bs: "cb_iter (partial_cb ?f) ?refs (Some out) = (0, Some (out @ addr_lines D bs))"
      "set bs = (\<Union>r\<in>set ?refs. refs_via D pmps (jsfr_maxoffset jsfr) ?m ?d r)" using found by blast
    then have "jsfindrefs (Suc n) D (Some (mappings_iter pmps)) jsfr out = Some (0, out @ addr_lines D bs)"
      by (simp only: jsfindrefs.simps dbi_ugrep_refs [OF laws maps]) simp
    with bs(2) show "\<exists>bs. jsfindrefs (Suc n) D (Some (mappings_iter pmps)) jsfr out = Some (0, out @ addr_lines D bs) \<and>
        set bs = (\<Union>r\<in>set ?refs. refs_via D pmps (jsfr_maxoffset jsfr) ?m ?d r)" by blast
  qed
qed simp

section \<open>Properties\<close>

text \<open>
  C6. The search for the JavaScript values that refer to a value ends, and prints exactly the
  addresses of the values that refer to it, directly or through at most \<open>maxdepth\<close> arrays of
  V8's own: objects that hold the address in a word of a mapping, are no garbage, and, for
  functions, are not more than one level up.
\<close>

theorem jsfindrefs_exact:
  assumes "v8_tags_amd64 D" and "vread_laws D" and "target_ok D" and "prop_constants_ok D"
    and "\<forall>pmp\<in>set pmps. mapping_ok pmp"
    and "0 < depth" and "depth < 2 ^ 16"
  shows "\<exists>vals. dcmd_jsfindrefs D (Some (mappings_iter pmps)) addr True (Some [OPT_L (of_nat depth)]) =
      Some (DCMD_OK, map (\<lambda>v. fmt_p D v @ NL) vals) \<and>
    set vals = {v. js_referrer D pmps 16384 depth 0 addr v}"
proof -
  let ?jsfr = "findrefs_getopt (OPT_L (of_nat depth)) (findrefs_init addr)"
  have depth: "unat (of_nat depth :: uptr) = depth" by (rule unat_of_nat_lt) (use assms(7) in simp)
  have "drop_bit 16 (of_nat depth :: uptr) = 0" "drop_bit 48 (of_nat depth :: uptr) = 0"
    using assms(7) by (simp_all only: word_unat_eq_iff unsigned_drop_bit_eq depth) (simp_all add: drop_bit_eq_div take_bit_eq_mod)
  moreover have "unat (ucast (of_nat depth :: uptr) :: 16 word) = depth"
    using assms(7) depth by (simp add: unsigned_ucast_eq take_bit_nat_eq_self_iff)
  ultimately have fields: "\<not> jsfr_verbose ?jsfr" "\<not> jsfr_debug ?jsfr" "unat (jsfr_maxdepth ?jsfr) = depth"
    "jsfr_curdepth ?jsfr = 0" "jsfr_maxoffset ?jsfr = 16384" "jsfr_addr ?jsfr = addr"
    by (simp_all add: findrefs_init_def)
  have "prints D (jsfindrefs (2 ^ 16) D (Some (mappings_iter pmps)) ?jsfr)
      {v. js_referrer D pmps (jsfr_maxoffset ?jsfr) (unat (jsfr_maxdepth ?jsfr)) (unat (jsfr_curdepth ?jsfr)) (jsfr_addr ?jsfr) v}"
    by (rule jsfindrefs_prints [OF assms(1-5)]) (use fields assms(6,7) in simp_all)
  then obtain vals where "jsfindrefs (2 ^ 16) D (Some (mappings_iter pmps)) ?jsfr [] = Some (0, addr_lines D vals)"
    "set vals = {v. js_referrer D pmps 16384 depth 0 addr v}"
    unfolding prints_def fields by (auto dest: spec [where x = "[]"])
  then show ?thesis by (auto simp: dcmd_jsfindrefs_def addr_lines_def simp del: jsfindrefs.simps findrefs_getopt.simps)
qed

text \<open>
  An array at 4096 keeps its elements at 4224; the first of them is 4353. The Maps are at
  8192 and 8256, with the Map of Maps at 8320.
\<close>

definition refs_words :: "(uptr \<times> uptr) list" where
  "refs_words =
     [(4096, 8193), (4104, 4353), (4112, 4225), (4120, push_bit 32 2), (4224, 8257), (4232, push_bit 32 2),
      (4240, 4353), (8192, 8321), (8200, 170), (8240, 4), (8256, 8321), (8264, 164), (8328, 129)]"

lemma refs_types:
  "read_typebyte (sample_dbg refs_words) 4353 = None" "read_typebyte (sample_dbg refs_words) 8589934592 = None"
  "read_typebyte (sample_dbg refs_words) 8193 = Some 129" "read_typebyte (sample_dbg refs_words) 8257 = Some 129"
  "read_typebyte (sample_dbg refs_words) 4225 = Some 164" "read_typebyte (sample_dbg refs_words) 4097 = Some 170"
proof -
  let ?D = "sample_dbg refs_words"
  show "read_typebyte ?D 8193 = Some 129" "read_typebyte ?D 8257 = Some 129"
    "read_typebyte ?D 4225 = Some 164" "read_typebyte ?D 4097 = Some 170"
    by (simp_all add: sample_typebyte refs_words_def)
  show "read_typebyte ?D 4353 = None" "read_typebyte ?D 8589934592 = None"
    by (simp_all add: read_typebyte_def sample_values_def V8_IS_HEAPOBJECT_def sample_vread_def sample_byte_def
        refs_words_def upt_rec push_bit_eq_mult)
qed

lemma refs_candidates:
  "whatis_candidate (sample_dbg refs_words) 4241 = None" "whatis_candidate (sample_dbg refs_words) 4233 = None"
  "whatis_candidate (sample_dbg refs_words) 4225 = Some 164"
  "whatis_candidate (sample_dbg refs_words) 4113 = None" "whatis_candidate (sample_dbg refs_words) 4105 = None"
  "whatis_candidate (sample_dbg refs_words) 4097 = Some 170"
proof -
  let ?D = "sample_dbg refs_words"
  have map: "gv ?D V8_OFF_HEAPOBJECT_MAP = - 1" "is_type ?D 129 V8_TYPE_MAP" "\<not> is_type ?D 164 V8_TYPE_MAP"
    by (simp_all add: sample_values_def is_type_def)
  have word: "read_heap_ptr ?D 4241 (- 1) = Some 4353" "read_heap_ptr ?D 4233 (- 1) = Some (push_bit 32 2)"
    "read_heap_ptr ?D 4225 (- 1) = Some 8257" "read_heap_ptr ?D 4113 (- 1) = Some 4225"
    "read_heap_ptr ?D 4105 (- 1) = Some 4353" "read_heap_ptr ?D 4097 (- 1) = Some 8193"
    by (simp_all add: sample_ptr refs_words_def)
  show "whatis_candidate ?D 4241 = None" "whatis_candidate ?D 4233 = None" "whatis_candidate ?D 4225 = Some 164"
    "whatis_candidate ?D 4113 = None" "whatis_candidate ?D 4105 = None" "whatis_candidate ?D 4097 = Some 170"
    unfolding whatis_candidate_def map(1) word by (simp_all add: refs_types map(2,3) del: push_bit_of_0)
qed

lemma refs_contains:
  "v8contains (sample_dbg refs_words) 4225 164 4241 = Some True"
  "v8contains (sample_dbg refs_words) 4097 170 4113 = Some True"
proof -
  let ?D = "sample_dbg refs_words"
  have byte: "sample_vread (words_at refs_words) 8240 (Suc 0) = Some [4]"
    by (simp add: sample_vread_def sample_byte_def refs_words_def)
  show "v8contains ?D 4225 164 4241 = Some True"
    by (simp add: v8contains_def v8fixedarray_load_def refs_types sample_smi is_type_def sample_values_def
        refs_words_def V8_TYPE_STRING_def V8_IS_HEAPOBJECT_def v8fixedarray_length_def PTRSZ_def
        push_bit_eq_mult drop_bit_eq_div sample_typebyte)
  have "read_size ?D 4097 = Some 32"
    using byte by (simp add: read_size_def sample_ptr sample_values_def V8_IS_HEAPOBJECT_def read_heap_byte_def)
      (simp add: refs_words_def)
  then show "v8contains ?D 4097 170 4113 = Some True"
    by (simp add: v8contains_def is_type_def sample_values_def V8_TYPE_STRING_def)
qed

lemma refs_holders:
  "holder (sample_dbg refs_words) 16384 d 4240 = Some (4225, 164)"
  "holder (sample_dbg refs_words) 16384 d 4112 = Some (4097, 170)"
proof -
  let ?D = "sample_dbg refs_words"
  have tag: "V8_IS_HEAPOBJECT ?D 4241" "V8_IS_HEAPOBJECT ?D 4233" "V8_IS_HEAPOBJECT ?D 4225"
    "V8_IS_HEAPOBJECT ?D 4113" "V8_IS_HEAPOBJECT ?D 4105" "V8_IS_HEAPOBJECT ?D 4097" "gv ?D V8_HeapObjectTag = 1"
    by (simp_all add: V8_IS_HEAPOBJECT_def sample_values_def)
  have "whatis_loop ?D 4241 16384 0 = Some (Some (4225, 164))" "whatis_loop ?D 4113 16384 0 = Some (Some (4097, 170))"
    using tag refs_candidates
    by (subst whatis_loop.simps, simp add: PTRSZ_def, subst whatis_loop.simps, simp add: PTRSZ_def,
        subst whatis_loop.simps, simp add: PTRSZ_def)+
  then show "holder ?D 16384 d 4240 = Some (4225, 164)" "holder ?D 16384 d 4112 = Some (4097, 170)"
    using refs_contains
    by (simp_all add: holder_def v8whatis_def tag(7) PTRSZ_def Let_def is_type_def sample_values_def)
qed

definition refs_map :: prmap where
  "refs_map = \<lparr>pr_vaddr = 4096, pr_size = 256\<rparr>"

lemma refs_found:
  "4240 \<in> set (mapping_refs (sample_dbg refs_words) 4353 refs_map)"
  "4112 \<in> set (mapping_refs (sample_dbg refs_words) 4225 refs_map)"
proof -
  let ?D = "sample_dbg refs_words"
  have read: "chunk_readable ?D refs_map 0" by (simp add: chunk_readable_def sample_vread_def)
  have "read_heap_ptr ?D 4096 (of_nat (8 * 18)) = Some 4353" "read_heap_ptr ?D 4096 (of_nat (8 * 2)) = Some 4225"
    by (simp_all add: sample_ptr refs_words_def)
  then have "is_reference ?D 4353 refs_map 18" "is_reference ?D 4225 refs_map 2"
    using read by (simp_all add: is_reference_def refs_map_def)
  then show "4240 \<in> set (mapping_refs ?D 4353 refs_map)" "4112 \<in> set (mapping_refs ?D 4225 refs_map)"
    by (force simp: mapping_refs_def refs_map_def)+
qed

lemma refs_referrer: "js_referrer (sample_dbg refs_words) [refs_map] 16384 3 0 4353 4097"
proof -
  let ?D = "sample_dbg refs_words"
  have types: "js_value_type ?D 170" "\<not> js_value_type ?D 164" "is_type ?D 164 V8_TYPE_FIXEDARRAY"
    by (simp_all add: js_value_type_def is_type_def sample_values_def V8_TYPE_STRING_def)
  have "js_referrer ?D [refs_map] 16384 3 (Suc 0) 4225 4097"
    by (rule value_refers [OF _ refs_found(2) refs_holders(2) types(1)]) simp
  then show ?thesis
    by (rule array_refers [OF _ refs_found(1) refs_holders(1) types(2,3), rotated 2]) simp_all
qed

lemma jsfindrefs_exact_witness:
  "\<exists>vals. dcmd_jsfindrefs (sample_dbg refs_words) (Some (mappings_iter [refs_map])) 4353 True (Some [OPT_L 3]) =
     Some (DCMD_OK, map (\<lambda>v. fmt_p (sample_dbg refs_words) v @ NL) vals) \<and> 4097 \<in> set vals"
proof -
  have maps: "\<forall>pmp\<in>set [refs_map]. mapping_ok pmp" by (simp add: mapping_ok_def refs_map_def)
  have pconst: "prop_constants_ok (sample_dbg refs_words)"
    by (simp add: prop_constants_ok_def dict_constants_ok_def dict_start_def sample_values_def)
  show ?thesis
    using jsfindrefs_exact [OF sample_tags sample_laws sample_target_ok pconst maps, of 3 4353] refs_referrer by auto
qed

text \<open>
  \<^verbatim>\<open>-l\<close> after \<^verbatim>\<open>-v\<close> and \<^verbatim>\<open>-d\<close> turns both off, and a depth of 65536 is a depth of 0 that turns
  \<^verbatim>\<open>-v\<close> on.
\<close>

lemma findrefs_depth_clobbers:
  "fold findrefs_getopt [OPT_V, OPT_D, OPT_L 3] (findrefs_init addr) = findrefs_getopt (OPT_L 3) (findrefs_init addr)"
  "fold findrefs_getopt [OPT_L 65536] (findrefs_init addr) = (findrefs_init addr)\<lparr>jsfr_maxdepth := 0, jsfr_verbose := True\<rparr>"
  by (simp_all add: findrefs_init_def drop_bit_eq_div)

end
