(* ===== verification/Frames.thy ===== *)
theory Frames
  imports ObjType Walkers StringText
begin

text \<open>
  Stack frames (\<^verbatim>\<open>src/src/mdb_v8.c\<close>): the classification of a frame as native, internal to
  V8, or JavaScript, what is printed for it, and the commands \<^verbatim>\<open>::jsframe\<close> and
  \<^verbatim>\<open>::jsstack\<close>. With \<open>-v\<close> the source of the function is shown with line numbers.

  The renderings \<^verbatim>\<open>%a\<close> and \<^verbatim>\<open>%A\<close> of an address as a symbol are parameters, as is
  \<^verbatim>\<open>mdb_pwalk_dcmd\<close>, which runs a command on the items of a walk. \<^verbatim>\<open>%<b>\<close> and
  \<^verbatim>\<open>%</b>\<close> switch bold text on and off and are shown as they stand. The strings printed
  for names are not verbose, so the string writer itself prints nothing.
\<close>

section \<open>Lines of source\<close>

text \<open>
  The buffer is doubled until the source leaves more than ten bytes of it. The source and the
  size of its buffer; \<open>Some None\<close> where the function returns.
\<close>

partial_function (option) lines_source :: "v8dbg \<Rightarrow> uptr \<Rightarrow> uptr \<Rightarrow> (string \<times> uptr) option option" where
  "lines_source D src bufsz =
     (if \<not> zalloc_ok D (unat bufsz) {} then Some None
      else Option.bind (jsstr_print D src JSSTR_NUDE \<lparr>lb_text = [], lb_len = unat bufsz\<rparr>) (\<lambda>(rv, b, _).
        if rv \<noteq> 0 then Some None
        else if 10 < lb_len b then Some (Some (lbuf_cstr b, bufsz))
        else lines_source D src (push_bit 1 bufsz)))"

text \<open>
  The first pass over the text: the lines of the characters at \<open>startp\<close> and \<open>endp\<close>, or
  \<open>-1\<close>. Index and line are \<^verbatim>\<open>int\<close>s and may overflow; the index is compared as a
  \<open>uintptr_t\<close>.
\<close>

fun lines_span :: "string \<Rightarrow> int \<Rightarrow> int \<Rightarrow> uptr \<Rightarrow> uptr \<Rightarrow> int \<Rightarrow> (int \<times> int) option" where
  "lines_span [] i line startp endp startline = Some (startline, - 1)"
| "lines_span (c # cs) i line startp endp startline = do {
     line \<leftarrow> (if c = CHR 0x0A then c_int (line + 1) else Some line);
     let startline = (if of_int i = startp then line else startline);
     if of_int i = endp then Some (startline, line)
     else do {
       i \<leftarrow> c_int (i + 1);
       lines_span cs i line startp endp startline
     }
   }"

text \<open>The second pass, with the last value of \<open>line\<close>. Its bounds are computed for every character.\<close>

fun lines_print ::
    "(int \<Rightarrow> string) option \<Rightarrow> int \<Rightarrow> int \<Rightarrow> int \<Rightarrow> string \<Rightarrow> int \<Rightarrow> int \<Rightarrow> bool \<Rightarrow> (string list \<times> int) option" where
  "lines_print pfx startline endline nlines [] i line newline = Some ([], line)"
| "lines_print pfx startline endline nlines (c # cs) i line newline = do {
     line \<leftarrow> (if c = CHR 0x0A then c_int (line + 1) else Some line);
     let newline = (c = CHR 0x0A \<or> newline);
     first \<leftarrow> c_int (startline - nlines);
     if line < first then do {
       i \<leftarrow> c_int (i + 1);
       lines_print pfx startline endline nlines cs i line newline
     }
     else do {
       last \<leftarrow> c_int (endline + nlines);
       if line > last then Some ([], line)
       else do {
         let within = (startline \<le> line \<and> line \<le> endline);
         let mark = (if \<not> newline then []
           else (if within then [''%<b>''] else []) @
             (case pfx of None \<Rightarrow> [] | Some p \<Rightarrow> [p line]) @
             (if within then [''%</b>''] else []));
         i \<leftarrow> c_int (i + 1);
         (out, line') \<leftarrow> lines_print pfx startline endline nlines cs i line False;
         Some ([c] # mark @ out, line')
       }
     }
   }"

definition jsfunc_lines ::
    "v8dbg \<Rightarrow> uptr \<Rightarrow> uptr \<Rightarrow> uptr \<Rightarrow> uptr \<Rightarrow> (int \<Rightarrow> string) option \<Rightarrow> string list option" where
  "jsfunc_lines D scriptp startp endp nlines pfx =
     (case read_heap_ptr D scriptp (gv D V8_OFF_SCRIPT_SOURCE) of
        None \<Rightarrow> Some []
      | Some src \<Rightarrow> do {
          r \<leftarrow> lines_source D src 1024;
          (case r of
             None \<Rightarrow> Some []
           | Some (buf, bufsz) \<Rightarrow>
               if bufsz \<le> endp then Some []
               else do {
                 (startline, endline) \<leftarrow> lines_span buf 0 1 startp endp (- 1);
                 if startline = - 1 \<or> endline = - 1 then Some []
                 else do {
                   let nlines = sint (ucast nlines :: 32 word);
                   (out, line) \<leftarrow> lines_print pfx startline endline nlines buf 0 1 True;
                   Some (out @ [NL] @ (if line = endline then [''%</b>''] else []))
                 }
               })
        })"

text \<open>The prefix \<^verbatim>\<open>%5d\<close> of both callers.\<close>

definition line_prefix :: "int \<Rightarrow> string" where
  "line_prefix line = lpad 5 (show_int line) @ '' ''"

section \<open>Frames\<close>

record frame_env =
  fmt_a :: "uptr \<Rightarrow> string"
  fmt_A :: "uptr \<Rightarrow> string"

record jsframe =
  jsf_showall :: bool
  jsf_verbose :: bool
  jsf_func :: "string option"
  jsf_prop :: "string option"
  jsf_nlines :: uptr
  jsf_nskipped :: "32 word"

definition jsframe_skip :: "jsframe \<Rightarrow> jsframe" where
  "jsframe_skip jsf = jsf\<lparr>jsf_nskipped := jsf_nskipped jsf + 1\<rparr>"

definition jsframe_print_skipped :: "jsframe \<Rightarrow> jsframe \<times> mdb_out list" where
  "jsframe_print_skipped jsf =
     (jsf\<lparr>jsf_nskipped := 0\<rparr>,
      if jsf_nskipped jsf = 1 then [OUT (''        (1 internal frame elided)'' @ NL)]
      else if jsf_nskipped jsf > 1
      then [OUT (''        ('' @ fmt_d (ucast (jsf_nskipped jsf)) @ '' internal frames elided)'' @ NL)]
      else [])"

text \<open>A word of the stack, and one that holds a small integer.\<close>

definition stack_word :: "v8dbg \<Rightarrow> uptr \<Rightarrow> uptr option" where
  "stack_word D addr = map_option le_word (mem_vread D addr 8)"

definition stack_smi :: "v8dbg \<Rightarrow> uptr \<Rightarrow> uptr option" where
  "stack_smi D addr = do {
     ftype \<leftarrow> stack_word D addr;
     if V8_IS_SMI D ftype then Some (V8_SMI_VALUE D ftype) else None
   }"

text \<open>A frame that is shown as a line of text with \<open>-a\<close> only, and counted otherwise.\<close>

definition jsframe_internal :: "jsframe \<Rightarrow> string option \<Rightarrow> jsframe \<times> mdb_out list" where
  "jsframe_internal jsf line =
     (case (jsf_showall jsf, line) of
        (True, Some s) \<Rightarrow> (case jsframe_print_skipped jsf of (jsf, out) \<Rightarrow> (jsf, out @ [OUT s]))
      | _ \<Rightarrow> (jsframe_skip jsf, []))"

text \<open>The name of an arguments adaptor frame, if this is one (before V8 5.1).\<close>

definition adaptor_frame :: "v8dbg \<Rightarrow> uptr \<Rightarrow> string option option" where
  "adaptor_frame D fptr =
     (case (if v8_version_current_older D 5 1 0 0 then stack_smi D (fptr + gv D V8_OFF_FP_CONTEXT) else None) of
        None \<Rightarrow> Some None
      | Some ftype \<Rightarrow> do {
          ftypename \<leftarrow> enum_lookup_str NFRAMETYPES (v8_frametypes D) (ucast ftype) None;
          Some (case ftypename of
             None \<Rightarrow> None
           | Some n \<Rightarrow> if strstr n ''ArgumentsAdaptor'' \<noteq> None then Some n else None)
        })"

text \<open>Native and special frames: 0 when the frame was one of those.\<close>

definition do_jsframe_special ::
    "frame_env \<Rightarrow> v8dbg \<Rightarrow> uptr \<Rightarrow> uptr \<Rightarrow> jsframe \<Rightarrow> (int \<times> jsframe \<times> mdb_out list) option" where
  "do_jsframe_special E D fptr raddr jsf =
     (let count = length (fmt_A E raddr); prop = jsf_prop jsf; sym = fmt_a E raddr;
          special = (\<lambda>ftypename. fmt_p D fptr @ '' '' @ sym @ '' <'' @ ftypename @ ''>'' @ NL)
      in if count > 1 then
           (if prop \<noteq> None then Some (0, jsf, [])
            else (case jsframe_print_skipped jsf of (jsf, out) \<Rightarrow>
              Some (0, jsf, out @
                [OUT (if jsf_showall jsf then fmt_p D fptr @ '' '' @ sym @ NL
                      else if count \<le> 65 then ''native: '' @ sym @ NL
                      else ''native: '' @ take 64 sym @ ''...'' @ NL)])))
         else
           (case adaptor_frame D fptr of
              None \<Rightarrow> None
            | Some (Some ftypename) \<Rightarrow>
                Some (if prop \<noteq> None then (0, jsf, []) else (0, jsframe_internal jsf (Some (special ftypename))))
            | Some None \<Rightarrow>
                (case stack_smi D (fptr + gv D V8_OFF_FP_CONTEXT_OR_FRAME_TYPE) of
                   None \<Rightarrow> Some (- 1, jsf, [])
                 | Some ftype \<Rightarrow>
                     if prop \<noteq> None then Some (0, jsf, [])
                     else map_option (\<lambda>ftypename. (0, jsframe_internal jsf (map_option special ftypename)))
                       (enum_lookup_str NFRAMETYPES (v8_frametypes D) (ucast ftype) None))))"

text \<open>
  The description of an argument. Where its type cannot be read the buffer is not written, and
  what it held before is printed.
\<close>

definition jstype_text :: "v8dbg \<Rightarrow> string \<Rightarrow> uptr \<Rightarrow> string option" where
  "jstype_text D buf argptr =
     map_option (\<lambda>(rv, b, _). if rv \<noteq> 0 then buf else lbuf_cstr b)
       (obj_jstype D argptr \<lparr>lb_text = [], lb_len = 256\<rparr>)"

text \<open>
  The loop over \<open>n\<close> arguments. True: the command's property was found and printed. The name
  of an argument is cut to the nine characters its buffer holds.
\<close>

fun jsframe_args ::
    "v8dbg \<Rightarrow> uptr \<Rightarrow> uptr \<Rightarrow> string option \<Rightarrow> nat \<Rightarrow> uptr \<Rightarrow> string \<Rightarrow> (bool \<times> mdb_out list) option" where
  "jsframe_args D fptr nargs prop 0 ii buf = Some (False, [])"
| "jsframe_args D fptr nargs prop (Suc n) ii buf =
     (case stack_word D (fptr + gv D V8_OFF_FP_ARGS + (nargs - ii - 1) * of_nat PTRSZ) of
        None \<Rightarrow> jsframe_args D fptr nargs prop n (ii + 1) buf
      | Some argptr \<Rightarrow>
          let arg = take 9 (''arg'' @ digits_of 10 (unat (ii + 1))) in
          (case prop of
             Some p \<Rightarrow>
               if strcmp arg p \<noteq> 0 then jsframe_args D fptr nargs prop n (ii + 1) buf
               else Some (True, [OUT (fmt_p D argptr @ NL)])
           | None \<Rightarrow> do {
               buf \<leftarrow> jstype_text D buf argptr;
               (found, out) \<leftarrow> jsframe_args D fptr nargs prop n (ii + 1) buf;
               Some (found, OUT (''arg'' @ fmt_d (ii + 1) @ '': '' @ fmt_p D argptr @ '' ('' @ buf @ '')'' @ NL) # out)
             }))"

definition jsframe_arguments ::
    "v8dbg \<Rightarrow> uptr \<Rightarrow> uptr \<Rightarrow> string option \<Rightarrow> string \<Rightarrow> (bool \<times> mdb_out list) option" where
  "jsframe_arguments D fptr nargs prop buf = do {
     (found, out, buf) \<leftarrow>
       (case stack_word D (fptr + gv D V8_OFF_FP_ARGS + nargs * of_nat PTRSZ) of
          None \<Rightarrow> Some (False, [], buf)
        | Some argptr \<Rightarrow>
            if argptr = 0 then Some (False, [], buf)
            else (case prop of
               Some p \<Rightarrow>
                 if strcmp ''this'' p = 0 then Some (True, [OUT (fmt_p D argptr @ NL)], buf)
                 else Some (False, [], buf)
             | None \<Rightarrow> do {
                 buf \<leftarrow> jstype_text D buf argptr;
                 Some (False, [OUT (''this: '' @ fmt_p D argptr @ '' ('' @ buf @ '')'' @ NL)], buf)
               }));
     if found then Some (True, out)
     else do {
       (found, args) \<leftarrow> jsframe_args D fptr nargs prop (unat nargs) 0 buf;
       Some (found, out @ args)
     }
   }"

text \<open>The source of the function, behind its arguments.\<close>

definition jsframe_source :: "v8dbg \<Rightarrow> uptr \<Rightarrow> uptr \<Rightarrow> uptr \<Rightarrow> uptr \<Rightarrow> mdb_out list option" where
  "jsframe_source D funcinfop scriptp tokpos nlines =
     (if nlines = 0 then Some []
      else (case read_heap_maybesmi D funcinfop (gv D V8_OFF_SHAREDFUNCTIONINFO_END_POSITION) of
         None \<Rightarrow> Some []
       | Some endpos \<Rightarrow>
           map_option (\<lambda>out. map OUT out @ [OUT NL])
             (jsfunc_lines D scriptp (V8_SMI_VALUE D tokpos) endpos nlines (Some line_prefix))))"

text \<open>The part of a JavaScript frame that \<open>-v\<close> and \<open>-p\<close> ask for, from the line table on.\<close>

definition jsframe_position ::
    "v8dbg \<Rightarrow> uptr \<Rightarrow> uptr \<Rightarrow> uptr \<Rightarrow> uptr \<Rightarrow> jsframe \<Rightarrow> string \<Rightarrow> (int \<times> mdb_out list) option" where
  "jsframe_position D fptr funcinfop scriptp tokpos jsf buf =
     (let prop = jsf_prop jsf in
      case read_heap_ptr D scriptp (gv D V8_OFF_SCRIPT_LINE_ENDS) of
        None \<Rightarrow> Some (DCMD_ERR, [])
      | Some lendsp \<Rightarrow> do {
          (_, line, _) \<leftarrow> jsfunc_lineno D lendsp tokpos 256;
          let buf = (case line of None \<Rightarrow> buf | Some s \<Rightarrow> s);
          if prop = Some ''posn'' then Some (DCMD_OK, [OUT (buf @ NL)])
          else do {
            let posn = (if prop = None then [OUT (''posn: '' @ buf @ NL)] else []);
            (found, args) \<leftarrow>
              (case read_heap_maybesmi D funcinfop (gv D V8_OFF_SHAREDFUNCTIONINFO_LENGTH) of
                 None \<Rightarrow> Some (False, [])
               | Some nargs \<Rightarrow> jsframe_arguments D fptr nargs prop buf);
            if found then Some (DCMD_OK, posn @ args)
            else if prop \<noteq> None then Some (DCMD_ERR, posn @ args)
            else do {
              src \<leftarrow> jsframe_source D funcinfop scriptp tokpos (jsf_nlines jsf);
              Some (DCMD_OK, posn @ args @ src @ [DEDENT 10])
            }
          }
        })"

definition jsframe_verbose :: "v8dbg \<Rightarrow> uptr \<Rightarrow> uptr \<Rightarrow> jsframe \<Rightarrow> (int \<times> mdb_out list) option" where
  "jsframe_verbose D fptr funcinfop jsf =
     (let prop = jsf_prop jsf in
      case (do {
        tokpos \<leftarrow> read_heap_maybesmi D funcinfop (gv D V8_OFF_SHAREDFUNCTIONINFO_FUNCTION_TOKEN_POSITION);
        scriptp \<leftarrow> read_heap_ptr D funcinfop (gv D V8_OFF_SHAREDFUNCTIONINFO_SCRIPT);
        ptrp \<leftarrow> read_heap_ptr D scriptp (gv D V8_OFF_SCRIPT_NAME);
        Some (V8_VALUE_SMI D tokpos, scriptp, ptrp) }) of
        None \<Rightarrow> Some (DCMD_ERR, [])
      | Some (tokpos, scriptp, ptrp) \<Rightarrow> do {
          (_, b, _) \<leftarrow> jsstr_print D ptrp JSSTR_NUDE \<lparr>lb_text = [], lb_len = 256\<rparr>;
          let buf = lbuf_cstr b;
          if prop = Some ''file'' then Some (DCMD_OK, [OUT (buf @ NL)])
          else
            let file = (if prop = None then [INDENT 10, OUT (''file: '' @ buf @ NL)] else []) in
            map_option (\<lambda>(rv, out). (rv, file @ out)) (jsframe_position D fptr funcinfop scriptp tokpos jsf buf)
        })"

text \<open>The frame of a JSFunction.\<close>

definition jsframe_function ::
    "frame_env \<Rightarrow> v8dbg \<Rightarrow> uptr \<Rightarrow> uptr \<Rightarrow> uptr \<Rightarrow> jsframe \<Rightarrow> (int \<times> jsframe \<times> mdb_out list) option" where
  "jsframe_function E D fptr raddr funcp jsf =
     (case read_heap_ptr D funcp (gv D V8_OFF_JSFUNCTION_SHARED) of
        None \<Rightarrow> Some (DCMD_ERR, jsf, [])
      | Some funcinfop \<Rightarrow> do {
          (rv, b, _) \<leftarrow> jsfunc_name D funcinfop \<lparr>lb_text = [], lb_len = 256\<rparr>;
          let name = lbuf_cstr b;
          if rv \<noteq> 0 then Some (DCMD_ERR, jsf, [])
          else if jsf_func jsf \<noteq> None \<and> strcmp name (the (jsf_func jsf)) \<noteq> 0 then Some (DCMD_OK, jsf, [])
          else do {
            let (jsf, head) = (if jsf_prop jsf \<noteq> None then (jsf, [])
              else (case jsframe_print_skipped jsf of (jsf', out) \<Rightarrow>
                (jsf', out @ [OUT ((if jsf_showall jsf then fmt_p D fptr @ '' '' @ fmt_a E raddr @ '' '' else ''js:     '') @ name @
                  (if jsf_showall jsf then '' (JSFunction: '' @ fmt_p D funcp @ '')'' else []) @ NL)])));
            if \<not> jsf_verbose jsf \<and> jsf_prop jsf = None then Some (DCMD_OK, jsf, head)
            else do {
              let (jsf, skipped) = (if jsf_verbose jsf then jsframe_print_skipped jsf else (jsf, []));
              (rv, out) \<leftarrow> jsframe_verbose D fptr funcinfop jsf;
              Some (rv, jsf, head @ skipped @ out)
            }
          }
        })"

definition do_jsframe ::
    "frame_env \<Rightarrow> v8dbg \<Rightarrow> uptr \<Rightarrow> uptr \<Rightarrow> jsframe \<Rightarrow> (int \<times> jsframe \<times> mdb_out list) option" where
  "do_jsframe E D fptr raddr jsf =
     (case (if jsf_func jsf = None then do_jsframe_special E D fptr raddr jsf else Some (- 1, jsf, [])) of
        None \<Rightarrow> None
      | Some (special, jsf, out) \<Rightarrow>
          if special = 0 then Some (DCMD_OK, jsf, out)
          else (case stack_word D (fptr + gv D V8_OFF_FP_FUNCTION) of
             None \<Rightarrow> Some (DCMD_ERR, jsf, [])
           | Some funcp \<Rightarrow>
               let filtered = jsf_func jsf \<noteq> None \<or> jsf_prop jsf \<noteq> None; at = fmt_p D fptr @ '' '' @ fmt_a E raddr;
                   internal = (\<lambda>line. if filtered then Some (DCMD_OK, jsf, [])
                     else Some (DCMD_OK, jsframe_internal jsf (Some line)))
               in (case (case read_typebyte D funcp of
                            None \<Rightarrow> Some None
                          | Some type \<Rightarrow> enum_lookup_str NTYPES (v8_types D) (ucast type) None) of
                     None \<Rightarrow> None
                   | Some None \<Rightarrow> internal (at @ NL)
                   | Some (Some typename) \<Rightarrow>
                       if strcmp ''Code'' typename = 0
                       then internal (at @ '' internal (Code: '' @ fmt_p D funcp @ '')'' @ NL)
                       else if strcmp ''JSFunction'' typename \<noteq> 0
                       then internal (at @ '' unknown ('' @ typename @ '': '' @ fmt_p D funcp @ '')'')
                       else jsframe_function E D fptr raddr funcp jsf)))"

section \<open>The commands\<close>

text \<open>The options before the arguments are parsed.\<close>

definition jsframe_init :: jsframe where
  "jsframe_init = \<lparr>jsf_showall = False, jsf_verbose = False, jsf_func = None, jsf_prop = None,
     jsf_nlines = 5, jsf_nskipped = 0\<rparr>"

text \<open>A frame, and the ones that were skipped before it.\<close>

definition jsframe_show ::
    "frame_env \<Rightarrow> v8dbg \<Rightarrow> uptr \<Rightarrow> uptr \<Rightarrow> jsframe \<Rightarrow> (int \<times> mdb_out list) option" where
  "jsframe_show E D fptr raddr jsf = do {
     (rv, jsf, out) \<leftarrow> do_jsframe E D fptr raddr jsf;
     Some (rv, if rv = 0 then out @ snd (jsframe_print_skipped jsf) else out)
   }"

text \<open>\<open>optsp\<close>: the options and whether \<open>-i\<close> is among them, \<open>None\<close> where an argument is not understood.\<close>

definition dcmd_jsframe ::
    "frame_env \<Rightarrow> v8dbg \<Rightarrow> (jsframe \<times> bool) option \<Rightarrow> uptr \<Rightarrow> (int \<times> mdb_out list) option" where
  "dcmd_jsframe E D optsp addr =
     (case optsp of
        None \<Rightarrow> Some (DCMD_USAGE, [])
      | Some (jsf, opt_i) \<Rightarrow>
          if opt_i then jsframe_show E D addr 0 jsf
          else (case stack_word D (addr + of_nat PTRSZ) of
             None \<Rightarrow> Some (DCMD_ERR, [])
           | Some raddr \<Rightarrow>
               (case stack_word D addr of
                  None \<Rightarrow> Some (DCMD_ERR, [])
                | Some fptr \<Rightarrow> if fptr = 0 then Some (DCMD_OK, []) else jsframe_show E D fptr raddr jsf)))"

text \<open>
  \<open>pwalk\<close> is \<^verbatim>\<open>mdb_pwalk_dcmd\<close> of the walker and the command \<^verbatim>\<open>jsframe\<close>; the address
  is \<open>None\<close> where none is given, and \<open>regs\<close> are the registers.
\<close>

definition dcmd_jsstack ::
    "frame_env \<Rightarrow> v8dbg \<Rightarrow> (uptr \<times> uptr) option \<Rightarrow>
     ((uptr \<Rightarrow> (int \<times> mdb_out list) option) \<Rightarrow> uptr \<Rightarrow> (int \<times> mdb_out list) option) \<Rightarrow>
     jsframe option \<Rightarrow> uptr option \<Rightarrow> (int \<times> mdb_out list) option" where
  "dcmd_jsstack E D regs pwalk optsp addrp =
     (case optsp of
        None \<Rightarrow> Some (DCMD_USAGE, [])
      | Some jsf0 \<Rightarrow> do {
          top \<leftarrow> (case addrp of
             Some addr \<Rightarrow> Some (Some (addr, jsf0), [])
           | None \<Rightarrow>
               (case load_current_context regs of
                  None \<Rightarrow> Some (None, [])
                | Some (fptr, raddr) \<Rightarrow> do {
                    (rv, jsf, out) \<leftarrow> do_jsframe E D fptr raddr jsf0;
                    Some (if rv \<noteq> 0 then None else Some (fptr, jsf), out)
                  }));
          case top of
            (None, out) \<Rightarrow> Some (DCMD_ERR, out)
          | (Some (addr, jsf), out) \<Rightarrow> do {
              (rv, walked) \<leftarrow> pwalk (dcmd_jsframe E D (Some (jsf0, False))) addr;
              if rv = - 1 then Some (DCMD_ERR, out @ walked)
              else Some (DCMD_OK, out @ walked @ snd (jsframe_print_skipped jsf))
            }
        })"

section \<open>Lemmas: source lines\<close>

text \<open>A text is its lines with newlines between them.\<close>

definition join_lines :: "string list \<Rightarrow> string" where
  "join_lines ls = hd ls @ concat (map (\<lambda>l. NL @ l) (tl ls))"

definition line_mark :: "(int \<Rightarrow> string) \<Rightarrow> int \<Rightarrow> int \<Rightarrow> int \<Rightarrow> string" where
  "line_mark pre startline endline k =
     (if startline \<le> k \<and> k \<le> endline then ''%<b>'' @ pre k @ ''%</b>'' else pre k)"

text \<open>Line numbers from \<open>k\<close> on: those within the bounds are shown behind a newline and their mark.\<close>

fun excerpt :: "(int \<Rightarrow> string) \<Rightarrow> int \<Rightarrow> int \<Rightarrow> int \<Rightarrow> int \<Rightarrow> string list \<Rightarrow> string" where
  "excerpt pre startline endline n k [] = []"
| "excerpt pre startline endline n k (l # ls) =
     (if startline - n \<le> k \<and> k \<le> endline + n then NL @ line_mark pre startline endline k @ l else []) @
     excerpt pre startline endline n (k + 1) ls"

text \<open>The first line has its mark behind its first character.\<close>

definition first_line :: "(int \<Rightarrow> string) \<Rightarrow> int \<Rightarrow> int \<Rightarrow> int \<Rightarrow> string \<Rightarrow> string" where
  "first_line pre startline endline n l =
     (if startline - n \<le> 1 \<and> l \<noteq> [] then hd l # line_mark pre startline endline 1 @ tl l else [])"

lemma of_nat_word_eq: "i \<le> unat b \<Longrightarrow> (of_nat i :: uptr) = a \<longleftrightarrow> i = unat a" for a b :: uptr
proof -
  assume "i \<le> unat b"
  moreover have "unat b < 2 ^ 64" using unsigned_less [of b] by simp
  ultimately have "unat (of_nat i :: uptr) = i" by (intro unat_of_nat_lt) simp
  then show "(of_nat i :: uptr) = a \<longleftrightarrow> i = unat a" by (simp add: word_unat_eq_iff)
qed

definition newlines :: "nat \<Rightarrow> string \<Rightarrow> int" where
  "newlines n s = int (length (filter (\<lambda>c. c = CHR 0x0A) (take n s)))"

text \<open>Both passes over unbounded integers, which they are while nothing overflows.\<close>

fun span_plain :: "string \<Rightarrow> nat \<Rightarrow> int \<Rightarrow> uptr \<Rightarrow> uptr \<Rightarrow> int \<Rightarrow> int \<times> int" where
  "span_plain [] i line startp endp startline = (startline, - 1)"
| "span_plain (c # cs) i line startp endp startline =
     (let line = (if c = CHR 0x0A then line + 1 else line);
          startline = (if of_nat i = startp then line else startline)
      in if of_nat i = endp then (startline, line)
         else span_plain cs (Suc i) line startp endp startline)"

fun print_plain ::
    "(int \<Rightarrow> string) option \<Rightarrow> int \<Rightarrow> int \<Rightarrow> int \<Rightarrow> string \<Rightarrow> int \<Rightarrow> bool \<Rightarrow> string list \<times> int" where
  "print_plain pfx startline endline nlines [] line newline = ([], line)"
| "print_plain pfx startline endline nlines (c # cs) line newline =
     (let (line, newline) = (if c = CHR 0x0A then (line + 1, True) else (line, newline)) in
      if line < startline - nlines then print_plain pfx startline endline nlines cs line newline
      else if line > endline + nlines then ([], line)
      else
        let within = startline \<le> line \<and> line \<le> endline;
            mark = (if \<not> newline then []
              else (if within then [''%<b>''] else []) @
                (case pfx of None \<Rightarrow> [] | Some p \<Rightarrow> [p line]) @
                (if within then [''%</b>''] else []));
            (out, line') = print_plain pfx startline endline nlines cs line False
        in ([c] # mark @ out, line'))"

lemma lines_span_plain:
  assumes "int i + int (length cs) < 2 ^ 31" "0 \<le> line" "line + int (length cs) < 2 ^ 31"
  shows "lines_span cs (int i) line startp endp s = Some (span_plain cs i line startp endp s)"
  using assms
proof (induction cs arbitrary: i line s)
  case (Cons c cs)
  have "c_int (int i + 1) = Some (int (Suc i))" using Cons.prems by (subst c_int_fits) auto
  moreover have "c_int (line + 1) = Some (line + 1)" using Cons.prems by (intro c_int_fits) auto
  ultimately show ?case using Cons.IH [of "Suc i"] Cons.prems by (simp add: Let_def)
qed simp

lemma lines_print_plain:
  assumes "c_int (startline - n) = Some (startline - n)" "c_int (endline + n) = Some (endline + n)"
    and "0 \<le> i" "i + int (length cs) < 2 ^ 31" "0 \<le> line" "line + int (length cs) < 2 ^ 31"
  shows "lines_print pfx startline endline n cs i line nl = Some (print_plain pfx startline endline n cs line nl)"
  using assms(3-6)
proof (induction cs arbitrary: i line nl)
  case (Cons c cs)
  have "c_int (i + 1) = Some (i + 1)" "c_int (line + 1) = Some (line + 1)"
    using Cons.prems by (auto intro!: c_int_fits)
  then show ?case using Cons.IH [of "i + 1"] Cons.prems by (auto simp: Let_def assms(1,2) split: prod.splits)
qed simp

text \<open>With a number of lines whose sum with the last line is no \<^verbatim>\<open>int\<close> the second pass overflows.\<close>

lemma lines_print_overflow:
  assumes "cs \<noteq> []" "startline - n \<le> 1" "2 ^ 31 \<le> endline + n"
  shows "lines_print pfx startline endline n cs i 1 nl = None"
  using assms by (cases cs) (auto simp: c_int_def)

lemma lines_span_end:
  assumes "unat startp < i" "i \<le> unat endp" "unat endp < i + length cs"
  shows "span_plain cs i line startp endp s = (s, line + newlines (Suc (unat endp) - i) cs)"
  using assms
proof (induction cs arbitrary: i line)
  case (Cons c cs)
  have eq: "(of_nat i = startp) = False" "(of_nat i = endp) = (i = unat endp)"
    using of_nat_word_eq [OF Cons.prems(2)] Cons.prems(1) by auto
  have "Suc (unat endp) - i = Suc (unat endp - i)" using Cons.prems(2) by simp
  then show ?case using Cons.IH [of "Suc i"] Cons.prems by (auto simp: eq newlines_def Let_def)
qed simp

lemma lines_span_found:
  assumes "i \<le> unat startp" "unat startp \<le> unat endp" "unat endp < i + length cs"
  shows "span_plain cs i line startp endp s =
    (line + newlines (Suc (unat startp) - i) cs, line + newlines (Suc (unat endp) - i) cs)"
  using assms
proof (induction cs arbitrary: i line s)
  case (Cons c cs)
  have eq: "(of_nat i = startp) = (i = unat startp)" "(of_nat i = endp) = (i = unat endp)"
    using of_nat_word_eq [of i endp] Cons.prems(1,2) by auto
  have k: "Suc (unat endp) - i = Suc (unat endp - i)" "Suc (unat startp) - i = Suc (unat startp - i)"
    using Cons.prems(1,2) by simp_all
  show ?case
  proof (cases "i = unat startp")
    case True
    have "Suc i \<le> unat endp" if "startp \<noteq> endp"
      using that True Cons.prems(2) by (simp add: word_unat_eq_iff)
    then show ?thesis
      using Cons.prems lines_span_end [of startp "Suc i" endp cs] k True by (auto simp: eq newlines_def Let_def)
  next
    case False
    then show ?thesis using Cons.IH [of "Suc i"] Cons.prems by (auto simp: eq k newlines_def Let_def)
  qed
qed simp

lemma lines_print_skip:
  assumes "CHR 0x0A \<notin> set l" "line < startline - n"
  shows "print_plain pfx startline endline n (l @ cs) line nl = print_plain pfx startline endline n cs line nl"
  using assms by (induction l) auto

lemma lines_print_line:
  assumes "CHR 0x0A \<notin> set l" "startline - n \<le> line" "line \<le> endline + n"
  shows "concat (fst (print_plain pfx startline endline n (l @ cs) line False)) =
      l @ concat (fst (print_plain pfx startline endline n cs line False))"
    "snd (print_plain pfx startline endline n (l @ cs) line False) = snd (print_plain pfx startline endline n cs line False)"
  using assms by (induction l) (auto split: prod.splits)

lemma lines_print_beyond:
  assumes "endline + n < line" "startline - n \<le> line"
  shows "fst (print_plain pfx startline endline n cs line nl) = []"
  using assms by (cases cs) auto

lemma excerpt_beyond: "endline + n < k \<Longrightarrow> excerpt pre startline endline n k ls = []"
  by (induction ls arbitrary: k) auto

lemma lines_print_excerpt:
  assumes "\<forall>l\<in>set ls. CHR 0x0A \<notin> set l" "startline - n \<le> endline + n" "k < startline - n \<or> \<not> nl"
  shows "concat (fst (print_plain (Some pre) startline endline n (concat (map (\<lambda>l. NL @ l) ls)) k nl)) =
    excerpt pre startline endline n (k + 1) ls"
  using assms
proof (induction ls arbitrary: k nl)
  case (Cons l ls)
  let ?cs = "concat (map (\<lambda>l. NL @ l) ls)"
  consider "k + 1 < startline - n" | "startline - n \<le> k + 1" "k + 1 \<le> endline + n" | "endline + n < k + 1" by linarith
  then show ?case
  proof cases
    case 1
    then show ?thesis using Cons by (simp add: NL_def lines_print_skip)
  next
    case 2
    then show ?thesis
      using Cons lines_print_line [of l startline n "k + 1" endline "Some pre" ?cs]
      by (auto simp: NL_def line_mark_def Let_def split: prod.splits)
  next
    case 3
    then show ?thesis using Cons.prems(2) by (simp add: NL_def excerpt_beyond)
  qed
qed simp


text \<open>The whole text, from its first character on.\<close>

lemma lines_print_text:
  assumes "ls \<noteq> []" "\<forall>l\<in>set ls. CHR 0x0A \<notin> set l" "1 \<le> startline" "startline \<le> endline" "0 \<le> n"
  shows "concat (fst (print_plain (Some pre) startline endline n (join_lines ls) 1 True)) =
    first_line pre startline endline n (hd ls) @ excerpt pre startline endline n 2 (tl ls)"
proof -
  obtain l rest where ls: "ls = l # rest" using assms(1) by (cases ls) auto
  let ?cs = "concat (map (\<lambda>l. NL @ l) rest)"
  have nl: "CHR 0x0A \<notin> set l" "\<forall>l\<in>set rest. CHR 0x0A \<notin> set l" using assms(2) ls by auto
  note more = lines_print_excerpt [OF nl(2), of startline n endline _ _ pre]
  show ?thesis
  proof (cases "1 < startline - n")
    case True
    then show ?thesis
      using lines_print_skip [OF nl(1) True, of "Some pre" endline ?cs True] more [of 1 True] assms(3-5)
      by (simp add: ls join_lines_def first_line_def)
  next
    case False
    show ?thesis
    proof (cases l)
      case Nil
      have "concat (fst (print_plain (Some pre) startline endline n ?cs 1 True)) = excerpt pre startline endline n 2 rest"
      proof (cases rest)
        case (Cons l' rest')
        then have "print_plain (Some pre) startline endline n ?cs 1 True = print_plain (Some pre) startline endline n ?cs 1 False"
          by (simp add: NL_def)
        then show ?thesis using more [of 1 False] assms(3-5) False by simp
      qed simp
      then show ?thesis by (simp add: ls join_lines_def first_line_def Nil)
    next
      case (Cons c l')
      then have c: "c \<noteq> CHR 0x0A" "CHR 0x0A \<notin> set l'" using nl(1) by auto
      have lo: "startline - n \<le> 1" "1 \<le> endline + n" using False assms(3-5) by auto
      have "concat (fst (print_plain (Some pre) startline endline n (l' @ ?cs) 1 False)) =
          l' @ excerpt pre startline endline n 2 rest"
        using lines_print_line(1) [OF c(2) lo, of "Some pre" ?cs] more [of 1 False] lo by simp
      then have "concat (fst (print_plain (Some pre) startline endline n (c # l' @ ?cs) 1 True)) =
          c # line_mark pre startline endline 1 @ l' @ excerpt pre startline endline n 2 rest"
        using c(1) lo by (auto simp: line_mark_def Let_def split: prod.splits)
      then show ?thesis using lo by (simp add: ls join_lines_def first_line_def Cons)
    qed
  qed
qed

lemma lines_print_last:
  assumes "\<forall>l\<in>set ls. CHR 0x0A \<notin> set l" "k \<le> endline + n" "startline - n \<le> endline + n"
  shows "snd (print_plain pfx startline endline n (concat (map (\<lambda>l. NL @ l) ls)) k nl) =
    min (k + int (length ls)) (endline + n + 1)"
  using assms
proof (induction ls arbitrary: k nl)
  case (Cons l ls)
  let ?cs = "concat (map (\<lambda>l. NL @ l) ls)"
  consider "k + 1 < startline - n" | "startline - n \<le> k + 1" "k + 1 \<le> endline + n" | "endline + n = k" by (use Cons.prems in linarith)
  then show ?case
  proof cases
    case 1
    then show ?thesis using Cons by (simp add: NL_def lines_print_skip)
  next
    case 2
    then show ?thesis
      using Cons lines_print_line(2) [of l startline n "k + 1" endline pfx ?cs]
      by (auto simp: NL_def Let_def add.assoc split: prod.splits)
  next
    case 3
    then show ?thesis using Cons.prems by (simp add: NL_def)
  qed
qed simp

lemma lines_print_text_last:
  assumes "ls \<noteq> []" "\<forall>l\<in>set ls. CHR 0x0A \<notin> set l" "1 \<le> startline" "startline \<le> endline" "0 \<le> n"
    and "endline \<le> int (length ls)"
  shows "snd (print_plain pfx startline endline n (join_lines ls) 1 True) = endline \<longleftrightarrow> endline = int (length ls)"
proof -
  obtain l rest where ls: "ls = l # rest" using assms(1) by (cases ls) auto
  let ?cs = "concat (map (\<lambda>l. NL @ l) rest)"
  have nl: "CHR 0x0A \<notin> set l" "\<forall>l\<in>set rest. CHR 0x0A \<notin> set l" using assms(2) ls by auto
  note last = lines_print_last [OF nl(2), of _ endline n startline pfx]
  have "snd (print_plain pfx startline endline n (l @ ?cs) 1 True) = min (1 + int (length rest)) (endline + n + 1)"
  proof (cases "1 < startline - n \<or> l = []")
    case True
    then show ?thesis using lines_print_skip [OF nl(1), of 1 startline n] last assms(3-5) by auto
  next
    case False
    then obtain c l' where l: "l = c # l'" by (cases l) auto
    then have c: "c \<noteq> CHR 0x0A" "CHR 0x0A \<notin> set l'" using nl(1) by auto
    have lo: "startline - n \<le> 1" "1 \<le> endline + n" using False assms(3-5) by auto
    show ?thesis
      using c(1) lo assms(3-5) lines_print_line(2) [OF c(2) lo, of pfx ?cs] last [of 1 False]
      by (auto simp: l Let_def split: prod.splits)
  qed
  then show ?thesis using assms(5,6) by (auto simp: ls join_lines_def min_def)
qed

lemma newlines_join: "\<forall>l\<in>set ls. CHR 0x0A \<notin> set l \<Longrightarrow> ls \<noteq> [] \<Longrightarrow> newlines n (join_lines ls) \<le> int (length ls) - 1"
proof -
  assume nl: "\<forall>l\<in>set ls. CHR 0x0A \<notin> set l" "ls \<noteq> []"
  let ?f = "\<lambda>s. filter (\<lambda>c. c = CHR 0x0A) s"
  have "length (?f (concat (map (\<lambda>l. NL @ l) ks))) = length ks" if "\<forall>l\<in>set ks. CHR 0x0A \<notin> set l" for ks
    using that by (induction ks) (auto simp: NL_def filter_empty_conv)
  then have "length (?f (join_lines ls)) = length ls - 1"
    using nl by (cases ls) (auto simp: join_lines_def filter_empty_conv)
  moreover have "length (?f (take n (join_lines ls))) \<le> length (?f (join_lines ls))"
    by (metis append_take_drop_id filter_append le_add1 length_append)
  moreover have "1 \<le> length ls" using nl(2) by (cases ls) auto
  ultimately show ?thesis by (simp add: newlines_def)
qed

lemma newlines_mono: "m \<le> n \<Longrightarrow> newlines m s \<le> newlines n s"
proof -
  assume "m \<le> n"
  then have "take n s = take m s @ take (n - m) (drop m s)" by (metis le_add_diff_inverse take_add)
  then show ?thesis by (simp add: newlines_def)
qed

text \<open>The source fits into the buffer it is found in.\<close>

lemma lines_source_fits:
  assumes "target_ok D" shows "lines_source D src bufsz = Some (Some (t, b)) \<Longrightarrow> length t < unat b"
proof -
  assume ret: "lines_source D src bufsz = Some (Some (t, b))"
  have "target_ok D \<longrightarrow> Some (t, b) = Some (t, b) \<longrightarrow> length t < unat b"
  proof (rule lines_source.raw_induct [where P = "\<lambda>D src bufsz r. target_ok D \<longrightarrow> r = Some (t, b) \<longrightarrow> length t < unat b", OF _ ret])
    fix rec :: "v8dbg \<Rightarrow> uptr \<Rightarrow> uptr \<Rightarrow> (string \<times> uptr) option option" and D src r and bufsz :: uptr
    let ?b0 = "\<lparr>lb_text = [], lb_len = unat bufsz\<rparr>"
    assume IH: "\<And>D src bufsz r. rec D src bufsz = Some r \<Longrightarrow> target_ok D \<longrightarrow> r = Some (t, b) \<longrightarrow> length t < unat b"
      and ret: "(if \<not> zalloc_ok D (unat bufsz) {} then Some None
        else Option.bind (jsstr_print D src JSSTR_NUDE ?b0) (\<lambda>(rv, b, _).
          if rv \<noteq> 0 then Some None
          else if 10 < lb_len b then Some (Some (lbuf_cstr b, bufsz))
          else rec D src (push_bit 1 bufsz))) = Some r"
    show "target_ok D \<longrightarrow> r = Some (t, b) \<longrightarrow> length t < unat b"
    proof (intro impI)
      assume D: "target_ok D" and r: "r = Some (t, b)"
      then obtain rv b' o' where p: "jsstr_print D src JSSTR_NUDE ?b0 = Some (rv, b', o')"
        using ret by (auto simp: bind_eq_Some_conv split: if_splits)
      have pos: "bufsz \<noteq> 0" using p legacy_init_empty [of ?b0] by (auto simp: jsstr_print_def)
      then have "lbuf_ok ?b0" using unsigned_less [of bufsz] by (simp add: lbuf_ok_def unat_gt_0)
      from jsstr_print_grown [OF D this, of src JSSTR_NUDE] p have "lbuf_grown ?b0 b'" by auto
      then have "length (lb_text b') < unat bufsz" by (auto simp: lbuf_grown_def)
      moreover have "length (lbuf_cstr b') \<le> length (lb_text b')" by (simp add: lbuf_cstr_def length_takeWhile_le)
      ultimately show "length t < unat b"
        using ret r p IH [of D src "push_bit 1 bufsz" r] D by (auto split: if_splits)
    qed
  qed
  then show "length t < unat b" using assms by simp
qed

lemma lines_source_text:
  assumes "target_ok D" "strrep_tags_ok D" "zalloc_ok D 48 {UM_SLEEP}" "zalloc_ok D 1024 {}"
    and "string_text D src cs n" "2 * n \<le> 512" "nbytes MSF_ASCIIONLY cs < 1014" "NUL \<notin> set (escaped_all MSF_ASCIIONLY cs)"
  shows "lines_source D src 1024 = Some (Some (escaped_all MSF_ASCIIONLY cs, 1024))"
proof -
  let ?b = "\<lparr>lb_text = [], lb_len = 1024\<rparr>" and ?t = "escaped_all MSF_ASCIIONLY cs"
  have flags: "\<not> bit JSSTR_NUDE 17" "depth_of JSSTR_NUDE + 2 * n \<le> 512" using assms(6)
    by (simp_all add: JSSTR_NUDE_def JSSTR_NONE_def depth_of_mod)
  have "lbuf_ok ?b" by (simp add: lbuf_ok_def)
  from jsstr_print_text [OF assms(1-3,5) flags this] assms(7) obtain b' o' where
    b': "jsstr_print D src JSSTR_NUDE ?b = Some (0, b', o')" "lbuf_grown ?b b'" "lb_text b' = ?t" by auto
  have "10 < lb_len b'" using b'(2,3) escaped_all_le [of MSF_ASCIIONLY cs] assms(7) by (auto simp: lbuf_grown_def)
  moreover have "lbuf_cstr b' = ?t" using assms(8) b'(3) by (auto simp: lbuf_cstr_def)
  ultimately show ?thesis using b'(1) assms(4) by (subst lines_source.simps) simp
qed

section \<open>Properties: source lines\<close>

text \<open>
  C14. The source shown for a function: from \<open>n\<close> lines before the line of its first character to
  \<open>n\<close> lines behind that of its last one, as far as the script goes, every line behind its number,
  the function's own lines with the number in bold. The number of the script's first line
  stands behind the first character of the line. The source has less than \<open>2 ^ 31 - 1\<close>
  characters, and the last line shown has a number that fits an \<^verbatim>\<open>int\<close>.
\<close>

theorem jsfunc_lines_excerpt:
  assumes "target_ok D" and "read_heap_ptr D scriptp (gv D V8_OFF_SCRIPT_SOURCE) = Some src"
    and "lines_source D src 1024 = Some (Some (join_lines ls, bufsz))"
    and "ls \<noteq> []" and "\<forall>l\<in>set ls. CHR 0x0A \<notin> set l"
    and "startp \<le> endp" and "unat endp < length (join_lines ls)" and "length (join_lines ls) + 1 < 2 ^ 31"
    and "startline = 1 + newlines (Suc (unat startp)) (join_lines ls)"
    and "endline = 1 + newlines (Suc (unat endp)) (join_lines ls)" and "int n + endline < 2 ^ 31"
  shows "map_option concat (jsfunc_lines D scriptp startp endp (of_nat n) (Some pre)) =
    Some (first_line pre startline endline (int n) (hd ls) @ excerpt pre startline endline (int n) 2 (tl ls) @ NL @
      (if endline = int (length ls) then ''%</b>'' else []))"
proof -
  let ?t = "join_lines ls"
  have le: "unat startp \<le> unat endp" using assms(6) by (simp add: word_le_nat_alt)
  have fits: "\<not> bufsz \<le> endp" using lines_source_fits [OF assms(1,3)] assms(7) by (simp add: word_le_nat_alt)
  have "0 \<le> newlines (Suc (unat endp)) ?t" by (simp add: newlines_def)
  then have small: "n < 2 ^ 31" using assms(10,11) by simp
  have n: "sint (ucast (of_nat n :: uptr) :: 32 word) = int n"
  proof -
    have "take_bit 64 n = n" using small by (simp add: take_bit_nat_eq_self_iff)
    then show ?thesis
      using small by (simp add: unsigned_of_nat signed_of_nat signed_take_bit_int_eq_self_iff)
  qed
  have size: "int (length ?t) + 1 < 2 ^ 31" using assms(8) by simp
  have span: "lines_span ?t 0 1 startp endp (- 1) = Some (startline, endline)"
    using lines_span_found [of 0 startp endp ?t 1 "- 1"] lines_span_plain [of 0 ?t 1] size le assms(7,9,10) by simp
  have order: "1 \<le> startline" "startline \<le> endline" "endline \<le> int (length ls)"
  proof -
    show "1 \<le> startline" using assms(9) by (simp add: newlines_def)
    have "newlines (Suc (unat startp)) ?t \<le> newlines (Suc (unat endp)) ?t"
      using le by (metis Suc_le_mono newlines_mono)
    then show "startline \<le> endline" using assms(9,10) by simp
    show "endline \<le> int (length ls)" using newlines_join [OF assms(5,4), of "Suc (unat endp)"] assms(10) by simp
  qed
  note printed = lines_print_text [OF assms(4,5) order(1,2), of "int n" pre]
    lines_print_text_last [OF assms(4,5) order(1,2) _ order(3), of "int n" "Some pre"]
  have bounds: "c_int (startline - int n) = Some (startline - int n)" "c_int (endline + int n) = Some (endline + int n)"
    using order(1,2) small assms(11) by (auto intro!: c_int_fits)
  show ?thesis
    using printed order(1,2) fits lines_print_plain [OF bounds, of 0 ?t 1 "Some pre" True] size
    by (auto simp: jsfunc_lines_def assms(2,3) span n split: prod.splits)
qed

text \<open>A script of two lines; the function is its last character.\<close>

definition script_words :: "(uptr \<times> uptr) list" where
  "script_words = [(4096, 4161), (4160, 8257), (4168, push_bit 32 4), (4176, 0x630A6261), (8264, 4)]"

lemma script_text: "string_text (sample_dbg script_words) 4161 [97, 98, 10, 99] 0"
proof -
  let ?D = "sample_dbg script_words"
  have so: "string_object ?D 4161 4 4"
    by (simp add: string_object_def sample_typebyte sample_smi sample_values_def script_words_def
        V8_TYPE_STRING_def push_bit_eq_mult drop_bit_eq_div)
  have chars: "seq_chars ?D 4161 True (unat (4 :: uptr)) = Some [97, 98, 10, 99]"
    using sample_byte_aligned [of 4176 0 "words_at script_words"] sample_byte_aligned [of 4176 1 "words_at script_words"]
      sample_byte_aligned [of 4176 2 "words_at script_words"] sample_byte_aligned [of 4176 3 "words_at script_words"]
    by (simp add: seq_chars_def sample_values_def sample_vread_def upt_rec script_words_def drop_bit_eq_div)
  have ascii: "V8_STRENC_ASCII ?D 4" "V8_STRREP_SEQ ?D 4"
    by (simp_all add: V8_STRENC_ASCII_def V8_STRREP_SEQ_def sample_values_def)
  show ?thesis by (rule text_seq [OF so ascii(2)]) (use chars ascii in simp)
qed

lemma jsfunc_lines_excerpt_witness:
  "map_option concat (jsfunc_lines (sample_dbg script_words) 4097 3 3 1 (Some line_prefix)) =
     Some (''a'' @ ''    1 '' @ ''b'' @ NL @ ''%<b>    2 %</b>'' @ ''c'' @ NL @ ''%</b>'')"
proof -
  let ?D = "sample_dbg script_words" and ?ls = "[''ab'', ''c'']"
  have esc: "escaped_all MSF_ASCIIONLY [97, 98, 10, 99] = join_lines ?ls"
    by (simp add: escaped_ascii_plain char_of_def bit_simps join_lines_def NL_def)
  have src: "lines_source ?D 4161 1024 = Some (Some (join_lines ?ls, 1024))"
  proof -
    have "strrep_tags_ok ?D" by (simp add: strrep_tags_ok_def sample_values_def)
    moreover have "nbytes MSF_ASCIIONLY [97, 98, 10, 99] < 1014"
      by (simp add: mdbv8_strbuf_nbytesforchar_def MSF_ASCIIONLY_def MSF_JSON_def)
    moreover have "NUL \<notin> set (join_lines ?ls)" by (simp add: join_lines_def NL_def NUL_def)
    ultimately show ?thesis using lines_source_text [OF sample_target_ok _ _ _ script_text, unfolded esc] by simp
  qed
  have ptr: "read_heap_ptr ?D 4097 (gv ?D V8_OFF_SCRIPT_SOURCE) = Some 4161"
    by (simp add: sample_ptr sample_values_def script_words_def)
  have line: "2 = 1 + newlines (Suc (unat (3 :: uptr))) (join_lines ?ls)"
    by (simp add: newlines_def join_lines_def NL_def)
  have pre: "line_prefix 1 = ''    1 ''" "line_prefix 2 = ''    2 ''"
  proof -
    have "char_of (49 :: nat) = CHR ''1''" "char_of (50 :: nat) = CHR ''2''" by (simp_all add: char_of_def bit_simps)
    moreover have "replicate 4 CHR '' '' = ''    ''" by (simp add: numeral_eq_Suc)
    ultimately show "line_prefix 1 = ''    1 ''" "line_prefix 2 = ''    2 ''"
      by (simp_all add: line_prefix_def lpad_def show_int_def digits_of.simps digit_char_def)
  qed
  from jsfunc_lines_excerpt [OF sample_target_ok ptr src _ _ _ _ _ line line, of 1 line_prefix] show ?thesis
    by (simp add: join_lines_def NL_def first_line_def line_mark_def pre)
qed

section \<open>Lemmas: frames\<close>

lemma jsframe_internal_skipped:
  "jsframe_internal jsf line = (jsf', out) \<Longrightarrow> jsf_nskipped jsf' \<in> {0, jsf_nskipped jsf + 1}"
  by (auto simp: jsframe_internal_def jsframe_print_skipped_def jsframe_skip_def split: bool.splits option.splits)

lemma special_skipped:
  "do_jsframe_special E D fptr raddr jsf = Some (rv, jsf', out) \<Longrightarrow>
     jsf_nskipped jsf' \<in> {0, jsf_nskipped jsf, jsf_nskipped jsf + 1} \<and> (rv \<noteq> 0 \<longrightarrow> jsf' = jsf)"
  by (auto simp: do_jsframe_special_def Let_def jsframe_print_skipped_def split: if_splits option.splits dest: jsframe_internal_skipped)

lemma function_skipped:
  "jsframe_function E D fptr raddr funcp jsf = Some (rv, jsf', out) \<Longrightarrow> jsf_nskipped jsf' \<in> {0, jsf_nskipped jsf}"
  by (auto simp: jsframe_function_def Let_def jsframe_print_skipped_def bind_eq_Some_conv split: if_splits option.splits)

text \<open>A frame is counted at most once.\<close>

lemma frame_skipped:
  "do_jsframe E D fptr raddr jsf = Some (rv, jsf', out) \<Longrightarrow>
     jsf_nskipped jsf' \<in> {0, jsf_nskipped jsf, jsf_nskipped jsf + 1}"
  by (auto simp: do_jsframe_def Let_def split: if_splits option.splits prod.splits
      dest!: special_skipped function_skipped jsframe_internal_skipped)

text \<open>Running a command on the items of a walk, as \<^verbatim>\<open>mdb_pwalk_dcmd\<close> is documented.\<close>

definition dcmd_cb :: "(uptr \<Rightarrow> (int \<times> mdb_out list) option) \<Rightarrow> mdb_out list option walk_cb" where
  "dcmd_cb f addr st = (WALK_NEXT, do {
     out \<leftarrow> st;
     (rv, more) \<leftarrow> f addr;
     Some (out @ more)
   })"

definition pwalk_runs ::
    "v8dbg \<Rightarrow> ((uptr \<Rightarrow> (int \<times> mdb_out list) option) \<Rightarrow> uptr \<Rightarrow> (int \<times> mdb_out list) option) \<Rightarrow> bool" where
  "pwalk_runs D pwalk \<longleftrightarrow> (\<forall>f addr rv wsp out.
     walked (walk_jsframes_step D (dcmd_cb f)) \<lparr>walk_addr = addr, walk_data = (), walk_cbdata = Some []\<rparr> (rv, wsp) \<longrightarrow>
     walk_cbdata wsp = Some out \<longrightarrow> pwalk f addr = Some (if rv = WALK_ERR then - 1 else 0, out))"

lemma dcmd_cb_iter:
  "\<forall>x\<in>set xs. f x \<noteq> None \<Longrightarrow>
     cb_iter (dcmd_cb f) xs (Some out) = (0, Some (out @ concat (map (\<lambda>x. snd (the (f x))) xs)))"
proof (induction xs arbitrary: out)
  case (Cons x xs)
  then obtain rv more where "f x = Some (rv, more)" by auto
  then show ?case using Cons by (simp add: dcmd_cb_def WALK_defs)
qed simp

section \<open>Properties: the stack\<close>

text \<open>
  C9. A stack trace without an address shows the frame of the registers and then, for every frame
  pointer of the chain in order, the frame it points to with the return address that stands
  above it; the note about skipped frames that belongs to the first frame stands behind all the
  others, and no note ever counts more than one frame.
\<close>

theorem jsstack_frames:
  assumes "pwalk_runs D pwalk" and "frame_chain D fps" and "hd fps = fptr"
    and "do_jsframe E D fptr raddr jsf = Some (0, jsf', out0)" and "jsf_nskipped jsf = 0"
    and "\<forall>fp\<in>set fps. dcmd_jsframe E D (Some (jsf, False)) fp \<noteq> None"
  shows "dcmd_jsstack E D (Some (fptr, raddr)) pwalk (Some jsf) None =
      Some (DCMD_OK, out0 @ concat (map (\<lambda>fp. snd (the (dcmd_jsframe E D (Some (jsf, False)) fp))) fps) @
        snd (jsframe_print_skipped jsf')) \<and>
    jsf_nskipped jsf' \<le> 1"
proof
  let ?f = "dcmd_jsframe E D (Some (jsf, False))"
  let ?out = "concat (map (\<lambda>fp. snd (the (?f fp))) fps)"
  have "frames_todo D \<lparr>walk_addr = fptr, walk_data = (), walk_cbdata = Some []\<rparr> fps"
    using assms(2,3) by (simp add: frames_todo_def)
  from frames.walk_visits [OF this, of "dcmd_cb ?f" 0 "Some ?out"] dcmd_cb_iter [OF assms(6), of "[]"] obtain wsp where
    "walked (walk_jsframes_step D (dcmd_cb ?f)) \<lparr>walk_addr = fptr, walk_data = (), walk_cbdata = Some []\<rparr> (WALK_DONE, wsp)"
    "walk_cbdata wsp = Some ?out" by auto
  then have "pwalk ?f fptr = Some (0, ?out)" using assms(1) unfolding pwalk_runs_def by (fastforce simp: WALK_defs)
  then show "dcmd_jsstack E D (Some (fptr, raddr)) pwalk (Some jsf) None =
      Some (DCMD_OK, out0 @ ?out @ snd (jsframe_print_skipped jsf'))"
    using assms(4) by (simp add: dcmd_jsstack_def load_current_context_def)
  show "jsf_nskipped jsf' \<le> 1" using frame_skipped [OF assms(4)] assms(5) by auto
qed

text \<open>A walk that is run.\<close>

partial_function (option) run_walk :: "('w \<Rightarrow> (int \<times> 'w) option) \<Rightarrow> 'w \<Rightarrow> (int \<times> 'w) option" where
  "run_walk step w =
     (case step w of None \<Rightarrow> None | Some (rv, w') \<Rightarrow> if rv = WALK_NEXT then run_walk step w' else Some (rv, w'))"

definition run_dcmd ::
    "v8dbg \<Rightarrow> (uptr \<Rightarrow> (int \<times> mdb_out list) option) \<Rightarrow> uptr \<Rightarrow> (int \<times> mdb_out list) option" where
  "run_dcmd D f addr = do {
     (rv, wsp) \<leftarrow> run_walk (walk_jsframes_step D (dcmd_cb f)) \<lparr>walk_addr = addr, walk_data = (), walk_cbdata = Some []\<rparr>;
     out \<leftarrow> walk_cbdata wsp;
     Some (if rv = WALK_ERR then - 1 else 0, out)
   }"

lemma run_walk_walked: "walked step w r \<Longrightarrow> run_walk step w = Some r"
proof (induction rule: walked.induct)
  case (walk_stop w rv w')
  then show ?case by (subst run_walk.simps) simp
next
  case (walk_more w w' r)
  then show ?case by (subst run_walk.simps) simp
qed

text \<open>Two frames: the innermost one is internal to V8, the other is native.\<close>

definition stack_words :: "(uptr \<times> uptr) list" where
  "stack_words = [(4096, 4128), (4104, 77), (4128, 0), (4136, 88)]"

definition stack_dbg :: v8dbg where
  "stack_dbg = (sample_dbg stack_words)\<lparr>gv := (values_at sample_values)(V8_OFF_FP_CONTEXT := - 8, V8_OFF_FP_CONTEXT_OR_FRAME_TYPE := - 8),
     v8_frametypes := [\<lparr>v8e_name = ''EntryFrame'', v8e_value = 0\<rparr>]\<rparr>"

definition stack_env :: frame_env where
  "stack_env = \<lparr>fmt_a = (\<lambda>a. if a = 77 then ''main'' else ''5''), fmt_A = (\<lambda>a. if a = 77 then ''main'' else [])\<rparr>"

lemma jsstack_frames_witness:
  "dcmd_jsstack stack_env stack_dbg (Some (4096, 66)) (run_dcmd stack_dbg) (Some jsframe_init) None =
     Some (DCMD_OK, [OUT (''native: main'' @ NL), OUT (''        (1 internal frame elided)'' @ NL)])"
proof -
  let ?D = stack_dbg and ?E = stack_env
  have word: "stack_word ?D a = Some (words_at stack_words a)" "read_heap_ptr ?D a 0 = Some (words_at stack_words a)"
    if "a AND 7 = 0" for a
    using sample_word [OF that, of "words_at stack_words"] le_word_bytes [of 0 "words_at stack_words a"]
    by (simp_all add: stack_word_def read_heap_ptr_def stack_dbg_def)
  have chain: "frame_chain ?D [4096, 4128]" by (simp add: word stack_words_def)
  have runs: "pwalk_runs ?D (run_dcmd ?D)"
    by (auto simp: pwalk_runs_def run_dcmd_def dest!: run_walk_walked)
  have gv: "gv ?D V8_OFF_FP_CONTEXT = - 8" "gv ?D V8_OFF_FP_CONTEXT_OR_FRAME_TYPE = - 8"
    "V8_IS_SMI ?D 0" "V8_SMI_VALUE ?D 0 = 0"
    by (simp_all add: stack_dbg_def V8_IS_SMI_def V8_SMI_VALUE_def sample_values_def)
  have smi: "stack_smi ?D 4088 = Some 0" "v8_frametypes ?D = [\<lparr>v8e_name = ''EntryFrame'', v8e_value = 0\<rparr>]"
    using gv(3,4) by (simp_all add: stack_smi_def word stack_words_def) (simp add: stack_dbg_def)
  have "do_jsframe_special ?E ?D 4096 66 jsframe_init = Some (0, jsframe_skip jsframe_init, [])"
    by (auto simp: do_jsframe_special_def adaptor_frame_def Let_def stack_env_def smi gv(1,2) jsframe_init_def
        jsframe_internal_def NFRAMETYPES_def)
  then have top: "do_jsframe ?E ?D 4096 66 jsframe_init = Some (0, jsframe_skip jsframe_init, [])"
    by (simp add: do_jsframe_def jsframe_init_def DCMD_OK_def)
  have "do_jsframe_special ?E ?D 4128 77 jsframe_init = Some (0, jsframe_init, [OUT (''native: main'' @ NL)])"
    by (simp add: do_jsframe_special_def Let_def stack_env_def jsframe_init_def jsframe_print_skipped_def)
  then have "do_jsframe ?E ?D 4128 77 jsframe_init = Some (0, jsframe_init, [OUT (''native: main'' @ NL)])"
    by (simp add: do_jsframe_def jsframe_init_def DCMD_OK_def)
  then have first: "dcmd_jsframe ?E ?D (Some (jsframe_init, False)) 4096 = Some (DCMD_OK, [OUT (''native: main'' @ NL)])"
    by (simp add: dcmd_jsframe_def word PTRSZ_def stack_words_def jsframe_show_def jsframe_print_skipped_def)
      (simp add: jsframe_init_def DCMD_OK_def)
  have second: "dcmd_jsframe ?E ?D (Some (jsframe_init, False)) 4128 = Some (DCMD_OK, [])"
    by (simp add: dcmd_jsframe_def word PTRSZ_def stack_words_def)
  from jsstack_frames [OF runs chain _ top] first second show ?thesis
    by (simp add: jsframe_init_def jsframe_skip_def jsframe_print_skipped_def)
qed

end
