(* ===== verification/Commands.thy ===== *)
theory Commands
  imports Frames FindObjects Whatis JsArray
begin

text \<open>
  The commands that show one value or one part of it (\<^verbatim>\<open>src/src/mdb_v8.c\<close>): code, functions,
  closures, arrays, strings, Buffers, fields, and the list of all functions that the heap scan
  found. Options are given as parsed by \<^verbatim>\<open>mdb_getopts\<close>; \<open>None\<close> for them is an argument that
  is not understood. A result \<open>None\<close> is a run that is undefined: it reads a variable that
  was never written.
\<close>

section \<open>Code\<close>

text \<open>
  The loop that disassembles. \<open>dis\<close> is the evaluation of \<^verbatim>\<open>/i\<close> and \<^verbatim>\<open>+=p\<close> by the
  debugger at the current address: what is shown, and the address behind the instruction
  where both succeed.
\<close>

type_synonym disassembler = "uptr \<Rightarrow> mdb_out list \<times> uptr option"

partial_function (option) v8code_dis :: "disassembler \<Rightarrow> uptr \<Rightarrow> uptr \<Rightarrow> (int \<times> mdb_out list) option" where
  "v8code_dis dis dot endp =
     (case dis dot of
        (out, None) \<Rightarrow> Some (DCMD_ERR, INDENT 8 # out @ [DEDENT 8])
      | (out, Some dot') \<Rightarrow>
          if dot' < endp
          then Option.bind (v8code_dis dis dot' endp) (\<lambda>(rv, more). Some (rv, INDENT 8 # out @ more))
          else Some (DCMD_OK, INDENT 8 # out @ [DEDENT 8]))"

definition do_v8code ::
    "disassembler \<Rightarrow> v8dbg \<Rightarrow> v8code \<Rightarrow> bool \<Rightarrow> (int \<times> mdb_out list) option" where
  "do_v8code dis D codep opt_d =
     (let instrstart = v8code_instructions_start codep; instrsize = v8code_instructions_size codep;
          head = [OUT (''code: '' @ fmt_p D (v8code_addr codep) @ NL),
                  OUT (''instructions: ['' @ fmt_p D instrstart @ '', '' @ fmt_p D (instrstart + instrsize) @ '')'' @ NL)]
      in if \<not> opt_d then Some (DCMD_OK, head)
         else map_option (\<lambda>(rv, out). (rv, head @ out)) (v8code_dis dis instrstart (instrstart + instrsize)))"

definition dcmd_v8code ::
    "disassembler \<Rightarrow> v8dbg \<Rightarrow> uptr \<Rightarrow> bool option \<Rightarrow> (int \<times> mdb_out list) option" where
  "dcmd_v8code dis D addr opt_d =
     (case opt_d of
        None \<Rightarrow> Some (DCMD_USAGE, [])
      | Some d \<Rightarrow>
          (case v8code_load D addr {UM_GC} of
             None \<Rightarrow> Some (DCMD_ERR, [])
           | Some codep \<Rightarrow> do_v8code dis D codep d))"

section \<open>Functions\<close>

text \<open>What both commands on a function write about where it is defined.\<close>

definition function_location :: "v8dbg \<Rightarrow> v8funcinfo \<Rightarrow> mdbv8_strbuf \<Rightarrow> mdbv8_strbuf option" where
  "function_location D fip strb = do {
     (_, strb, _) \<leftarrow> v8funcinfo_scriptpath D fip strb MSF_ASCIIONLY;
     strb \<leftarrow> mdbv8_strbuf_sprintf strb '' '';
     (_, strb) \<leftarrow> v8funcinfo_definition_location D fip strb MSF_ASCIIONLY;
     Some strb
   }"

definition dcmd_v8function ::
    "disassembler \<Rightarrow> v8dbg \<Rightarrow> uptr \<Rightarrow> bool option \<Rightarrow> (int \<times> mdb_out list) option" where
  "dcmd_v8function dis D addr opt_d =
     (case opt_d of
        None \<Rightarrow> Some (DCMD_USAGE, [])
      | Some d \<Rightarrow>
          (case v8function_load D addr {} of
             None \<Rightarrow> Some (DCMD_ERR, [])
           | Some fp \<Rightarrow>
               (case v8function_context D fp {} of
                  None \<Rightarrow> Some (DCMD_ERR, [])
                | Some ctxp \<Rightarrow> do {
                    fi \<leftarrow> v8function_funcinfo D fp {};
                    (case fi of
                       None \<Rightarrow> Some (DCMD_ERR, [])
                     | Some fip \<Rightarrow>
                         (case v8funcinfo_code D fip {} of
                            None \<Rightarrow> Some (DCMD_ERR, [])
                          | Some codep \<Rightarrow> do {
                              sb \<leftarrow> mdbv8_strbuf_alloc D 512 {};
                              (case sb of
                                 None \<Rightarrow> Some (DCMD_ERR, [])
                               | Some strb \<Rightarrow> do {
                                   strb \<leftarrow> mdbv8_strbuf_sprintf strb (fmt_p D addr @ '': JSFunction: '');
                                   (_, strb, _) \<leftarrow> v8funcinfo_funcname D fip strb MSF_ASCIIONLY;
                                   strb \<leftarrow> mdbv8_strbuf_sprintf strb NL;
                                   strb \<leftarrow> mdbv8_strbuf_sprintf strb ''defined at '';
                                   strb \<leftarrow> function_location D fip strb;
                                   si \<leftarrow> v8function_scopeinfo D fp {};
                                   (rv, out) \<leftarrow> do_v8code dis D codep d;
                                   Some (rv, [OUT (mdbv8_strbuf_tocstr strb @ NL),
                                     OUT (''context: '' @ fmt_p D (v8context_addr ctxp) @ NL),
                                     OUT (case si of
                                        None \<Rightarrow> ''shared scope_info not available'' @ NL
                                      | Some sip \<Rightarrow> ''shared scope_info: '' @ fmt_p D (v8scopeinfo_addr sip) @ NL)] @ out)
                                 })
                            }))
                  })))"

text \<open>A bound argument; the buffer for its type is not written where the type cannot be read.\<close>

definition jsfunction_bound_arg ::
    "v8dbg \<Rightarrow> v8boundfunction \<Rightarrow> 32 word \<Rightarrow> uptr \<Rightarrow> mdb_out list option \<Rightarrow> int \<times> mdb_out list option" where
  "jsfunction_bound_arg D bfp which val st = (0, do {
     out \<leftarrow> st;
     (rv, b, _) \<leftarrow> obj_jstype D val \<lparr>lb_text = [], lb_len = 80\<rparr>;
     if rv \<noteq> 0 then None
     else Some (out @ [OUT (''      arg'' @ fmt_d (ucast which) @ ''  = '' @ fmt_p D val @ '' ('' @ lbuf_cstr b @ '')'' @ NL)])
   })"

definition dcmd_jsfunction :: "v8dbg \<Rightarrow> uptr \<Rightarrow> (int \<times> mdb_out list) option" where
  "dcmd_jsfunction D addr = do {
     bf \<leftarrow> v8boundfunction_load D addr {UM_SLEEP, UM_GC};
     (case bf of
        Some bfp \<Rightarrow> do {
          let thisp = v8boundfunction_this bfp;
          (rv, b, _) \<leftarrow> obj_jstype D thisp \<lparr>lb_text = [], lb_len = 80\<rparr>;
          if rv \<noteq> 0 then None
          else do {
            (rv, st) \<leftarrow> v8boundfunction_iter_args bfp (jsfunction_bound_arg D)
              (Some [OUT (''bound function that wraps: '' @ fmt_p D (v8boundfunction_target bfp) @ NL),
                     OUT (''with '' @ [CHR 0x22] @ ''this'' @ [CHR 0x22] @ '' = '' @ fmt_p D thisp @
                       '' ('' @ lbuf_cstr b @ '')'' @ NL)]);
            map_option (Pair rv) st
          }
        }
      | None \<Rightarrow>
          (case v8function_load D addr {UM_SLEEP, UM_GC} of
             None \<Rightarrow> Some (DCMD_ERR, [])
           | Some fp \<Rightarrow> do {
               fi \<leftarrow> v8function_funcinfo D fp {UM_SLEEP, UM_GC};
               (case fi of
                  None \<Rightarrow> Some (DCMD_ERR, [])
                | Some fip \<Rightarrow> do {
                    sb \<leftarrow> mdbv8_strbuf_alloc D 512 {UM_SLEEP, UM_GC};
                    (case sb of
                       None \<Rightarrow> Some (DCMD_ERR, [])
                     | Some strb \<Rightarrow> do {
                         strb \<leftarrow> mdbv8_strbuf_sprintf strb ''function: '';
                         (rv, strb, _) \<leftarrow> v8funcinfo_funcname D fip strb MSF_ASCIIONLY;
                         if rv \<noteq> 0 then Some (DCMD_ERR, [])
                         else do {
                           strb \<leftarrow> mdbv8_strbuf_sprintf strb (NL @ ''defined at '');
                           strb \<leftarrow> function_location D fip strb;
                           Some (DCMD_OK, [OUT (mdbv8_strbuf_tocstr strb @ NL)])
                         }
                       })
                  })
             }))
   }"

text \<open>
  \<^verbatim>\<open>::jssource\<close>: the two positions are not written where they cannot be read, and compared
  all the same.
\<close>

definition dcmd_jssource :: "v8dbg \<Rightarrow> uptr \<Rightarrow> uptr option \<Rightarrow> (int \<times> mdb_out list) option" where
  "dcmd_jssource D addr opts =
     (case opts of
        None \<Rightarrow> Some (DCMD_USAGE, [])
      | Some nlines \<Rightarrow>
          (case (if V8_IS_HEAPOBJECT D addr then read_typebyte D addr else None) of
             None \<Rightarrow> Some (DCMD_ERR, [])
           | Some type \<Rightarrow>
               (case map_option the (enum_lookup_str NTYPES (v8_types D) (ucast type) (Some [])) of
                  None \<Rightarrow> None
                | Some typename \<Rightarrow>
               if strcmp typename ''JSFunction'' \<noteq> 0
               then Some (DCMD_ERR, [])
               else (case (do {
                   funcinfop \<leftarrow> read_heap_ptr D addr (gv D V8_OFF_JSFUNCTION_SHARED);
                   scriptp \<leftarrow> read_heap_ptr D funcinfop (gv D V8_OFF_SHAREDFUNCTIONINFO_SCRIPT);
                   funcnamep \<leftarrow> read_heap_ptr D scriptp (gv D V8_OFF_SCRIPT_NAME);
                   Some (funcinfop, scriptp, funcnamep) }) of
                   None \<Rightarrow> Some (DCMD_ERR, [])
                 | Some (funcinfop, scriptp, funcnamep) \<Rightarrow> do {
                     tokpos \<leftarrow> read_heap_maybesmi D funcinfop (gv D V8_OFF_SHAREDFUNCTIONINFO_FUNCTION_TOKEN_POSITION);
                     endpos \<leftarrow> read_heap_maybesmi D funcinfop (gv D V8_OFF_SHAREDFUNCTIONINFO_END_POSITION);
                     (rv, b, _) \<leftarrow> jsstr_print D funcnamep JSSTR_NUDE \<lparr>lb_text = [], lb_len = 256\<rparr>;
                     src \<leftarrow> (if tokpos \<noteq> endpos then jsfunc_lines D scriptp tokpos endpos nlines (Some line_prefix)
                            else Some []);
                     Some (DCMD_OK, (if rv = 0 then [OUT (''file: '' @ lbuf_cstr b @ NL)] else []) @
                       map OUT src @ [OUT NL])
                   }))))"

section \<open>Closures\<close>

definition closure_args :: jsobj_print_args where
  "closure_args = \<lparr>jsop_indent = 4, jsop_depth = 1, jsop_printaddr = True, jsop_baseaddr = 0,
     jsop_member = None, jsop_maxstrlen = 0\<rparr>"

definition closure_state :: "lbuf \<Rightarrow> jsobj_print_state" where
  "closure_state b = \<lparr>jsop_buf = b, jsop_nprops = 0, jsop_found = False, jsop_descended = False, jsop_propinfo = 0\<rparr>"

definition jsclosure_iter_var ::
    "v8dbg \<Rightarrow> v8context \<Rightarrow> v8scopeinfo \<Rightarrow> v8scopeinfo_var \<Rightarrow> mdb_out list option \<Rightarrow> int \<times> mdb_out list option" where
  "jsclosure_iter_var D ctxp sip sivp st =
     (case (do {
        out \<leftarrow> st;
        namep \<leftarrow> v8scopeinfo_var_name sip sivp;
        (rv, b, _) \<leftarrow> jsstr_print D namep JSSTR_QUOTED (bsnprintf \<lparr>lb_text = [], lb_len = 1024\<rparr> ''    '');
        if rv \<noteq> 0 then Some (- 1, out)
        else do {
          valp \<leftarrow> v8context_var_value D ctxp (ucast (v8scopeinfo_var_idx sip sivp));
          (case valp of
             None \<Rightarrow> Some (- 1, out)
           | Some val \<Rightarrow> do {
               (rv, s) \<leftarrow> jsobj_print D val closure_args (closure_state (bsnprintf b '': ''));
               if rv \<noteq> 0 then Some (- 1, out)
               else Some (0, out @ [OUT (lbuf_cstr (jsop_buf s) @ NL)])
             })
        }
      }) of
        None \<Rightarrow> (- 1, None)
      | Some (rv, out) \<Rightarrow> (rv, Some out))"

definition dcmd_jsclosure :: "v8dbg \<Rightarrow> uptr \<Rightarrow> (int \<times> mdb_out list) option" where
  "dcmd_jsclosure D addr =
     (let memflags = {UM_SLEEP, UM_GC} in
      case v8function_load D addr memflags of
        None \<Rightarrow> Some (DCMD_ERR, [])
      | Some funcp \<Rightarrow>
          (case v8function_context D funcp memflags of
             None \<Rightarrow> Some (DCMD_ERR, [])
           | Some ctxp \<Rightarrow> do {
               si \<leftarrow> v8context_scopeinfo D ctxp memflags;
               (case si of
                  None \<Rightarrow> Some (DCMD_ERR, [])
                | Some sip \<Rightarrow> do {
                    (rv, st) \<leftarrow> v8scopeinfo_iter_vars D sip V8SV_CONTEXTLOCALS (jsclosure_iter_var D ctxp) (Some []);
                    map_option (Pair (if rv \<noteq> 0 then DCMD_ERR else DCMD_OK)) st
                  })
             }))"

section \<open>Arrays, constructors, strings\<close>

definition jsarray_print_one :: "v8dbg \<Rightarrow> bool \<Rightarrow> v8array \<Rightarrow> 32 word \<Rightarrow> uptr \<Rightarrow> mdb_out list \<Rightarrow> int \<times> mdb_out list" where
  "jsarray_print_one D opt_i ap index val out =
     (0, out @ (if opt_i then [OUT (fmt_d (ucast index) @ '' '')] else []) @ [OUT (fmt_p D val @ NL)])"

definition dcmd_jsarray :: "v8dbg \<Rightarrow> uptr \<Rightarrow> bool option \<Rightarrow> (int \<times> mdb_out list) option" where
  "dcmd_jsarray D addr opts =
     (case opts of
        None \<Rightarrow> Some (DCMD_USAGE, [])
      | Some opt_i \<Rightarrow>
          (case v8array_load D addr {UM_SLEEP, UM_GC} of
             None \<Rightarrow> Some (DCMD_ERR, [])
           | Some ap \<Rightarrow>
               map_option (\<lambda>(rv, out). (if rv = 0 then DCMD_OK else DCMD_ERR, out))
                 (v8array_iter_elements D ap (jsarray_print_one D opt_i) [])))"

definition dcmd_jsconstructor :: "v8dbg \<Rightarrow> uptr \<Rightarrow> bool option \<Rightarrow> (int \<times> mdb_out list) option" where
  "dcmd_jsconstructor D addr opts =
     (case opts of
        None \<Rightarrow> Some (DCMD_USAGE, [])
      | Some opt_v \<Rightarrow> do {
          (rv, b) \<leftarrow> obj_jsconstructor D addr \<lparr>lb_text = [], lb_len = 80\<rparr> opt_v;
          Some (if rv \<noteq> 0 then (DCMD_ERR, []) else (DCMD_OK, [OUT (lbuf_cstr b @ NL)]))
        })"

definition v8array_print_one :: "v8dbg \<Rightarrow> v8fixedarray \<Rightarrow> 32 word \<Rightarrow> uptr \<Rightarrow> mdb_out list \<Rightarrow> int \<times> mdb_out list" where
  "v8array_print_one D arrayp i val out = (0, out @ [OUT (fmt_p D val @ NL)])"

definition dcmd_v8array :: "v8dbg \<Rightarrow> uptr \<Rightarrow> bool option \<Rightarrow> (int \<times> mdb_out list) option" where
  "dcmd_v8array D addr opts =
     (case opts of
        None \<Rightarrow> Some (DCMD_USAGE, [])
      | Some immediate \<Rightarrow>
          (case v8fixedarray_load D addr {UM_SLEEP, UM_GC} of
             None \<Rightarrow> Some (DCMD_ERR, [])
           | Some arrayp \<Rightarrow>
               if \<not> immediate then
                 map_option (\<lambda>(rv, out). (if rv = 0 then DCMD_OK else DCMD_ERR, out))
                   (v8fixedarray_iter_elements D arrayp (v8array_print_one D) [])
               else
                 let len = (ucast (v8fixedarray_length arrayp) :: 32 word) in
                 Some (case v8fixedarray_as_array D arrayp {UM_SLEEP, UM_GC} of
                    None \<Rightarrow> (DCMD_ERR, [])
                  | Some immed \<Rightarrow> (DCMD_OK, map (\<lambda>i. OUT (fmt_p D (immed ! i) @ NL)) [0..<unat len]))))"

text \<open>\<^verbatim>\<open>::v8str\<close>: \<open>bufsz\<close> is \<open>-1\<close> without \<^verbatim>\<open>-N\<close>.\<close>

definition dcmd_v8str :: "v8dbg \<Rightarrow> uptr \<Rightarrow> (bool \<times> uptr \<times> bool) option \<Rightarrow> (int \<times> mdb_out list) option" where
  "dcmd_v8str D addr opts =
     (case opts of
        None \<Rightarrow> Some (DCMD_USAGE, [])
      | Some (opt_v, bufsz, opt_r) \<Rightarrow>
          (case v8string_load D addr {UM_GC} of
             None \<Rightarrow> Some (DCMD_ERR, [])
           | Some strp \<Rightarrow> do {
               let bufsz = (if bufsz = - 1 then v8string_length strp + 3 else bufsz);
               sb \<leftarrow> mdbv8_strbuf_alloc D bufsz {UM_GC};
               (case sb of
                  None \<Rightarrow> Some (DCMD_ERR, [])
                | Some strb \<Rightarrow> do {
                    (rv, strb, out) \<leftarrow> v8string_write D strp strb (if opt_r then MSF_ASCIIONLY else MSF_JSON)
                      ((if opt_v then JSSTR_VERBOSE else JSSTR_NONE) OR (if opt_r then JSSTR_NONE else JSSTR_QUOTED));
                    if rv \<noteq> 0 then Some (DCMD_ERR, map OUT out)
                    else Some (DCMD_OK, map OUT out @ [OUT (mdbv8_strbuf_tocstr strb @ NL)])
                  })
             }))"

section \<open>Buffers\<close>

text \<open>
  \<^verbatim>\<open>::nodebuffer\<close>: with \<open>-f\<close> the name of the constructor is never written, and compared
  all the same.
\<close>

definition dcmd_nodebuffer :: "v8dbg \<Rightarrow> uptr \<Rightarrow> bool option \<Rightarrow> (int \<times> mdb_out list) option" where
  "dcmd_nodebuffer D addr opts =
     (case opts of
        None \<Rightarrow> Some (DCMD_USAGE, [])
      | Some opt_f \<Rightarrow>
          if opt_f then None
          else do {
            (rv, b) \<leftarrow> obj_jsconstructor D addr \<lparr>lb_text = [], lb_len = 80\<rparr> False;
            let buf = lbuf_cstr b;
            let ok = (\<lambda>rawbuf. (DCMD_OK, [OUT (fmt_p D rawbuf @ NL)]));
            if rv \<noteq> 0 then Some (DCMD_ERR, [])
            else if strcmp buf ''Buffer'' \<noteq> 0 \<and> strcmp buf ''NativeBuffer'' \<noteq> 0 \<and> strcmp buf ''Uint8Array'' \<noteq> 0
            then Some (DCMD_ERR, [])
            else if strcmp buf ''Buffer'' = 0 \<or> strcmp buf ''NativeBuffer'' = 0 \<or>
              gv D V8_OFF_JSARRAYBUFFER_BACKINGSTORE = - 1 then
              (case read_heap_ptr D addr (gv D V8_OFF_JSOBJECT_ELEMENTS) of
                 None \<Rightarrow> Some (DCMD_ERR, [])
               | Some elts \<Rightarrow>
                   map_option (\<lambda>r. case r of Inl _ \<Rightarrow> (DCMD_ERR, []) | Inr rawbuf \<Rightarrow> ok rawbuf) (obj_v8internal D elts 0))
            else if gv D V8_OFF_JSARRAYBUFFER_BACKINGSTORE = - 1 \<or> gv D V8_OFF_JSARRAYBUFFERVIEW_BUFFER = - 1 \<or>
              gv D V8_OFF_JSARRAYBUFFERVIEW_CONTENT_OFFSET = - 1 then Some (DCMD_ERR, [])
            else Some (case (do {
                view \<leftarrow> read_heap_ptr D addr (gv D V8_OFF_JSARRAYBUFFERVIEW_BUFFER);
                rawbuf \<leftarrow> read_heap_ptr D view (gv D V8_OFF_JSARRAYBUFFER_BACKINGSTORE);
                off \<leftarrow> read_heap_smi D addr (gv D V8_OFF_JSARRAYBUFFERVIEW_CONTENT_OFFSET);
                Some (rawbuf + off) }) of
                None \<Rightarrow> (DCMD_ERR, [])
              | Some rawbuf \<Rightarrow> ok rawbuf)
          })"

section \<open>All functions\<close>

text \<open>
  The options of \<^verbatim>\<open>::jsfunctions\<close>: \<^verbatim>\<open>-l\<close>, \<^verbatim>\<open>-x\<close> (0 without), \<^verbatim>\<open>-X\<close>, \<^verbatim>\<open>-n\<close>, \<^verbatim>\<open>-s\<close>.
\<close>

record jsfuncs_opts =
  jf_listlike :: bool
  jf_instr :: uptr
  jf_showrange :: bool
  jf_name :: "string option"
  jf_filename :: "string option"

text \<open>The location is looked up the first time it is shown, into an array of twenty characters.\<close>

definition func_locate :: "v8dbg \<Rightarrow> findjsobjects_func \<Rightarrow> findjsobjects_func option" where
  "func_locate D func =
     (if fjsf_location func \<noteq> [] then Some func
      else (case (do {
          tokpos \<leftarrow> read_heap_maybesmi D (fjsf_shared func) (gv D V8_OFF_SHAREDFUNCTIONINFO_FUNCTION_TOKEN_POSITION);
          script \<leftarrow> read_heap_ptr D (fjsf_shared func) (gv D V8_OFF_SHAREDFUNCTIONINFO_SCRIPT);
          lends \<leftarrow> read_heap_ptr D script (gv D V8_OFF_SCRIPT_LINE_ENDS);
          Some (tokpos, lends) }) of
          None \<Rightarrow> Some func
        | Some (tokpos, lends) \<Rightarrow> do {
            (err, s, _) \<leftarrow> jsfunc_lineno D lends (V8_VALUE_SMI D tokpos) 20;
            Some (func\<lparr>fjsf_location := (if err \<noteq> 0 then [] else case s of None \<Rightarrow> [] | Some s \<Rightarrow> s)\<rparr>)
          }))"

text \<open>The code of a function and the size of its instructions.\<close>

definition func_code :: "v8dbg \<Rightarrow> uptr \<Rightarrow> (uptr \<times> uptr) option" where
  "func_code D funcinfo = do {
     code \<leftarrow> read_heap_ptr D funcinfo (gv D V8_OFF_SHAREDFUNCTIONINFO_CODE);
     ilen \<leftarrow> read_heap_ptr D code (gv D V8_OFF_CODE_INSTRUCTION_SIZE);
     Some (code, ilen)
   }"

text \<open>Whether a function passes the filters.\<close>

definition func_selected :: "v8dbg \<Rightarrow> jsfuncs_opts \<Rightarrow> findjsobjects_func \<Rightarrow> bool" where
  "func_selected D P func \<longleftrightarrow>
     (case jf_name P of None \<Rightarrow> True | Some name \<Rightarrow> strstr (fjsf_funcname func) name \<noteq> None) \<and>
     (case jf_filename P of None \<Rightarrow> True | Some name \<Rightarrow> strstr (fjsf_scriptname func) name \<noteq> None) \<and>
     (let (code, ilen) = (if jf_showrange P \<or> jf_instr P \<noteq> 0
            then (case func_code D (fjsf_shared func) of None \<Rightarrow> (0, 0) | Some r \<Rightarrow> r) else (0, 0));
          start = code + gv D V8_OFF_CODE_INSTRUCTION_START
      in \<not> ((jf_instr P \<noteq> 0 \<and> ilen \<noteq> 0) \<and> (jf_instr P < start \<or> start + ilen \<le> jf_instr P)))"

definition func_line :: "v8dbg \<Rightarrow> bool \<Rightarrow> bool \<Rightarrow> findjsobjects_func \<Rightarrow> string" where
  "func_line D listlike showrange func =
     (let addr = lpad 16 (fmt_p D (fjsi_addr (fjsf_instances func)));
          head = addr @ '' '' @ lpad 8 (show_int (fjsf_ninstances func)) @ '' '';
          tail = rpad 40 (fjsf_funcname func) @ '' '' @ fjsf_scriptname func @ '' '' @ fjsf_location func @ NL
      in if listlike then addr @ NL
         else if \<not> showrange then head @ tail
         else (case func_code D (fjsf_shared func) of
            None \<Rightarrow> head @ lpad 16 ''?'' @ '' '' @ lpad 16 ''?'' @ '' '' @ tail
          | Some (code, ilen) \<Rightarrow>
              let start = code + gv D V8_OFF_CODE_INSTRUCTION_START in
              head @ lpad 16 (fmt_p D start) @ '' '' @ lpad 16 (fmt_p D (start + ilen)) @ '' '' @ tail))"

text \<open>The loop over the functions; \<open>at\<close> is the address given, if any.\<close>

fun jsfunctions_loop ::
    "v8dbg \<Rightarrow> jsfuncs_opts \<Rightarrow> uptr option \<Rightarrow> findjsobjects_func list \<Rightarrow> (findjsobjects_func list \<times> string list) option" where
  "jsfunctions_loop D P addrp [] = Some ([], [])"
| "jsfunctions_loop D P addrp (func # funcs) = do {
     (func, out) \<leftarrow> (case addrp of
        Some addr \<Rightarrow>
          Some (func, if addr \<noteq> fjsi_addr (fjsf_instances func) then []
            else map (\<lambda>a. lpad 16 (fmt_p D a) @ NL) (instance_list (fjsf_instances func)))
      | None \<Rightarrow> do {
          func \<leftarrow> func_locate D func;
          Some (func, if func_selected D P func then [func_line D (jf_listlike P) (jf_showrange P) func] else [])
        });
     (funcs, more) \<leftarrow> jsfunctions_loop D P addrp funcs;
     Some (func # funcs, out @ more)
   }"

definition jsfunctions_head :: "jsfuncs_opts \<Rightarrow> uptr option \<Rightarrow> string list" where
  "jsfunctions_head P addrp =
     (let listlike = jf_listlike P \<or> addrp \<noteq> None; func = lpad 16 ''FUNC'' @ '' '' @ lpad 8 ''#FUNCS'' @ '' '';
          from_name = rpad 40 ''NAME'' @ '' '' @ ''FROM'' @ NL
      in if listlike then []
         else if \<not> jf_showrange P then [func @ from_name]
         else [func @ lpad 16 ''START'' @ '' '' @ lpad 16 ''END'' @ '' '' @ from_name])"

definition dcmd_jsfunctions ::
    "fjs_env \<Rightarrow> v8dbg \<Rightarrow> pmapping_iter \<Rightarrow> findjsobjects_state \<Rightarrow> uptr option \<Rightarrow> jsfuncs_opts option \<Rightarrow>
     (int \<times> findjsobjects_state \<times> string list) option" where
  "dcmd_jsfunctions E D pshandle fjs addrp opts =
     (case opts of
        None \<Rightarrow> Some (DCMD_USAGE, fjs, [])
      | Some P \<Rightarrow> do {
          (rv, fjs, out) \<leftarrow> findjsobjects_run E D pshandle fjs;
          if rv \<noteq> 0 then Some (DCMD_ERR, fjs, out)
          else if jf_listlike P \<and> addrp = None \<and> (jf_name P \<noteq> None \<or> jf_filename P \<noteq> None \<or> jf_instr P \<noteq> 0)
          then Some (DCMD_ERR, fjs, out)
          else if \<not> fjs_finished fjs then Some (DCMD_ERR, fjs, out)
          else do {
            (funcs, lines) \<leftarrow> jsfunctions_loop D P addrp (fjs_funcs fjs);
            Some (DCMD_OK, fjs\<lparr>fjs_funcs := funcs\<rparr>, out @ jsfunctions_head P addrp @ lines)
          }
        })"

section \<open>Fields, warnings, addresses\<close>

text \<open>
  \<^verbatim>\<open>::v8field\<close>: the class, the field and, with three arguments, the offset to set, parsed
  by \<^verbatim>\<open>mdb_strtoull\<close>. \<^verbatim>\<open>%x\<close> shows the low half of the offset.
\<close>

fun field_set :: "string \<Rightarrow> uptr \<Rightarrow> v8_field list \<Rightarrow> v8_field list" where
  "field_set field off [] = []"
| "field_set field off (flp # flps) =
     (if strcmp field (v8f_name flp) = 0 then flp\<lparr>v8f_offset := off\<rparr> # flps else flp # field_set field off flps)"

definition v8field_line :: "string \<Rightarrow> string \<Rightarrow> uptr \<Rightarrow> mdb_out list" where
  "v8field_line klass field off =
     [OUT (klass @ ''::'' @ field @ '' at offset 0x'' @ digits_of 16 (unat (ucast off :: 32 word)) @ NL)]"

definition dcmd_v8field ::
    "(string \<Rightarrow> uptr) \<Rightarrow> v8dbg \<Rightarrow> mdb_args \<Rightarrow> int \<times> v8dbg \<times> mdb_out list" where
  "dcmd_v8field strtoull D argv =
     (case (if length argv = 2 \<or> length argv = 3 then those argv else None) of
        None \<Rightarrow> (DCMD_USAGE, D, [])
      | Some args \<Rightarrow>
          let klass = args ! 0; field = args ! 1;
              setp = (if length args = 3 then Some (strtoull (args ! 2)) else None)
          in (case List.find (\<lambda>clp. strcmp (v8c_name clp) klass = 0) (v8_classes D) of
                None \<Rightarrow> (DCMD_ERR, D, [OUT (''error: no such class: '' @ [CHR 0x22] @ klass @ [CHR 0x22])])
              | Some clp \<Rightarrow>
                  (case (List.find (\<lambda>flp. strcmp field (v8f_name flp) = 0) (v8c_fields clp), setp) of
                     (None, None) \<Rightarrow>
                       (DCMD_ERR, D, [OUT (''error: no such field in class '' @ [CHR 0x22] @ klass @ [CHR 0x22] @ '': '' @
                          [CHR 0x22] @ field @ [CHR 0x22])])
                   | (None, Some off) \<Rightarrow>
                       (case conf_field_create D (v8c_addr clp) field off False False of
                          None \<Rightarrow> (DCMD_ERR, D, [])
                        | Some D' \<Rightarrow> (DCMD_OK, D', v8field_line klass field off))
                   | (Some flp, None) \<Rightarrow> (DCMD_OK, D, v8field_line klass field (v8f_offset flp))
                   | (Some flp, Some off) \<Rightarrow>
                       (DCMD_OK, class_update (v8c_addr clp) (\<lambda>c. c\<lparr>v8c_fields := field_set field off (v8c_fields c)\<rparr>) D,
                        v8field_line klass field off))))"

text \<open>The command toggles the lowest bit of the counter of warnings.\<close>

definition dcmd_v8warnings :: "32 word \<Rightarrow> int \<times> 32 word \<times> mdb_out list" where
  "dcmd_v8warnings v8_warnings =
     (let v8_warnings = v8_warnings XOR 1
      in (DCMD_OK, v8_warnings, [OUT (''v8 warnings are now '' @ (if v8_warnings \<noteq> 0 then ''on'' else ''off'') @ NL)]))"

definition dcmd_v8whatis :: "v8dbg \<Rightarrow> uptr option \<Rightarrow> (bool \<times> uptr) option \<Rightarrow> (int \<times> mdb_out list) option" where
  "dcmd_v8whatis D addrp opts =
     (case addrp of
        None \<Rightarrow> Some (DCMD_ERR, [])
      | Some addr \<Rightarrow>
          (case opts of
             None \<Rightarrow> Some (DCMD_USAGE, [])
           | Some (verbose, maxoffset) \<Rightarrow> do {
               (err, whatis) \<leftarrow> v8whatis D addr maxoffset
                 \<lparr>v8w_addr = 0, v8w_origaddr = 0, v8w_baseaddr = 0, v8w_basetype = 0\<rparr>;
               let base = fmt_p D (v8w_baseaddr whatis);
               (case err of
                  V8W_ERR_NOTFOUND \<Rightarrow> Some (DCMD_OK, [])
                | V8W_ERR_DOESNTCONTAIN \<Rightarrow> Some (DCMD_OK, [])
                | V8W_OK \<Rightarrow>
                    if \<not> verbose then Some (DCMD_OK, [OUT (base @ NL)])
                    else do {
                      typename \<leftarrow> enum_lookup_str NTYPES (v8_types D) (ucast (v8w_basetype whatis)) (Some ''(unknown)'');
                      Some (DCMD_OK, [OUT (base @ '' (found Map at '' @ base @ '' ('' @ fmt_p D (v8w_origaddr whatis) @ ''-0x'' @
                        digits_of 16 (unat (ucast (v8w_origaddr whatis - v8w_baseaddr whatis) :: 32 word)) @
                        '') for type '' @ the typename @ '')'' @ NL)])
                    })
             }))"

section \<open>Lemmas\<close>

text \<open>The addresses of the instructions from \<open>a\<close> on: each begins where the one before ends.\<close>

fun instr_chain :: "(uptr \<Rightarrow> uptr) \<Rightarrow> uptr \<Rightarrow> uptr list \<Rightarrow> uptr \<Rightarrow> bool" where
  "instr_chain follow endp [] b \<longleftrightarrow> endp \<le> b"
| "instr_chain follow endp (a # as) b \<longleftrightarrow> a = b \<and> b < endp \<and> instr_chain follow endp as (follow b)"

lemma v8code_dis_chain:
  assumes "\<And>a. start \<le> a \<Longrightarrow> a < endp \<Longrightarrow> dis a = (shown a, Some (follow a)) \<and> a < follow a"
    and "start \<le> dot" "dot < endp"
  shows "\<exists>as. instr_chain follow endp as dot \<and> sorted_wrt (<) as \<and> (\<forall>a\<in>set as. dot \<le> a) \<and>
    v8code_dis dis dot endp = Some (DCMD_OK, concat (map (\<lambda>a. INDENT 8 # shown a) as) @ [DEDENT 8])"
  using assms(2,3)
proof (induction "unat endp - unat dot" arbitrary: dot rule: less_induct)
  case less
  have dis: "dis dot = (shown dot, Some (follow dot))" "dot < follow dot" using assms(1) less.prems by auto
  show ?case
  proof (cases "follow dot < endp")
    case True
    have "unat dot < unat (follow dot)" "unat (follow dot) < unat endp" using True dis(2) by (simp_all add: word_less_nat_alt)
    then have "unat endp - unat (follow dot) < unat endp - unat dot" by simp
    from less.hyps [OF this _ True] obtain as where as: "instr_chain follow endp as (follow dot)"
      "sorted_wrt (<) as" "\<forall>a\<in>set as. follow dot \<le> a"
      "v8code_dis dis (follow dot) endp =
         Some (DCMD_OK, concat (map (\<lambda>a. INDENT 8 # shown a) as) @ [DEDENT 8])"
      using order_trans [OF less.prems(1) less_imp_le [OF dis(2)]] by blast
    have "v8code_dis dis dot endp =
        Some (DCMD_OK, concat (map (\<lambda>a. INDENT 8 # shown a) (dot # as)) @ [DEDENT 8])"
      using dis True as(4) by (subst v8code_dis.simps) simp
    moreover have "\<forall>a\<in>set (dot # as). dot \<le> a" "sorted_wrt (<) (dot # as)"
      using as(2,3) dis(2) by (auto dest: order_less_le_trans)
    ultimately show ?thesis using as(1) less.prems by (intro exI [of _ "dot # as"]) simp
  next
    case False
    then have "v8code_dis dis dot endp = Some (DCMD_OK, INDENT 8 # shown dot @ [DEDENT 8])"
      using dis by (subst v8code_dis.simps) simp
    then show ?thesis using False less.prems by (intro exI [of _ "[dot]"]) simp
  qed
qed

section \<open>Properties\<close>

text \<open>
  C21. Disassembling code ends: if the debugger shows the instruction at every address of the
  code and moves on behind it, \<^verbatim>\<open>::v8code -d\<close> shows, from the first instruction on, every
  instruction that begins where the one before ends, once and in the order of the addresses,
  until the end of the code.
\<close>

theorem v8code_disassembly:
  assumes "v8code_load D addr {UM_GC} = Some codep"
    and "endp = v8code_instructions_start codep + v8code_instructions_size codep"
    and "v8code_instructions_start codep < endp"
    and "\<And>a. v8code_instructions_start codep \<le> a \<Longrightarrow> a < endp \<Longrightarrow>
      dis a = (shown a, Some (follow a)) \<and> a < follow a"
  shows "\<exists>as. instr_chain follow endp as (v8code_instructions_start codep) \<and> sorted_wrt (<) as \<and>
    dcmd_v8code dis D addr (Some True) = Some (DCMD_OK,
      [OUT (''code: '' @ fmt_p D addr @ NL),
       OUT (''instructions: ['' @ fmt_p D (v8code_instructions_start codep) @ '', '' @ fmt_p D endp @ '')'' @ NL)] @
      concat (map (\<lambda>a. INDENT 8 # shown a) as) @ [DEDENT 8])"
proof -
  have addr: "v8code_addr codep = addr"
    using assms(1) by (auto simp: v8code_load_def split: bind_splits if_splits)
  obtain as where "instr_chain follow endp as (v8code_instructions_start codep)" "sorted_wrt (<) as"
    "v8code_dis dis (v8code_instructions_start codep) endp =
       Some (DCMD_OK, concat (map (\<lambda>a. INDENT 8 # shown a) as) @ [DEDENT 8])"
    using v8code_dis_chain [OF assms(4) order_refl assms(3)] by blast
  then show ?thesis
    using assms(1,2) by (auto simp: dcmd_v8code_def do_v8code_def Let_def addr)
qed

text \<open>Sixteen bytes of code that are disassembled as two instructions of eight.\<close>

definition code_sample :: v8dbg where
  "code_sample = (sample_dbg [(0x100, 16)])\<lparr>gv := (gv (sample_dbg [(0x100, 16)]))
     (V8_OFF_CODE_INSTRUCTION_SIZE := 7, V8_OFF_CODE_INSTRUCTION_START := 31)\<rparr>"

lemma v8code_disassembly_witness:
  "\<exists>as. instr_chain (\<lambda>a. a + 8) 0x128 as 0x118 \<and> sorted_wrt (<) as \<and>
    dcmd_v8code (\<lambda>a. ([OUT ''nop''], Some (a + 8))) code_sample 0xf9 (Some True) = Some (DCMD_OK,
      [OUT (''code: '' @ fmt_p code_sample 0xf9 @ NL),
       OUT (''instructions: ['' @ fmt_p code_sample 0x118 @ '', '' @ fmt_p code_sample 0x128 @ '')'' @ NL)] @
      concat (map (\<lambda>a. INDENT 8 # [OUT ''nop'']) as) @ [DEDENT 8])"
proof -
  let ?c = "\<lparr>v8code_addr = 0xf9, v8code_memflags = {UM_GC}, v8code_instr_start = 0x118, v8code_instr_size = 16\<rparr>"
  have "read_heap_ptr code_sample 0xf9 7 = Some 16" by code_simp
  then have "v8code_load code_sample 0xf9 {UM_GC} = Some ?c"
    by (simp add: v8code_load_def code_sample_def sample_dbg_def)
  moreover have "a + 8 < (0x130 :: uptr) \<and> a < a + 8" if "a < 0x128" for a :: uptr
    using that by (simp add: word_less_nat_alt unat_word_ariths)
  ultimately show ?thesis
    using v8code_disassembly [where D = code_sample and addr = "0xf9" and codep = ?c and endp = "0x128" and
      dis = "\<lambda>a. ([OUT ''nop''], Some (a + 8))" and shown = "\<lambda>_. [OUT ''nop'']" and follow = "\<lambda>a. a + 8"]
    by (simp add: v8code_instructions_start_def v8code_instructions_size_def)
qed

end
