(* ===== verification/Tables.thy ===== *)
theory Tables
  imports Autoconf Commands
begin

text \<open>
  The well-formedness of the tables of classes and types that are built from the metadata
  (\<^verbatim>\<open>src/src/mdb_v8.c\<close>): what every symbol of a configuration keeps of them, and
  what the command \<^verbatim>\<open>::v8field\<close> changes in them.
\<close>

section \<open>Well-formed tables\<close>

text \<open>
  The classes are sorted by name, the one allocated as number \<open>n\<close> has the address \<open>n\<close>, parents
  are classes of the table, the fields of a class are sorted by offset, and no more entries of
  the two arrays were handed out than there are, plus the one behind the last that was counted
  but not filled.
\<close>

definition classes_wf :: "v8_class list \<Rightarrow> bool" where
  "classes_wf cls \<longleftrightarrow> classes_sorted cls \<and> distinct (map v8c_addr cls) \<and>
     v8c_addr ` set cls = {..<length cls} \<and>
     (\<forall>c\<in>set cls. fields_sorted (v8c_fields c) \<and> (\<forall>p. v8c_parent c = Some p \<longrightarrow> p < length cls))"

definition tables_wf :: "v8dbg \<Rightarrow> bool" where
  "tables_wf D \<longleftrightarrow> classes_wf (v8_classes D) \<and> length (v8_types D) \<le> NTYPES + 1 \<and>
     length (v8_frametypes D) \<le> NFRAMETYPES + 1"

section \<open>Lemmas\<close>

text \<open>An insertion that finds its class changes nothing; otherwise the new class is among the others.\<close>

lemma class_insert_cases:
  assumes "class_insert cls n new = Some (cls', a)"
  obtains "cls' = cls" "a \<in> v8c_addr ` set cls"
    | c pre post where "new = Some c" "cls = pre @ post" "cls' = pre @ c # post" "a = v8c_addr c"
proof -
  have "(cls' = cls \<and> a \<in> v8c_addr ` set cls) \<or>
      (\<exists>c pre post. new = Some c \<and> cls = pre @ post \<and> cls' = pre @ c # post \<and> a = v8c_addr c)"
    using assms
  proof (induction cls arbitrary: cls')
    case (Cons x xs)
    consider "strcmp (v8c_name x) n = 0" | "0 < strcmp (v8c_name x) n"
      | ys where "strcmp (v8c_name x) n < 0" "class_insert xs n new = Some (ys, a)" "cls' = x # ys"
      using Cons.prems by (fastforce simp: Let_def split: if_splits)
    then show ?case
    proof cases
      case 2
      then have "\<exists>c. new = Some c \<and> cls' = c # x # xs \<and> a = v8c_addr c" using Cons.prems by (auto simp: Let_def)
      then show ?thesis by (metis append_Nil)
    next
      case 3
      from Cons.IH [OF 3(2)] show ?thesis
      proof (elim disjE exE conjE)
        fix c pre post assume "new = Some c" "xs = pre @ post" "ys = pre @ c # post" "a = v8c_addr c"
        then show ?thesis using 3(3) by (metis append_Cons)
      qed (use 3(3) in auto)
    qed (use Cons.prems in auto)
  qed auto
  then show thesis using that by blast
qed

lemma findcreate_wf:
  assumes "conf_class_findcreate D name = Some (D', a)" "classes_wf (v8_classes D)" "length name < 64"
  shows "classes_wf (v8_classes D')" "a < length (v8_classes D')" "length (v8_classes D) \<le> length (v8_classes D')"
    "v8_types D' = v8_types D" "v8_frametypes D' = v8_frametypes D" "zalloc_ok D' = zalloc_ok D"
proof -
  let ?cls = "v8_classes D" and ?new = "new_class D name"
  from assms(1) obtain cls where cls: "class_insert ?cls name ?new = Some (cls, a)" "D' = D\<lparr>v8_classes := cls\<rparr>"
    by (auto simp: conf_class_findcreate_def)
  have nm: "v8c_name c = name" "v8c_addr c = length ?cls" "v8c_parent c = None" "v8c_fields c = []" if "?new = Some c" for c
    using that assms(3) by (auto simp: new_class_def strlcpy_def split: if_splits)
  have wf: "classes_sorted ?cls" "distinct (map v8c_addr ?cls)" "v8c_addr ` set ?cls = {..<length ?cls}"
    "\<And>c p. c \<in> set ?cls \<Longrightarrow> fields_sorted (v8c_fields c) \<and> (v8c_parent c = Some p \<longrightarrow> p < length ?cls)"
    using assms(2) by (auto simp: classes_wf_def)
  have sorted: "classes_sorted cls" by (rule class_insert_sorted [OF wf(1) cls(1) nm(1)])
  have all: "classes_wf cls \<and> a < length cls \<and> length ?cls \<le> length cls"
    using cls(1)
  proof (cases rule: class_insert_cases)
    case 1
    then show ?thesis using assms(2) wf(3) by auto
  next
    case (2 c pre post)
    have eq: "set cls = insert c (set ?cls)" "length cls = Suc (length ?cls)" using 2 by auto
    have "length ?cls \<notin> v8c_addr ` set ?cls" using wf(3) by simp
    then have "distinct (map v8c_addr cls)" using wf(2) nm(2) [OF 2(1)] 2(2,3) by auto
    moreover have "v8c_addr ` set cls = {..<length cls}" using eq wf(3) nm(2) [OF 2(1)] by auto
    ultimately show ?thesis
      using sorted wf(4) nm [OF 2(1)] eq 2(4)
      unfolding classes_wf_def eq(1) by (auto simp: fields_sorted_def less_Suc_eq)
  qed
  then show "classes_wf (v8_classes D')" "a < length (v8_classes D')" "length ?cls \<le> length (v8_classes D')"
    by (simp_all add: cls(2))
  show "v8_types D' = v8_types D" "v8_frametypes D' = v8_frametypes D" "zalloc_ok D' = zalloc_ok D" by (simp_all add: cls(2))
qed

text \<open>Changes of one class that keep its name and its address.\<close>

lemma class_update_wf:
  assumes "classes_wf (v8_classes D)"
    and "\<And>c. v8c_addr (f c) = v8c_addr c \<and> v8c_name (f c) = v8c_name c"
    and "\<And>c p. fields_sorted (v8c_fields c) \<Longrightarrow> fields_sorted (v8c_fields (f c))"
    and "\<And>c p. v8c_parent (f c) = Some p \<Longrightarrow> v8c_parent c = Some p \<or> p < length (v8_classes D)"
  shows "classes_wf (v8_classes (class_update a f D))"
proof -
  let ?cls = "v8_classes D" and ?g = "\<lambda>c. if v8c_addr c = a then f c else c"
  have upd: "v8_classes (class_update a f D) = map ?g ?cls" by (simp add: class_update_def)
  have g: "v8c_addr (?g c) = v8c_addr c" "v8c_name (?g c) = v8c_name c" for c using assms(2) by auto
  have addrs: "map v8c_addr (map ?g ?cls) = map v8c_addr ?cls" unfolding map_map by (rule map_cong [OF refl]) (simp add: g(1))
  then have "v8c_addr ` set (map ?g ?cls) = v8c_addr ` set ?cls" by (metis (no_types) list.set_map)
  moreover have "classes_sorted (map ?g ?cls)"
    using assms(1) unfolding classes_wf_def classes_sorted_def sorted_wrt_map g(2) by blast
  moreover have "\<forall>c\<in>set (map ?g ?cls). fields_sorted (v8c_fields c) \<and> (\<forall>p. v8c_parent c = Some p \<longrightarrow> p < length ?cls)"
    unfolding list.set_map using assms(1,3,4) unfolding classes_wf_def by (auto split: if_splits) blast
  ultimately show ?thesis
    using assms(1) unfolding classes_wf_def upd addrs length_map by (intro conjI) auto
qed

lemma strstr_length: "strstr s pat = Some i \<Longrightarrow> i + length pat \<le> length s"
  by (induction s arbitrary: i) (fastforce simp: has_prefix_iff split: if_splits dest: arg_cong [where f = length])+

lemma next_part_length: "conf_next_part s = Some (pp, qq) \<Longrightarrow> length pp + length qq + 2 \<le> length s"
  by (auto simp: conf_next_part_def split: option.splits dest!: strstr_length)

text \<open>
  The symbols that name a class. Any other symbol of the target, however long its name is, adds
  at most a type, whose name is cut to its room.
\<close>

definition names_class :: "string \<Rightarrow> bool" where
  "names_class symbol \<longleftrightarrow> has_prefix ''v8dbg_parent_'' symbol \<or> has_prefix ''v8dbg_class_'' symbol"

text \<open>Each kind of symbol.\<close>

lemma update_parent_wf:
  assumes "conf_update_parent symbol D = (rv, D')" "tables_wf D" "length symbol < 78"
  shows "tables_wf D'"
proof -
  let ?part = "drop (length ''v8dbg_parent_'') (strlcpy 128 symbol)"
  show ?thesis
  proof (cases "conf_next_part ?part")
    case None
    then show ?thesis using assms by (simp add: conf_update_parent_def)
  next
    case (Some pq)
    then obtain pp qq where part: "conf_next_part ?part = Some (pp, qq)" by (cases pq) auto
    have len: "length pp < 64" "length qq < 64"
      using next_part_length [OF part] assms(3) by (simp_all add: strlcpy_def)
    show ?thesis
    proof (cases "conf_class_findcreate D pp")
      case None
      then show ?thesis using assms part findcreate_wf [OF _ _ len(2)]
        by (auto simp: conf_update_parent_def tables_wf_def split: option.splits)
    next
      case (Some r)
      then obtain D1 clp where one: "conf_class_findcreate D pp = Some (D1, clp)" by (cases r) auto
      note w1 = findcreate_wf [OF one _ len(1)]
      show ?thesis
      proof (cases "conf_class_findcreate D1 qq")
        case None
        then show ?thesis using assms part one w1 by (auto simp: conf_update_parent_def tables_wf_def)
      next
        case (Some r)
        then obtain D2 pclp where two: "conf_class_findcreate D1 qq = Some (D2, pclp)" by (cases r) auto
        have D': "D' = class_update clp (\<lambda>c. c\<lparr>v8c_parent := Some pclp\<rparr>) D2"
          using assms(1) part one two by (simp add: conf_update_parent_def)
        have c1: "classes_wf (v8_classes D1)" using w1(1) assms(2) by (simp add: tables_wf_def)
        note w2 = findcreate_wf [OF two c1 len(2)]
        have "classes_wf (v8_classes D')"
          unfolding D' by (rule class_update_wf [OF w2(1)]) (use w2(2) in auto)
        then show ?thesis
          using assms(2) w1(4,5) w2(4,5) D' by (auto simp: tables_wf_def class_update_def)
      qed
    qed
  qed
qed

lemma field_create_wf:
  assumes "conf_field_create D clp n offset b s = Some D'" "tables_wf D"
  shows "tables_wf D'"
proof -
  obtain flp where D': "D' = class_update clp (\<lambda>c. c\<lparr>v8c_fields := field_insert (v8c_fields c) flp\<rparr>) D"
    using assms(1) by (auto simp: conf_field_create_def split: if_splits)
  have "classes_wf (v8_classes D')"
    unfolding D' by (rule class_update_wf) (use assms(2) in \<open>auto simp: tables_wf_def intro: field_insert_sorted\<close>)
  then show ?thesis using assms(2) by (simp add: tables_wf_def D' class_update_def)
qed

lemma update_field_wf:
  assumes "conf_update_field T cfgp symbol D = (rv, D')" "tables_wf D" "length symbol < 78"
  shows "tables_wf D'"
proof -
  have "tables_wf D1" if "conf_next_part (drop (length ''v8dbg_class_'') (strlcpy 128 symbol)) = Some (pp, rest)"
    "conf_class_findcreate D pp = Some (D1, clp)" for pp rest D1 clp
  proof -
    have "length rest < 64 \<and> length pp < 64"
      using next_part_length [OF that(1)] assms(3) by (auto simp: strlcpy_def)
    then show ?thesis using findcreate_wf [OF that(2)] assms(2) by (simp add: tables_wf_def)
  qed
  then show ?thesis
    using assms(1,2) field_create_wf
    by (auto simp: conf_update_field_def Let_def split: option.splits prod.splits)
qed

lemma symbol_tables_wf:
  assumes "autoconf_iter_symbol T cfgp symbol D = Some (rv, D')" "tables_wf D"
    and "names_class symbol \<longrightarrow> length symbol < 78"
  shows "tables_wf D'"
  using assms update_parent_wf [of symbol D] update_field_wf [of T cfgp symbol D]
  by (auto simp: names_class_def autoconf_iter_symbol_def conf_update_type_def conf_update_frametype_def tables_wf_def
      NTYPES_def NFRAMETYPES_def split: if_splits option.splits)

text \<open>The offset that a lookup finds after \<^verbatim>\<open>::v8field\<close>.\<close>

lemma find_class_lookup: "List.find (\<lambda>clp. strcmp (v8c_name clp) klass = 0) cls = class_lookup cls klass"
  by (induction cls) (auto simp: strcmp_zero_iff)

lemma find_field_lookup: "List.find (\<lambda>flp. strcmp field (v8f_name flp) = 0) fls = field_lookup fls field"
  by (induction fls) auto

lemma class_lookup_map:
  "(\<And>c. v8c_name (g c) = v8c_name c) \<Longrightarrow> class_lookup (map g cls) k = map_option g (class_lookup cls k)"
  by (induction cls) auto

lemma class_lookup_update:
  assumes "classes_wf (v8_classes D)" "class_lookup (v8_classes D) klass = Some clp" "\<And>c. v8c_name (f c) = v8c_name c"
  shows "class_lookup (v8_classes (class_update (v8c_addr clp) f D)) k =
    (if k = klass then Some (f clp) else class_lookup (v8_classes D) k)"
proof -
  let ?g = "\<lambda>c. if v8c_addr c = v8c_addr clp then f c else c"
  have at: "class_lookup (v8_classes (class_update (v8c_addr clp) f D)) k = map_option ?g (class_lookup (v8_classes D) k)"
    using assms(3) by (simp add: class_update_def class_lookup_map)
  have inj: "inj_on v8c_addr (set (v8_classes D))" using assms(1) by (simp add: classes_wf_def distinct_map)
  have "?g c = c" if "class_lookup (v8_classes D) k = Some c" "k \<noteq> klass" for c
    using class_lookup_Some [OF that(1)] class_lookup_Some [OF assms(2)] that(2) inj by (auto dest: inj_onD)
  then show ?thesis using at assms(2) by (cases "class_lookup (v8_classes D) k") auto
qed

lemma field_lookup_set:
  "field_lookup (field_set n off fls) m =
     (if m = n then map_option (\<lambda>f. f\<lparr>v8f_offset := off\<rparr>) (field_lookup fls n) else field_lookup fls m)"
  by (induction fls) (auto simp: strcmp_zero_iff)

lemma field_insert_after_split:
  "\<exists>pre post. f # fls = pre @ post \<and> field_insert_after f fls flp = pre @ flp # post"
proof (induction fls arbitrary: f)
  case Nil
  show ?case by (rule exI [of _ "[f]"]) simp
next
  case (Cons g fls)
  obtain pre post where "g # fls = pre @ post" "field_insert_after g fls flp = pre @ flp # post" using Cons by blast
  then have "f # g # fls = (f # pre) @ post \<and> f # field_insert_after g fls flp = (f # pre) @ flp # post" by simp
  moreover have "f # g # fls = [f] @ g # fls" by simp
  ultimately show ?case by (metis append_Cons append_Nil field_insert_after.simps(2))
qed

lemma field_insert_split: "\<exists>pre post. fls = pre @ post \<and> field_insert fls flp = pre @ flp # post"
proof (cases fls)
  case (Cons f fs)
  show ?thesis
  proof (cases "v8f_offset flp < v8f_offset f")
    case True
    then have "fls = [] @ fls \<and> field_insert fls flp = [] @ flp # fls" using Cons by simp
    then show ?thesis by blast
  next
    case False
    then show ?thesis using field_insert_after_split [of f fs flp] Cons by simp
  qed
qed simp

lemma field_lookup_append:
  "field_lookup (xs @ ys) n = (case field_lookup xs n of None \<Rightarrow> field_lookup ys n | Some f \<Rightarrow> Some f)"
  by (induction xs) auto

lemma field_lookup_insert:
  assumes "field_lookup fls (v8f_name flp) = None"
  shows "field_lookup (field_insert fls flp) m = (if m = v8f_name flp then Some flp else field_lookup fls m)"
proof -
  obtain pre post where "fls = pre @ post" "field_insert fls flp = pre @ flp # post" using field_insert_split by blast
  then show ?thesis using assms by (auto simp: field_lookup_append strcmp_zero_iff split: option.splits)
qed

text \<open>Both ways of changing a class: the fields are looked up as before, but for the one set.\<close>

definition fields_set :: "string \<Rightarrow> uptr \<Rightarrow> v8_field list \<Rightarrow> v8_field list \<Rightarrow> bool" where
  "fields_set field off fls fls' \<longleftrightarrow>
     (\<exists>flp. field_lookup fls' field = Some flp \<and> v8f_offset flp = off) \<and>
     (\<forall>m. m \<noteq> field \<longrightarrow> field_lookup fls' m = field_lookup fls m)"

lemma dcmd_v8field_sets:
  assumes "dcmd_v8field strtoull D [Some klass, Some field, Some arg] = (DCMD_OK, D', out)" "length field < 64"
  shows "\<exists>clp f. class_lookup (v8_classes D) klass = Some clp \<and> D' = class_update (v8c_addr clp) f D \<and>
    out = v8field_line klass field (strtoull arg) \<and> (\<forall>c. v8c_name (f c) = v8c_name c) \<and>
    fields_set field (strtoull arg) (v8c_fields clp) (v8c_fields (f clp))"
proof -
  let ?off = "strtoull arg"
  obtain clp where clp: "class_lookup (v8_classes D) klass = Some clp"
    using assms(1) by (auto simp: dcmd_v8field_def find_class_lookup DCMD_OK_def DCMD_ERR_def split: option.splits)
  show ?thesis
  proof (cases "field_lookup (v8c_fields clp) field")
    case None
    let ?flp = "\<lparr>v8f_name = field, v8f_offset = ?off, v8f_isbyte = False, v8f_isstr = False\<rparr>"
    have "D' = class_update (v8c_addr clp) (\<lambda>c. c\<lparr>v8c_fields := field_insert (v8c_fields c) ?flp\<rparr>) D"
      "out = v8field_line klass field ?off"
      using assms clp None
      by (auto simp: dcmd_v8field_def find_class_lookup find_field_lookup conf_field_create_def strlcpy_def DCMD_OK_def
          DCMD_ERR_def split: if_splits)
    then show ?thesis
      using clp None field_lookup_insert [of "v8c_fields clp" ?flp] unfolding fields_set_def
      by (intro exI [of _ clp] exI [of _ "\<lambda>c. c\<lparr>v8c_fields := field_insert (v8c_fields c) ?flp\<rparr>"]) simp
  next
    case (Some flp)
    have "D' = class_update (v8c_addr clp) (\<lambda>c. c\<lparr>v8c_fields := field_set field ?off (v8c_fields c)\<rparr>) D"
      "out = v8field_line klass field ?off"
      using assms clp Some by (auto simp: dcmd_v8field_def find_class_lookup find_field_lookup)
    then show ?thesis
      using clp Some unfolding fields_set_def
      by (intro exI [of _ clp] exI [of _ "\<lambda>c. c\<lparr>v8c_fields := field_set field ?off (v8c_fields c)\<rparr>"])
        (simp add: field_lookup_set)
  qed
qed

text \<open>Setting the offset of a field that is there leaves it where it is in the list.\<close>

lemma v8field_unsorted:
  "field_set ''a'' 24 [\<lparr>v8f_name = ''a'', v8f_offset = 8, v8f_isbyte = False, v8f_isstr = False\<rparr>,
     \<lparr>v8f_name = ''b'', v8f_offset = 16, v8f_isbyte = False, v8f_isstr = False\<rparr>] = fls \<Longrightarrow> \<not> fields_sorted fls"
  by (auto simp: fields_sorted_def)

section \<open>Properties\<close>

text \<open>
  C4. Whatever symbols the target has, and whether or not the iteration over them ends with an
  error: the tables built from them are well-formed. Only the metadata symbols that name a class
  have to be shorter than 78 characters, so that neither the name of a class nor that of a field
  is cut; all other symbols of the target may have any name.
\<close>

theorem metadata_tables_wf:
  assumes "tables_wf D" and "\<forall>symbol\<in>set (cfg_names T cfgp). names_class symbol \<longrightarrow> length symbol < 78"
    and "v8cfg_iter T cfgp (autoconf_cb T cfgp) (Some D) = (rv, Some D')"
  shows "tables_wf D'"
proof (rule autoconf_iter_invariant [where P = tables_wf])
  show "cb_iter (autoconf_cb T cfgp) (cfg_names T cfgp) (Some D) = (rv, Some D')"
    using assms(3) by (simp only: cfg_iter_cb)
qed (use assms(1,2) symbol_tables_wf in blast)+

text \<open>A target with a class, its parent and one field, and a mangled name of a hundred characters.\<close>

definition tables_target :: v8_target where
  "tables_target = \<lparr>tgt_symbols = [''v8dbg_parent_Map__HeapObject'', ''_ZN'' @ replicate 97 (CHR ''v''),
       ''v8dbg_class_Map__bit_field__char''],
     tgt_readint = (\<lambda>_. Some 12), tgt_has_symbol = (\<lambda>_. True)\<rparr>"

lemma metadata_tables_wf_witness:
  "\<exists>D'. v8cfg_iter tables_target v8_cfg_target (autoconf_cb tables_target v8_cfg_target)
      (Some (smi_sample\<lparr>v8_types := [], v8_frametypes := []\<rparr>)) = (0, Some D') \<and>
    tables_wf D' \<and> map v8c_name (v8_classes D') = [''HeapObject'', ''Map'']"
  (is "\<exists>D'. v8cfg_iter ?T ?cfg _ (Some ?D) = _ \<and> _")
proof -
  have rv: "fst (v8cfg_iter ?T ?cfg (autoconf_cb ?T ?cfg) (Some ?D)) = 0"
    and nm: "map_option (\<lambda>D. map v8c_name (v8_classes D)) (snd (v8cfg_iter ?T ?cfg (autoconf_cb ?T ?cfg) (Some ?D))) =
      Some [''HeapObject'', ''Map'']"
    by code_simp+
  then obtain D' where D': "v8cfg_iter ?T ?cfg (autoconf_cb ?T ?cfg) (Some ?D) = (0, Some D')"
    "map v8c_name (v8_classes D') = [''HeapObject'', ''Map'']"
    by (cases "v8cfg_iter ?T ?cfg (autoconf_cb ?T ?cfg) (Some ?D)") auto
  have "tables_wf ?D" by (simp add: tables_wf_def classes_wf_def classes_sorted_def smi_sample_def)
  moreover have "\<forall>symbol\<in>set (cfg_names ?T ?cfg). names_class symbol \<longrightarrow> length symbol < 78"
    by (simp add: cfg_names_def v8_cfg_target_def tables_target_def names_class_def)
  ultimately have "tables_wf D'" by (rule metadata_tables_wf [OF _ _ D'(1)])
  with D' show ?thesis by auto
qed

text \<open>
  C12. Setting an offset with \<^verbatim>\<open>::v8field\<close> (names of less than 64 characters): from then on
  the module finds this offset for the field, every other offset of every class is found as
  before, and \<^verbatim>\<open>::v8field\<close> without an offset shows what the setting showed.
\<close>

theorem v8field_roundtrip:
  assumes "tables_wf D" and "length field < 64"
    and "dcmd_v8field strtoull D [Some klass, Some field, Some arg] = (DCMD_OK, D', out)"
  shows "heap_offset D' klass field = Some (V8_OFF_HEAP D (strtoull arg)) \<and>
    (\<forall>k f. (k, f) \<noteq> (klass, field) \<longrightarrow> heap_offset D' k f = heap_offset D k f) \<and>
    dcmd_v8field strtoull D' [Some klass, Some field] = (DCMD_OK, D', out)"
proof -
  obtain clp f where clp: "class_lookup (v8_classes D) klass = Some clp" and D': "D' = class_update (v8c_addr clp) f D"
    and out: "out = v8field_line klass field (strtoull arg)" and nm: "\<And>c. v8c_name (f c) = v8c_name c"
    and set_to: "fields_set field (strtoull arg) (v8c_fields clp) (v8c_fields (f clp))"
    using dcmd_v8field_sets [OF assms(3,2)] by blast
  have look: "class_lookup (v8_classes D') k = (if k = klass then Some (f clp) else class_lookup (v8_classes D) k)" for k
    unfolding D' by (rule class_lookup_update [OF _ clp nm]) (use assms(1) in \<open>simp add: tables_wf_def\<close>)
  have "gv D' = gv D" by (simp add: D' class_update_def)
  then have heap: "V8_OFF_HEAP D' = V8_OFF_HEAP D" by (intro ext) (simp add: V8_OFF_HEAP_def)
  show ?thesis
    using set_to clp out
    by (auto simp: heap_offset_def conf_field_lookup_def look heap fields_set_def dcmd_v8field_def find_class_lookup
        find_field_lookup split: option.splits)
qed

lemma v8field_roundtrip_witness:
  "\<exists>D' out. dcmd_v8field (\<lambda>_. 8) conf_sample [Some ''Code'', Some ''size'', Some ''8''] = (DCMD_OK, D', out) \<and>
     dcmd_v8field (\<lambda>_. 8) D' [Some ''Code'', Some ''size''] = (DCMD_OK, D', out)"
proof -
  have "tables_wf conf_sample"
    by (simp add: tables_wf_def classes_wf_def classes_sorted_def fields_sorted_def conf_sample_def smi_sample_def
        lessThan_Suc)
  moreover obtain D' out where
    r: "dcmd_v8field (\<lambda>_. 8) conf_sample [Some ''Code'', Some ''size'', Some ''8''] = (DCMD_OK, D', out)"
    by (simp add: dcmd_v8field_def find_class_lookup find_field_lookup conf_field_create_def conf_sample_def smi_sample_def Let_def)
  ultimately show ?thesis using v8field_roundtrip [OF _ _ r] by auto
qed

end
