(* ===== verification/Module.thy ===== *)
theory Module
  imports Tables FindCommand FindRefs
begin

text \<open>
  The module as MDB sees it (\<^verbatim>\<open>src/src/mdb_v8.c\<close>): its state, the table of its commands,
  and its start. A session runs commands one after the other on that state: what the tables
  say and what the heap scan found is shared by them.
\<close>

section \<open>State\<close>

text \<open>
  The globals of the module: tables and constants, the counter of the warnings, and what the
  heap scan found. They are zero when the module is loaded.
\<close>

record v8_module =
  mod_dbg :: v8dbg
  mod_warnings :: "32 word"
  mod_findjsobjects :: findjsobjects_state

definition findjsobjects_state_zero :: findjsobjects_state where
  "findjsobjects_state_zero = \<lparr>fjs_addr = 0, fjs_verbose = False, fjs_brk = False, fjs_allobjs = False,
     fjs_initialized = False, fjs_marking = False, fjs_finished = False, fjs_referents = [], fjs_objects = [],
     fjs_funcs = [], fjs_stats = \<lparr>fjss_heapobjs = 0, fjss_cached = 0, fjss_typereads = 0, fjss_jsobjs = 0,
       fjss_objects = 0, fjss_garbage = 0, fjss_arrays = 0, fjss_uniques = 0, fjss_funcs = 0,
       fjss_funcs_skipped = 0, fjss_funcs_unique = 0\<rparr>\<rparr>"

text \<open>The debugger and the libraries around the module.\<close>

record v8_env =
  env_target :: v8_target
  env_pmapping :: pmapping_iter
  env_refmapping :: findrefs_iter
  env_fjs :: fjs_env
  env_frame :: frame_env
  env_regs :: "(uptr \<times> uptr) option"
  env_pwalk :: "(uptr \<Rightarrow> (int \<times> mdb_out list) option) \<Rightarrow> uptr \<Rightarrow> (int \<times> mdb_out list) option"
  env_dis :: disassembler
  env_strtoull :: "string \<Rightarrow> uptr"

section \<open>Commands\<close>

text \<open>
  A command of the table with its address and its options as parsed. An address is optional
  where the handler asks whether one was given.
\<close>

datatype v8_dcmd =
    Nodebuffer uptr "bool option"
  | Jsarray uptr "bool option"
  | Jsclosure uptr
  | Jsconstructor uptr "bool option"
  | Jsfindrefs uptr bool "findrefs_opt list option"
  | Jsframe uptr "(jsframe \<times> bool) option"
  | Jsfunction uptr
  | Jsprint uptr bool bool "uptr option" uptr bool "string option list"
  | Jssource uptr "uptr option"
  | Jsstack "uptr option" "jsframe option"
  | Findjsobjects uptr bool "fjs_opts option"
  | Jsfunctions "uptr option" "jsfuncs_opts option"
  | V8array uptr "bool option"
  | V8classes
  | V8code uptr "bool option"
  | V8context uptr
  | V8field mdb_args
  | V8function uptr "bool option"
  | V8internal uptr uptr
  | V8load "string option"
  | V8frametypes
  | V8print uptr mdb_args
  | V8str uptr "(bool \<times> uptr \<times> bool) option"
  | V8scopeinfo uptr
  | V8type uptr
  | V8types
  | V8warnings
  | V8whatis "uptr option" "(bool \<times> uptr) option"

text \<open>A command that only reads, and one that prints texts.\<close>

definition reading :: "v8_module \<Rightarrow> (int \<times> mdb_out list) option \<Rightarrow> (int \<times> v8_module \<times> mdb_out list) option" where
  "reading M r = map_option (\<lambda>(rv, out). (rv, M, out)) r"

definition texts :: "(int \<times> string list) option \<Rightarrow> (int \<times> mdb_out list) option" where
  "texts r = map_option (\<lambda>(rv, out). (rv, map OUT out)) r"

fun v8_mdb_dcmds :: "v8_env \<Rightarrow> v8_dcmd \<Rightarrow> v8_module \<Rightarrow> (int \<times> v8_module \<times> mdb_out list) option" where
  "v8_mdb_dcmds E (Nodebuffer addr opts) M = reading M (dcmd_nodebuffer (mod_dbg M) addr opts)"
| "v8_mdb_dcmds E (Jsarray addr opts) M = reading M (dcmd_jsarray (mod_dbg M) addr opts)"
| "v8_mdb_dcmds E (Jsclosure addr) M = reading M (dcmd_jsclosure (mod_dbg M) addr)"
| "v8_mdb_dcmds E (Jsconstructor addr opts) M = reading M (dcmd_jsconstructor (mod_dbg M) addr opts)"
| "v8_mdb_dcmds E (Jsfindrefs addr addrspec opts) M =
     reading M (texts (dcmd_jsfindrefs (mod_dbg M) (env_refmapping E) addr addrspec opts))"
| "v8_mdb_dcmds E (Jsframe addr opts) M = reading M (dcmd_jsframe (env_frame E) (mod_dbg M) opts addr)"
| "v8_mdb_dcmds E (Jsfunction addr) M = reading M (dcmd_jsfunction (mod_dbg M) addr)"
| "v8_mdb_dcmds E (Jsprint addr printaddr opt_b depth strlen opt_v members) M =
     reading M (texts (dcmd_jsprint (mod_dbg M) addr printaddr opt_b depth strlen opt_v members))"
| "v8_mdb_dcmds E (Jssource addr opts) M = reading M (dcmd_jssource (mod_dbg M) addr opts)"
| "v8_mdb_dcmds E (Jsstack addrp opts) M =
     reading M (dcmd_jsstack (env_frame E) (mod_dbg M) (env_regs E) (env_pwalk E) opts addrp)"
| "v8_mdb_dcmds E (Findjsobjects addr addrspec opts) M =
     map_option (\<lambda>(rv, fjs, out). (rv, M\<lparr>mod_findjsobjects := fjs\<rparr>, map OUT out))
       (dcmd_findjsobjects (env_fjs E) (mod_dbg M) (env_pmapping E) (mod_findjsobjects M) addr addrspec opts)"
| "v8_mdb_dcmds E (Jsfunctions addrp opts) M =
     map_option (\<lambda>(rv, fjs, out). (rv, M\<lparr>mod_findjsobjects := fjs\<rparr>, map OUT out))
       (dcmd_jsfunctions (env_fjs E) (mod_dbg M) (env_pmapping E) (mod_findjsobjects M) addrp opts)"
| "v8_mdb_dcmds E (V8array addr opts) M = reading M (dcmd_v8array (mod_dbg M) addr opts)"
| "v8_mdb_dcmds E V8classes M = reading M (Some (dcmd_v8classes (mod_dbg M)))"
| "v8_mdb_dcmds E (V8code addr opts) M = reading M (dcmd_v8code (env_dis E) (mod_dbg M) addr opts)"
| "v8_mdb_dcmds E (V8context addr) M = reading M (dcmd_v8context (mod_dbg M) addr)"
| "v8_mdb_dcmds E (V8field argv) M =
     (case dcmd_v8field (env_strtoull E) (mod_dbg M) argv of (rv, D, out) \<Rightarrow> Some (rv, M\<lparr>mod_dbg := D\<rparr>, out))"
| "v8_mdb_dcmds E (V8function addr opts) M = reading M (dcmd_v8function (env_dis E) (mod_dbg M) addr opts)"
| "v8_mdb_dcmds E (V8internal addr idx) M = reading M (dcmd_v8internal (mod_dbg M) addr idx)"
| "v8_mdb_dcmds E (V8load arg) M =
     map_option (\<lambda>(rv, D). (rv, M\<lparr>mod_dbg := D\<rparr>, [])) (dcmd_v8load (env_target E) arg (mod_dbg M))"
| "v8_mdb_dcmds E V8frametypes M = reading M (dcmd_v8frametypes (mod_dbg M))"
| "v8_mdb_dcmds E (V8print addr argv) M = reading M (dcmd_v8print (mod_dbg M) addr argv)"
| "v8_mdb_dcmds E (V8str addr opts) M = reading M (dcmd_v8str (mod_dbg M) addr opts)"
| "v8_mdb_dcmds E (V8scopeinfo addr) M = reading M (dcmd_v8scopeinfo (mod_dbg M) addr)"
| "v8_mdb_dcmds E (V8type addr) M = reading M (dcmd_v8type (mod_dbg M) addr)"
| "v8_mdb_dcmds E V8types M = reading M (dcmd_v8types (mod_dbg M))"
| "v8_mdb_dcmds E V8warnings M =
     (case dcmd_v8warnings (mod_warnings M) of (rv, warnings, out) \<Rightarrow> Some (rv, M\<lparr>mod_warnings := warnings\<rparr>, out))"
| "v8_mdb_dcmds E (V8whatis addrp opts) M = reading M (dcmd_v8whatis (mod_dbg M) addrp opts)"

section \<open>Start\<close>

text \<open>
  Whether \<^verbatim>\<open>$G\<close> is evaluated: \<open>lookup\<close> is \<^verbatim>\<open>mdb_lookup_by_name\<close>, \<open>fmt\<close> is
  \<^verbatim>\<open>%a\<close>, into a buffer of 64 bytes.
\<close>

definition enable_demangling :: "(string \<Rightarrow> uptr option) \<Rightarrow> (uptr \<Rightarrow> string) \<Rightarrow> bool" where
  "enable_demangling lookup fmt =
     (let symname = ''_ZN2v88internal7Version6major_E'' in
      case lookup symname of
        None \<Rightarrow> False
      | Some st_value \<Rightarrow> strstr (strlcpy 64 (fmt st_value)) symname \<noteq> None)"

text \<open>
  The module is loaded: the state, what is printed, and whether demangling is switched on.
  \<open>vers\<close> is the version of the module, which the build generates.
\<close>

definition mdb_init ::
    "v8_target \<Rightarrow> (string \<Rightarrow> uptr option) \<Rightarrow> (uptr \<Rightarrow> string) \<Rightarrow> string \<Rightarrow> v8dbg \<Rightarrow>
     (v8_module \<times> string list \<times> bool) option" where
  "mdb_init T lookup fmt vers D =
     map_option (\<lambda>(out, D'). (\<lparr>mod_dbg = D', mod_warnings = 0, mod_findjsobjects = findjsobjects_state_zero\<rparr>,
         (''mdb_v8 version: '' @ vers @ NL) # out, enable_demangling lookup fmt))
       (configure T D)"

section \<open>Sessions\<close>

text \<open>The states that commands lead to, whatever is typed.\<close>

inductive session :: "v8_env \<Rightarrow> v8_module \<Rightarrow> v8_module \<Rightarrow> bool" for E where
  session_start: "session E M M"
| session_cmd: "session E M M' \<Longrightarrow> v8_mdb_dcmds E cmd M' = Some (rv, M'', out) \<Longrightarrow> session E M M''"

text \<open>An invariant of all commands is an invariant of a session.\<close>

lemma session_invariant:
  assumes "session E M M'" "Inv M"
    and "\<And>M cmd rv M' out. Inv M \<Longrightarrow> v8_mdb_dcmds E cmd M = Some (rv, M', out) \<Longrightarrow> Inv M'"
  shows "Inv M'"
  using assms by (induction rule: session.induct) blast+

section \<open>Lemmas: tables\<close>

text \<open>The tables with other fields in their classes.\<close>

definition with_fields :: "(v8_class \<Rightarrow> v8_field list) \<Rightarrow> v8dbg \<Rightarrow> v8dbg" where
  "with_fields f D = D\<lparr>v8_classes := map (\<lambda>c. c\<lparr>v8c_fields := f c\<rparr>) (v8_classes D)\<rparr>"

lemma with_fields_sel [simp]:
  "gv (with_fields f D) = gv D" "mem_vread (with_fields f D) = mem_vread D"
  "(v8_classes (with_fields f D) = []) = (v8_classes D = [])"
  by (simp_all add: with_fields_def)

lemma with_fields_same: "with_fields v8c_fields D = D"
  by (simp add: with_fields_def)

lemma with_fields_twice: "with_fields g (with_fields f D) = with_fields (\<lambda>c. g (c\<lparr>v8c_fields := f c\<rparr>)) D"
  by (simp add: with_fields_def o_def)

lemma class_update_with_fields:
  "class_update a (\<lambda>c. c\<lparr>v8c_fields := f c\<rparr>) D = with_fields (\<lambda>c. if v8c_addr c = a then f c else v8c_fields c) D"
  unfolding class_update_def with_fields_def by (intro arg_cong [where f = "\<lambda>cls. D\<lparr>v8_classes := cls\<rparr>"] map_cong) auto

lemma v8field_with_fields:
  assumes "dcmd_v8field strtoull D argv = (rv, D', out)"
  shows "\<exists>f. D' = with_fields f D"
proof (cases "D' = D")
  case True
  then show ?thesis using with_fields_same by metis
next
  case False
  then obtain args where args: "(if length argv = 2 \<or> length argv = 3 then those argv else None) = Some args"
    using assms by (cases "if length argv = 2 \<or> length argv = 3 then those argv else None") (simp_all add: dcmd_v8field_def)
  obtain clp where clp: "List.find (\<lambda>clp. strcmp (v8c_name clp) (args ! 0) = 0) (v8_classes D) = Some clp"
    using assms False args by (cases "List.find (\<lambda>clp. strcmp (v8c_name clp) (args ! 0) = 0) (v8_classes D)")
      (simp_all add: dcmd_v8field_def)
  let ?new = "\<lparr>v8f_name = strlcpy 64 (args ! 1), v8f_offset = strtoull (args ! 2), v8f_isbyte = False, v8f_isstr = False\<rparr>"
  have "D' = class_update (v8c_addr clp) (\<lambda>c. c\<lparr>v8c_fields := field_insert (v8c_fields c) ?new\<rparr>) D \<or>
      D' = class_update (v8c_addr clp) (\<lambda>c. c\<lparr>v8c_fields := field_set (args ! 1) (strtoull (args ! 2)) (v8c_fields c)\<rparr>) D"
    using assms False args clp
    by (cases "List.find (\<lambda>flp. strcmp (args ! 1) (v8f_name flp) = 0) (v8c_fields clp)"; cases "length args = 3";
        cases "zalloc_ok D 88 {}"; simp add: dcmd_v8field_def conf_field_create_def Let_def; elim conjE; simp)
  then show ?thesis unfolding class_update_with_fields by blast
qed

text \<open>All commands but five only read.\<close>

definition is_reader :: "v8_dcmd \<Rightarrow> bool" where
  "is_reader cmd \<longleftrightarrow> (case cmd of Findjsobjects _ _ _ \<Rightarrow> False | Jsfunctions _ _ \<Rightarrow> False | V8field _ \<Rightarrow> False
     | V8load _ \<Rightarrow> False | V8warnings \<Rightarrow> False | _ \<Rightarrow> True)"

lemma reading_Some: "reading M r = Some (rv, M', out) \<longleftrightarrow> M' = M \<and> r = Some (rv, out)"
  by (cases r) (auto simp: reading_def)

lemma reader_step:
  assumes "v8_mdb_dcmds E cmd M = Some (rv, M', out)" "is_reader cmd"
  shows "M' = M"
  using assms by (cases cmd) (simp_all only: v8_mdb_dcmds.simps reading_Some is_reader_def v8_dcmd.case simp_thms)

lemma writer_cases:
  assumes "\<not> is_reader cmd"
  obtains addr addrspec opts where "cmd = Findjsobjects addr addrspec opts"
    | addrp opts where "cmd = Jsfunctions addrp opts" | argv where "cmd = V8field argv" | arg where "cmd = V8load arg"
    | "cmd = V8warnings"
  using assms by (cases cmd) (simp_all only: is_reader_def v8_dcmd.case simp_thms)

lemma step_tables:
  assumes "v8_mdb_dcmds E cmd M = Some (rv, M', out)"
  obtains "mod_dbg M' = mod_dbg M"
    | argv rv' out' where "cmd = V8field argv" "dcmd_v8field (env_strtoull E) (mod_dbg M) argv = (rv', mod_dbg M', out')"
    | arg rv' where "cmd = V8load arg" "dcmd_v8load (env_target E) arg (mod_dbg M) = Some (rv', mod_dbg M')"
proof (cases "is_reader cmd")
  case True
  then show ?thesis using reader_step [OF assms] that(1) by simp
next
  case False
  then show ?thesis
  proof (cases rule: writer_cases)
    case (3 argv)
    then show ?thesis using assms that(2) by (cases "dcmd_v8field (env_strtoull E) (mod_dbg M) argv") auto
  next
    case (4 arg)
    then show ?thesis using assms that(3) by auto
  qed (use assms that(1) in \<open>auto split: prod.splits\<close>)
qed

lemma configured_step:
  assumes "v8_mdb_dcmds E cmd M = Some (rv, M', out)" "v8_classes (mod_dbg M) \<noteq> []"
  shows "\<exists>f. mod_dbg M' = with_fields f (mod_dbg M)"
  using assms(1)
proof (cases rule: step_tables)
  case 1
  then show ?thesis using with_fields_same by metis
next
  case (2 argv rv' out')
  then show ?thesis using v8field_with_fields by blast
next
  case (3 arg rv')
  then have "mod_dbg M' = mod_dbg M" using assms(2) by (simp add: dcmd_v8load_def)
  then show ?thesis using with_fields_same by metis
qed

lemma session_with_fields:
  assumes "session E M M'" "v8_classes (mod_dbg M) \<noteq> []"
  shows "\<exists>f. mod_dbg M' = with_fields f (mod_dbg M)"
proof -
  let ?Inv = "\<lambda>M'. \<exists>f. mod_dbg M' = with_fields f (mod_dbg M)"
  have "?Inv M" using with_fields_same by metis
  moreover have "?Inv M2" if one: "?Inv M1" and step: "v8_mdb_dcmds E cmd M1 = Some (rv, M2, out)" for M1 cmd rv M2 out
  proof -
    obtain f where f: "mod_dbg M1 = with_fields f (mod_dbg M)" using one by blast
    obtain g where "mod_dbg M2 = with_fields g (mod_dbg M1)" using configured_step [OF step] f assms(2) by auto
    then show ?thesis using f with_fields_twice by metis
  qed
  ultimately show ?thesis using session_invariant [OF assms(1), of ?Inv] by blast
qed

section \<open>Lemmas: the heap scan\<close>

text \<open>The state after a scan that found objects, and what later commands keep of it.\<close>

definition scanned :: "findjsobjects_state \<Rightarrow> bool" where
  "scanned fjs \<longleftrightarrow> fjs_initialized fjs \<and> fjs_objects fjs \<noteq> []"

definition same_scan :: "findjsobjects_state \<Rightarrow> findjsobjects_state \<Rightarrow> bool" where
  "same_scan fjs fjs' \<longleftrightarrow> fjs_initialized fjs' = fjs_initialized fjs \<and> fjs_objects fjs' = fjs_objects fjs \<and>
     fjs_finished fjs' = fjs_finished fjs \<and>
     map (fjsf_location_update (\<lambda>_. [])) (fjs_funcs fjs') = map (fjsf_location_update (\<lambda>_. [])) (fjs_funcs fjs)"

lemma same_scan_refl [simp]: "same_scan fjs fjs"
  by (simp add: same_scan_def)

lemma same_scan_trans: "same_scan a b \<Longrightarrow> same_scan b c \<Longrightarrow> same_scan a c"
  by (simp add: same_scan_def)

lemma same_scan_updates [simp]:
  "same_scan fjs (fjs'\<lparr>fjs_addr := a\<rparr>) = same_scan fjs fjs'"
  "same_scan fjs (fjs'\<lparr>fjs_referents := r\<rparr>) = same_scan fjs fjs'"
  "same_scan fjs (fjs'\<lparr>fjs_verbose := b\<rparr>) = same_scan fjs fjs'"
  "same_scan fjs (fjs'\<lparr>fjs_brk := b\<rparr>) = same_scan fjs fjs'"
  "same_scan fjs (fjs'\<lparr>fjs_marking := b\<rparr>) = same_scan fjs fjs'"
  "same_scan fjs (fjs'\<lparr>fjs_allobjs := b\<rparr>) = same_scan fjs fjs'"
  by (simp_all add: same_scan_def)

lemma scanned_updates [simp]:
  "scanned (fjs\<lparr>fjs_verbose := a, fjs_brk := b, fjs_marking := c, fjs_allobjs := d\<rparr>) = scanned fjs"
  by (simp add: scanned_def)

lemma run_scanned: "scanned fjs \<Longrightarrow> findjsobjects_run E D ps fjs = Some (0, fjs, [])"
  by (simp add: findjsobjects_run_def scanned_def)

lemma cb_iter_keeps:
  "cb_iter f xs s = (rv, s') \<Longrightarrow> Inv s \<Longrightarrow> (\<And>x s. Inv s \<Longrightarrow> Inv (snd (f x s))) \<Longrightarrow> Inv s'"
proof (induction xs arbitrary: s)
  case (Cons x xs)
  obtain r s1 where f: "f x s = (r, s1)" by (cases "f x s")
  have "Inv s1" using Cons.prems(3) [OF Cons.prems(2), of x] f by simp
  then show ?case using Cons.IH [of s1] Cons.prems(1,3) f by (cases "r = 0") auto
qed simp

lemma properties_keep:
  assumes "target_ok D" "prop_constants_ok D" "stop_or_go func"
    and "jsobj_properties D addr func s p = Some (rv, s', p')" "Inv s"
    and "\<And>n v s. Inv s \<Longrightarrow> Inv (snd (func n v s))"
  shows "Inv s'"
proof -
  obtain vs rv0 where "returns vs rv0 func (jsobj_properties D addr func)"
    using jsobj_properties_returns [OF assms(1,2,3,3)] by blast
  moreover obtain rv1 s1 where cb: "cb_iter (visit func) vs s = (rv1, s1)" by (cases "cb_iter (visit func) vs s")
  ultimately have "s1 = s'" using returnsD [of vs rv0 func "jsobj_properties D addr func" s rv1 s1 p] assms(4) by auto
  show ?thesis
    by (rule cb_iter_keeps [OF cb [unfolded \<open>s1 = s'\<close>], of Inv]) (use assms(5,6) in \<open>simp_all add: visit_def\<close>)
qed

lemma references_add_keeps: "same_scan fjs (findjsobjects_references_add E fjs valp desc index)"
  by (simp add: findjsobjects_references_add_def Let_def split: option.split)

lemma references_elts_keeps: "same_scan fjs (references_elts E i elts fjs)"
  by (induction elts arbitrary: i fjs) (auto intro: same_scan_trans [OF references_add_keeps])

lemma references_array_keeps: "same_scan fjs (findjsobjects_references_array E D insts fjs)"
proof (induction insts arbitrary: fjs)
  case (Cons a insts)
  have "same_scan fjs (references_elts E 0 elts (fjs\<lparr>fjs_addr := a\<rparr>))" for elts
    by (rule same_scan_trans [OF _ references_elts_keeps]) simp
  then show ?case using Cons.IH same_scan_trans by (simp split: option.split) blast
qed simp

lemma references_insts_keeps:
  assumes "target_ok D" "prop_constants_ok D" "references_insts E D insts fjs = Some fjs'"
  shows "same_scan fjs fjs'"
  using assms(3)
proof (induction insts arbitrary: fjs)
  case (Cons a insts)
  obtain rv fjs1 p where one: "jsobj_properties D a (findjsobjects_references_prop E) (fjs\<lparr>fjs_addr := a\<rparr>) None =
      Some (rv, fjs1, p)" and rest: "references_insts E D insts fjs1 = Some fjs'"
    using Cons.prems by (auto split: Option.bind_splits)
  have "same_scan fjs fjs1"
    by (rule properties_keep [OF assms(1,2) _ one])
      (auto simp: stop_or_go_def findjsobjects_references_prop_def intro: same_scan_trans [OF _ references_add_keeps]
        split: option.split)
  then show ?case using Cons.IH [OF rest] same_scan_trans by blast
qed simp

lemma references_objs_keeps:
  assumes "target_ok D" "prop_constants_ok D" "references_objs E D objs fjs = Some fjs'"
  shows "same_scan fjs fjs'"
  using assms(3)
proof (induction objs arbitrary: fjs)
  case (Cons obj objs)
  show ?case
    using Cons.prems Cons.IH references_array_keeps references_insts_keeps [OF assms(1,2)] same_scan_trans
    by (auto simp: Let_def split: if_splits Option.bind_splits) blast+
qed simp

lemma referent_keeps: "findjsobjects_referent E D fjs addr = Some (fjs', out) \<Longrightarrow> same_scan fjs fjs'"
  by (auto simp: findjsobjects_referent_def Let_def split: if_splits)

lemma referents_add_keeps: "referents_add E D fjs addrs = Some (fjs', out) \<Longrightarrow> same_scan fjs fjs'"
proof (induction addrs arbitrary: fjs out)
  case (Cons a addrs)
  obtain fjs1 out1 where "findjsobjects_referent E D fjs a = Some (fjs1, out1)"
    "\<exists>out2. referents_add E D fjs1 addrs = Some (fjs', out2)"
    using Cons.prems by (auto split: Option.bind_splits)
  then show ?case using Cons.IH referent_keeps same_scan_trans by blast
qed simp

lemma report_keeps:
  assumes "target_ok D" "prop_constants_ok D" "findjsobjects_report E D fjs P = Some (rv, fjs', out)"
  shows "same_scan fjs fjs'"
  using assms(3) references_objs_keeps [OF assms(1,2), of E "fjs_objects fjs" fjs]
  by (auto simp: findjsobjects_report_def findjsobjects_references_def split: if_splits Option.bind_splits)

lemma select_keeps:
  assumes "target_ok D" "prop_constants_ok D" "findjsobjects_select E D fjs addr addrspec P = Some (rv, fjs', out)"
  shows "same_scan fjs fjs'"
proof -
  have "same_scan fjs fjs1" if "findjsobjects_at E D fjs addr P = (Some (Inr (fjs1, out1)), out2)" for fjs1 out1 out2
    using that by (auto simp: findjsobjects_at_def split: option.splits if_splits dest: referent_keeps referents_add_keeps)
  then have at_keeps: "same_scan fjs fjs'" if "findjsobjects_at E D fjs addr P = (Some (Inr (fjs1, out1)), out2)"
    "findjsobjects_report E D fjs1 P = Some (rv1, fjs', out3)" for fjs1 out1 out2 rv1 out3
    using that report_keeps [OF assms(1,2)] same_scan_trans by blast
  show ?thesis
    using assms(3) unfolding findjsobjects_select_def Let_def
    by (auto split: if_splits option.splits sum.splits prod.splits dest: at_keeps report_keeps [OF assms(1,2)])
qed

lemma findjsobjects_keeps:
  assumes "target_ok D" "prop_constants_ok D" "scanned fjs"
    and "dcmd_findjsobjects E D ps fjs addr addrspec optsp = Some (rv, fjs', out)"
  shows "same_scan fjs fjs'"
proof (cases optsp)
  case None
  then show ?thesis using assms(4) by (auto simp: dcmd_findjsobjects_def)
next
  case (Some P)
  let ?fjs = "fjs\<lparr>fjs_verbose := fo_verbose P, fjs_brk := fo_brk P, fjs_marking := fo_marking P, fjs_allobjs := fo_allobjs P\<rparr>"
  have same: "same_scan fjs ?fjs" by simp
  have "findjsobjects_run E D ps ?fjs = Some (0, ?fjs, [])" using assms(3) by (simp add: run_scanned)
  then have "fjs' = ?fjs \<or> (\<exists>rv out. findjsobjects_select E D ?fjs addr addrspec P = Some (rv, fjs', out))"
    using assms(4) Some by (auto simp: dcmd_findjsobjects_def split: if_splits)
  then show ?thesis
  proof (elim disjE exE)
    fix rv out assume "findjsobjects_select E D ?fjs addr addrspec P = Some (rv, fjs', out)"
    from same_scan_trans [OF same select_keeps [OF assms(1,2) this]] show ?thesis .
  qed (use same in simp)
qed

lemma func_locate_keeps: "func_locate D func = Some func' \<Longrightarrow> func'\<lparr>fjsf_location := []\<rparr> = func\<lparr>fjsf_location := []\<rparr>"
  by (auto simp: func_locate_def split: if_splits option.splits Option.bind_splits)

lemma jsfunctions_loop_keeps:
  "jsfunctions_loop D P addrp funcs = Some (funcs', out) \<Longrightarrow>
   map (fjsf_location_update (\<lambda>_. [])) funcs' = map (fjsf_location_update (\<lambda>_. [])) funcs"
proof (induction funcs arbitrary: funcs' out)
  case (Cons func funcs)
  then obtain func1 funcs1 out1 where one: "funcs' = func1 # funcs1" "jsfunctions_loop D P addrp funcs = Some (funcs1, out1)"
    "func1 = func \<or> func_locate D func = Some func1"
    by (cases addrp) (auto split: Option.bind_splits)
  from Cons.IH [OF one(2)] one(1,3) func_locate_keeps show ?case by auto
qed simp

lemma jsfunctions_keeps:
  assumes "scanned fjs" "dcmd_jsfunctions E D ps fjs addrp optsp = Some (rv, fjs', out)"
  shows "same_scan fjs fjs'"
proof (cases optsp)
  case (Some P)
  then have "fjs' = fjs \<or> (\<exists>funcs out. jsfunctions_loop D P addrp (fjs_funcs fjs) = Some (funcs, out) \<and>
      fjs' = fjs\<lparr>fjs_funcs := funcs\<rparr>)"
    using assms by (auto simp: dcmd_jsfunctions_def run_scanned split: if_splits Option.bind_splits)
  then show ?thesis using jsfunctions_loop_keeps by (auto simp: same_scan_def)
qed (use assms in \<open>simp add: dcmd_jsfunctions_def\<close>)

text \<open>Only two commands touch what the scan found.\<close>

lemma step_scan:
  assumes "v8_mdb_dcmds E cmd M = Some (rv, M', out)" "target_ok (mod_dbg M)" "prop_constants_ok (mod_dbg M)"
    and "scanned (mod_findjsobjects M)"
  shows "same_scan (mod_findjsobjects M) (mod_findjsobjects M')"
proof (cases "is_reader cmd")
  case True
  then show ?thesis using reader_step [OF assms(1)] by simp
next
  case False
  then show ?thesis
  proof (cases rule: writer_cases)
    case (1 addr addrspec opts)
    then show ?thesis using assms(1) findjsobjects_keeps [OF assms(2-4)] by auto
  next
    case (2 addrp opts)
    then show ?thesis using assms(1) jsfunctions_keeps [OF assms(4)] by auto
  qed (use assms(1) in \<open>auto split: prod.splits\<close>)
qed

lemma classes_target [simp]:
  "target_ok (D\<lparr>v8_classes := cls\<rparr>) = target_ok D" "prop_constants_ok (D\<lparr>v8_classes := cls\<rparr>) = prop_constants_ok D"
  by (simp_all add: target_ok_def vread_laws_def v8_tags_amd64_def strrep_tags_distinct_def prop_constants_ok_def
      dict_constants_ok_def dict_start_def types_end_def)

section \<open>Properties\<close>

text \<open>
  C5. A module is configured once. Whatever commands are run after that, \<^verbatim>\<open>::v8load\<close>
  included: all that changes of the tables, the constants and the version are the fields of
  the classes.
\<close>

theorem session_configured_once:
  assumes "session E M M'" and "v8_classes (mod_dbg M) \<noteq> []"
  shows "\<exists>f. mod_dbg M' = (mod_dbg M)\<lparr>v8_classes := map (\<lambda>c. c\<lparr>v8c_fields := f c\<rparr>) (v8_classes (mod_dbg M))\<rparr>"
  using session_with_fields [OF assms] unfolding with_fields_def .

text \<open>A module that has one class and a heap scan that was broken off; the warnings are switched on.\<close>

definition session_sample :: v8_module where
  "session_sample = \<lparr>mod_dbg = (sample_dbg [])\<lparr>v8_classes := v8_classes conf_sample\<rparr>, mod_warnings = 0,
     mod_findjsobjects = findjsobjects_state_zero\<lparr>fjs_initialized := True, fjs_objects := [\<lparr>fjso_props = [],
       fjso_propinfo = 0, fjso_nprops = 0, fjso_instances = \<lparr>fjsi_addr = 9, fjsi_next = []\<rparr>, fjso_ninstances = 1,
       fjso_malformed = False, fjso_constructor = []\<rparr>]\<rparr>\<rparr>"

lemma session_sample_warnings: "session E session_sample (session_sample\<lparr>mod_warnings := 1\<rparr>)"
proof (rule session_cmd [OF session_start])
  show "v8_mdb_dcmds E V8warnings session_sample =
      Some (DCMD_OK, session_sample\<lparr>mod_warnings := 1\<rparr>, [OUT (''v8 warnings are now on'' @ NL)])"
    by (simp add: dcmd_v8warnings_def session_sample_def)
qed

lemma session_configured_once_witness:
  "\<forall>E. session E session_sample (session_sample\<lparr>mod_warnings := 1\<rparr>) \<and>
    (\<exists>f. mod_dbg (session_sample\<lparr>mod_warnings := 1\<rparr>) = (mod_dbg session_sample)
      \<lparr>v8_classes := map (\<lambda>c. c\<lparr>v8c_fields := f c\<rparr>) (v8_classes (mod_dbg session_sample))\<rparr>)"
proof -
  have "v8_classes (mod_dbg session_sample) \<noteq> []" by (simp add: session_sample_def conf_sample_def)
  from session_configured_once [OF session_sample_warnings this] session_sample_warnings show ?thesis by blast
qed

text \<open>
  C3. The heap is scanned once: in a configured module whose scan has found objects, no command
  changes the groups of objects or the functions found (but for locations that are looked up
  late). If that scan was broken off, it is never repaired: from then on every
  \<^verbatim>\<open>::findjsobjects\<close> and every \<^verbatim>\<open>::jsfunctions\<close> fails.
\<close>

theorem session_scan_once:
  assumes "session E M M'" and "v8_classes (mod_dbg M) \<noteq> []"
    and "target_ok (mod_dbg M)" and "prop_constants_ok (mod_dbg M)"
    and "fjs_initialized (mod_findjsobjects M)" and "fjs_objects (mod_findjsobjects M) \<noteq> []"
  shows "same_scan (mod_findjsobjects M) (mod_findjsobjects M') \<and>
    (\<not> fjs_finished (mod_findjsobjects M) \<longrightarrow>
      (\<forall>addr addrspec P. \<exists>M''. v8_mdb_dcmds E (Findjsobjects addr addrspec (Some P)) M' = Some (DCMD_ERR, M'', [])) \<and>
      (\<forall>addrp P. \<exists>M''. v8_mdb_dcmds E (Jsfunctions addrp (Some P)) M' = Some (DCMD_ERR, M'', [])))"
proof -
  let ?fjs = "mod_findjsobjects M"
  let ?Inv = "\<lambda>M'. same_scan ?fjs (mod_findjsobjects M') \<and> (\<exists>f. mod_dbg M' = with_fields f (mod_dbg M))"
  have scan: "scanned ?fjs" using assms(5,6) by (simp add: scanned_def)
  have "?Inv M" using with_fields_same by (metis same_scan_refl)
  moreover have "?Inv M2" if one: "?Inv M1" and step: "v8_mdb_dcmds E cmd M1 = Some (rv, M2, out)" for M1 cmd rv M2 out
  proof -
    obtain f where f: "mod_dbg M1 = with_fields f (mod_dbg M)" using one by blast
    have "scanned (mod_findjsobjects M1)" using one scan by (simp add: scanned_def same_scan_def)
    then have "same_scan (mod_findjsobjects M1) (mod_findjsobjects M2)"
      by (intro step_scan [OF step]) (use f assms(3,4) in \<open>simp_all add: with_fields_def\<close>)
    moreover obtain g where "mod_dbg M2 = with_fields g (mod_dbg M1)" using configured_step [OF step] f assms(2) by auto
    ultimately show ?thesis using same_scan_trans [of ?fjs "mod_findjsobjects M1"] one f with_fields_twice [of g f] by auto
  qed
  ultimately have same: "same_scan ?fjs (mod_findjsobjects M')" using session_invariant [OF assms(1), of ?Inv] by blast
  moreover have "\<exists>M''. v8_mdb_dcmds E (Findjsobjects addr addrspec (Some P)) M' = Some (DCMD_ERR, M'', [])"
    "\<exists>M''. v8_mdb_dcmds E (Jsfunctions addrp (Some Q)) M' = Some (DCMD_ERR, M'', [])"
    if "\<not> fjs_finished ?fjs" for addr addrspec P addrp Q
    using same scan that
    by (auto simp: same_scan_def scanned_def dcmd_findjsobjects_def dcmd_jsfunctions_def findjsobjects_run_def)
  ultimately show ?thesis by blast
qed

lemma session_scan_once_witness:
  "\<forall>E. \<exists>M''. v8_mdb_dcmds E (Findjsobjects 0 False (Some \<lparr>fo_allobjs = False, fo_brk = False, fo_constructor = None,
      fo_propkind = None, fo_listlike = False, fo_marking = False, fo_propname = None, fo_references = False,
      fo_verbose = False\<rparr>)) (session_sample\<lparr>mod_warnings := 1\<rparr>) = Some (DCMD_ERR, M'', [])"
proof -
  have "v8_classes (mod_dbg session_sample) \<noteq> []" "target_ok (mod_dbg session_sample)"
    "prop_constants_ok (mod_dbg session_sample)" "fjs_initialized (mod_findjsobjects session_sample)"
    "fjs_objects (mod_findjsobjects session_sample) \<noteq> []" "\<not> fjs_finished (mod_findjsobjects session_sample)"
    by (simp_all add: session_sample_def conf_sample_def findjsobjects_state_zero_def arrays_prop_constants)
  then show ?thesis using session_scan_once [OF session_sample_warnings] by blast
qed

end
