(* ===== verification/Spec2Isabelle.thy ===== *)
theory Spec2Isabelle
  imports StringWrite JsArray Autoconf Context FastObject Whatis Ugrep ObjType PrintValue FindCommand Walkers FindRefs Frames Module
begin

text \<open>
  A verification development for mdb_v8 (TritonDataCenter/mdb_v8), the module of the debugger
  MDB that inspects Node.js programs after the fact: given the memory of a process or of its
  core file, it finds JavaScript objects, strings, functions, stack frames and their source.

  \<^bold>\<open>The program.\<close> The module is C code under \<^verbatim>\<open>src/src\<close>. The layout of V8's heap is
  not compiled in: the module reads it from debug metadata, symbols \<^verbatim>\<open>v8dbg_*\<close> of the
  target (\<^verbatim>\<open>mdb_v8_cfg.c\<close>), and builds tables of classes, fields, types, frame types,
  constants and offsets (\<^verbatim>\<open>autoconfigure\<close> in \<^verbatim>\<open>mdb_v8.c\<close>). Everything else
  reads the target's memory through these tables: small integers, tagged pointers and typed
  objects (the \<^verbatim>\<open>read_heap_*\<close> functions), FixedArrays (\<^verbatim>\<open>mdb_v8_subr.c\<close>), arrays
  (\<^verbatim>\<open>mdb_v8_array.c\<close>), strings (\<^verbatim>\<open>mdb_v8_string.c\<close>, written into the buffers of
  \<^verbatim>\<open>mdb_v8_strbuf.c\<close>), functions, contexts and scope infos (\<^verbatim>\<open>mdb_v8_function.c\<close>),
  the object that contains an address (\<^verbatim>\<open>mdb_v8_whatis.c\<close>) and the places that hold one
  (\<^verbatim>\<open>mdb_v8_dbi.c\<close>). On these rest the commands and walkers of \<^verbatim>\<open>mdb_v8.c\<close>:
  printing values, classifying and printing stack frames, scanning the heap for objects and
  grouping them, and finding what refers to a value.
\<close>

text \<open>
  \<^bold>\<open>Theories and sources.\<close> Definitions keep the names of the functions, types and macros they
  translate; what is without a name in the code (a loop, a branch shared by two places) has a
  name of its own.

  \<^item> \<open>Prelude\<close>: machine types, little-endian words, C strings, the callback loop \<open>cb_iter\<close>,
    printing of numbers, rule collections.
  \<^item> \<open>V8Dbg\<close>, \<open>Heap\<close>, \<open>Sample\<close>: the globals and tables of the module as one record
    \<open>v8dbg\<close> with the tag macros (\<^verbatim>\<open>v8dbg.h\<close>, \<^verbatim>\<open>mdb_v8_impl.h\<close>); the reads of the
    heap, the table lookups and the legacy writer \<open>bsnprintf\<close>; a concrete memory for witnesses.
  \<^item> \<open>Sink\<close>, \<open>Strbuf\<close>: the contract of a bounded writer, a locale interpreted by both of the
    module's writers, and the string buffers of \<^verbatim>\<open>mdb_v8_strbuf.c\<close>.
  \<^item> \<open>V8String\<close>, \<open>StringWrite\<close>, \<open>JsStr\<close>, \<open>StringText\<close>: strings of the four
    representations, what writing one produces, the printer that lends the caller's buffer, and
    the text of a string as an inductive predicate on the heap.
  \<^item> \<open>FixedArray\<close>, \<open>JsArray\<close>: the chunked iteration, and arrays.
  \<^item> \<open>CfgTables\<close>, \<open>Cfg\<close>, \<open>Conf\<close>, \<open>Autoconf\<close>, \<open>Tables\<close>: the sources of metadata, the
    tables built from it, the constants and offsets of the module with the versions of V8 they
    belong to, \<open>autoconfigure\<close>, and the well-formedness of the tables.
  \<^item> \<open>JsFunction\<close>, \<open>Context\<close>: functions, scripts, code, line numbers; contexts, scope infos
    and bound functions.
  \<^item> \<open>JsObject\<close>, \<open>PropIter\<close>, \<open>FastObject\<close>: the iteration over the properties of an object
    (dictionaries, elements, descriptors, layouts), its independence of the callback, and what
    an object in fast mode means.
  \<^item> \<open>JsPrint\<close>, \<open>PrintValue\<close>: the printers of values and \<^verbatim>\<open>::jsprint\<close>; values as
    finite trees and their text.
  \<^item> \<open>ObjType\<close>: types and constructors of objects, objects printed class by class.
  \<^item> \<open>Whatis\<close>, \<open>Ugrep\<close>, \<open>FindRefs\<close>: the object at an address, the words that hold one,
    and \<^verbatim>\<open>::jsfindrefs\<close>, which joins the two.
  \<^item> \<open>FindObjects\<close>, \<open>FindGroups\<close>, \<open>FindCommand\<close>: the heap scan, the groups it leaves
    (a locale of three-way comparisons, interpreted by the three orders of the scan), and
    \<^verbatim>\<open>::findjsobjects\<close>.
  \<^item> \<open>Walkers\<close>, \<open>Frames\<close>, \<open>Commands\<close>: the three walkers (a locale of walks,
    interpreted by two of them), stack frames and source lines, and the commands on one value.
  \<^item> \<open>Module\<close>: the state of the module, the table of its commands, its start, and sessions
    of commands as an inductive relation.
\<close>

text \<open>
  \<^bold>\<open>State and effects.\<close> The build is LP64 on amd64: pointers, \<^verbatim>\<open>size_t\<close> and
  \<^verbatim>\<open>uintptr_t\<close> are 64-bit words and wrap, \<^verbatim>\<open>int\<close> and \<^verbatim>\<open>uint_t\<close> are read at
  their width where the code converts, and a signed sum that overflows has no value (\<open>c_int\<close>,
  in the line numbers of a source). A right shift is the logical one, but for the one signed
  operand (\<open>V8_SMI_VALUE_INTPTR\<close>). A function reads the record \<open>v8dbg\<close>; the few that
  change it return it. A call that may fail returns an option or an error code with a value;
  where both occur, the outer option is \<open>None\<close> for a run that C leaves undefined, a failed
  assertion, or one that does not end, and the properties say where this cannot happen.
  Pointers into a buffer are offsets, and an access outside of it has no value. A callback is
  a function on a state, which it returns; the printed text is a list of strings, or of events
  where the indentation changes. Allocation may fail as the parameter \<open>zalloc_ok\<close> says.

  \<^bold>\<open>Parameters.\<close> What is not under \<^verbatim>\<open>src\<close> is a parameter: reading memory and strings,
  the renderings of addresses, symbols, doubles and dates, symbol lookup and evaluation of MDB,
  walks of MDB, the mappings of libproc, the trees of libavl, \<^verbatim>\<open>qsort\<close> and
  \<^verbatim>\<open>strtoull\<close>. The laws that properties ask of them are named: \<open>vread_laws\<close> (memory
  is read as bytes at addresses), \<open>v8_tags_amd64\<close> and \<open>target_ok\<close> (the tag constants are
  those of V8 on amd64), \<open>prop_constants_ok\<close> (the constants of properties, and a table of types
  that ends), \<open>avl_ok\<close>, \<open>mapping_ok\<close>, \<open>pwalk_runs\<close>. Each has an instance in a witness.

  \<^bold>\<open>Termination and bounds.\<close> Loops whose end depends on the target are partial functions;
  the properties prove that they end, or where they do not. The printer of values ends by the
  depth of its arguments, the string writer by the 16 bits of depth in its flags (limit 512).
  A loop over the table of types or frame types ends at an entry with an empty name; a table that
  is full has none, and the loop then reads behind it and has no value (\<open>enum_lookup_past\<close>).
  Autoconfiguration goes through the whole table of types, so it ends in every module it
  configured (\<open>autoconfigure_types_end\<close>). Only \<open>jsfindrefs\<close> has a bound, of
  \<open>2 ^ 16\<close> levels: its depth is an unsigned short and its property is for every limit but 0.
\<close>

text \<open>
  \<^bold>\<open>Properties.\<close> Refinements: the printers write the text of the tree that a JavaScript value
  is, of a string read off the heap, and of an object in fast mode. Invariants: the tables
  built from any metadata are well-formed; the groups of the heap scan; the extents of classes;
  string buffers stay terminated; in a session the configuration and the scan happen once.
  Functional: iteration over FixedArrays, arrays, dictionaries, scope infos, contexts and bound
  arguments; what the search for references reports; the stack and the lines of source.
  Termination and liveness: writing any string, iterating any object, searching references,
  disassembling, walking frames. Round trips: \<^verbatim>\<open>::v8field\<close>; small integers are a lemma.
  Several properties state exactly where the code departs from what it means to do: an element
  lost between chunks, bytes written or read behind a buffer, canned configurations that cannot
  be loaded, a callback's result that is lost.

  \<^bold>\<open>Not modelled.\<close> Warnings (\<^verbatim>\<open>v8_warn\<close>, \<^verbatim>\<open>mdb_warn\<close>) write to the error output
  only; freeing is modelled as the decision whether a block is handed back, and leaks are noted
  as findings. Parsing of options by \<^verbatim>\<open>mdb_getopts\<close> and MDB's own check of the address
  against the usage string come before the handlers and are not part of the module. The
  functions with the suffix \<^verbatim>\<open>_help\<close> print constant texts. 32-bit builds differ in the
  tables of offsets and are left out.
\<close>

end
